(* ===== verification/Prelude.thy ===== *)
theory Prelude
  imports Complex_Main "HOL-Library.Sublist"
begin

text \<open>
  Shared vocabulary of the development: Python exceptions as a datatype, fallible code as a
  sum, generators as a list of yielded values with an ending, Python floats and JSON values,
  insertion-ordered dictionaries, and the string operations (\<open>str.replace\<close>, \<open>str.rsplit\<close>,
  \<open>str.join\<close>, \<open>str.upper\<close>) the serving code uses. Strings are byte strings: every operation
  here searches for, compares or inserts whole ASCII patterns, for which UTF-8 bytes and code
  points agree.
\<close>

section \<open>Floats and JSON values\<close>

text \<open>
  A Python float: the finite doubles are rationals; comparisons with \<open>NaN\<close> are false.
\<close>

datatype pyfloat = Fin rat | PInf | NInf | NaN

fun flt_less :: "pyfloat \<Rightarrow> pyfloat \<Rightarrow> bool" where
  "flt_less NaN y = False"
| "flt_less x NaN = False"
| "flt_less (Fin a) (Fin b) = (a < b)"
| "flt_less NInf y = (y \<noteq> NInf)"
| "flt_less x NInf = False"
| "flt_less x PInf = (x \<noteq> PInf)"
| "flt_less PInf y = False"

fun flt_abs :: "pyfloat \<Rightarrow> pyfloat" where
  "flt_abs (Fin a) = Fin \<bar>a\<bar>"
| "flt_abs PInf = PInf"
| "flt_abs NInf = PInf"
| "flt_abs NaN = NaN"

text \<open>\<open>bool(x)\<close> of a float: every value but zero is true, NaN included.\<close>

fun flt_truthy :: "pyfloat \<Rightarrow> bool" where
  "flt_truthy (Fin a) = (a \<noteq> 0)"
| "flt_truthy x = True"

datatype json =
    JNull
  | JBool bool
  | JInt int
  | JFloat pyfloat
  | JStr string
  | JList "json list"
  | JObj "(string \<times> json) list"

section \<open>Exceptions and fallible results\<close>

text \<open>
  \<open>bad_request\<close> enumerates the raise sites of \<open>BadRequestError\<close>
  (\<open>protocol/error_protocol.py\<close>); \<open>py_error\<close> the exceptions the modelled code raises or
  lets through. An exception of a foreign library is \<open>ForeignError\<close> with its text.
\<close>

datatype bad_request =
    UnsupportedFields "string list"
  | PromptTooLong int int
  | InvalidPrompt
  | SystemPromptPosition nat
  | ToolCallIdOnNonTool
  | ContentListOnNonUser
  | ToolCallsOnNonAssistant
  | ToolCallsUnsupported
  | ToolChoiceNotFunction
  | ToolChoiceManyTools
  | ToolChoiceUnknown json
  | ToolChoiceInvalid string
  | ToolTypeUnsupported

datatype validation_issue =
    PenaltyOutOfRange string
  | LogitBiasOutOfRange int
  | LogprobsOutOfRange
  | TopLogprobsOutOfRange
  | TopLogprobsWithoutLogprobs
  | StreamOptionsWithoutStream
  | SpecialRequestWithoutStream
  | SpecialRequestWithoutUsage
  | BadFinishReason string
  | SepsSize
  | BadArgumentKey
  | BadFieldType string

datatype py_error =
    BadRequestError bad_request
  | ValidationError "validation_issue list"
  | ValueError string
  | RuntimeError string
  | AssertionError
  | IndexError
  | KeyError string
  | TypeError
  | AttributeError
  | SyntaxError
  | NotImplementedError
  | FileNotFoundError string
  | GeneratorExit
  | CancelledError
  | SystemExit
  | StopAsyncIteration
  | ForeignError string

type_synonym 'a res = "py_error + 'a"

named_theorems res_simps \<open>rewrite rules of the result type\<close>

definition bindR :: "'a res \<Rightarrow> ('a \<Rightarrow> 'b res) \<Rightarrow> 'b res" where
  "bindR m f = (case m of Inl e \<Rightarrow> Inl e | Inr x \<Rightarrow> f x)"

definition assertR :: "bool \<Rightarrow> py_error \<Rightarrow> unit res" where
  "assertR b e = (if b then Inr () else Inl e)"

fun mapR :: "('a \<Rightarrow> 'b res) \<Rightarrow> 'a list \<Rightarrow> 'b list res" where
  "mapR f [] = Inr []"
| "mapR f (x # xs) = bindR (f x) (\<lambda>y. bindR (mapR f xs) (\<lambda>ys. Inr (y # ys)))"

fun foldR :: "('s \<Rightarrow> 'a \<Rightarrow> 's res) \<Rightarrow> 's \<Rightarrow> 'a list \<Rightarrow> 's res" where
  "foldR f s [] = Inr s"
| "foldR f s (x # xs) = bindR (f s x) (\<lambda>s'. foldR f s' xs)"

lemma bindR_simps [simp, res_simps]:
  "bindR (Inl e) f = Inl e"
  "bindR (Inr x) f = f x"
  by (simp_all add: bindR_def)

lemma bindR_eq_Inr_iff [res_simps]:
  "bindR m f = Inr y \<longleftrightarrow> (\<exists>x. m = Inr x \<and> f x = Inr y)"
  by (cases m) auto

lemma bindR_eq_Inl_iff [res_simps]:
  "bindR m f = Inl e \<longleftrightarrow> m = Inl e \<or> (\<exists>x. m = Inr x \<and> f x = Inl e)"
  by (cases m) auto

lemma bindR_assoc: "bindR (bindR m f) g = bindR m (\<lambda>x. bindR (f x) g)"
  by (cases m) auto

lemma bindR_return [simp]: "bindR m Inr = m"
  by (cases m) auto

lemma assertR_simps [simp, res_simps]:
  "assertR True e = Inr ()"
  "assertR False e = Inl e"
  by (simp_all add: assertR_def)

lemma assertR_eq_iff [res_simps]:
  "assertR b e = Inr u \<longleftrightarrow> b"
  "assertR b e = Inl e' \<longleftrightarrow> \<not> b \<and> e' = e"
  by (auto simp: assertR_def)

lemma foldR_append:
  "foldR f s (xs @ ys) = bindR (foldR f s xs) (\<lambda>s'. foldR f s' ys)"
  by (induction xs arbitrary: s) (auto simp: bindR_assoc)

lemma foldR_invariant:
  assumes "foldR f s xs = Inr s'" and "P s"
    and "\<And>s x s'. P s \<Longrightarrow> x \<in> set xs \<Longrightarrow> f s x = Inr s' \<Longrightarrow> P s'"
  shows "P s'"
  using assms
proof (induction xs arbitrary: s)
  case Nil
  then show ?case by simp
next
  case (Cons x xs)
  from Cons.prems(1) obtain s1 where s1: "f s x = Inr s1" "foldR f s1 xs = Inr s'"
    by (auto simp: res_simps)
  have "P s1" using Cons.prems(2,3) s1(1) by auto
  with s1(2) Cons.prems(3) show ?case by (intro Cons.IH) auto
qed

lemma mapR_length: "mapR f xs = Inr ys \<Longrightarrow> length ys = length xs"
  by (induction xs arbitrary: ys) (auto simp: res_simps)

lemma mapR_nth:
  "mapR f xs = Inr ys \<Longrightarrow> i < length xs \<Longrightarrow> f (xs ! i) = Inr (ys ! i)"
proof (induction xs arbitrary: ys i)
  case Nil
  then show ?case by simp
next
  case (Cons x xs)
  then show ?case by (cases i) (auto simp: res_simps)
qed

lemma mapR_Inr: "mapR (\<lambda>x. Inr (g x)) xs = Inr (map g xs)"
  by (induction xs) auto

lemma mapR_cong_Inr:
  "(\<And>x. x \<in> set xs \<Longrightarrow> f x = Inr (g x)) \<Longrightarrow> mapR f xs = Inr (map g xs)"
  by (induction xs) auto

lemma mapR_cong [fundef_cong]:
  "xs = ys \<Longrightarrow> (\<And>x. x \<in> set ys \<Longrightarrow> f x = g x) \<Longrightarrow> mapR f xs = mapR g ys"
proof (induction xs arbitrary: ys)
  case Nil
  then show ?case by auto
next
  case (Cons x xs)
  then show ?case by (cases ys) auto
qed

lemma mapR_map: "mapR f (map g xs) = mapR (\<lambda>x. f (g x)) xs"
  by (induction xs) auto

lemma enumerate_memD: "(i, x) \<in> set (enumerate n xs) \<Longrightarrow> x \<in> set xs"
  by (auto simp: enumerate_eq_zip dest: set_zip_rightD)

lemma enumerate_fst_less: "x \<in> set (enumerate 0 xs) \<Longrightarrow> fst x < length xs"
  by (cases x) (auto simp: in_set_enumerate_eq)

lemma ball_enumerate:
  "(\<forall>x \<in> set (enumerate 0 xs). P x) \<longleftrightarrow> (\<forall>i < length xs. P (i, xs ! i))"
  by (simp add: all_set_conv_all_nth nth_enumerate_eq)

text \<open>Out-of-range reads of a Python list, with the index already non-negative.\<close>

definition indexR :: "'a list \<Rightarrow> nat \<Rightarrow> 'a res" where
  "indexR xs i = (if i < length xs then Inr (xs ! i) else Inl IndexError)"

definition updateR :: "'a list \<Rightarrow> nat \<Rightarrow> 'a \<Rightarrow> 'a list res" where
  "updateR xs i v = (if i < length xs then Inr (xs[i := v]) else Inl IndexError)"

lemma indexR_in_range [simp]: "i < length xs \<Longrightarrow> indexR xs i = Inr (xs ! i)"
  by (simp add: indexR_def)

lemma updateR_in_range [simp]: "i < length xs \<Longrightarrow> updateR xs i v = Inr (xs[i := v])"
  by (simp add: updateR_def)

lemma indexR_eq_iff [res_simps]:
  "indexR xs i = Inr y \<longleftrightarrow> i < length xs \<and> y = xs ! i"
  "indexR xs i = Inl e \<longleftrightarrow> \<not> i < length xs \<and> e = IndexError"
  by (auto simp: indexR_def)

lemma updateR_eq_iff [res_simps]:
  "updateR xs i v = Inr ys \<longleftrightarrow> i < length xs \<and> ys = xs[i := v]"
  "updateR xs i v = Inl e \<longleftrightarrow> \<not> i < length xs \<and> e = IndexError"
  by (auto simp: updateR_def)

lemma set_list_updateD: "y \<in> set (xs[i := v]) \<Longrightarrow> y = v \<or> y \<in> set xs"
  using set_update_subset_insert [of xs i v] by auto

section \<open>Generators\<close>

text \<open>
  A (sync or async) generator that is run to its end is the list of the values it yielded and
  the way it ended: it returned, it raised, or it waits for an item no producer has delivered.
\<close>

datatype gen_end = Returned | Raised py_error | Blocked

type_synonym 'a gen = "'a list \<times> gen_end"

section \<open>Life cycles\<close>

text \<open>
  The contract of a \<open>terminate\<close> method: it may be called at any time and any number of times
  (by the client, by a deleter, at the end of a scope).
\<close>

locale shutdown =
  fixes stop :: "'s \<Rightarrow> 's" and is_down :: "'s \<Rightarrow> bool"
  assumes stop_down: "is_down (stop s)"
    and stop_again: "is_down s \<Longrightarrow> stop s = s"
begin

lemma stop_idem: "stop (stop s) = stop s"
  by (rule stop_again [OF stop_down])

lemma stop_often: "(stop ^^ Suc n) s = stop s"
  by (induction n) (simp_all add: stop_idem)

end

section \<open>Dictionaries\<close>

text \<open>
  A Python dict keeps insertion order: an association list with distinct keys, read by
  \<^const>\<open>map_of\<close>. Assignment to a key that exists keeps its position.
\<close>

type_synonym 'v dict = "(string \<times> 'v) list"

definition dict_get :: "('k \<times> 'v) list \<Rightarrow> 'k \<Rightarrow> 'v option" where
  "dict_get d k = map_of d k"

fun dict_set :: "('k \<times> 'v) list \<Rightarrow> 'k \<Rightarrow> 'v \<Rightarrow> ('k \<times> 'v) list" where
  "dict_set [] k v = [(k, v)]"
| "dict_set ((a, b) # d) k v = (if a = k then (a, v) # d else (a, b) # dict_set d k v)"

definition dict_pop :: "('k \<times> 'v) list \<Rightarrow> 'k \<Rightarrow> ('k \<times> 'v) list" where
  "dict_pop d k = filter (\<lambda>p. fst p \<noteq> k) d"

definition dict_update :: "('k \<times> 'v) list \<Rightarrow> ('k \<times> 'v) list \<Rightarrow> ('k \<times> 'v) list" where
  "dict_update d e = foldl (\<lambda>m (k, v). dict_set m k v) d e"

definition dict_ok :: "('k \<times> 'v) list \<Rightarrow> bool" where
  "dict_ok d = distinct (map fst d)"

definition dict_item :: "'v dict \<Rightarrow> string \<Rightarrow> 'v res" where
  "dict_item d k = (case dict_get d k of None \<Rightarrow> Inl (KeyError k) | Some v \<Rightarrow> Inr v)"

text \<open>\<open>v[k]\<close> with a string key, and \<open>len(v)\<close>, of a decoded JSON value.\<close>

definition json_item :: "json \<Rightarrow> string \<Rightarrow> json res" where
  "json_item v k = (case v of JObj d \<Rightarrow> dict_item d k | _ \<Rightarrow> Inl TypeError)"

definition json_len :: "json \<Rightarrow> nat res" where
  "json_len v =
     (case v of
        JStr s \<Rightarrow> Inr (length s)
      | JList xs \<Rightarrow> Inr (length xs)
      | JObj d \<Rightarrow> Inr (length d)
      | _ \<Rightarrow> Inl TypeError)"

lemma dict_get_Nil [simp]: "dict_get [] k = None"
  by (simp add: dict_get_def)

lemma dict_get_Cons [simp]:
  "dict_get ((a, b) # d) k = (if a = k then Some b else dict_get d k)"
  by (simp add: dict_get_def)

lemma dict_item_eq_iff [res_simps]:
  "dict_item d k = Inr v \<longleftrightarrow> dict_get d k = Some v"
  "dict_item d k = Inl e \<longleftrightarrow> dict_get d k = None \<and> e = KeyError k"
  by (auto simp: dict_item_def split: option.splits)

lemma dict_get_None_iff: "dict_get d k = None \<longleftrightarrow> k \<notin> fst ` set d"
  by (simp add: dict_get_def map_of_eq_None_iff)

lemma dict_get_set [simp]:
  "dict_get (dict_set d k v) k' = (if k' = k then Some v else dict_get d k')"
  by (induction d k v rule: dict_set.induct) auto

lemma dict_get_pop [simp]:
  "dict_get (dict_pop d k) k' = (if k' = k then None else dict_get d k')"
  by (induction d) (auto simp: dict_pop_def)

lemma dict_keys_set: "fst ` set (dict_set d k v) = insert k (fst ` set d)"
  by (induction d k v rule: dict_set.induct) auto

lemma dict_set_present: "k \<in> fst ` set d \<Longrightarrow> map fst (dict_set d k v) = map fst d"
  by (induction d k v rule: dict_set.induct) auto

lemma dict_keys_pop: "fst ` set (dict_pop d k) = fst ` set d - {k}"
  by (auto simp: dict_pop_def)

lemma dict_ok_set: "dict_ok d \<Longrightarrow> dict_ok (dict_set d k v)"
  by (induction d k v rule: dict_set.induct)
     (auto simp: dict_ok_def, metis dict_keys_set image_eqI insert_iff fst_conv)

lemma dict_ok_pop: "dict_ok d \<Longrightarrow> dict_ok (dict_pop d k)"
  by (induction d) (auto simp: dict_ok_def dict_pop_def)

lemma dict_get_update:
  "dict_get (dict_update d e) k =
     (case dict_get (rev e) k of None \<Rightarrow> dict_get d k | Some v \<Rightarrow> Some v)"
proof (induction e arbitrary: d rule: rev_induct)
  case Nil
  then show ?case by (simp add: dict_update_def)
next
  case (snoc p e)
  then show ?case by (cases p) (auto simp: dict_update_def)
qed

section \<open>Strings\<close>

text \<open>
  \<open>str.replace(old, new)\<close>: occurrences are found from the left and do not overlap. The
  patterns of the program are never empty; for an empty pattern this model returns its input.
\<close>

function str_replace :: "string \<Rightarrow> string \<Rightarrow> string \<Rightarrow> string" where
  "str_replace old new s =
     (if old = [] then s
      else case s of
        [] \<Rightarrow> []
      | c # cs \<Rightarrow>
          if prefix old s then new @ str_replace old new (drop (length old) s)
          else c # str_replace old new cs)"
  by pat_completeness auto
termination
  by (relation "measure (\<lambda>(old, new, s). length s)") (auto split: list.splits)

declare str_replace.simps [simp del]

text \<open>\<open>s.rsplit(sep, 1)\<close>: cut at the last occurrence of a non-empty separator.\<close>

fun last_occ :: "string \<Rightarrow> string \<Rightarrow> nat option" where
  "last_occ sep [] = None"
| "last_occ sep (c # cs) =
     (case last_occ sep cs of
        Some i \<Rightarrow> Some (Suc i)
      | None \<Rightarrow> if prefix sep (c # cs) then Some 0 else None)"

definition rsplit1 :: "string \<Rightarrow> string \<Rightarrow> string list" where
  "rsplit1 sep s =
     (case last_occ sep s of
        None \<Rightarrow> [s]
      | Some i \<Rightarrow> [take i s, drop (i + length sep) s])"

fun str_join :: "string \<Rightarrow> string list \<Rightarrow> string" where
  "str_join sep [] = []"
| "str_join sep [x] = x"
| "str_join sep (x # y # xs) = x @ sep @ str_join sep (y # xs)"

definition char_upper :: "char \<Rightarrow> char" where
  "char_upper c =
     (if 97 \<le> (of_char c :: nat) \<and> (of_char c :: nat) \<le> 122
      then char_of ((of_char c :: nat) - 32) else c)"

definition str_upper :: "string \<Rightarrow> string" where
  "str_upper s = map char_upper s"

text \<open>\<open>s.split(sep)\<close> for a one-character separator.\<close>

fun str_split :: "char \<Rightarrow> string \<Rightarrow> string list" where
  "str_split c [] = [[]]"
| "str_split c (x # xs) =
     (if x = c then [] # str_split c xs
      else case str_split c xs of [] \<Rightarrow> [[x]] | w # ws \<Rightarrow> (x # w) # ws)"

text \<open>\<open>s.strip()\<close> and \<open>str(i)\<close>.\<close>

definition is_space :: "char \<Rightarrow> bool" where
  "is_space c \<longleftrightarrow> c \<in> {CHR '' '', CHR 0x09, CHR 0x0A, CHR 0x0B, CHR 0x0C, CHR 0x0D}"

definition str_strip :: "string \<Rightarrow> string" where
  "str_strip s = rev (dropWhile is_space (rev (dropWhile is_space s)))"

fun nat_digits :: "nat \<Rightarrow> string" where
  "nat_digits n =
     (if n < 10 then [char_of (48 + n)] else nat_digits (n div 10) @ [char_of (48 + n mod 10)])"

declare nat_digits.simps [simp del]

definition int_str :: "int \<Rightarrow> string" where
  "int_str i = (if i < 0 then ''-'' @ nat_digits (nat (- i)) else nat_digits (nat i))"

definition char_lower :: "char \<Rightarrow> char" where
  "char_lower c =
     (if 65 \<le> (of_char c :: nat) \<and> (of_char c :: nat) \<le> 90
      then char_of ((of_char c :: nat) + 32) else c)"

definition str_lower :: "string \<Rightarrow> string" where
  "str_lower s = map char_lower s"

lemma sublist_ConsI: "sublist p xs \<Longrightarrow> sublist p (x # xs)"
  by (simp add: sublist_Cons_right)

lemma str_replace_absent: "\<not> sublist old s \<Longrightarrow> str_replace old new s = s"
proof (induction s)
  case Nil
  then show ?case by (simp add: str_replace.simps)
next
  case (Cons c cs)
  have "\<not> prefix old (c # cs)" using Cons.prems prefix_imp_sublist by blast
  moreover have "\<not> sublist old cs" using Cons.prems by (simp add: sublist_Cons_right)
  ultimately show ?case using Cons.IH by (simp add: str_replace.simps [of old new "c # cs"])
qed

text \<open>
  The leftmost occurrence is replaced: when \<open>old\<close> does not occur in \<open>pre @ butlast old\<close>, the
  first match of \<open>pre @ old @ post\<close> is the one after \<open>pre\<close>.
\<close>

lemma str_replace_leftmost:
  assumes "old \<noteq> []" and "\<not> sublist old (pre @ butlast old)"
  shows "str_replace old new (pre @ old @ post) = pre @ new @ str_replace old new post"
  using assms(2)
proof (induction pre)
  case Nil
  then show ?case using assms(1) by (cases old) (subst str_replace.simps, simp)+
next
  case (Cons c pre)
  have nosub: "\<not> sublist old (pre @ butlast old)"
    using Cons.prems by (simp add: sublist_Cons_right)
  have "\<not> prefix old (c # pre @ old @ post)"
  proof
    assume "prefix old (c # pre @ old @ post)"
    moreover have "prefix (c # pre @ butlast old) (c # pre @ old @ post)"
      using assms(1) by (simp add: prefix_def) (metis append_butlast_last_id append_assoc)
    moreover have "length old \<le> length (c # pre @ butlast old)"
      using assms(1) by simp
    ultimately have "prefix old (c # pre @ butlast old)"
      by (rule prefix_length_prefix)
    then show False using Cons.prems prefix_imp_sublist by fastforce
  qed
  then show ?case using Cons.IH [OF nosub] assms(1)
    by (simp add: str_replace.simps [of old new "c # pre @ old @ post"])
qed

lemma last_occ_None_iff: "old \<noteq> [] \<Longrightarrow> last_occ old s = None \<longleftrightarrow> \<not> sublist old s"
proof (induction s)
  case Nil
  then show ?case by simp
next
  case (Cons c cs)
  then show ?case
    by (auto split: option.splits simp: sublist_Cons_right)
qed

lemma last_occ_Some:
  "last_occ old s = Some i \<Longrightarrow> i \<le> length s \<and> prefix old (drop i s)"
proof (induction s arbitrary: i)
  case Nil
  then show ?case by simp
next
  case (Cons c cs)
  then show ?case by (auto split: option.splits if_splits)
qed

lemma last_occ_append:
  assumes "old \<noteq> []" and "\<not> sublist old (tl (old @ b))"
  shows "last_occ old (a @ old @ b) = Some (length a)"
proof (induction a)
  case Nil
  obtain c cs where old: "old = c # cs" using assms(1) by (cases old) auto
  have "last_occ old (cs @ b) = None"
    using assms last_occ_None_iff [OF assms(1), of "cs @ b"] by (simp add: old)
  then show ?case by (simp add: old)
next
  case (Cons x a)
  then show ?case by simp
qed

lemma rsplit1_last:
  assumes "old \<noteq> []" and "\<not> sublist old (tl (old @ b))"
  shows "rsplit1 old (a @ old @ b) = [a, b]"
  using last_occ_append [OF assms, of a] by (simp add: rsplit1_def)

lemma rsplit1_absent: "old \<noteq> [] \<Longrightarrow> \<not> sublist old s \<Longrightarrow> rsplit1 old s = [s]"
  using last_occ_None_iff [of old s] by (simp add: rsplit1_def)

text \<open>Splitting once from the right and joining with the same separator is the identity.\<close>

lemma str_join_rsplit1: "str_join old (rsplit1 old s) = s"
proof (cases "last_occ old s")
  case None
  then show ?thesis by (simp add: rsplit1_def)
next
  case (Some i)
  from last_occ_Some [OF this] obtain zs where zs: "drop i s = old @ zs"
    by (auto simp: prefix_def)
  have "drop (i + length old) s = drop (length old) (drop i s)"
    by (simp add: add.commute)
  also have "\<dots> = zs" by (simp add: zs)
  finally have "drop (i + length old) s = zs" .
  moreover have "take i s @ old @ zs = s"
    using append_take_drop_id [of i s] by (simp only: zs)
  ultimately show ?thesis using Some by (simp add: rsplit1_def)
qed

end
