(* ===== verification/Serve_Data.thy ===== *)
theory Serve_Data
  imports Prelude
begin

text \<open>
  \<open>serve/data.py\<close>: the multi-modal inputs of a request, the loading of an image from a URL,
  and the unpacking of the delta outputs the native engine streams back. The image payload is
  a type parameter \<open>'img\<close>; base64 decoding, HTTP and image parsing are foreign functions and
  arguments of the definitions that call them.
\<close>

section \<open>Input data\<close>

datatype 'img data =
    TextData string
  | TokenData "int list"
  | ImageData 'img int

text \<open>The pieces of a prompt: strings and images (\<open>Union[str, data.Data]\<close>).\<close>

datatype 'img prompt_item =
    PStr string
  | PImg 'img int

record 'img image_io =
  open_base64 :: "string \<Rightarrow> 'img res"
  open_http :: "string \<Rightarrow> 'img res"

definition image_embed_size :: "json dict \<Rightarrow> int res" where
  "image_embed_size config =
     bindR (dict_item config ''model_type'')
       (\<lambda>ty. Inr (if ty = JStr ''phi3_v'' then 1921 else 576))"

definition from_url :: "'img image_io \<Rightarrow> string \<Rightarrow> json dict \<Rightarrow> 'img prompt_item res" where
  "from_url io url config =
     bindR
       (if prefix ''data:image'' url then
          bindR (indexR (str_split (CHR '','') url) 1) (open_base64 io)
        else if prefix ''http'' url then open_http io url
        else Inl (ValueError ''Unsupported image URL format''))
       (\<lambda>img. bindR (image_embed_size config) (\<lambda>sz. Inr (PImg img sz)))"

section \<open>Stream outputs of the native engine\<close>

record single_request_stream_output =
  so_delta_token_ids :: "int list"
  so_delta_logprob_json_strs :: "string list option"
  so_finish_reason :: "string option"
  so_request_final_usage_json_str :: "string option"
  so_extra_prefix_string :: string

text \<open>
  The tuple \<open>RequestStreamOutputUnpack\<close> returns, field by field: one entry per parallel
  generation in the group fields.
\<close>

record request_stream_output =
  rso_request_id :: string
  rso_delta_token_ids :: "int list list"
  rso_delta_logprob_json_strs :: "string list list option"
  rso_finish_reason :: "string option list"
  rso_request_final_usage_json_str :: "string option"
  rso_extra_prefix_string :: "string list"

definition unpack_one ::
    "string list list option \<Rightarrow> nat \<times> int list \<times> string option \<times> string \<Rightarrow>
     single_request_stream_output res" where
  "unpack_one logprobs x =
     (case x of (i, ids, fr, pre) \<Rightarrow>
       bindR (case logprobs of
                None \<Rightarrow> Inr None
              | Some lp \<Rightarrow> bindR (indexR lp i) (\<lambda>l. Inr (Some l)))
         (\<lambda>lps. Inr \<lparr>so_delta_token_ids = ids, so_delta_logprob_json_strs = lps,
                  so_finish_reason = fr, so_request_final_usage_json_str = None,
                  so_extra_prefix_string = pre\<rparr>))"

definition unpack ::
    "request_stream_output \<Rightarrow> (string \<times> single_request_stream_output list) res" where
  "unpack r =
     (case rso_request_final_usage_json_str r of
        Some u \<Rightarrow>
          Inr (rso_request_id r,
               [\<lparr>so_delta_token_ids = [], so_delta_logprob_json_strs = None,
                 so_finish_reason = None, so_request_final_usage_json_str = Some u,
                 so_extra_prefix_string = []\<rparr>])
      | None \<Rightarrow>
          bindR (mapR (unpack_one (rso_delta_logprob_json_strs r))
                  (enumerate 0 (zip (rso_delta_token_ids r)
                     (zip (rso_finish_reason r) (rso_extra_prefix_string r)))))
            (\<lambda>outs. Inr (rso_request_id r, outs)))"

text \<open>
  A group output is well formed when its group fields have one entry per generation; the
  native engine builds it so (\<open>n\<close> the number of parallel generations).
\<close>

definition rso_ok :: "nat \<Rightarrow> request_stream_output \<Rightarrow> bool" where
  "rso_ok n r \<longleftrightarrow>
     length (rso_delta_token_ids r) = n \<and> length (rso_finish_reason r) = n \<and>
     length (rso_extra_prefix_string r) = n \<and>
     (case rso_delta_logprob_json_strs r of None \<Rightarrow> True | Some l \<Rightarrow> length l = n)"

lemma unpack_one_in_range:
  assumes "case logprobs of None \<Rightarrow> True | Some l \<Rightarrow> i < length l"
  shows "unpack_one logprobs (i, ids, fr, pre) =
     Inr \<lparr>so_delta_token_ids = ids,
          so_delta_logprob_json_strs = map_option (\<lambda>l. l ! i) logprobs,
          so_finish_reason = fr, so_request_final_usage_json_str = None,
          so_extra_prefix_string = pre\<rparr>"
  using assms by (simp add: unpack_one_def split: option.splits)

lemma unpack_ok:
  assumes ok: "rso_ok n r" and nf: "rso_request_final_usage_json_str r = None"
  shows "\<exists>outs. unpack r = Inr (rso_request_id r, outs) \<and> length outs = n \<and>
     (\<forall>i < n. outs ! i =
        \<lparr>so_delta_token_ids = rso_delta_token_ids r ! i,
         so_delta_logprob_json_strs = map_option (\<lambda>l. l ! i) (rso_delta_logprob_json_strs r),
         so_finish_reason = rso_finish_reason r ! i, so_request_final_usage_json_str = None,
         so_extra_prefix_string = rso_extra_prefix_string r ! i\<rparr>)"
proof -
  let ?xs = "enumerate 0 (zip (rso_delta_token_ids r)
      (zip (rso_finish_reason r) (rso_extra_prefix_string r)))"
  let ?g = "\<lambda>(i, ids, fr, pre).
      \<lparr>so_delta_token_ids = ids,
       so_delta_logprob_json_strs = map_option (\<lambda>l. l ! i) (rso_delta_logprob_json_strs r),
       so_finish_reason = fr, so_request_final_usage_json_str = None,
       so_extra_prefix_string = pre\<rparr>"
  have len: "length ?xs = n" using ok by (simp add: rso_ok_def)
  have "unpack_one (rso_delta_logprob_json_strs r) x = Inr (?g x)" if "x \<in> set ?xs" for x
  proof -
    obtain i ids fr pre where x: "x = (i, ids, fr, pre)" by (cases x) auto
    have "i < n" using that len by (auto simp: x in_set_conv_nth nth_enumerate_eq)
    then show ?thesis using ok by (auto simp: x rso_ok_def unpack_one_in_range split: option.splits)
  qed
  then have "mapR (unpack_one (rso_delta_logprob_json_strs r)) ?xs = Inr (map ?g ?xs)"
    by (rule mapR_cong_Inr)
  then have "unpack r = Inr (rso_request_id r, map ?g ?xs)" by (simp add: unpack_def nf)
  moreover have "map ?g ?xs ! i = ?g (i, rso_delta_token_ids r ! i, rso_finish_reason r ! i,
      rso_extra_prefix_string r ! i)" if "i < n" for i
    using that ok len by (simp add: rso_ok_def nth_enumerate_eq)
  ultimately show ?thesis using len by simp
qed

end
