(* ===== verification/Conversation.thy ===== *)
theory Conversation
  imports Serve_Data
begin

text \<open>
  \<open>protocol/conversation_protocol.py\<close>: the conversation template, its constructor checks and
  the rendering of the message history into a prompt (\<open>as_prompt\<close>), and the template registry
  of \<open>conversation_template/registry.py\<close>. The lemmas characterise the prompt of a text-only
  conversation and the merging of consecutive strings.
\<close>

section \<open>The template\<close>

definition ph_system :: string where "ph_system = ''{system_message}''"
definition ph_user :: string where "ph_user = ''{user_message}''"
definition ph_assistant :: string where "ph_assistant = ''{assistant_message}''"
definition ph_tool :: string where "ph_tool = ''{tool_message}''"
definition ph_function :: string where "ph_function = ''{function_string}''"

text \<open>\<open>MessagePlaceholders[name].value\<close>; an unknown member name is a \<open>KeyError\<close>.\<close>

definition message_placeholder :: "string \<Rightarrow> string res" where
  "message_placeholder name =
     (if name = ''SYSTEM'' then Inr ph_system
      else if name = ''USER'' then Inr ph_user
      else if name = ''ASSISTANT'' then Inr ph_assistant
      else if name = ''TOOL'' then Inr ph_tool
      else if name = ''FUNCTION'' then Inr ph_function
      else Inl (KeyError name))"

datatype content = Text string | Parts "json dict list"

type_synonym message = "string \<times> content option"

record conversation =
  cv_name :: "string option"
  system_template :: string
  system_message :: string
  system_prefix_token_ids :: "int list option"
  add_role_after_system_message :: bool
  roles :: "string dict"
  role_templates :: "string dict"
  messages :: "message list"
  seps :: "string list"
  role_content_sep :: string
  role_empty_sep :: string
  stop_str :: "string list"
  stop_token_ids :: "int list"
  function_string :: string
  use_function_calling :: bool

definition default_role_templates :: "string dict" where
  "default_role_templates =
     [(''user'', ph_user), (''assistant'', ph_assistant), (''tool'', ph_tool)]"

definition conversation_defaults :: "string dict \<Rightarrow> string list \<Rightarrow> conversation" where
  "conversation_defaults rs ss =
     \<lparr>cv_name = None, system_template = ph_system, system_message = [],
      system_prefix_token_ids = None, add_role_after_system_message = True,
      roles = rs, role_templates = default_role_templates, messages = [], seps = ss,
      role_content_sep = [], role_empty_sep = [], stop_str = [], stop_token_ids = [],
      function_string = [], use_function_calling = False\<rparr>"

definition check_message_seps :: "string list \<Rightarrow> string list res" where
  "check_message_seps ss =
     (if length ss = 0 \<or> length ss > 2 then Inl (ValidationError [SepsSize]) else Inr ss)"

text \<open>
  \<open>Conversation.__init__\<close>: the model-specific role templates override the defaults, then the
  fields are validated.
\<close>

definition conversation_init :: "string dict option \<Rightarrow> conversation \<Rightarrow> conversation res" where
  "conversation_init templates cv =
     bindR (check_message_seps (seps cv))
       (\<lambda>ss. Inr (cv\<lparr>seps := ss,
          role_templates :=
            (case templates of
               None \<Rightarrow> default_role_templates
             | Some ts \<Rightarrow> dict_update default_role_templates ts)\<rparr>))"

section \<open>Rendering\<close>

text \<open>\<open>_combine_consecutive_messages\<close>: one pass that extends or appends to the last element.\<close>

definition combine_step :: "'img prompt_item list \<Rightarrow> 'img prompt_item \<Rightarrow> 'img prompt_item list" where
  "combine_step acc m =
     (case m of
        PStr s \<Rightarrow>
          (case last acc of
             PStr t \<Rightarrow> butlast acc @ [PStr (t @ s)]
           | PImg _ _ \<Rightarrow> acc @ [m])
      | PImg _ _ \<Rightarrow> acc @ [m])"

fun combine_consecutive_messages :: "'img prompt_item list \<Rightarrow> 'img prompt_item list" where
  "combine_consecutive_messages [] = []"
| "combine_consecutive_messages (m # ms) = foldl combine_step [m] ms"

definition get_url_from_item :: "json dict \<Rightarrow> json res" where
  "get_url_from_item item =
     (case dict_get item ''image_url'' of
        None \<Rightarrow> Inl AssertionError
      | Some (JStr s) \<Rightarrow> Inr (JStr s)
      | Some (JObj d) \<Rightarrow>
          (case dict_get d ''url'' of None \<Rightarrow> Inl AssertionError | Some v \<Rightarrow> Inr v)
      | Some _ \<Rightarrow> Inl (ValueError ''Content image_url item type not supported''))"

text \<open>\<open>role_templates[role].replace(MessagePlaceholders[role.upper()].value, text)\<close>.\<close>

definition template_of :: "conversation \<Rightarrow> string \<Rightarrow> (string \<times> string) res" where
  "template_of cv role =
     bindR (dict_item (role_templates cv) role)
       (\<lambda>t. bindR (message_placeholder (str_upper role)) (\<lambda>ph. Inr (t, ph)))"

definition render_text :: "conversation \<Rightarrow> string \<Rightarrow> string \<Rightarrow> string res" where
  "render_text cv role txt =
     bindR (template_of cv role) (\<lambda>(t, ph). Inr (str_replace ph txt t))"

definition render_item ::
    "'img image_io \<Rightarrow> json dict option \<Rightarrow> conversation \<Rightarrow> string \<Rightarrow> json dict \<Rightarrow>
     'img prompt_item list res" where
  "render_item io config cv role item =
     (case dict_get item ''type'' of
        None \<Rightarrow> Inl AssertionError
      | Some ty \<Rightarrow>
          if ty = JStr ''text'' then
            bindR (template_of cv role) (\<lambda>(t, ph).
              bindR (dict_item item ''text'') (\<lambda>v.
                case v of
                  JStr txt \<Rightarrow> Inr [PStr (str_replace ph txt t)]
                | _ \<Rightarrow> Inl TypeError))
          else if ty = JStr ''image_url'' then
            (case config of
               None \<Rightarrow> Inl AssertionError
             | Some cfg \<Rightarrow>
                 bindR (get_url_from_item item) (\<lambda>v.
                   case v of
                     JStr url \<Rightarrow>
                       bindR (from_url io url cfg) (\<lambda>img. Inr [img, PStr ''\<newline>''])
                   | _ \<Rightarrow> Inl AttributeError))
          else Inl (ValueError ''Unsupported content type''))"

text \<open>One iteration of the loop over the messages: the pieces appended for message \<open>i\<close>.\<close>

definition render_message ::
    "'img image_io \<Rightarrow> json dict option \<Rightarrow> conversation \<Rightarrow> string list \<Rightarrow> string \<Rightarrow>
     nat \<times> message \<Rightarrow> 'img prompt_item list res" where
  "render_message io config cv separators system_msg m =
     (case m of (i, role, content) \<Rightarrow>
       case dict_get (roles cv) role of
         None \<Rightarrow> Inl (ValueError ''Role is not a supported role'')
       | Some role_str \<Rightarrow>
           bindR (indexR separators (if role = ''assistant'' then 1 else 0)) (\<lambda>separator.
             let role_prefix =
               (if \<not> add_role_after_system_message cv \<and> system_msg \<noteq> [] \<and> i = 0 then []
                else role_str @ role_content_sep cv)
             in case content of
                  None \<Rightarrow> Inr [PStr (role_str @ role_empty_sep cv)]
                | Some (Text txt) \<Rightarrow>
                    bindR (render_text cv role txt)
                      (\<lambda>t. Inr [PStr (role_prefix @ t @ separator)])
                | Some (Parts items) \<Rightarrow>
                    bindR (mapR (render_item io config cv role) items)
                      (\<lambda>ps. Inr (PStr role_prefix # concat ps @ [PStr separator]))))"

definition is_image :: "'img prompt_item \<Rightarrow> bool" where
  "is_image p = (case p of PImg _ _ \<Rightarrow> True | PStr _ \<Rightarrow> False)"

definition fill_function :: "string \<Rightarrow> string \<Rightarrow> string" where
  "fill_function fs p = str_replace ph_function [] (str_join fs (rsplit1 ph_function p))"

definition fill_first :: "string \<Rightarrow> 'img prompt_item list \<Rightarrow> 'img prompt_item list res" where
  "fill_first fs prompt =
     (case prompt of
        [] \<Rightarrow> Inl IndexError
      | PStr p # rest \<Rightarrow> Inr (PStr (fill_function fs p) # rest)
      | PImg _ _ # _ \<Rightarrow> Inl AttributeError)"

definition system_text :: "conversation \<Rightarrow> string" where
  "system_text cv = str_replace ph_system (system_message cv) (system_template cv)"

definition two_seps :: "string list \<Rightarrow> string list" where
  "two_seps ss = (if length ss = 1 then ss @ [ss ! 0] else ss)"

definition as_prompt ::
    "'img image_io \<Rightarrow> json dict option \<Rightarrow> conversation \<Rightarrow> 'img prompt_item list res" where
  "as_prompt io config cv =
     (let system_msg = system_text cv; separators = two_seps (seps cv) in
      bindR (mapR (render_message io config cv separators system_msg)
               (enumerate 0 (messages cv)))
        (\<lambda>ps. let message_list = (if system_msg \<noteq> [] then [PStr system_msg] else []) @ concat ps;
                  prompt = combine_consecutive_messages message_list
              in if \<not> list_ex is_image message_list
                 then fill_first (function_string cv) prompt
                 else Inr prompt))"

section \<open>The template registry\<close>

definition register_conv_template ::
    "conversation dict \<Rightarrow> conversation \<Rightarrow> bool \<Rightarrow> conversation dict res" where
  "register_conv_template reg cv override =
     (case cv_name cv of
        None \<Rightarrow> Inl (ValueError ''The template to register should have non-None name.'')
      | Some name \<Rightarrow>
          if dict_get reg name \<noteq> None \<and> \<not> override
          then Inl (ValueError ''The name of the template has been registered'')
          else Inr (dict_set reg name cv))"

definition get_conv_template :: "conversation dict \<Rightarrow> string \<Rightarrow> conversation option" where
  "get_conv_template reg name = dict_get reg name"

text \<open>The preset \<open>chatml\<close>, registered when the module is loaded.\<close>

definition chatml :: conversation where
  "chatml =
     (conversation_defaults
        [(''user'', ''<|im_start|>user''), (''assistant'', ''<|im_start|>assistant'')]
        [''<|im_end|>\<newline>''])
     \<lparr>cv_name := Some ''chatml'',
      system_template := ''<|im_start|>system\<newline>'' @ ph_system @ ''<|im_end|>\<newline>'',
      system_message :=
        ''A conversation between a user and an LLM-based AI assistant. The '' @
        ''assistant gives helpful and honest answers.'',
      role_content_sep := ''\<newline>'', role_empty_sep := ''\<newline>'',
      stop_str := [''<|im_end|>''], stop_token_ids := [2]\<rparr>"

section \<open>Merging consecutive strings\<close>

text \<open>
  The content of a prompt, independent of how its text is cut into strings: the characters and
  images in order.
\<close>

fun flat_item :: "'img prompt_item \<Rightarrow> (char + 'img \<times> int) list" where
  "flat_item (PStr s) = map Inl s"
| "flat_item (PImg img sz) = [Inr (img, sz)]"

definition flat :: "'img prompt_item list \<Rightarrow> (char + 'img \<times> int) list" where
  "flat ps = concat (map flat_item ps)"

fun no_adjacent_strings :: "'img prompt_item list \<Rightarrow> bool" where
  "no_adjacent_strings (PStr s # PStr t # ps) = False"
| "no_adjacent_strings (p # ps) = no_adjacent_strings ps"
| "no_adjacent_strings [] = True"

lemma flat_simps [simp]:
  "flat [] = []" "flat (p # ps) = flat_item p @ flat ps" "flat (ps @ qs) = flat ps @ flat qs"
  by (simp_all add: flat_def)

lemma no_adjacent_strings_snoc:
  assumes "ps \<noteq> []"
  shows "no_adjacent_strings (ps @ [q]) \<longleftrightarrow>
     no_adjacent_strings ps \<and> (is_image (last ps) \<or> is_image q)"
  using assms
proof (induction ps)
  case (Cons p ps)
  show ?case
  proof (cases ps)
    case Nil
    then show ?thesis by (cases p; cases q) (simp_all add: is_image_def)
  next
    case ps: (Cons p' ps')
    then have "no_adjacent_strings (ps @ [q]) \<longleftrightarrow>
        no_adjacent_strings ps \<and> (is_image (last ps) \<or> is_image q)"
      using Cons.IH by simp
    then show ?thesis using ps by (cases p; cases p') (auto simp: is_image_def)
  qed
qed simp

lemma no_adjacent_strings_last_text:
  assumes "no_adjacent_strings ps" "ps \<noteq> []" "last ps = PStr t"
  shows "no_adjacent_strings (butlast ps @ [PStr t'])"
proof (cases "butlast ps = []")
  case True
  then show ?thesis by simp
next
  case False
  have "no_adjacent_strings (butlast ps @ [PStr t])"
    using assms by (metis append_butlast_last_id)
  then show ?thesis using False by (simp add: no_adjacent_strings_snoc is_image_def)
qed

lemma combine_step_inv:
  assumes "acc \<noteq> []" "no_adjacent_strings acc"
  shows "combine_step acc m \<noteq> [] \<and> no_adjacent_strings (combine_step acc m) \<and>
    flat (combine_step acc m) = flat (acc @ [m])"
proof (cases m)
  case (PImg img sz)
  with assms show ?thesis
    by (simp add: combine_step_def no_adjacent_strings_snoc is_image_def)
next
  case (PStr s)
  show ?thesis
  proof (cases "last acc")
    case (PImg img sz)
    with \<open>m = PStr s\<close> assms show ?thesis
      by (simp add: combine_step_def no_adjacent_strings_snoc is_image_def)
  next
    case tx: (PStr t)
    have "flat acc = flat (butlast acc) @ map Inl t"
      using assms(1) tx by (metis append_butlast_last_id append_Nil2 flat_item.simps(1) flat_simps)
    with \<open>m = PStr s\<close> tx assms show ?thesis
      by (simp add: combine_step_def no_adjacent_strings_last_text)
  qed
qed

lemma combine_foldl_inv:
  assumes "acc \<noteq> []" "no_adjacent_strings acc"
  shows "foldl combine_step acc ms \<noteq> [] \<and> no_adjacent_strings (foldl combine_step acc ms) \<and>
    flat (foldl combine_step acc ms) = flat (acc @ ms)"
  using assms
proof (induction ms arbitrary: acc)
  case Nil
  then show ?case by simp
next
  case (Cons m ms)
  from combine_step_inv [OF Cons.prems, of m] Cons.IH [of "combine_step acc m"]
  show ?case by simp
qed

text \<open>
  Merging consecutive strings (\<open>_combine_consecutive_messages\<close>) keeps the content of the
  prompt, that is every character and every image in order, and leaves no two adjacent strings.
\<close>

theorem combine_consecutive_messages_correct:
  "flat (combine_consecutive_messages ms) = flat ms \<and>
   no_adjacent_strings (combine_consecutive_messages ms)"
proof (cases ms)
  case Nil
  then show ?thesis by simp
next
  case (Cons m ms')
  have "no_adjacent_strings [m]" by (cases m) auto
  from combine_foldl_inv [OF _ this, of ms'] Cons show ?thesis by simp
qed

lemma combine_texts:
  "foldl combine_step [PStr t] (map PStr ss) = [PStr (t @ concat ss)]"
  by (induction ss arbitrary: t) (simp_all add: combine_step_def)

section \<open>The prompt of a text-only conversation\<close>

text \<open>
  The documented format: the system prompt, then for every message the role, the separator and
  the content put into the role's template, ended by the separator of the role. A message
  without content is the role and the empty separator.
\<close>

definition message_format :: "conversation \<Rightarrow> nat \<times> message \<Rightarrow> string" where
  "message_format cv m =
     (case m of (i, role, content) \<Rightarrow>
       let role_str = the (dict_get (roles cv) role);
           role_prefix =
             (if \<not> add_role_after_system_message cv \<and> system_text cv \<noteq> [] \<and> i = 0 then []
              else role_str @ role_content_sep cv)
       in case content of
            None \<Rightarrow> role_str @ role_empty_sep cv
          | Some (Text txt) \<Rightarrow>
              (case template_of cv role of
                 Inr (t, ph) \<Rightarrow>
                   role_prefix @ str_replace ph txt t @
                   (if role = ''assistant'' then last (seps cv) else hd (seps cv))
               | Inl _ \<Rightarrow> [])
          | Some (Parts _) \<Rightarrow> [])"

definition conversation_text :: "conversation \<Rightarrow> string" where
  "conversation_text cv =
     system_text cv @ concat (map (message_format cv) (enumerate 0 (messages cv)))"

definition text_message :: "conversation \<Rightarrow> message \<Rightarrow> bool" where
  "text_message cv m =
     (case m of (role, content) \<Rightarrow>
        dict_get (roles cv) role \<noteq> None \<and> \<not> isl (template_of cv role) \<and>
        (case content of Some (Parts _) \<Rightarrow> False | _ \<Rightarrow> True))"

lemma two_seps_index:
  assumes "length ss = 1 \<or> length ss = 2"
  shows "indexR (two_seps ss) (if b then 1 else 0) = Inr (if b then last ss else hd ss)"
proof -
  from assms obtain a where "ss = [a] \<or> (\<exists>b. ss = [a, b])"
    by (auto simp: length_Suc_conv numeral_2_eq_2)
  then show ?thesis by (auto simp: two_seps_def indexR_def)
qed

lemma render_message_text:
  assumes "length (seps cv) = 1 \<or> length (seps cv) = 2" and "text_message cv m"
  shows "render_message io config cv (two_seps (seps cv)) (system_text cv) (i, m) =
     Inr [PStr (message_format cv (i, m))]"
proof -
  obtain role content where m: "m = (role, content)" by (cases m)
  obtain t ph where "template_of cv role = Inr (t, ph)"
    using assms(2) by (cases "template_of cv role") (auto simp: text_message_def m)
  moreover obtain rs where "dict_get (roles cv) role = Some rs"
    using assms(2) by (auto simp: text_message_def m)
  moreover have "content = None \<or> (\<exists>txt. content = Some (Text txt))"
    using assms(2) by (auto simp: text_message_def m split: option.splits content.splits)
  ultimately show ?thesis using two_seps_index [OF assms(1), of "role = ''assistant''"]
    by (auto simp: render_message_def message_format_def m render_text_def Let_def)
qed

text \<open>
  C20: a conversation whose messages are all text (or empty), with known roles and renderable
  templates and one or two separators, renders to a single string: the documented format, with
  the last function placeholder replaced by the function string and the others removed.
\<close>

theorem as_prompt_text_only:
  fixes cv :: conversation and io :: "'img image_io"
  assumes seps: "length (seps cv) = 1 \<or> length (seps cv) = 2"
    and msgs: "\<And>m. m \<in> set (messages cv) \<Longrightarrow> text_message cv m"
    and ne: "system_text cv \<noteq> [] \<or> messages cv \<noteq> []"
  shows "as_prompt io config cv =
     Inr [PStr (fill_function (function_string cv) (conversation_text cv))]"
proof -
  let ?fmt = "map (message_format cv) (enumerate 0 (messages cv))"
  have "render_message io config cv (two_seps (seps cv)) (system_text cv) x =
      Inr [PStr (message_format cv x)]" if "x \<in> set (enumerate 0 (messages cv))" for x
    using that render_message_text [OF seps msgs] by (metis enumerate_memD surj_pair)
  then have rendered: "mapR (render_message io config cv (two_seps (seps cv)) (system_text cv))
      (enumerate 0 (messages cv)) = Inr (map (\<lambda>x. [PStr (message_format cv x)])
         (enumerate 0 (messages cv)))"
    by (rule mapR_cong_Inr)
  have pieces: "concat (map (\<lambda>x. [PStr (message_format cv x)]) (enumerate 0 (messages cv))) =
      (map PStr ?fmt :: 'img prompt_item list)"
    by (induction "enumerate 0 (messages cv)") (auto simp: comp_def)
  have combined: "combine_consecutive_messages
      ((if system_text cv \<noteq> [] then [PStr (system_text cv)] else []) @ map PStr ?fmt) =
      [PStr (conversation_text cv) :: 'img prompt_item]"
  proof (cases "system_text cv = []")
    case False
    then show ?thesis by (simp add: combine_texts conversation_text_def del: map_map)
  next
    case True
    with ne obtain f fs where "?fmt = f # fs" by (cases "messages cv") auto
    with True show ?thesis by (simp add: combine_texts conversation_text_def del: map_map)
  qed
  have texts: "\<not> list_ex is_image ((if system_text cv \<noteq> [] then [PStr (system_text cv)] else []) @
      (map PStr ?fmt :: 'img prompt_item list))"
    by (auto simp: list_ex_iff is_image_def)
  show ?thesis
    unfolding as_prompt_def Let_def rendered bindR_simps pieces combined
    by (simp only: texts) (simp add: fill_first_def)
qed

definition no_images :: "unit image_io" where
  "no_images = \<lparr>open_base64 = (\<lambda>_. Inr ()), open_http = (\<lambda>_. Inr ())\<rparr>"

definition short_chat :: conversation where
  "short_chat = chatml\<lparr>messages := [(''user'', Some (Text ''hi'')), (''assistant'', None)]\<rparr>"

lemma short_chat_text: "m \<in> set (messages short_chat) \<Longrightarrow> text_message short_chat m"
proof -
  have "list_all (text_message short_chat) (messages short_chat)" by code_simp
  then show "m \<in> set (messages short_chat) \<Longrightarrow> text_message short_chat m"
    by (simp add: list_all_iff)
qed

theorem as_prompt_text_only_witness:
  "as_prompt no_images None short_chat =
     Inr [PStr (fill_function (function_string short_chat) (conversation_text short_chat))] \<and>
   length (seps short_chat) = 1 \<and> messages short_chat \<noteq> []"
proof -
  have "length (seps short_chat) = 1" and ne: "messages short_chat \<noteq> []"
    by (simp_all add: short_chat_def chatml_def conversation_defaults_def)
  then show ?thesis
    using as_prompt_text_only [of short_chat no_images None] short_chat_text by simp
qed

section \<open>The function string\<close>

lemma ph_function_nonempty [simp]: "ph_function \<noteq> []"
  by (simp add: ph_function_def)

text \<open>
  The function string takes the place of the last function placeholder of the whole
  prompt, whoever wrote it; every other placeholder is then removed. Without a placeholder the
  prompt is unchanged and the function string is dropped.
\<close>

theorem fill_function_last_placeholder:
  "(\<not> sublist ph_function p \<longrightarrow> fill_function fs p = p) \<and>
   (\<not> sublist ph_function (tl (ph_function @ b)) \<longrightarrow>
      fill_function fs (a @ ph_function @ b) = str_replace ph_function [] (a @ fs @ b))"
  by (simp add: fill_function_def rsplit1_absent str_replace_absent rsplit1_last)

theorem fill_function_last_placeholder_witness:
  "fill_function ''f()'' ''no slot'' = ''no slot'' \<and>
   fill_function ''f()'' (''use '' @ ph_function @ ''!'') = ''use f()!''"
proof -
  have "\<not> sublist ph_function ''no slot''" and "\<not> sublist ph_function (tl (ph_function @ ''!''))"
    and "str_replace ph_function [] (''use '' @ ''f()'' @ ''!'') = ''use f()!''"
    by code_simp+
  then show ?thesis
    using fill_function_last_placeholder [of "''no slot''" "''f()''" "''!''" "''use ''"] by simp
qed

text \<open>
  A template whose system prompt has the function slot, and a user message that contains the
  placeholder text.
\<close>

definition slot_in_user_chat :: conversation where
  "slot_in_user_chat =
     (conversation_defaults [(''user'', ''U:''), (''assistant'', ''A:'')] [''|''])
     \<lparr>system_template := ''S['' @ ph_function @ '']'',
      function_string := ''f()'', use_function_calling := True,
      messages := [(''user'', Some (Text (''what is '' @ ph_function @ ''?''))),
                   (''assistant'', None)]\<rparr>"

text \<open>
  A user message that contains the placeholder text captures the function string: it is
  rendered inside the user message and the slot of the system prompt is emptied.
\<close>

theorem function_string_captured_by_user_text:
  "as_prompt no_images None slot_in_user_chat = Inr [PStr ''S[]U:what is f()?|A:'']"
  by code_simp

end
