(* ===== verification/Protocol.thy ===== *)
theory Protocol
  imports Conversation
begin

text \<open>
  The request and response types of \<open>protocol/openai_api_protocol.py\<close>,
  \<open>protocol/debug_protocol.py\<close>, \<open>protocol/generation_config.py\<close> and
  \<open>protocol/microserving_protocol.py\<close>, with the validators pydantic runs when an object is
  built and the checks of a chat request. Fields are typed, so the type coercions of pydantic
  are outside the model; the creation time of a response and the random id of a tool call
  carry no logic and are left out of the records.
\<close>

section \<open>Commons\<close>

definition CHAT_COMPLETION_MAX_TOP_LOGPROBS :: int where
  "CHAT_COMPLETION_MAX_TOP_LOGPROBS = 20"

definition COMPLETION_MAX_TOP_LOGPROBS :: int where
  "COMPLETION_MAX_TOP_LOGPROBS = 5"

record top_log_probs =
  tlp_token :: string
  tlp_logprob :: pyfloat
  tlp_bytes :: "int list option"

record log_probs_content =
  lpc_token :: string
  lpc_logprob :: pyfloat
  lpc_bytes :: "int list option"
  lpc_top_logprobs :: "top_log_probs list"

record log_probs =
  lp_content :: "log_probs_content list"

record completion_log_probs =
  clp_text_offset :: "int list option"
  clp_token_logprobs :: "pyfloat list"
  clp_tokens :: "string list"
  clp_top_logprobs :: "pyfloat dict list"

record completion_usage =
  prompt_tokens :: int
  completion_tokens :: int
  total_tokens :: int
  usage_extra :: "json dict option"

record stream_options =
  include_usage :: "bool option"

record request_response_format =
  rf_type :: string
  rf_json_schema :: "string option"

record disagg_config =
  dg_kind :: "string option"
  dg_kv_append_metadata :: "string option"
  dg_kv_window_begin :: "int option"
  dg_kv_window_end :: "int option"
  dg_dst_group_offset :: "int option"

record debug_config =
  ignore_eos :: bool
  pinned_system_prompt :: bool
  special_request :: "string option"
  grammar_execution_mode :: string
  dc_disagg_config :: "disagg_config option"

definition default_disagg_config :: disagg_config where
  "default_disagg_config =
     \<lparr>dg_kind = None, dg_kv_append_metadata = None, dg_kv_window_begin = None,
      dg_kv_window_end = None, dg_dst_group_offset = None\<rparr>"

definition default_debug_config :: debug_config where
  "default_debug_config =
     \<lparr>ignore_eos = False, pinned_system_prompt = False, special_request = None,
      grammar_execution_mode = ''jump_forward'', dc_disagg_config = None\<rparr>"

section \<open>Requests\<close>

text \<open>\<open>stop: Optional[Union[str, List[str]]]\<close>.\<close>

datatype stop_spec = StopStr string | StopList "string list"

datatype completion_prompt = PromptText string | PromptIds "int list"

record completion_request =
  cr_model :: "string option"
  cr_prompt :: completion_prompt
  cr_best_of :: int
  cr_echo :: bool
  cr_frequency_penalty :: "pyfloat option"
  cr_presence_penalty :: "pyfloat option"
  cr_logprobs :: "int option"
  cr_logit_bias :: "(int \<times> pyfloat) list option"
  cr_max_tokens :: "int option"
  cr_n :: int
  cr_seed :: "int option"
  cr_stop :: "stop_spec option"
  cr_stream :: bool
  cr_stream_options :: "stream_options option"
  cr_suffix :: "string option"
  cr_temperature :: "pyfloat option"
  cr_top_p :: "pyfloat option"
  cr_user :: "string option"
  cr_response_format :: "request_response_format option"
  cr_debug_config :: "debug_config option"

record chat_function =
  cf_description :: "string option"
  cf_name :: string
  cf_parameters :: "json dict"

record chat_tool =
  ct_type :: string
  ct_function :: chat_function

record chat_function_call =
  fc_name :: string
  fc_arguments :: "json dict option"

record chat_tool_call =
  tc_type :: string
  tc_function :: chat_function_call

record chat_completion_message =
  cm_content :: "content option"
  cm_role :: string
  cm_name :: "string option"
  cm_tool_calls :: "chat_tool_call list option"
  cm_tool_call_id :: "string option"

text \<open>\<open>tool_choice: Optional[Union[Literal["none", "auto"], Dict]]\<close>.\<close>

datatype tool_choice = TCStr string | TCDict "json dict"

record chat_completion_request =
  cc_messages :: "chat_completion_message list"
  cc_model :: "string option"
  cc_frequency_penalty :: "pyfloat option"
  cc_presence_penalty :: "pyfloat option"
  cc_logprobs :: bool
  cc_top_logprobs :: int
  cc_logit_bias :: "(int \<times> pyfloat) list option"
  cc_max_tokens :: "int option"
  cc_n :: int
  cc_seed :: "int option"
  cc_stop :: "stop_spec option"
  cc_stream :: bool
  cc_stream_options :: "stream_options option"
  cc_temperature :: "pyfloat option"
  cc_top_p :: "pyfloat option"
  cc_tools :: "chat_tool list option"
  cc_tool_choice :: "tool_choice option"
  cc_user :: "string option"
  cc_response_format :: "request_response_format option"
  cc_debug_config :: "debug_config option"

definition default_completion_request :: "completion_prompt \<Rightarrow> completion_request" where
  "default_completion_request p =
     \<lparr>cr_model = None, cr_prompt = p, cr_best_of = 1, cr_echo = False,
      cr_frequency_penalty = None, cr_presence_penalty = None, cr_logprobs = None,
      cr_logit_bias = None, cr_max_tokens = None, cr_n = 1, cr_seed = None, cr_stop = None,
      cr_stream = False, cr_stream_options = None, cr_suffix = None, cr_temperature = None,
      cr_top_p = None, cr_user = None, cr_response_format = None, cr_debug_config = None\<rparr>"

definition default_chat_request :: "chat_completion_message list \<Rightarrow> chat_completion_request" where
  "default_chat_request ms =
     \<lparr>cc_messages = ms, cc_model = None, cc_frequency_penalty = None,
      cc_presence_penalty = None, cc_logprobs = False, cc_top_logprobs = 0,
      cc_logit_bias = None, cc_max_tokens = None, cc_n = 1, cc_seed = None, cc_stop = None,
      cc_stream = False, cc_stream_options = None, cc_temperature = None, cc_top_p = None,
      cc_tools = None, cc_tool_choice = None, cc_user = None, cc_response_format = None,
      cc_debug_config = None\<rparr>"

text \<open>\<open>RequestProtocol\<close> of \<open>serve/engine_utils.py\<close>.\<close>

datatype request_protocol =
    Completion completion_request
  | ChatCompletion chat_completion_request

section \<open>Validators\<close>

definition check_penalty_range :: "string \<Rightarrow> pyfloat option \<Rightarrow> validation_issue list" where
  "check_penalty_range field v =
     (case v of
        None \<Rightarrow> []
      | Some x \<Rightarrow>
          if flt_truthy x \<and> (flt_less x (Fin (- 2)) \<or> flt_less (Fin 2) x)
          then [PenaltyOutOfRange field] else [])"

fun first_bad_bias :: "(int \<times> pyfloat) list \<Rightarrow> validation_issue list" where
  "first_bad_bias [] = []"
| "first_bad_bias ((token_id, bias) # d) =
     (if flt_less (Fin 100) (flt_abs bias) then [LogitBiasOutOfRange token_id]
      else first_bad_bias d)"

definition check_logit_bias :: "(int \<times> pyfloat) list option \<Rightarrow> validation_issue list" where
  "check_logit_bias v = (case v of None \<Rightarrow> [] | Some d \<Rightarrow> first_bad_bias d)"

definition check_logprobs_completion :: "completion_request \<Rightarrow> validation_issue list" where
  "check_logprobs_completion r =
     (case cr_logprobs r of
        None \<Rightarrow> []
      | Some k \<Rightarrow>
          if k < 0 \<or> k > COMPLETION_MAX_TOP_LOGPROBS then [LogprobsOutOfRange] else [])"

definition check_logprobs_chat :: "chat_completion_request \<Rightarrow> validation_issue list" where
  "check_logprobs_chat r =
     (if cc_top_logprobs r < 0 \<or> cc_top_logprobs r > CHAT_COMPLETION_MAX_TOP_LOGPROBS
      then [TopLogprobsOutOfRange]
      else if \<not> cc_logprobs r \<and> cc_top_logprobs r > 0 then [TopLogprobsWithoutLogprobs]
      else [])"

definition check_stream_options :: "chat_completion_request \<Rightarrow> validation_issue list" where
  "check_stream_options r =
     (if cc_stream_options r = None then []
      else if \<not> cc_stream r then [StreamOptionsWithoutStream] else [])"

definition usage_included :: "stream_options option \<Rightarrow> bool" where
  "usage_included so = (case so of None \<Rightarrow> False | Some s \<Rightarrow> include_usage s = Some True)"

definition check_debug_config :: "chat_completion_request \<Rightarrow> validation_issue list" where
  "check_debug_config r =
     (case cc_debug_config r of
        None \<Rightarrow> []
      | Some d \<Rightarrow>
          if special_request d = None then []
          else if \<not> cc_stream r then [SpecialRequestWithoutStream]
          else if \<not> usage_included (cc_stream_options r) then [SpecialRequestWithoutUsage]
          else [])"

text \<open>
  Building a request: the field validators run on every field and their failures are reported
  together; the model validators run afterwards in order and the first failure is reported.
\<close>

fun first_issue :: "validation_issue list list \<Rightarrow> validation_issue list" where
  "first_issue [] = []"
| "first_issue (i # is) = (if i = [] then first_issue is else i)"

definition validated :: "validation_issue list \<Rightarrow> validation_issue list list \<Rightarrow> 'a \<Rightarrow> 'a res" where
  "validated field_issues models x =
     (if field_issues \<noteq> [] then Inl (ValidationError field_issues)
      else if first_issue models \<noteq> [] then Inl (ValidationError (first_issue models))
      else Inr x)"

definition validate_completion_request :: "completion_request \<Rightarrow> completion_request res" where
  "validate_completion_request r =
     validated
       (check_penalty_range ''frequency_penalty'' (cr_frequency_penalty r) @
        check_penalty_range ''presence_penalty'' (cr_presence_penalty r) @
        check_logit_bias (cr_logit_bias r))
       [check_logprobs_completion r] r"

definition validate_chat_request :: "chat_completion_request \<Rightarrow> chat_completion_request res" where
  "validate_chat_request r =
     validated
       (check_penalty_range ''frequency_penalty'' (cc_frequency_penalty r) @
        check_penalty_range ''presence_penalty'' (cc_presence_penalty r) @
        check_logit_bias (cc_logit_bias r))
       [check_logprobs_chat r, check_stream_options r, check_debug_config r] r"

section \<open>Checks of a chat request\<close>

definition check_message :: "nat \<times> chat_completion_message \<Rightarrow> unit res" where
  "check_message x =
     (case x of (i, m) \<Rightarrow>
       if cm_role m = ''system'' \<and> i \<noteq> 0
       then Inl (BadRequestError (SystemPromptPosition i))
       else if cm_tool_call_id m \<noteq> None \<and> cm_role m \<noteq> ''tool''
       then Inl (BadRequestError ToolCallIdOnNonTool)
       else if (case cm_content m of Some (Parts _) \<Rightarrow> True | _ \<Rightarrow> False) \<and> cm_role m \<noteq> ''user''
       then Inl (BadRequestError ContentListOnNonUser)
       else if cm_tool_calls m \<noteq> None then
         (if cm_role m \<noteq> ''assistant'' then Inl (BadRequestError ToolCallsOnNonAssistant)
          else Inl (BadRequestError ToolCallsUnsupported))
       else Inr ())"

definition check_message_validity :: "chat_completion_request \<Rightarrow> unit res" where
  "check_message_validity r =
     bindR (mapR check_message (enumerate 0 (cc_messages r))) (\<lambda>_. Inr ())"

text \<open>
  \<open>check_function_call_usage\<close> updates the conversation template. \<open>dump\<close> stands for
  \<open>model_dump_json\<close> of one function, \<open>dumps\<close> for the JSON text of the list of functions.
\<close>

fun select_tool ::
    "(chat_function \<Rightarrow> string) \<Rightarrow> json \<Rightarrow> chat_tool list \<Rightarrow> conversation \<Rightarrow> conversation res" where
  "select_tool dump fn [] cv =
     bindR (json_item fn ''name'') (\<lambda>nm. Inl (BadRequestError (ToolChoiceUnknown nm)))"
| "select_tool dump fn (t # ts) cv =
     bindR (json_item fn ''name'') (\<lambda>nm.
       if nm = JStr (cf_name (ct_function t))
       then Inr (cv\<lparr>use_function_calling := True, function_string := dump (ct_function t)\<rparr>)
       else select_tool dump fn ts cv)"

definition collect_functions :: "chat_tool list \<Rightarrow> chat_function list res" where
  "collect_functions tools =
     mapR (\<lambda>t. if ct_type t \<noteq> ''function'' then Inl (BadRequestError ToolTypeUnsupported)
               else Inr (ct_function t)) tools"

definition use_all_tools ::
    "(chat_function list \<Rightarrow> string) \<Rightarrow> chat_tool list \<Rightarrow> conversation \<Rightarrow> conversation res" where
  "use_all_tools dumps tools cv =
     bindR (collect_functions tools)
       (\<lambda>fns. Inr (cv\<lparr>use_function_calling := True, function_string := dumps fns\<rparr>))"

definition check_function_call_usage ::
    "(chat_function \<Rightarrow> string) \<Rightarrow> (chat_function list \<Rightarrow> string) \<Rightarrow>
     chat_completion_request \<Rightarrow> conversation \<Rightarrow> conversation res" where
  "check_function_call_usage dump dumps r cv =
     (case cc_tools r of
        None \<Rightarrow> Inr (cv\<lparr>use_function_calling := False\<rparr>)
      | Some tools \<Rightarrow>
          if cc_tool_choice r = Some (TCStr ''none'')
          then Inr (cv\<lparr>use_function_calling := False\<rparr>)
          else case cc_tool_choice r of
            Some (TCDict tc) \<Rightarrow>
              bindR (dict_item tc ''type'') (\<lambda>ty.
                if ty \<noteq> JStr ''function'' then Inl (BadRequestError ToolChoiceNotFunction)
                else bindR (dict_item tc ''function'') (\<lambda>fn.
                  bindR (json_len fn) (\<lambda>k.
                    if k > 1 then Inl (BadRequestError ToolChoiceManyTools)
                    else select_tool dump fn tools cv)))
          | Some (TCStr c) \<Rightarrow>
              if c \<noteq> ''auto'' then Inl (BadRequestError (ToolChoiceInvalid c))
              else use_all_tools dumps tools cv
          | None \<Rightarrow> use_all_tools dumps tools cv)"

definition openai_api_get_unsupported_fields :: "request_protocol \<Rightarrow> string list" where
  "openai_api_get_unsupported_fields r =
     (case r of
        Completion c \<Rightarrow> if cr_best_of c \<noteq> 1 then [''best_of''] else []
      | ChatCompletion _ \<Rightarrow> [])"

section \<open>Responses\<close>

record completion_response_choice =
  crc_finish_reason :: "string option"
  crc_index :: nat
  crc_logprobs :: "completion_log_probs option"
  crc_text :: string

record completion_response =
  crs_id :: string
  crs_choices :: "completion_response_choice list"
  crs_model :: "string option"
  crs_usage :: "completion_usage option"

record chat_completion_response_choice =
  ccc_finish_reason :: "string option"
  ccc_index :: nat
  ccc_message :: chat_completion_message
  ccc_logprobs :: "log_probs option"

record chat_completion_stream_response_choice =
  csc_finish_reason :: "string option"
  csc_index :: nat
  csc_delta :: chat_completion_message
  csc_logprobs :: "log_probs option"

record chat_completion_response =
  ccr_id :: string
  ccr_choices :: "chat_completion_response_choice list"
  ccr_model :: "string option"
  ccr_usage :: "completion_usage option"

record chat_completion_stream_response =
  csr_id :: string
  csr_choices :: "chat_completion_stream_response_choice list"
  csr_model :: "string option"
  csr_usage :: "completion_usage option"

text \<open>
  The finish reasons are \<open>Literal\<close> types: building a choice with another string raises.
\<close>

definition completion_finish_reasons :: "string list" where
  "completion_finish_reasons = [''stop'', ''length'', ''preempt'']"

definition chat_finish_reasons :: "string list" where
  "chat_finish_reasons = [''stop'', ''length'', ''tool_calls'', ''error'']"

definition check_literal :: "string list \<Rightarrow> string option \<Rightarrow> unit res" where
  "check_literal allowed v =
     (case v of
        None \<Rightarrow> Inr ()
      | Some s \<Rightarrow>
          if s \<in> set allowed then Inr () else Inl (ValidationError [BadFinishReason s]))"

definition mk_completion_choice ::
    "nat \<Rightarrow> string option \<Rightarrow> string \<Rightarrow> completion_log_probs option \<Rightarrow>
     completion_response_choice res" where
  "mk_completion_choice i fr txt lp =
     bindR (check_literal completion_finish_reasons fr)
       (\<lambda>_. Inr \<lparr>crc_finish_reason = fr, crc_index = i, crc_logprobs = lp, crc_text = txt\<rparr>)"

definition mk_chat_choice ::
    "nat \<Rightarrow> string option \<Rightarrow> chat_completion_message \<Rightarrow> log_probs option \<Rightarrow>
     chat_completion_response_choice res" where
  "mk_chat_choice i fr msg lp =
     bindR (check_literal chat_finish_reasons fr)
       (\<lambda>_. Inr \<lparr>ccc_finish_reason = fr, ccc_index = i, ccc_message = msg, ccc_logprobs = lp\<rparr>)"

definition mk_chat_stream_choice ::
    "nat \<Rightarrow> string option \<Rightarrow> chat_completion_message \<Rightarrow> log_probs option \<Rightarrow>
     chat_completion_stream_response_choice res" where
  "mk_chat_stream_choice i fr delta lp =
     bindR (check_literal chat_finish_reasons fr)
       (\<lambda>_. Inr \<lparr>csc_finish_reason = fr, csc_index = i, csc_delta = delta, csc_logprobs = lp\<rparr>)"

definition assistant_message :: "content option \<Rightarrow> chat_tool_call list option \<Rightarrow> chat_completion_message" where
  "assistant_message c calls =
     \<lparr>cm_content = c, cm_role = ''assistant'', cm_name = None, cm_tool_calls = calls,
      cm_tool_call_id = None\<rparr>"

section \<open>What the validators accept\<close>

text \<open>A float is within a symmetric bound, or is NaN, which no comparison rejects.\<close>

definition within_or_nan :: "rat \<Rightarrow> pyfloat \<Rightarrow> bool" where
  "within_or_nan b x = (x = NaN \<or> (\<exists>q. x = Fin q \<and> - b \<le> q \<and> q \<le> b))"

lemma check_penalty_range_ok:
  "check_penalty_range f v = [] \<longleftrightarrow> (\<forall>x. v = Some x \<longrightarrow> within_or_nan 2 x)"
proof (cases v)
  case None
  then show ?thesis by (simp add: check_penalty_range_def)
next
  case (Some x)
  then show ?thesis
    by (cases x) (auto simp: check_penalty_range_def within_or_nan_def)
qed

lemma first_bad_bias_ok:
  "first_bad_bias d = [] \<longleftrightarrow> (\<forall>(t, x) \<in> set d. within_or_nan 100 x)"
proof (induction d rule: first_bad_bias.induct)
  case 1
  then show ?case by simp
next
  case (2 t x d)
  have "flt_less (Fin 100) (flt_abs x) \<longleftrightarrow> \<not> within_or_nan 100 x"
    by (cases x) (auto simp: within_or_nan_def)
  with 2 show ?case by auto
qed

lemma check_logit_bias_ok:
  "check_logit_bias v = [] \<longleftrightarrow> (\<forall>d. v = Some d \<longrightarrow> (\<forall>(t, x) \<in> set d. within_or_nan 100 x))"
  by (auto simp: check_logit_bias_def first_bad_bias_ok split: option.splits)

lemma validated_ok: "validated fs ms x = Inr y \<longleftrightarrow> y = x \<and> fs = [] \<and> first_issue ms = []"
  by (auto simp: validated_def)

lemmas validator_simps =
  validated_ok check_penalty_range_ok check_logit_bias_ok check_logprobs_completion_def
  check_logprobs_chat_def check_stream_options_def check_debug_config_def
  CHAT_COMPLETION_MAX_TOP_LOGPROBS_def COMPLETION_MAX_TOP_LOGPROBS_def

text \<open>
  A completion request is accepted, unchanged, exactly when both penalties are in
  \<open>[-2, 2]\<close>, every logit bias is in \<open>[-100, 100]\<close> and the number of logprobs is in
  \<open>[0, 5]\<close>; the float NaN passes both range checks.
\<close>

theorem validate_completion_request_iff:
  "validate_completion_request r = Inr r' \<longleftrightarrow>
     r' = r \<and>
     (\<forall>x. cr_frequency_penalty r = Some x \<longrightarrow> within_or_nan 2 x) \<and>
     (\<forall>x. cr_presence_penalty r = Some x \<longrightarrow> within_or_nan 2 x) \<and>
     (\<forall>d. cr_logit_bias r = Some d \<longrightarrow> (\<forall>(t, x) \<in> set d. within_or_nan 100 x)) \<and>
     (\<forall>k. cr_logprobs r = Some k \<longrightarrow> 0 \<le> k \<and> k \<le> 5)"
  by (auto simp: validate_completion_request_def validator_simps split: option.splits)

theorem validate_completion_request_iff_witness:
  "let r = (default_completion_request (PromptText ''a''))
             \<lparr>cr_presence_penalty := Some NaN, cr_logprobs := Some 5\<rparr>
   in validate_completion_request r = Inr r"
  unfolding Let_def
  by (subst validate_completion_request_iff)
     (simp add: default_completion_request_def within_or_nan_def)

text \<open>
  A chat request is accepted, unchanged, exactly when its penalties and logit biases are in
  range, the number of top logprobs is in \<open>[0, 20]\<close> and zero unless logprobs are requested,
  stream options come with streaming only, and a special request comes with streaming and a
  usage chunk.
\<close>

theorem validate_chat_request_iff:
  "validate_chat_request r = Inr r' \<longleftrightarrow>
     r' = r \<and>
     (\<forall>x. cc_frequency_penalty r = Some x \<longrightarrow> within_or_nan 2 x) \<and>
     (\<forall>x. cc_presence_penalty r = Some x \<longrightarrow> within_or_nan 2 x) \<and>
     (\<forall>d. cc_logit_bias r = Some d \<longrightarrow> (\<forall>(t, x) \<in> set d. within_or_nan 100 x)) \<and>
     0 \<le> cc_top_logprobs r \<and> cc_top_logprobs r \<le> 20 \<and>
     (\<not> cc_logprobs r \<longrightarrow> cc_top_logprobs r = 0) \<and>
     (cc_stream_options r \<noteq> None \<longrightarrow> cc_stream r) \<and>
     (\<forall>d. cc_debug_config r = Some d \<longrightarrow> special_request d \<noteq> None \<longrightarrow>
        cc_stream r \<and> usage_included (cc_stream_options r))"
  by (auto simp: validate_chat_request_def validator_simps split: option.splits if_splits)

theorem validate_chat_request_iff_witness:
  "let r = (default_chat_request [])\<lparr>cc_logprobs := True, cc_top_logprobs := 20\<rparr>
   in validate_chat_request r = Inr r"
  unfolding Let_def
  by (subst validate_chat_request_iff) (simp add: default_chat_request_def)

section \<open>What the chat checks guarantee\<close>

definition message_ok :: "chat_completion_message \<Rightarrow> bool" where
  "message_ok m \<longleftrightarrow>
     (cm_tool_call_id m \<noteq> None \<longrightarrow> cm_role m = ''tool'') \<and>
     (\<forall>ps. cm_content m = Some (Parts ps) \<longrightarrow> cm_role m = ''user'') \<and> cm_tool_calls m = None"

lemma check_message_ok:
  "check_message (i, m) = Inr u \<longleftrightarrow> (cm_role m = ''system'' \<longrightarrow> i = 0) \<and> message_ok m"
  by (auto simp: check_message_def message_ok_def split: option.splits content.splits)

lemma mapR_unit_ok: "(\<exists>us. mapR f xs = Inr us) \<longleftrightarrow> (\<forall>x \<in> set xs. \<exists>u. f x = Inr u)"
  by (induction xs) (auto simp: res_simps)

text \<open>
  The messages of a chat request pass \<open>check_message_validity\<close> exactly when a system
  message occurs at position 0 only and every message is well formed: tool call ids on tool
  messages only, content lists on user messages only, and no tool calls.
\<close>

theorem check_message_validity_iff:
  "check_message_validity r = Inr () \<longleftrightarrow>
     (\<forall>i < length (cc_messages r).
        (cm_role (cc_messages r ! i) = ''system'' \<longrightarrow> i = 0) \<and> message_ok (cc_messages r ! i))"
proof -
  have "check_message_validity r = Inr () \<longleftrightarrow>
      (\<forall>x \<in> set (enumerate 0 (cc_messages r)). \<exists>u. check_message x = Inr u)"
    using mapR_unit_ok [of check_message "enumerate 0 (cc_messages r)"]
    by (simp add: check_message_validity_def res_simps)
  also have "\<dots> \<longleftrightarrow> (\<forall>i < length (cc_messages r). check_message (i, cc_messages r ! i) = Inr ())"
    by (simp only: ball_enumerate) simp
  finally show ?thesis by (simp add: check_message_ok)
qed

theorem check_message_validity_iff_witness:
  "check_message_validity
     (default_chat_request [(assistant_message (Some (Text ''a'')) None)\<lparr>cm_role := ''user''\<rparr>])
   = Inr ()"
  by (subst check_message_validity_iff)
     (simp add: default_chat_request_def message_ok_def assistant_message_def)

lemma select_tool_Inr:
  "select_tool dump fn ts cv = Inr cv' \<Longrightarrow>
     \<exists>t \<in> set ts. json_item fn ''name'' = Inr (JStr (cf_name (ct_function t))) \<and>
       cv' = cv\<lparr>use_function_calling := True, function_string := dump (ct_function t)\<rparr>"
  by (induction dump fn ts cv rule: select_tool.induct) (auto simp: res_simps split: if_splits)

lemma collect_functions_Inr:
  "collect_functions ts = Inr fns \<Longrightarrow> fns = map ct_function ts"
  unfolding collect_functions_def
  by (induction ts arbitrary: fns) (auto simp: res_simps split: if_splits)

text \<open>
  When the tool check of a chat request succeeds, function calling is on exactly when tools
  are given and not disabled, nothing of the template but the flag and the function string
  changes, and the function string is the text of the chosen tool, which is one of the given
  tools and bears the requested name, or of all tools when no tool is chosen.
\<close>

theorem check_function_call_usage_correct:
  assumes "check_function_call_usage dump dumps r cv = Inr cv'"
  shows "(use_function_calling cv' \<longleftrightarrow>
            cc_tools r \<noteq> None \<and> cc_tool_choice r \<noteq> Some (TCStr ''none'')) \<and>
     cv' = cv\<lparr>use_function_calling := use_function_calling cv',
              function_string := function_string cv'\<rparr> \<and>
     (\<not> use_function_calling cv' \<longrightarrow> function_string cv' = function_string cv) \<and>
     (use_function_calling cv' \<longrightarrow>
        (case cc_tool_choice r of
           Some (TCDict tc) \<Rightarrow>
             (\<exists>t \<in> set (the (cc_tools r)). function_string cv' = dump (ct_function t) \<and>
                (\<exists>fn. dict_get tc ''function'' = Some fn \<and>
                   json_item fn ''name'' = Inr (JStr (cf_name (ct_function t)))))
         | _ \<Rightarrow> function_string cv' = dumps (map ct_function (the (cc_tools r)))))"
  using assms
  by (auto simp: check_function_call_usage_def res_simps use_all_tools_def
        split: option.splits if_splits tool_choice.splits
        dest!: select_tool_Inr collect_functions_Inr)

definition weather_tool :: chat_tool where
  "weather_tool =
     \<lparr>ct_type = ''function'',
      ct_function = \<lparr>cf_description = None, cf_name = ''weather'', cf_parameters = []\<rparr>\<rparr>"

definition weather_request :: chat_completion_request where
  "weather_request = (default_chat_request [])
     \<lparr>cc_tools := Some [weather_tool],
      cc_tool_choice := Some (TCDict [(''type'', JStr ''function''),
        (''function'', JObj [(''name'', JStr ''weather'')])])\<rparr>"

theorem check_function_call_usage_correct_witness:
  "\<exists>cv'. check_function_call_usage cf_name (\<lambda>_. []) weather_request chatml = Inr cv' \<and>
     use_function_calling cv' \<and> function_string cv' = ''weather''"
proof -
  obtain cv' where cv': "check_function_call_usage cf_name (\<lambda>_. []) weather_request chatml = Inr cv'"
    by (simp add: check_function_call_usage_def weather_request_def weather_tool_def
        default_chat_request_def json_len_def json_item_def dict_item_def)
  from check_function_call_usage_correct [OF this] show ?thesis
    using cv' by (auto simp: weather_request_def weather_tool_def default_chat_request_def)
qed

end
