(* ===== verification/Engine_Utils.thy ===== *)
theory Engine_Utils
  imports Protocol
begin

text \<open>
  \<open>serve/engine_utils.py\<close>: the generation config built from a request, the tokenization of
  prompts, the length check, the conversion of prompts to engine data, and the scope that
  aborts a request on error. The tokenizer is an argument.
\<close>

section \<open>Generation config\<close>

record generation_config =
  gc_n :: int
  gc_temperature :: "pyfloat option"
  gc_top_p :: "pyfloat option"
  gc_frequency_penalty :: "pyfloat option"
  gc_presence_penalty :: "pyfloat option"
  gc_repetition_penalty :: "pyfloat option"
  gc_logprobs :: bool
  gc_top_logprobs :: int
  gc_logit_bias :: "(int \<times> pyfloat) list option"
  gc_max_tokens :: int
  gc_seed :: "int option"
  gc_stop_strs :: "string list option"
  gc_stop_token_ids :: "int list option"
  gc_response_format :: "request_response_format option"
  gc_debug_config :: "debug_config option"

definition get_unsupported_fields :: "request_protocol \<Rightarrow> string list" where
  "get_unsupported_fields r = openai_api_get_unsupported_fields r"

definition check_unsupported_fields :: "request_protocol \<Rightarrow> unit res" where
  "check_unsupported_fields r =
     (if get_unsupported_fields r \<noteq> []
      then Inl (BadRequestError (UnsupportedFields (get_unsupported_fields r)))
      else Inr ())"

definition stop_strs_of :: "stop_spec option \<Rightarrow> string list option" where
  "stop_strs_of st =
     (case st of
        None \<Rightarrow> None
      | Some (StopStr s) \<Rightarrow> Some [s]
      | Some (StopList ss) \<Rightarrow> Some ss)"

fun openai_api_get_generation_config :: "request_protocol \<Rightarrow> generation_config" where
  "openai_api_get_generation_config (ChatCompletion r) =
     \<lparr>gc_n = cc_n r, gc_temperature = cc_temperature r, gc_top_p = cc_top_p r,
      gc_frequency_penalty = cc_frequency_penalty r,
      gc_presence_penalty = cc_presence_penalty r, gc_repetition_penalty = None,
      gc_logprobs = cc_logprobs r, gc_top_logprobs = cc_top_logprobs r,
      gc_logit_bias = cc_logit_bias r,
      gc_max_tokens = (case cc_max_tokens r of None \<Rightarrow> - 1 | Some k \<Rightarrow> k),
      gc_seed = cc_seed r, gc_stop_strs = stop_strs_of (cc_stop r), gc_stop_token_ids = None,
      gc_response_format = cc_response_format r, gc_debug_config = cc_debug_config r\<rparr>"
| "openai_api_get_generation_config (Completion r) =
     \<lparr>gc_n = cr_n r, gc_temperature = cr_temperature r, gc_top_p = cr_top_p r,
      gc_frequency_penalty = cr_frequency_penalty r,
      gc_presence_penalty = cr_presence_penalty r, gc_repetition_penalty = None,
      gc_logprobs = (cr_logprobs r \<noteq> None),
      gc_top_logprobs = (case cr_logprobs r of None \<Rightarrow> 0 | Some k \<Rightarrow> k),
      gc_logit_bias = cr_logit_bias r,
      gc_max_tokens = (case cr_max_tokens r of None \<Rightarrow> - 1 | Some k \<Rightarrow> k),
      gc_seed = cr_seed r, gc_stop_strs = stop_strs_of (cr_stop r), gc_stop_token_ids = None,
      gc_response_format = cr_response_format r, gc_debug_config = cr_debug_config r\<rparr>"

text \<open>
  \<open>stop_strs += extra_stop_str\<close> extends the list in place. When the request's \<open>stop\<close> is a
  list, it is that very list: the second component is the request as the call leaves it.
\<close>

definition extend_stop :: "string list option \<Rightarrow> stop_spec option \<Rightarrow> stop_spec option" where
  "extend_stop extra st =
     (case (extra, st) of
        (Some e, Some (StopList ss)) \<Rightarrow> Some (StopList (ss @ e))
      | _ \<Rightarrow> st)"

fun extend_request_stop :: "string list option \<Rightarrow> request_protocol \<Rightarrow> request_protocol" where
  "extend_request_stop extra (Completion r) =
     Completion (r\<lparr>cr_stop := extend_stop extra (cr_stop r)\<rparr>)"
| "extend_request_stop extra (ChatCompletion r) =
     ChatCompletion (r\<lparr>cc_stop := extend_stop extra (cc_stop r)\<rparr>)"

definition get_generation_config ::
    "request_protocol \<Rightarrow> int list option \<Rightarrow> string list option \<Rightarrow>
     generation_config \<times> request_protocol" where
  "get_generation_config r extra_stop_token_ids extra_stop_str =
     (let g = openai_api_get_generation_config r;
          g = (case extra_stop_token_ids of
                 None \<Rightarrow> g
               | Some ids \<Rightarrow> g\<lparr>gc_stop_token_ids := Some ids\<rparr>);
          g = (case extra_stop_str of
                 None \<Rightarrow> g
               | Some ss \<Rightarrow>
                   g\<lparr>gc_stop_strs :=
                       Some ((case gc_stop_strs g of None \<Rightarrow> [] | Some xs \<Rightarrow> xs) @ ss)\<rparr>)
      in (g, extend_request_stop extra_stop_str r))"

section \<open>Prompts\<close>

text \<open>
  The dynamically typed prompt inputs: a string, or a list whose elements are token ids,
  strings, images or lists.
\<close>

datatype 'img elem =
    EInt int
  | EStr string
  | EImg 'img int
  | EList "'img elem list"

datatype 'img prompt = Toks "int list" | Img 'img int

definition is_int :: "'img elem \<Rightarrow> bool" where
  "is_int e = (case e of EInt _ \<Rightarrow> True | _ \<Rightarrow> False)"

definition int_of_elem :: "'img elem \<Rightarrow> int" where
  "int_of_elem e = (case e of EInt k \<Rightarrow> k | _ \<Rightarrow> 0)"

definition process_prompt_elem :: "(string \<Rightarrow> int list) \<Rightarrow> 'img elem \<Rightarrow> 'img prompt res" where
  "process_prompt_elem ftokenize e =
     (case e of
        EStr s \<Rightarrow> Inr (Toks (ftokenize s))
      | EList es \<Rightarrow>
          if list_all is_int es then Inr (Toks (map int_of_elem es))
          else Inl (BadRequestError InvalidPrompt)
      | EImg img sz \<Rightarrow> Inr (Img img sz)
      | EInt _ \<Rightarrow> Inl (BadRequestError InvalidPrompt))"

definition process_prompts :: "'img elem \<Rightarrow> (string \<Rightarrow> int list) \<Rightarrow> 'img prompt list res" where
  "process_prompts input ftokenize =
     (case input of
        EStr s \<Rightarrow> Inr [Toks (ftokenize s)]
      | EList es \<Rightarrow>
          (case es of
             [] \<Rightarrow> Inl (BadRequestError InvalidPrompt)
           | e # _ \<Rightarrow>
               if is_int e then
                 if list_all is_int es then Inr [Toks (map int_of_elem es)]
                 else Inl (BadRequestError InvalidPrompt)
               else mapR (process_prompt_elem ftokenize) es)
      | _ \<Rightarrow> Inl AssertionError)"

fun prompt_len :: "'img prompt \<Rightarrow> int" where
  "prompt_len (Toks ids) = int (length ids)"
| "prompt_len (Img _ sz) = sz"

definition check_and_get_prompts_length :: "'img prompt list \<Rightarrow> int \<Rightarrow> int res" where
  "check_and_get_prompts_length prompts max_input_sequence_length =
     (let total_length = foldl (\<lambda>t p. t + prompt_len p) 0 prompts in
      if total_length > max_input_sequence_length
      then Inl (BadRequestError (PromptTooLong total_length max_input_sequence_length))
      else Inr total_length)"

fun convert_prompts_to_data :: "'img elem \<Rightarrow> 'img data list res" where
  "convert_prompts_to_data (EImg img sz) = Inr [ImageData img sz]"
| "convert_prompts_to_data (EStr s) = Inr [TextData s]"
| "convert_prompts_to_data (EInt _) = Inl TypeError"
| "convert_prompts_to_data (EList es) =
     (case es of
        [] \<Rightarrow> Inl IndexError
      | e # _ \<Rightarrow>
          if is_int e then
            (if list_all is_int es then Inr [TokenData (map int_of_elem es)]
             else Inl AssertionError)
          else mapR (\<lambda>x. bindR (convert_prompts_to_data x) (\<lambda>ds. indexR ds 0)) es)"

text \<open>\<open>ErrorCleanupScope.__exit__\<close>: the cleanup runs exactly when the body raised.\<close>

definition error_cleanup_exit :: "py_error option \<Rightarrow> ('s \<Rightarrow> 's) \<Rightarrow> 's \<Rightarrow> 's" where
  "error_cleanup_exit exc cleanup s = (if exc \<noteq> None then cleanup s else s)"

section \<open>Embeddings between the stages\<close>

fun elem_of_item :: "'img prompt_item \<Rightarrow> 'img elem" where
  "elem_of_item (PStr s) = EStr s"
| "elem_of_item (PImg img sz) = EImg img sz"

fun elem_of_prompt :: "'img prompt \<Rightarrow> 'img elem" where
  "elem_of_prompt (Toks ids) = EList (map EInt ids)"
| "elem_of_prompt (Img img sz) = EImg img sz"

fun elem_of_completion_prompt :: "completion_prompt \<Rightarrow> 'img elem" where
  "elem_of_completion_prompt (PromptText s) = EStr s"
| "elem_of_completion_prompt (PromptIds ids) = EList (map EInt ids)"

fun data_of_prompt :: "'img prompt \<Rightarrow> 'img data" where
  "data_of_prompt (Toks ids) = TokenData ids"
| "data_of_prompt (Img img sz) = ImageData img sz"

fun tokenize_item :: "(string \<Rightarrow> int list) \<Rightarrow> 'img prompt_item \<Rightarrow> 'img prompt" where
  "tokenize_item f (PStr s) = Toks (f s)"
| "tokenize_item f (PImg img sz) = Img img sz"

section \<open>Lemmas\<close>

lemma is_int_simps [simp]:
  "is_int (EInt k)" "\<not> is_int (EStr s)" "\<not> is_int (EImg img sz)" "\<not> is_int (EList es)"
  by (simp_all add: is_int_def)

lemma int_of_elem_EInt [simp]: "int_of_elem (EInt k) = k"
  by (simp add: int_of_elem_def)

lemma list_all_is_int_map [simp]: "list_all is_int (map EInt ks)"
  by (simp add: list_all_iff)

lemma map_int_of_elem_EInt [simp]: "map (int_of_elem \<circ> EInt) ks = ks"
  by (simp add: comp_def)

lemma not_int_elem_of_item [simp]: "\<not> is_int (elem_of_item p)"
  by (cases p) auto

lemma not_int_elem_of_prompt [simp]: "\<not> is_int (elem_of_prompt p)"
  by (cases p) auto

lemma process_prompts_items:
  fixes ps :: "'img prompt_item list"
  assumes "ps \<noteq> []"
  shows "process_prompts (EList (map elem_of_item ps)) f = Inr (map (tokenize_item f) ps)"
proof -
  have "process_prompt_elem f (elem_of_item p) = Inr (tokenize_item f p)" for p :: "'img prompt_item"
    by (cases p) (auto simp: process_prompt_elem_def)
  then have "mapR (process_prompt_elem f) (map elem_of_item ps) = Inr (map (tokenize_item f) ps)"
    by (simp add: mapR_map mapR_Inr)
  with assms show ?thesis by (cases ps) (auto simp: process_prompts_def)
qed

lemma process_prompts_completion:
  "process_prompts (elem_of_completion_prompt p) f =
     (case p of
        PromptText s \<Rightarrow> Inr [Toks (f s)]
      | PromptIds ids \<Rightarrow>
          if ids = [] then Inl (BadRequestError InvalidPrompt) else Inr [Toks ids])"
proof (cases p)
  case (PromptText s)
  then show ?thesis by (simp add: process_prompts_def)
next
  case (PromptIds ids)
  then show ?thesis by (cases ids) (simp_all add: process_prompts_def list_all_iff)
qed

lemma convert_tokens:
  "convert_prompts_to_data (EList (map EInt ids)) =
     (if ids = [] then Inl IndexError else Inr [TokenData ids])"
  by (cases ids) (simp_all add: list_all_iff)

lemma convert_prompt_head:
  "bindR (convert_prompts_to_data (elem_of_prompt p)) (\<lambda>ds. indexR ds 0) =
     (if p = Toks [] then Inl IndexError else Inr (data_of_prompt p))"
  by (cases p) (simp_all add: convert_tokens del: convert_prompts_to_data.simps(4))

lemma mapR_guarded:
  "mapR (\<lambda>x. if x = b then Inl e else Inr (g x)) xs =
     (if b \<in> set xs then Inl e else Inr (map g xs))"
  by (induction xs) auto

text \<open>
  A list of prompts as \<open>process_prompts\<close> returns it (token lists and images) converts to
  one engine datum per prompt, in order, provided no token list is empty; with an empty token
  list, or with no prompt at all, the conversion raises \<open>IndexError\<close>.
\<close>

theorem convert_prompts_to_data_prompts:
  "convert_prompts_to_data (EList (map elem_of_prompt ps)) =
     (if ps = [] \<or> Toks [] \<in> set ps then Inl IndexError else Inr (map data_of_prompt ps))"
proof (cases ps)
  case Nil
  then show ?thesis by simp
next
  case (Cons p ps')
  have "convert_prompts_to_data (EList (map elem_of_prompt ps)) =
      mapR (\<lambda>x. bindR (convert_prompts_to_data x) (\<lambda>ds. indexR ds 0)) (map elem_of_prompt ps)"
    by (simp add: Cons)
  also have "\<dots> = mapR (\<lambda>p. if p = Toks [] then Inl IndexError else Inr (data_of_prompt p)) ps"
    by (simp only: mapR_map convert_prompt_head)
  finally show ?thesis by (simp add: mapR_guarded Cons)
qed

lemma foldl_prompt_len:
  "foldl (\<lambda>t p. t + prompt_len p) a ps = a + (\<Sum>p \<leftarrow> ps. prompt_len p)"
  by (induction ps arbitrary: a) auto

text \<open>
  The length check returns the sum of the prompt lengths (an image counts its embedding
  size) when it is within the limit and is a bad request that reports it otherwise.
\<close>

theorem check_and_get_prompts_length_spec:
  "check_and_get_prompts_length ps limit =
     (let total = (\<Sum>p \<leftarrow> ps. prompt_len p) in
      if total \<le> limit then Inr total else Inl (BadRequestError (PromptTooLong total limit)))"
  by (auto simp: check_and_get_prompts_length_def foldl_prompt_len Let_def)

text \<open>
  The generation config stops at the strings of the request followed by those of the
  template, an unset token limit is \<open>-1\<close>, and a request whose \<open>stop\<close> is a list comes back with
  the template's strings appended to that list.
\<close>

theorem get_generation_config_stops:
  "let (g, r') = get_generation_config r (Some ids) (Some ss);
       st = (case r of Completion c \<Rightarrow> cr_stop c | ChatCompletion c \<Rightarrow> cc_stop c);
       st' = (case r' of Completion c \<Rightarrow> cr_stop c | ChatCompletion c \<Rightarrow> cc_stop c);
       mt = (case r of Completion c \<Rightarrow> cr_max_tokens c | ChatCompletion c \<Rightarrow> cc_max_tokens c)
   in gc_stop_token_ids g = Some ids \<and>
      gc_stop_strs g = Some ((case st of None \<Rightarrow> [] | Some (StopStr s) \<Rightarrow> [s]
                                | Some (StopList xs) \<Rightarrow> xs) @ ss) \<and>
      gc_max_tokens g = (case mt of None \<Rightarrow> - 1 | Some k \<Rightarrow> k) \<and>
      st' = (case st of Some (StopList xs) \<Rightarrow> Some (StopList (xs @ ss)) | _ \<Rightarrow> st)"
  by (cases r) (auto simp: get_generation_config_def Let_def stop_strs_of_def extend_stop_def
      split: option.splits stop_spec.splits)

end
