(* ===== verification/Text_Streamer.thy ===== *)
theory Text_Streamer
  imports Serve_Data
begin

text \<open>
  The incremental detokenizer: the interface the Python streaming code relies on (a locale),
  the step that turns one delta output into text (\<open>detokenize\<close>, shared by the callbacks of
  \<open>serve/engine_base.py\<close>, \<open>serve/engine.py\<close> and \<open>serve/sync_engine.py\<close>), and the native
  \<open>TextStreamer\<close> of \<open>cpp/tokenizers/streamer.cc\<close> that provides it. \<open>Tokenizer::Decode\<close> is an
  argument. A streamer is a mutable object, so its operations return the new state also when
  they raise.
\<close>

section \<open>The interface\<close>

type_synonym 's put_fn = "'s \<Rightarrow> int list \<Rightarrow> 's \<times> string res"
type_synonym 's finish_fn = "'s \<Rightarrow> 's \<times> string res"

text \<open>Sequencing of two operations that both return text.\<close>

definition then_text :: "'s \<times> string res \<Rightarrow> ('s \<Rightarrow> 's \<times> string res) \<Rightarrow> 's \<times> string res" where
  "then_text p k =
     (case p of
        (s, Inl e) \<Rightarrow> (s, Inl e)
      | (s, Inr t) \<Rightarrow> (case k s of (s', Inl e) \<Rightarrow> (s', Inl e) | (s', Inr t') \<Rightarrow> (s', Inr (t @ t'))))"

lemma then_text_simps [simp]:
  "then_text (s, Inl e) k = (s, Inl e)"
  "then_text (s, Inr []) k = k s"
  by (auto simp: then_text_def split: prod.splits sum.splits)

lemma then_text_assoc:
  "then_text (then_text p k) l = then_text p (\<lambda>s. then_text (k s) l)"
  by (auto simp: then_text_def split: prod.splits sum.splits)

lemma then_text_return [simp]: "then_text p (\<lambda>s. (s, Inr [])) = p"
  by (auto simp: then_text_def split: prod.splits sum.splits)

lemma then_text_cong:
  "(\<And>s t. p = (s, Inr t) \<Longrightarrow> k s = l s) \<Longrightarrow> then_text p k = then_text p l"
  by (auto simp: then_text_def split: prod.splits sum.splits)

lemma fst_then_text:
  "fst (then_text p k) = (case snd p of Inl _ \<Rightarrow> fst p | Inr _ \<Rightarrow> fst (k (fst p)))"
  by (auto simp: then_text_def split: prod.splits sum.splits)

text \<open>
  \<open>extra_prefix_string + (put(ids) if len(ids) > 0 else "")\<close>, and \<open>finish()\<close> appended when
  the generation has a finish reason.
\<close>

definition detokenize ::
    "'s put_fn \<Rightarrow> 's finish_fn \<Rightarrow> 's \<Rightarrow> single_request_stream_output \<Rightarrow> 's \<times> string res" where
  "detokenize put fin s out =
     then_text (s, Inr (so_extra_prefix_string out)) (\<lambda>s.
       then_text (if so_delta_token_ids out \<noteq> [] then put s (so_delta_token_ids out)
                  else (s, Inr [])) (\<lambda>s.
         if so_finish_reason out \<noteq> None then fin s else (s, Inr [])))"

fun detokenize_all ::
    "'s put_fn \<Rightarrow> 's finish_fn \<Rightarrow> 's \<Rightarrow> single_request_stream_output list \<Rightarrow> 's \<times> string res" where
  "detokenize_all put fin s [] = (s, Inr [])"
| "detokenize_all put fin s (o1 # os) =
     then_text (detokenize put fin s o1) (\<lambda>s. detokenize_all put fin s os)"

lemma detokenize_all_append:
  "detokenize_all put fin s (xs @ ys) =
     then_text (detokenize_all put fin s xs) (\<lambda>s. detokenize_all put fin s ys)"
  by (induction xs arbitrary: s) (simp_all add: then_text_assoc)

definition mk_delta :: "int list \<Rightarrow> string option \<Rightarrow> single_request_stream_output" where
  "mk_delta ids fr =
     \<lparr>so_delta_token_ids = ids, so_delta_logprob_json_strs = None, so_finish_reason = fr,
      so_request_final_usage_json_str = None, so_extra_prefix_string = []\<rparr>"

locale text_streamer =
  fixes put :: "'s put_fn" and fin :: "'s finish_fn" and is_open :: "'s \<Rightarrow> bool"
  assumes put_empty: "is_open s \<Longrightarrow> put s [] = (s, Inr [])"
    and put_append: "is_open s \<Longrightarrow> put s (xs @ ys) = then_text (put s xs) (\<lambda>s. put s ys)"
    and put_open: "is_open s \<Longrightarrow> is_open (fst (put s xs))"
    and fin_closes: "\<not> is_open (fst (fin s))"
    and put_closed: "\<not> is_open s \<Longrightarrow> \<exists>e. put s xs = (s, Inl e)"
begin

lemma detokenize_put:
  assumes "is_open s" and "so_extra_prefix_string out = []" and "so_finish_reason out = None"
  shows "detokenize put fin s out = put s (so_delta_token_ids out)"
  using assms by (auto simp: detokenize_def put_empty)

text \<open>
  Chunking does not matter: deltas without prefix strings and finish reasons produce the text
  of one \<open>put\<close> of all their tokens.
\<close>

lemma detokenize_all_chunks:
  assumes "is_open s"
    and "\<And>out. out \<in> set outs \<Longrightarrow> so_extra_prefix_string out = [] \<and> so_finish_reason out = None"
  shows "detokenize_all put fin s outs = put s (concat (map so_delta_token_ids outs))"
  using assms
proof (induction outs arbitrary: s)
  case Nil
  then show ?case by (simp add: put_empty)
next
  case (Cons out outs)
  let ?ids = "so_delta_token_ids out"
  have "detokenize_all put fin s (out # outs) =
      then_text (put s ?ids) (\<lambda>s. detokenize_all put fin s outs)"
    using Cons.prems by (simp add: detokenize_put)
  also have "\<dots> = then_text (put s ?ids) (\<lambda>s. put s (concat (map so_delta_token_ids outs)))"
    using Cons.IH Cons.prems put_open [OF Cons.prems(1), of ?ids]
    by (intro then_text_cong) auto
  finally show ?case using Cons.prems by (simp add: put_append)
qed

lemma detokenize_all_finished:
  assumes "is_open s"
    and "\<And>out. out \<in> set outs \<Longrightarrow> so_extra_prefix_string out = [] \<and> so_finish_reason out = None"
  shows "detokenize_all put fin s (outs @ [mk_delta ids (Some fr)]) =
     then_text (put s (concat (map so_delta_token_ids outs) @ ids)) fin"
proof -
  let ?all = "concat (map so_delta_token_ids outs)"
  have last: "detokenize put fin s' (mk_delta ids (Some fr)) = then_text (put s' ids) fin"
    if "is_open s'" for s'
    using that by (simp add: detokenize_def mk_delta_def put_empty)
  have "detokenize_all put fin s (outs @ [mk_delta ids (Some fr)]) =
      then_text (put s ?all) (\<lambda>s. detokenize put fin s (mk_delta ids (Some fr)))"
    using detokenize_all_chunks [OF assms] by (simp add: detokenize_all_append)
  also have "\<dots> = then_text (put s ?all) (\<lambda>s. then_text (put s ids) fin)"
    using last put_open [OF assms(1), of ?all] by (intro then_text_cong) auto
  finally show ?thesis using assms(1) by (simp add: put_append then_text_assoc)
qed

end

section \<open>The native streamer\<close>

record native_streamer =
  prefix_tokens :: "int list"
  pending_tokens :: "int list"
  finished :: bool

definition streamer_init :: native_streamer where
  "streamer_init = \<lparr>prefix_tokens = [], pending_tokens = [], finished = False\<rparr>"

definition kReplacementCharacter :: string where
  "kReplacementCharacter = [CHR 0xEF, CHR 0xBF, CHR 0xBD]"

text \<open>\<open>std::string::substr(pos)\<close> raises when \<open>pos\<close> is past the end.\<close>

definition substr :: "string \<Rightarrow> nat \<Rightarrow> string res" where
  "substr s pos = (if pos \<le> length s then Inr (drop pos s) else Inl (ForeignError ''out_of_range''))"

text \<open>
  The two popping loops. \<open>k\<close> is the number of tokens that may still be popped (3 at the
  start); the popped tokens are accumulated in front, which is the reversed push order of the
  source. Each returns the remaining pending tokens, the popped ones and the result.
\<close>

fun pop_replacement ::
    "(int list \<Rightarrow> string) \<Rightarrow> int list \<Rightarrow> nat \<Rightarrow> nat \<Rightarrow> int list \<Rightarrow> int list \<Rightarrow> string \<Rightarrow>
     int list \<times> int list \<times> string res" where
  "pop_replacement decode pre plen 0 pending popped validated = (pending, popped, Inr validated)"
| "pop_replacement decode pre plen (Suc k) pending popped validated =
     (if pending \<noteq> [] \<and> length validated \<ge> 3 \<and> suffix kReplacementCharacter validated then
        (let popped' = last pending # popped; pending' = butlast pending in
         case substr (decode (pre @ pending')) plen of
           Inl e \<Rightarrow> (pending', popped', Inl e)
         | Inr v \<Rightarrow> pop_replacement decode pre plen k pending' popped' v)
      else (pending, popped, Inr validated))"

fun pop_invalid ::
    "(int list \<Rightarrow> string) \<Rightarrow> int list \<Rightarrow> string \<Rightarrow> nat \<Rightarrow> int list \<Rightarrow> int list \<Rightarrow>
     int list \<times> int list \<times> string option" where
  "pop_invalid decode pre pstr 0 pending popped = (pending, popped, None)"
| "pop_invalid decode pre pstr (Suc k) pending popped =
     (if pending \<noteq> [] then
        (let popped' = last pending # popped; pending' = butlast pending;
             full = decode (pre @ pending') in
         if prefix pstr full then (pending', popped', Some full)
         else pop_invalid decode pre pstr k pending' popped')
      else (pending, popped, None))"

text \<open>The end of one iteration: the new prefix and pending tokens.\<close>

definition commit :: "native_streamer \<Rightarrow> int list \<Rightarrow> int list \<Rightarrow> native_streamer" where
  "commit s pending popped =
     s\<lparr>prefix_tokens := (if pending \<noteq> [] then pending else prefix_tokens s),
       pending_tokens := popped\<rparr>"

definition put_token ::
    "(int list \<Rightarrow> string) \<Rightarrow> native_streamer \<Rightarrow> int \<Rightarrow> native_streamer \<times> string res" where
  "put_token decode s tok =
     (let pre = prefix_tokens s;
          pending = pending_tokens s @ [tok];
          pstr = (if pre = [] then [] else decode pre);
          full = decode (pre @ pending)
      in if prefix pstr full then
           (case pop_replacement decode pre (length pstr) 3 pending []
                   (drop (length pstr) full) of
              (pending', popped, Inl e) \<Rightarrow> (s\<lparr>pending_tokens := pending'\<rparr>, Inl e)
            | (pending', popped, Inr v) \<Rightarrow> (commit s pending' popped, Inr v))
         else if length pending < 3 then (s\<lparr>pending_tokens := pending\<rparr>, Inr [])
         else
           (case pop_invalid decode pre pstr 3 pending [] of
              (pending', popped, Some full') \<Rightarrow>
                (commit s pending' popped, Inr (drop (length pstr) full'))
            | (pending', popped, None) \<Rightarrow>
                (commit s pending' popped, Inr (decode pending'))))"

fun put_tokens ::
    "(int list \<Rightarrow> string) \<Rightarrow> native_streamer \<Rightarrow> int list \<Rightarrow> native_streamer \<times> string res" where
  "put_tokens decode s [] = (s, Inr [])"
| "put_tokens decode s (t # ts) =
     then_text (put_token decode s t) (\<lambda>s. put_tokens decode s ts)"

definition streamer_put ::
    "(int list \<Rightarrow> string) \<Rightarrow> native_streamer \<Rightarrow> int list \<Rightarrow> native_streamer \<times> string res" where
  "streamer_put decode s ids =
     (if finished s
      then (s, Inl (ForeignError ''`put` is not expected to be invoked after finish.''))
      else put_tokens decode s ids)"

definition streamer_finish ::
    "(int list \<Rightarrow> string) \<Rightarrow> native_streamer \<Rightarrow> native_streamer \<times> string res" where
  "streamer_finish decode s =
     (let all_tokens = prefix_tokens s @ pending_tokens s;
          pstr = (if prefix_tokens s = [] then [] else decode (prefix_tokens s));
          full = (if all_tokens = [] then [] else decode all_tokens)
      in (s\<lparr>finished := True\<rparr>,
          Inr (if prefix pstr full then drop (length pstr) full
               else decode (pending_tokens s))))"

lemma put_token_finished [simp]: "finished (fst (put_token decode s t)) = finished s"
  by (auto simp: put_token_def Let_def commit_def split: prod.splits option.splits sum.splits)

lemma put_tokens_finished [simp]: "finished (fst (put_tokens decode s ts)) = finished s"
  by (induction ts arbitrary: s) (simp_all add: fst_then_text split: sum.splits)

lemma put_tokens_finishedD: "put_tokens decode s ts = (s', r) \<Longrightarrow> finished s' = finished s"
  using put_tokens_finished [of decode s ts] by simp

lemma put_tokens_append:
  "put_tokens decode s (xs @ ys) =
     then_text (put_tokens decode s xs) (\<lambda>s. put_tokens decode s ys)"
  by (induction xs arbitrary: s) (simp_all add: then_text_assoc)

text \<open>The native streamer provides the interface, whatever the tokenizer decodes.\<close>

interpretation native: text_streamer
  "streamer_put decode" "streamer_finish decode" "\<lambda>s. \<not> finished s"
  for decode :: "int list \<Rightarrow> string"
proof unfold_locales
  fix s :: native_streamer and xs ys :: "int list"
  assume op: "\<not> finished s"
  show "streamer_put decode s [] = (s, Inr [])"
    using op by (simp add: streamer_put_def)
  show "\<not> finished (fst (streamer_put decode s xs))"
    using op by (simp add: streamer_put_def)
  show "streamer_put decode s (xs @ ys) =
      then_text (streamer_put decode s xs) (\<lambda>s. streamer_put decode s ys)"
    using op unfolding streamer_put_def
    by (simp add: put_tokens_append) (intro then_text_cong, auto dest: put_tokens_finishedD)
qed (simp_all add: streamer_finish_def streamer_put_def Let_def)

section \<open>Properties\<close>


text \<open>A decoder that renders token \<open>k\<close> as the byte \<open>k\<close>.\<close>

definition byte_decode :: "int list \<Rightarrow> string" where
  "byte_decode ids = map (\<lambda>k. char_of (nat k)) ids"


end
