(* ===== verification/Request_Stream.thy ===== *)
theory Request_Stream
  imports Engine_Utils Text_Streamer
begin

text \<open>
  The streaming core of \<open>serve/engine_base.py\<close> and \<open>serve/engine.py\<close>: the per-request stream
  (\<open>AsyncRequestStream\<close>), the engine state shared between the callbacks of the native engine
  and the generators (\<open>EngineState\<close>), the async and sync callbacks, and the two \<open>_generate\<close>
  generators. Stream objects are shared by reference, so they live in a store
  (\<open>es_streams\<close>, an index per object); \<open>async_streamers\<close> maps a request id to a store index and
  the text streamers of the request. The native engine's entry points are recorded in a log
  (\<open>es_ffi\<close>). The text streamer operations \<open>put\<close> and \<open>fin\<close> are arguments.
\<close>

section \<open>The request stream\<close>

record callback_stream_output =
  co_delta_text :: string
  co_delta_logprob_json_strs :: "string list option"
  co_finish_reason :: "string option"
  co_request_final_usage_json_str :: "string option"

datatype stream_item =
    Outputs "callback_stream_output list"
  | Exc py_error
  | StopIter

record async_request_stream =
  ars_queue :: "stream_item list"
  ars_finished :: bool

definition new_stream :: async_request_stream where
  "new_stream = \<lparr>ars_queue = [], ars_finished = False\<rparr>"

definition finished_error :: py_error where
  "finished_error = RuntimeError
     ''The request has already finished. The stream is not supposed to accept new items.''"

definition stream_push :: "stream_item \<Rightarrow> async_request_stream \<Rightarrow> async_request_stream" where
  "stream_push item s =
     (if ars_finished s then s\<lparr>ars_queue := ars_queue s @ [Exc finished_error]\<rparr>
      else s\<lparr>ars_queue := ars_queue s @ [item]\<rparr>)"

definition stream_finish :: "async_request_stream \<Rightarrow> async_request_stream" where
  "stream_finish s = s\<lparr>ars_queue := ars_queue s @ [StopIter], ars_finished := True\<rparr>"

text \<open>
  \<open>__anext__\<close>: take the first item and return it or raise. \<open>None\<close>: the queue is empty and the
  caller waits.
\<close>

definition stream_anext ::
    "async_request_stream \<Rightarrow> (async_request_stream \<times> callback_stream_output list res) option" where
  "stream_anext s =
     (case ars_queue s of
        [] \<Rightarrow> None
      | item # q \<Rightarrow>
          Some (s\<lparr>ars_queue := q\<rparr>,
            (case item of
               Outputs outs \<Rightarrow> Inr outs
             | Exc e \<Rightarrow> Inl e
             | StopIter \<Rightarrow> Inl StopAsyncIteration)))"

section \<open>The engine state\<close>

datatype ffi_call =
    AddRequest string
  | AbortRequest string
  | ExitBackgroundLoop
  | JoinThreads
  | ResetEngine

record 's engine_state =
  es_trace :: "(string \<times> string) list option"
  es_event_loop :: bool
  es_scheduled :: "request_stream_output list list"
  es_async_streamers :: "(string \<times> nat \<times> 's list) list"
  es_streams :: "async_request_stream list"
  es_sync_output_queue :: "request_stream_output list list"
  es_sync_text_streamers :: "'s list"
  es_ffi :: "ffi_call list"
  es_terminated :: bool

definition engine_state_init :: "bool \<Rightarrow> 's engine_state" where
  "engine_state_init enable_tracing =
     \<lparr>es_trace = (if enable_tracing then Some [] else None), es_event_loop = False,
      es_scheduled = [], es_async_streamers = [], es_streams = [], es_sync_output_queue = [],
      es_sync_text_streamers = [], es_ffi = [], es_terminated = False\<rparr>"

definition record_event :: "string \<Rightarrow> string \<Rightarrow> 's engine_state \<Rightarrow> 's engine_state" where
  "record_event request_id event st =
     (case es_trace st of
        None \<Rightarrow> st
      | Some tr \<Rightarrow> st\<lparr>es_trace := Some (tr @ [(request_id, event)])\<rparr>)"

fun record_events :: "string \<Rightarrow> string list \<Rightarrow> 's engine_state \<Rightarrow> 's engine_state" where
  "record_events request_id [] st = st"
| "record_events request_id (e # es) st = record_events request_id es (record_event request_id e st)"

definition async_lazy_init_event_loop :: "'s engine_state \<Rightarrow> 's engine_state" where
  "async_lazy_init_event_loop st = st\<lparr>es_event_loop := True\<rparr>"

definition update_stream ::
    "nat \<Rightarrow> (async_request_stream \<Rightarrow> async_request_stream) \<Rightarrow> 's engine_state \<Rightarrow> 's engine_state" where
  "update_stream r f st =
     (if r < length (es_streams st)
      then st\<lparr>es_streams := (es_streams st)[r := f (es_streams st ! r)]\<rparr> else st)"

text \<open>
  The detokenization loop over \<open>zip(stream_outputs, text_streamers)\<close>: the events it records,
  the streamers it leaves (they are mutated in place), and the outputs or the exception.
\<close>

fun detok_loop ::
    "'s put_fn \<Rightarrow> 's finish_fn \<Rightarrow> single_request_stream_output list \<Rightarrow> 's list \<Rightarrow>
     string list \<times> 's list \<times> callback_stream_output list res" where
  "detok_loop put fin (out # outs) (s # ss) =
     (case detokenize put fin s out of
        (s', Inl e) \<Rightarrow> ([''start detokenization''], s' # ss, Inl e)
      | (s', Inr txt) \<Rightarrow>
          (case detok_loop put fin outs ss of
             (evs, ss', r) \<Rightarrow>
               (''start detokenization'' # ''finish detokenization'' # evs, s' # ss',
                bindR r (\<lambda>cs. Inr
                  (\<lparr>co_delta_text = txt,
                    co_delta_logprob_json_strs = so_delta_logprob_json_strs out,
                    co_finish_reason = so_finish_reason out,
                    co_request_final_usage_json_str = None\<rparr> # cs)))))"
| "detok_loop put fin _ ss = ([], ss, Inr [])"

definition usage_chunk :: "string option \<Rightarrow> callback_stream_output" where
  "usage_chunk u =
     \<lparr>co_delta_text = [], co_delta_logprob_json_strs = None, co_finish_reason = None,
      co_request_final_usage_json_str = u\<rparr>"

text \<open>One iteration of \<open>_async_request_stream_callback_impl\<close>, for one delta output.\<close>

definition async_callback_one ::
    "'s put_fn \<Rightarrow> 's finish_fn \<Rightarrow> request_stream_output \<Rightarrow> 's engine_state \<Rightarrow>
     's engine_state \<times> py_error option" where
  "async_callback_one put fin delta st =
     (case unpack delta of
        Inl e \<Rightarrow> (st, Some e)
      | Inr (request_id, stream_outputs) \<Rightarrow>
          (case dict_get (es_async_streamers st) request_id of
             None \<Rightarrow> (st, None)
           | Some (stream, text_streamers) \<Rightarrow>
               (let st = record_event request_id ''start callback'' st in
                case stream_outputs of
                  [] \<Rightarrow> (st, Some IndexError)
                | out # _ \<Rightarrow>
                    if so_request_final_usage_json_str out \<noteq> None then
                      (let st = update_stream stream (stream_push
                                  (Outputs [usage_chunk (so_request_final_usage_json_str out)])) st;
                           st = update_stream stream stream_finish st
                       in (st\<lparr>es_async_streamers := dict_pop (es_async_streamers st) request_id\<rparr>,
                           None))
                    else
                      (case detok_loop put fin stream_outputs text_streamers of
                         (evs, ss, r) \<Rightarrow>
                           (let st = record_events request_id evs st;
                                st = st\<lparr>es_async_streamers :=
                                  dict_set (es_async_streamers st) request_id (stream, ss)\<rparr>
                            in case r of
                                 Inl e \<Rightarrow> (st, Some e)
                               | Inr outs \<Rightarrow>
                                   (record_event request_id ''finish callback''
                                      (update_stream stream (stream_push (Outputs outs)) st),
                                    None))))))"

fun async_request_stream_callback_impl ::
    "'s put_fn \<Rightarrow> 's finish_fn \<Rightarrow> request_stream_output list \<Rightarrow> 's engine_state \<Rightarrow>
     's engine_state \<times> py_error option" where
  "async_request_stream_callback_impl put fin [] st = (st, None)"
| "async_request_stream_callback_impl put fin (d # ds) st =
     (case async_callback_one put fin d st of
        (st', Some e) \<Rightarrow> (st', Some e)
      | (st', None) \<Rightarrow> async_request_stream_callback_impl put fin ds st')"

text \<open>
  \<open>_async_request_stream_callback\<close> schedules the implementation in the event loop, which runs
  the scheduled calls in order; an exception of a scheduled call ends that call only.
\<close>

definition async_request_stream_callback ::
    "request_stream_output list \<Rightarrow> 's engine_state \<Rightarrow> 's engine_state res" where
  "async_request_stream_callback ds st =
     (if es_event_loop st then Inr (st\<lparr>es_scheduled := es_scheduled st @ [ds]\<rparr>)
      else Inl AttributeError)"

definition run_scheduled ::
    "'s put_fn \<Rightarrow> 's finish_fn \<Rightarrow> 's engine_state \<Rightarrow> 's engine_state" where
  "run_scheduled put fin st =
     (case es_scheduled st of
        [] \<Rightarrow> st
      | ds # rest \<Rightarrow>
          fst (async_request_stream_callback_impl put fin ds (st\<lparr>es_scheduled := rest\<rparr>)))"

definition sync_request_stream_callback ::
    "request_stream_output list \<Rightarrow> 's engine_state \<Rightarrow> 's engine_state" where
  "sync_request_stream_callback ds st =
     st\<lparr>es_sync_output_queue := es_sync_output_queue st @ [ds]\<rparr>"

section \<open>The async generator\<close>

definition duplicate_error :: "string \<Rightarrow> py_error" where
  "duplicate_error request_id = RuntimeError
     (''The request id '' @ [CHR 0x22] @ request_id @
      '' already exists. Please make sure the request id is unique.'' @ [CHR 0x22])"

definition ffi :: "ffi_call \<Rightarrow> 's engine_state \<Rightarrow> 's engine_state" where
  "ffi c st = st\<lparr>es_ffi := es_ffi st @ [c]\<rparr>"

text \<open>\<open>AsyncMLCEngine._abort\<close>.\<close>

definition async_abort :: "string \<Rightarrow> 's engine_state \<Rightarrow> 's engine_state" where
  "async_abort request_id st =
     ffi (AbortRequest request_id)
       (st\<lparr>es_async_streamers := dict_pop (es_async_streamers st) request_id\<rparr>)"

text \<open>
  The part of \<open>AsyncMLCEngine._generate\<close> before its loop: on success the index of the stream
  the loop iterates over.
\<close>

definition async_generate_start ::
    "'s \<Rightarrow> 'img elem \<Rightarrow> generation_config \<Rightarrow> string \<Rightarrow> 's engine_state \<Rightarrow>
     's engine_state \<times> nat res" where
  "async_generate_start new_streamer prompt cfg request_id st =
     (if es_terminated st
      then (st, Inl (ValueError ''The AsyncThreadedEngine has terminated.''))
      else
        let st = async_lazy_init_event_loop st in
        case convert_prompts_to_data prompt of
          Inl e \<Rightarrow> (st, Inl e)
        | Inr input_data \<Rightarrow>
            (let stream = length (es_streams st) in
             if dict_get (es_async_streamers st) request_id \<noteq> None
             then (st\<lparr>es_streams :=
                     es_streams st @ [stream_push (Exc (duplicate_error request_id)) new_stream]\<rparr>, Inr stream)
             else
               (ffi (AddRequest request_id)
                 (st\<lparr>es_streams := es_streams st @ [new_stream],
                     es_async_streamers := dict_set (es_async_streamers st) request_id
                       (stream, replicate (nat (gc_n cfg)) new_streamer)\<rparr>), Inr stream)))"

text \<open>A running generator: the values it has yielded and, once it is over, how it ended.\<close>

record client =
  cl_request_id :: string
  cl_stream :: nat
  cl_delivered :: "callback_stream_output list list"
  cl_end :: "gen_end option"

text \<open>
  One iteration of the loop. The loop body is inside an \<open>ErrorCleanupScope\<close> that aborts the
  request when an exception leaves it; \<open>StopAsyncIteration\<close> ends the loop normally.
\<close>

definition async_generate_next ::
    "client \<Rightarrow> 's engine_state \<Rightarrow> client \<times> 's engine_state" where
  "async_generate_next c st =
     (case stream_anext (es_streams st ! cl_stream c) of
        None \<Rightarrow> (c, st)
      | Some (s', r) \<Rightarrow>
          (let st = update_stream (cl_stream c) (\<lambda>_. s') st in
           case r of
             Inr outs \<Rightarrow> (c\<lparr>cl_delivered := cl_delivered c @ [outs]\<rparr>, st)
           | Inl e \<Rightarrow>
               if e = StopAsyncIteration
               then (c\<lparr>cl_end := Some Returned\<rparr>,
                     error_cleanup_exit None (async_abort (cl_request_id c)) st)
               else (c\<lparr>cl_end := Some (Raised e)\<rparr>,
                     error_cleanup_exit (Some e) (async_abort (cl_request_id c)) st)))"

text \<open>The generator is closed, or its task cancelled, while it is suspended in the loop.\<close>

definition async_generate_close ::
    "py_error \<Rightarrow> client \<Rightarrow> 's engine_state \<Rightarrow> client \<times> 's engine_state" where
  "async_generate_close e c st =
     (c\<lparr>cl_end := Some (Raised e)\<rparr>,
      error_cleanup_exit (Some e) (async_abort (cl_request_id c)) st)"

section \<open>The sync generator\<close>

text \<open>\<open>MLCEngine._request_stream_callback_impl\<close>.\<close>

fun sync_request_stream_callback_impl ::
    "'s put_fn \<Rightarrow> 's finish_fn \<Rightarrow> request_stream_output list \<Rightarrow> 's engine_state \<Rightarrow>
     's engine_state \<times> (callback_stream_output list list \<times> string option) res" where
  "sync_request_stream_callback_impl put fin [] st = (st, Inr ([], None))"
| "sync_request_stream_callback_impl put fin (delta # ds) st =
     (case unpack delta of
        Inl e \<Rightarrow> (st, Inl e)
      | Inr (request_id, stream_outputs) \<Rightarrow>
          (let st = record_event request_id ''start callback'' st in
           case stream_outputs of
             [] \<Rightarrow> (st, Inl IndexError)
           | out # _ \<Rightarrow>
               if so_request_final_usage_json_str out \<noteq> None
               then (st, Inr ([], so_request_final_usage_json_str out))
               else
                 (case detok_loop put fin stream_outputs (es_sync_text_streamers st) of
                    (evs, ss, r) \<Rightarrow>
                      (let st = (record_events request_id evs st)\<lparr>es_sync_text_streamers := ss\<rparr>
                       in case r of
                            Inl e \<Rightarrow> (st, Inl e)
                          | Inr outs \<Rightarrow>
                              (case sync_request_stream_callback_impl put fin ds
                                      (record_event request_id ''finish callback'' st) of
                                 (st', Inl e) \<Rightarrow> (st', Inl e)
                               | (st', Inr (batch, u)) \<Rightarrow> (st', Inr (outs # batch, u)))))))"

text \<open>\<open>MLCEngine.abort\<close>.\<close>

definition sync_abort :: "string \<Rightarrow> 's engine_state \<Rightarrow> 's engine_state" where
  "sync_abort request_id st = ffi (AbortRequest request_id) st"

text \<open>The sync generator is closed while it is suspended at a \<open>yield\<close>.\<close>

definition sync_generate_close :: "string \<Rightarrow> 's engine_state \<Rightarrow> 's engine_state" where
  "sync_generate_close request_id st =
     error_cleanup_exit (Some GeneratorExit) (sync_abort request_id) st"

text \<open>
  The loop of \<open>MLCEngine._generate\<close> over the batches the native engine puts into the queue:
  what it yields, how it ends, and the state. It stops at the first usage chunk; when the
  batches run out it waits.
\<close>

fun sync_generate_loop ::
    "'s put_fn \<Rightarrow> 's finish_fn \<Rightarrow> string \<Rightarrow> request_stream_output list list \<Rightarrow> 's engine_state \<Rightarrow>
     callback_stream_output list gen \<times> 's engine_state" where
  "sync_generate_loop put fin request_id [] st = (([], Blocked), st)"
| "sync_generate_loop put fin request_id (ds # dss) st =
     (case sync_request_stream_callback_impl put fin ds st of
        (st', Inl e) \<Rightarrow>
          (([], Raised e), error_cleanup_exit (Some e) (sync_abort request_id) st')
      | (st', Inr (outs, Some u)) \<Rightarrow>
          ((outs @ [[usage_chunk (Some u)]], Returned),
           error_cleanup_exit None (sync_abort request_id) st')
      | (st', Inr (outs, None)) \<Rightarrow>
          (case sync_generate_loop put fin request_id dss st' of
             ((ys, en), st'') \<Rightarrow> ((outs @ ys, en), st'')))"

definition sync_generate ::
    "'s put_fn \<Rightarrow> 's finish_fn \<Rightarrow> 's \<Rightarrow> 'img elem \<Rightarrow> generation_config \<Rightarrow> string \<Rightarrow>
     request_stream_output list list \<Rightarrow> 's engine_state \<Rightarrow>
     callback_stream_output list gen \<times> 's engine_state" where
  "sync_generate put fin new_streamer prompt cfg request_id batches st =
     (if es_terminated st then (([], Raised (ValueError ''The engine has terminated.'')), st)
      else case convert_prompts_to_data prompt of
        Inl e \<Rightarrow> (([], Raised e), st)
      | Inr input_data \<Rightarrow>
          sync_generate_loop put fin request_id batches
            (ffi (AddRequest request_id)
              (st\<lparr>es_sync_output_queue := [],
                  es_sync_text_streamers := replicate (nat (gc_n cfg)) new_streamer\<rparr>)))"

end
