(* ===== verification/Stream_Output.thy ===== *)
theory Stream_Output
  imports Request_Stream
begin

text \<open>
  The second half of \<open>serve/engine_base.py\<close>: the processing of a request before it is handed
  to \<open>_generate\<close>, the conversion of the chunks of \<open>_generate\<close> into OpenAI API responses, and the
  function-call output. pydantic's JSON decoding (\<open>model_validate_json\<close>) and Python's \<open>ast\<close>
  module are arguments. The engine state is threaded for its event trace; it is returned also
  when the code raises.
\<close>

section \<open>Requests\<close>

type_synonym ('s, 'a) run = "'s engine_state \<times> 'a res"

definition bindS :: "('s, 'a) run \<Rightarrow> ('s engine_state \<Rightarrow> 'a \<Rightarrow> ('s, 'b) run) \<Rightarrow> ('s, 'b) run" where
  "bindS m k = (case m of (st, Inl e) \<Rightarrow> (st, Inl e) | (st, Inr x) \<Rightarrow> k st x)"

lemma bindS_simps [simp]:
  "bindS (st, Inl e) k = (st, Inl e)"
  "bindS (st, Inr x) k = k st x"
  by (simp_all add: bindS_def)

lemma bindS_eq_Inr_iff [res_simps]:
  "bindS m k = (st', Inr y) \<longleftrightarrow> (\<exists>st x. m = (st, Inr x) \<and> k st x = (st', Inr y))"
  by (cases m; cases "snd m") (auto simp: bindS_def)

text \<open>The loop over the messages of a request, which fills the conversation template.\<close>

fun add_messages :: "chat_completion_message list \<Rightarrow> conversation \<Rightarrow> conversation res" where
  "add_messages [] cv = Inr cv"
| "add_messages (m # ms) cv =
     (if cm_role m = ''system'' then
        (case cm_content m of
           Some (Text s) \<Rightarrow> add_messages ms (cv\<lparr>system_message := s\<rparr>)
         | _ \<Rightarrow> Inl AssertionError)
      else add_messages ms (cv\<lparr>messages := messages cv @ [(cm_role m, cm_content m)]\<rparr>))"

definition add_system_prefix :: "int list option \<Rightarrow> 'img prompt list \<Rightarrow> 'img prompt list res" where
  "add_system_prefix prefix_ids prompts =
     (case prefix_ids of
        None \<Rightarrow> Inr prompts
      | Some ids \<Rightarrow>
          (case prompts of
             [] \<Rightarrow> Inl IndexError
           | Toks ts # ps \<Rightarrow> Inr (Toks (ids @ ts) # ps)
           | Img im sz # ps \<Rightarrow> Inr (Toks ids # Img im sz # ps)))"

record 'img processed_chat =
  pc_prompts :: "'img prompt list"
  pc_generation_cfg :: generation_config
  pc_use_function_calling :: bool
  pc_prompt_length :: int
  pc_conv_template :: conversation
  pc_request :: chat_completion_request

text \<open>
  \<open>process_chat_completion_request\<close>. The record also holds what the call leaves in its
  arguments: the conversation template and the request (its stop list may be extended).
\<close>

definition process_chat_completion_request ::
    "(chat_function \<Rightarrow> string) \<Rightarrow> (chat_function list \<Rightarrow> string) \<Rightarrow> 'img image_io \<Rightarrow>
     chat_completion_request \<Rightarrow> string \<Rightarrow> 's engine_state \<Rightarrow> json dict option \<Rightarrow>
     (string \<Rightarrow> int list) \<Rightarrow> int \<Rightarrow> conversation \<Rightarrow> ('s, 'img processed_chat) run" where
  "process_chat_completion_request dump dumps io request request_id st model_config f_tokenize
     max_input_sequence_length cv =
     (let st = record_event request_id ''receive request'' st in
      bindS (st, bindR (check_unsupported_fields (ChatCompletion request)) (\<lambda>_.
                 bindR (check_message_validity request) (\<lambda>_.
                 bindR (check_function_call_usage dump dumps request cv) (\<lambda>cv.
                 add_messages (cc_messages request) cv)))) (\<lambda>st cv.
      let cv = cv\<lparr>messages := messages cv @ [(''assistant'', None)]\<rparr>;
          st = record_event request_id ''start tokenization'' st in
      bindS (st, bindR (as_prompt io model_config cv) (\<lambda>items.
                 process_prompts (EList (map elem_of_item items)) f_tokenize)) (\<lambda>st prompts.
      let st = record_event request_id ''finish tokenization'' st in
      bindS (st, bindR (add_system_prefix (system_prefix_token_ids cv) prompts) (\<lambda>prompts.
                 bindR (check_and_get_prompts_length prompts max_input_sequence_length) (\<lambda>len.
                 Inr (prompts, len)))) (\<lambda>st (prompts, len).
      case get_generation_config (ChatCompletion request) (Some (stop_token_ids cv))
             (Some (stop_str cv)) of
        (cfg, r') \<Rightarrow>
          (st, Inr \<lparr>pc_prompts = prompts, pc_generation_cfg = cfg,
                    pc_use_function_calling = use_function_calling cv, pc_prompt_length = len,
                    pc_conv_template = cv,
                    pc_request = (case r' of ChatCompletion q \<Rightarrow> q | _ \<Rightarrow> request)\<rparr>)))))"

record processed_completion =
  pp_prompt :: "int list"
  pp_generation_cfg :: generation_config
  pp_prompt_length :: int
  pp_echo_response :: "completion_response option"
  pp_request :: completion_request

definition echo_response ::
    "(int list \<Rightarrow> string) \<Rightarrow> completion_request \<Rightarrow> string \<Rightarrow> int list \<Rightarrow> int \<Rightarrow>
     completion_response option res" where
  "echo_response decode request request_id prompt n =
     (if cr_echo request then
        bindR (mapR (\<lambda>i. mk_completion_choice i None (decode prompt) None) [0..<nat n])
          (\<lambda>cs. Inr (Some \<lparr>crs_id = request_id, crs_choices = cs, crs_model = cr_model request,
                          crs_usage = None\<rparr>))
      else Inr None)"

definition process_completion_request ::
    "completion_request \<Rightarrow> string \<Rightarrow> 's engine_state \<Rightarrow> (string \<Rightarrow> int list) \<Rightarrow>
     (int list \<Rightarrow> string) \<Rightarrow> int \<Rightarrow> conversation \<Rightarrow> ('s, processed_completion) run" where
  "process_completion_request request request_id st encode decode max_input_sequence_length cv =
     (let st = record_event request_id ''receive request'' st in
      bindS (st, check_unsupported_fields (Completion request)) (\<lambda>st _.
      let st = record_event request_id ''start tokenization'' st in
      bindS (st, process_prompts (elem_of_completion_prompt (cr_prompt request) :: string elem)
                   encode) (\<lambda>st prompts.
      let st = record_event request_id ''finish tokenization'' st in
      (st, bindR (check_and_get_prompts_length prompts max_input_sequence_length) (\<lambda>len.
           bindR (indexR prompts 0) (\<lambda>p.
           bindR (case p of Toks ts \<Rightarrow> Inr ts | _ \<Rightarrow> Inl AssertionError) (\<lambda>prompt.
           case get_generation_config (Completion request) (Some (stop_token_ids cv))
                  (Some (stop_str cv)) of
             (cfg, r') \<Rightarrow>
               bindR (echo_response decode request request_id prompt (gc_n cfg)) (\<lambda>echo.
               Inr \<lparr>pp_prompt = prompt, pp_generation_cfg = cfg, pp_prompt_length = len,
                    pp_echo_response = echo,
                    pp_request = (case r' of Completion q \<Rightarrow> q | _ \<Rightarrow> request)\<rparr>))))))))"

section \<open>Chunks to stream responses\<close>

text \<open>
  \<open>finish_reasons[i]\<close> is set by the first finish reason of generation \<open>i\<close>; the flag tells
  whether this chunk set it.
\<close>

definition note_finish ::
    "bool \<Rightarrow> string option list \<Rightarrow> nat \<Rightarrow> callback_stream_output \<Rightarrow> (string option list \<times> bool) res" where
  "note_finish use_fc frs i out =
     (case co_finish_reason out of
        None \<Rightarrow> Inr (frs, False)
      | Some fr \<Rightarrow>
          bindR (indexR frs i) (\<lambda>old.
            if old = None
            then Inr (frs[i := Some (if use_fc then ''tool_calls'' else fr)], True)
            else Inr (frs, False)))"

definition delta_log_probs ::
    "(string \<Rightarrow> log_probs_content res) \<Rightarrow> callback_stream_output \<Rightarrow> log_probs option res" where
  "delta_log_probs parse_lpc out =
     (case co_delta_logprob_json_strs out of
        None \<Rightarrow> Inr None
      | Some js \<Rightarrow> bindR (mapR parse_lpc js) (\<lambda>cs. Inr (Some \<lparr>lp_content = cs\<rparr>)))"

fun chat_choices ::
    "(string \<Rightarrow> log_probs_content res) \<Rightarrow> bool \<Rightarrow> string \<Rightarrow> nat \<Rightarrow> callback_stream_output list \<Rightarrow>
     string option list \<Rightarrow> 's engine_state \<Rightarrow>
     ('s, string option list \<times> chat_completion_stream_response_choice list) run" where
  "chat_choices parse_lpc use_fc request_id i [] frs st = (st, Inr (frs, []))"
| "chat_choices parse_lpc use_fc request_id i (out # outs) frs st =
     bindS (st, note_finish use_fc frs i out) (\<lambda>st (frs, updated).
       if \<not> updated \<and> co_delta_text out = [] then
         chat_choices parse_lpc use_fc request_id (i + 1) outs frs
           (record_event request_id ''skip empty delta text'' st)
       else
         bindS (st, bindR (indexR frs i) (\<lambda>fr.
                    bindR (delta_log_probs parse_lpc out) (\<lambda>lp.
                    mk_chat_stream_choice i fr
                      (assistant_message (Some (Text (co_delta_text out))) None) lp)))
           (\<lambda>st c.
         bindS (chat_choices parse_lpc use_fc request_id (i + 1) outs frs st)
           (\<lambda>st (frs, cs). (st, Inr (frs, c # cs)))))"

definition final_usage_wanted :: "bool \<Rightarrow> stream_options option \<Rightarrow> bool" where
  "final_usage_wanted stream so \<longleftrightarrow>
     \<not> stream \<or> (case so of None \<Rightarrow> False | Some s \<Rightarrow> include_usage s = Some True)"

definition process_chat_completion_stream_output ::
    "(string \<Rightarrow> log_probs_content res) \<Rightarrow> (string \<Rightarrow> completion_usage res) \<Rightarrow>
     callback_stream_output list \<Rightarrow> chat_completion_request \<Rightarrow> string \<Rightarrow> bool \<Rightarrow>
     string option list \<Rightarrow> 's engine_state \<Rightarrow>
     ('s, string option list \<times> chat_completion_stream_response option) run" where
  "process_chat_completion_stream_output parse_lpc parse_usage outs request request_id use_fc frs st =
     bindS (st, indexR outs 0) (\<lambda>st out.
       case co_request_final_usage_json_str out of
         Some u \<Rightarrow>
           if length outs \<noteq> 1 then (st, Inl AssertionError)
           else
             bindS (record_event request_id ''yield final usage'' st, parse_usage u) (\<lambda>st usage.
               (st, Inr (frs,
                  if final_usage_wanted (cc_stream request) (cc_stream_options request)
                  then Some \<lparr>csr_id = request_id, csr_choices = [], csr_model = cc_model request,
                             csr_usage = Some usage\<rparr>
                  else None)))
       | None \<Rightarrow>
           if int (length outs) \<noteq> cc_n request then (st, Inl AssertionError)
           else
             bindS (chat_choices parse_lpc use_fc request_id 0 outs frs st) (\<lambda>st (frs, choices).
               if choices = [] then (st, Inr (frs, None))
               else (record_event request_id ''yield delta output'' st,
                     Inr (frs, Some \<lparr>csr_id = request_id, csr_choices = choices,
                                     csr_model = cc_model request, csr_usage = None\<rparr>))))"

definition top_logprob_dict :: "top_log_probs list \<Rightarrow> pyfloat dict" where
  "top_logprob_dict tops = foldl (\<lambda>d t. dict_set d (tlp_token t) (tlp_logprob t)) [] tops"

definition get_logprobs_from_delta ::
    "(string \<Rightarrow> log_probs_content res) \<Rightarrow> string list \<Rightarrow> completion_log_probs res" where
  "get_logprobs_from_delta parse_lpc js =
     bindR (mapR parse_lpc js) (\<lambda>cs.
       Inr \<lparr>clp_text_offset = None, clp_token_logprobs = map lpc_logprob cs,
            clp_tokens = map lpc_token cs,
            clp_top_logprobs = map (\<lambda>c. top_logprob_dict (lpc_top_logprobs c)) cs\<rparr>)"

definition completion_log_probs_of ::
    "(string \<Rightarrow> log_probs_content res) \<Rightarrow> callback_stream_output \<Rightarrow> completion_log_probs option res" where
  "completion_log_probs_of parse_lpc out =
     (case co_delta_logprob_json_strs out of
        None \<Rightarrow> Inr None
      | Some js \<Rightarrow> bindR (get_logprobs_from_delta parse_lpc js) (\<lambda>lp. Inr (Some lp)))"

fun completion_choices ::
    "(string \<Rightarrow> log_probs_content res) \<Rightarrow> nat \<Rightarrow> callback_stream_output list \<Rightarrow>
     string option list \<Rightarrow> (string option list \<times> completion_response_choice list) res" where
  "completion_choices parse_lpc i [] frs = Inr (frs, [])"
| "completion_choices parse_lpc i (out # outs) frs =
     bindR (note_finish False frs i out) (\<lambda>(frs, updated).
       if \<not> updated \<and> co_delta_text out = [] then completion_choices parse_lpc (i + 1) outs frs
       else
         bindR (completion_log_probs_of parse_lpc out) (\<lambda>lp.
         bindR (indexR frs i) (\<lambda>fr.
         bindR (mk_completion_choice i fr (co_delta_text out) lp) (\<lambda>c.
         bindR (completion_choices parse_lpc (i + 1) outs frs) (\<lambda>(frs, cs).
         Inr (frs, c # cs))))))"

definition process_completion_stream_output ::
    "(string \<Rightarrow> log_probs_content res) \<Rightarrow> (string \<Rightarrow> completion_usage res) \<Rightarrow>
     callback_stream_output list \<Rightarrow> completion_request \<Rightarrow> string \<Rightarrow>
     string option list \<Rightarrow> 's engine_state \<Rightarrow>
     ('s, string option list \<times> completion_response option) run" where
  "process_completion_stream_output parse_lpc parse_usage outs request request_id frs st =
     bindS (st, indexR outs 0) (\<lambda>st out.
       case co_request_final_usage_json_str out of
         Some u \<Rightarrow>
           if length outs \<noteq> 1 then (st, Inl AssertionError)
           else
             bindS (record_event request_id ''yield final usage'' st, parse_usage u) (\<lambda>st usage.
               (st, Inr (frs,
                  if final_usage_wanted (cr_stream request) (cr_stream_options request)
                  then Some \<lparr>crs_id = request_id, crs_choices = [], crs_model = cr_model request,
                             crs_usage = Some usage\<rparr>
                  else None)))
       | None \<Rightarrow>
           if int (length outs) \<noteq> cr_n request then (st, Inl AssertionError)
           else
             bindS (st, completion_choices parse_lpc 0 outs frs) (\<lambda>st (frs, choices).
               if choices = [] then (st, Inr (frs, None))
               else (record_event request_id ''yield delta output'' st,
                     Inr (frs, Some \<lparr>crs_id = request_id, crs_choices = choices,
                                     crs_model = cr_model request, crs_usage = None\<rparr>))))"

definition create_completion_suffix_response ::
    "completion_request \<Rightarrow> string \<Rightarrow> string option list \<Rightarrow> completion_response option res" where
  "create_completion_suffix_response request request_id frs =
     (case cr_suffix request of
        None \<Rightarrow> Inr None
      | Some suf \<Rightarrow>
          if None \<in> set frs then Inl AssertionError
          else
            bindR (mapR (\<lambda>(i, fr). mk_completion_choice i fr suf None) (enumerate 0 frs))
              (\<lambda>cs. Inr (Some \<lparr>crs_id = request_id, crs_choices = cs,
                              crs_model = cr_model request, crs_usage = None\<rparr>)))"

section \<open>Function calls\<close>

text \<open>
  The shape of a parsed expression as far as the code looks at it: a call of a name with
  keyword arguments (the keyword of \<open>**d\<close> is \<open>None\<close>), or anything else. \<open>parse_eval\<close> stands for
  \<open>ast.parse(s, mode="eval").body\<close>, \<open>node_eval\<close> and \<open>text_eval\<close> for \<open>ast.literal_eval\<close> of a node
  and of a string.
\<close>

datatype 'e call_node = NameCall string "(string option \<times> 'e) list" | OtherNode

record 'e ast_io =
  parse_eval :: "string \<Rightarrow> 'e call_node res"
  node_eval :: "'e \<Rightarrow> json res"
  text_eval :: "string \<Rightarrow> json res"

text \<open>Iteration over a Python value.\<close>

definition json_iter :: "json \<Rightarrow> json list res" where
  "json_iter v =
     (case v of
        JList xs \<Rightarrow> Inr xs
      | JStr s \<Rightarrow> Inr (map (\<lambda>c. JStr [c]) s)
      | JObj d \<Rightarrow> Inr (map (\<lambda>p. JStr (fst p)) d)
      | _ \<Rightarrow> Inl TypeError)"

type_synonym fn_json = "string \<times> (string option \<times> json) list"

definition parse_function_call :: "'e ast_io \<Rightarrow> json \<Rightarrow> fn_json option res" where
  "parse_function_call ast call_str =
     (case call_str of
        JStr s \<Rightarrow>
          bindR (parse_eval ast s) (\<lambda>node.
            case node of
              NameCall name keywords \<Rightarrow>
                bindR (foldR (\<lambda>d (k, v). bindR (node_eval ast v) (\<lambda>x. Inr (dict_set d k x)))
                         [] keywords)
                  (\<lambda>arguments. Inr (Some (name, arguments)))
            | OtherNode \<Rightarrow> Inr None)
      | _ \<Rightarrow> Inl TypeError)"

definition convert_function_str_to_json :: "'e ast_io \<Rightarrow> string \<Rightarrow> fn_json option list res" where
  "convert_function_str_to_json ast calls_text =
     (case calls_text of
        [] \<Rightarrow> Inl IndexError
      | c # _ \<Rightarrow>
          bindR (if c = CHR ''['' \<and> last calls_text = CHR '']''
                 then bindR (text_eval ast calls_text) json_iter
                 else Inr [JStr calls_text])
            (\<lambda>calls. mapR (parse_function_call ast) calls))"

text \<open>The exceptions of the \<open>except (SyntaxError, ValueError)\<close> clause.\<close>

definition syntax_or_value_error :: "py_error \<Rightarrow> bool" where
  "syntax_or_value_error e =
     (case e of
        SyntaxError \<Rightarrow> True
      | ValueError _ \<Rightarrow> True
      | BadRequestError _ \<Rightarrow> True
      | ValidationError _ \<Rightarrow> True
      | _ \<Rightarrow> False)"

text \<open>\<open>ChatFunctionCall.arguments\<close> is a \<open>Dict[str, Any]\<close>: a \<open>None\<close> key is refused.\<close>

definition mk_tool_call :: "fn_json \<Rightarrow> chat_tool_call res" where
  "mk_tool_call f =
     (if None \<in> fst ` set (snd f) then Inl (ValidationError [BadArgumentKey])
      else Inr \<lparr>tc_type = ''function'',
                tc_function = \<lparr>fc_name = fst f,
                  fc_arguments = Some (map (\<lambda>(k, v). (the k, v)) (snd f))\<rparr>\<rparr>)"

definition invalid_call_text :: string where
  "invalid_call_text = ''Got an invalid function call output from model''"

fun function_call_loop ::
    "'e ast_io \<Rightarrow> nat \<Rightarrow> string list \<Rightarrow> string option list \<Rightarrow>
     (string list \<times> string option list \<times> chat_tool_call list list) res" where
  "function_call_loop ast i [] frs = Inr ([], frs, [])"
| "function_call_loop ast i (t # ts) frs =
     bindR (case convert_function_str_to_json ast t of
              Inl e \<Rightarrow>
                if syntax_or_value_error e
                then bindR (updateR frs i (Some ''error'')) (\<lambda>frs. Inr (t, frs, []))
                else Inl e
            | Inr fns \<Rightarrow>
                bindR (mapR mk_tool_call (List.map_filter (\<lambda>x. x) fns)) (\<lambda>calls.
                  if calls = []
                  then bindR (updateR frs i (Some ''error'')) (\<lambda>frs. Inr (invalid_call_text, frs, []))
                  else bindR (updateR frs i (Some ''tool_calls'')) (\<lambda>frs. Inr (t, frs, calls))))
       (\<lambda>(t', frs, calls).
     bindR (function_call_loop ast (i + 1) ts frs) (\<lambda>(ts', frs, rest).
     Inr (t' # ts', frs, calls # rest)))"

text \<open>
  The result: the texts and the finish reasons as the call leaves them (both lists are updated
  in place), whether the output has function calls, and the calls.
\<close>

definition process_function_call_output ::
    "'e ast_io \<Rightarrow> string list \<Rightarrow> string option list \<Rightarrow>
     (string list \<times> string option list \<times> bool \<times> chat_tool_call list list) res" where
  "process_function_call_output ast output_texts frs =
     (if Some ''tool_calls'' \<in> set frs
      then bindR (function_call_loop ast 0 output_texts frs)
             (\<lambda>(texts, frs, calls). Inr (texts, frs, True, calls))
      else Inr (output_texts, frs, False, map (\<lambda>_. []) output_texts))"

section \<open>Non-streaming responses\<close>

definition wrap_chat_completion_response ::
    "string \<Rightarrow> string option \<Rightarrow> string list \<Rightarrow> string option list \<Rightarrow> chat_tool_call list list \<Rightarrow>
     log_probs_content list list option \<Rightarrow> bool \<Rightarrow> completion_usage option \<Rightarrow>
     chat_completion_response res" where
  "wrap_chat_completion_response request_id model texts frs calls_list logprob_results use_fc usage =
     bindR (mapR (\<lambda>(i, txt, fr, calls).
              bindR (indexR frs i) (\<lambda>fr_i.
              bindR (case logprob_results of
                       None \<Rightarrow> Inr None
                     | Some l \<Rightarrow> bindR (indexR l i) (\<lambda>c. Inr (Some \<lparr>lp_content = c\<rparr>))) (\<lambda>lp.
              mk_chat_choice i fr_i
                (if \<not> use_fc \<or> fr = Some ''error''
                 then assistant_message (Some (Text txt)) None
                 else assistant_message None (Some calls)) lp)))
            (enumerate 0 (zip texts (zip frs calls_list))))
       (\<lambda>cs. Inr \<lparr>ccr_id = request_id, ccr_choices = cs, ccr_model = model, ccr_usage = usage\<rparr>)"

definition wrap_completion_response ::
    "string \<Rightarrow> string option \<Rightarrow> string list \<Rightarrow> string option list \<Rightarrow>
     completion_log_probs option list \<Rightarrow> completion_usage option \<Rightarrow> completion_response res" where
  "wrap_completion_response request_id model texts frs logprob_results usage =
     bindR (mapR (\<lambda>(i, txt, fr).
              bindR (indexR logprob_results i) (\<lambda>lp. mk_completion_choice i fr txt lp))
            (enumerate 0 (zip texts frs)))
       (\<lambda>cs. Inr \<lparr>crs_id = request_id, crs_choices = cs, crs_model = model, crs_usage = usage\<rparr>)"

end
