(* ===== verification/Stream_System.thy ===== *)
theory Stream_System
  imports Request_Stream
begin

text \<open>
  The async engine as a transition system. All Python code runs in one event loop, so the
  steps are: a client submits a request (\<open>_generate\<close> up to its loop), the native engine hands
  over a batch of delta outputs, the event loop runs a scheduled callback, a generator takes
  the next item of its stream, and a generator is closed or cancelled. The order of the steps
  is arbitrary. The theory proves an invariant of every reachable state and derives what a
  client may observe.
\<close>

section \<open>The system\<close>

text \<open>
  \<open>sys_clients\<close> are the generators whose loop was entered, \<open>sys_failed\<close> those that raised before
  it: request id, prompt and exception, of the Python code or of the native
  \<open>create_request\<close>, which may refuse a request with any exception. \<open>engine_terminate\<close> is
  \<open>MLCEngineBase.terminate\<close> on the constructed engine: the native loop is told to exit and both
  threads are joined. The relation still allows batches afterwards, which a joined thread
  does not send.
\<close>

datatype start_failure =
    StartRaised py_error
  | NativeRefused py_error

record 's sys =
  sys_engine :: "'s engine_state"
  sys_clients :: "client list"
  sys_failed :: "(string \<times> string elem \<times> start_failure) list"

definition engine_terminate :: "'s engine_state \<Rightarrow> 's engine_state" where
  "engine_terminate st =
     (if es_terminated st then st
      else ffi JoinThreads (ffi ExitBackgroundLoop (st\<lparr>es_terminated := True\<rparr>)))"

inductive engine_step ::
    "'s put_fn \<Rightarrow> 's finish_fn \<Rightarrow> 's \<Rightarrow> 's sys \<Rightarrow> 's sys \<Rightarrow> bool"
  for put :: "'s put_fn" and fin :: "'s finish_fn" and new_streamer :: 's where
  submit: "async_generate_start new_streamer (prompt :: string elem) cfg rid (sys_engine S)
       = (st, Inr r) \<Longrightarrow>
     engine_step put fin new_streamer S
       (S\<lparr>sys_engine := st,
        sys_clients := sys_clients S @
          [\<lparr>cl_request_id = rid, cl_stream = r, cl_delivered = [], cl_end = None\<rparr>]\<rparr>)"
| submit_error: "async_generate_start new_streamer (prompt :: string elem) cfg rid (sys_engine S)
       = (st, Inl e) \<Longrightarrow>
     engine_step put fin new_streamer S
       (S\<lparr>sys_engine := st, sys_failed := sys_failed S @ [(rid, prompt, StartRaised e)]\<rparr>)"
| submit_refused: "\<not> es_terminated (sys_engine S) \<Longrightarrow>
     convert_prompts_to_data prompt = Inr input \<Longrightarrow>
     engine_step put fin new_streamer S
       (S\<lparr>sys_engine := async_lazy_init_event_loop (sys_engine S),
          sys_failed := sys_failed S @ [(rid, prompt, NativeRefused e)]\<rparr>)"
| terminate_engine: "engine_step put fin new_streamer S
     (S\<lparr>sys_engine := engine_terminate (sys_engine S)\<rparr>)"
| backend: "async_request_stream_callback ds (sys_engine S) = Inr st \<Longrightarrow>
     engine_step put fin new_streamer S (S\<lparr>sys_engine := st\<rparr>)"
| event_loop: "engine_step put fin new_streamer S
     (S\<lparr>sys_engine := run_scheduled put fin (sys_engine S)\<rparr>)"
| consume: "i < length (sys_clients S) \<Longrightarrow> cl_end (sys_clients S ! i) = None \<Longrightarrow>
     async_generate_next (sys_clients S ! i) (sys_engine S) = (c, st) \<Longrightarrow>
     engine_step put fin new_streamer S
       (S\<lparr>sys_engine := st, sys_clients := (sys_clients S)[i := c]\<rparr>)"
| close: "i < length (sys_clients S) \<Longrightarrow> cl_end (sys_clients S ! i) = None \<Longrightarrow>
     e = GeneratorExit \<or> e = CancelledError \<Longrightarrow>
     async_generate_close e (sys_clients S ! i) (sys_engine S) = (c, st) \<Longrightarrow>
     engine_step put fin new_streamer S
       (S\<lparr>sys_engine := st, sys_clients := (sys_clients S)[i := c]\<rparr>)"

inductive engine_reachable :: "'s put_fn \<Rightarrow> 's finish_fn \<Rightarrow> 's \<Rightarrow> 's sys \<Rightarrow> bool"
  for put :: "'s put_fn" and fin :: "'s finish_fn" and new_streamer :: 's where
  start: "engine_reachable put fin new_streamer
     \<lparr>sys_engine = engine_state_init tracing, sys_clients = [], sys_failed = []\<rparr>"
| step: "engine_reachable put fin new_streamer S \<Longrightarrow> engine_step put fin new_streamer S T \<Longrightarrow>
     engine_reachable put fin new_streamer T"

section \<open>The invariant\<close>

definition is_outputs :: "stream_item \<Rightarrow> bool" where
  "is_outputs x = (case x of Outputs _ \<Rightarrow> True | _ \<Rightarrow> False)"

definition outputs_of :: "stream_item list \<Rightarrow> callback_stream_output list list" where
  "outputs_of q = List.map_filter (\<lambda>x. case x of Outputs os \<Rightarrow> Some os | _ \<Rightarrow> None) q"

text \<open>A queue holds outputs, possibly ended by the stop mark, or one duplicate-id error.\<close>

definition wf_stream :: "async_request_stream \<Rightarrow> bool" where
  "wf_stream s \<longleftrightarrow>
     list_all is_outputs (ars_queue s) \<or>
     (ars_finished s \<and> (\<exists>q. ars_queue s = q @ [StopIter] \<and> list_all is_outputs q)) \<or>
     (\<not> ars_finished s \<and> (\<exists>rid. ars_queue s = [Exc (duplicate_error rid)]))"

definition open_stream :: "async_request_stream \<Rightarrow> bool" where
  "open_stream s \<longleftrightarrow> \<not> ars_finished s \<and> list_all is_outputs (ars_queue s)"

definition streams_inv :: "(string \<times> nat \<times> 's list) list \<Rightarrow> async_request_stream list \<Rightarrow> bool" where
  "streams_inv d ss \<longleftrightarrow>
     (\<forall>rid r ts. dict_get d rid = Some (r, ts) \<longrightarrow> r < length ss \<and> open_stream (ss ! r)) \<and>
     (\<forall>rid rid' r ts ts'. dict_get d rid = Some (r, ts) \<longrightarrow> dict_get d rid' = Some (r, ts') \<longrightarrow>
        rid = rid') \<and>
     (\<forall>s \<in> set ss. wf_stream s)"

definition no_usage :: "callback_stream_output list \<Rightarrow> bool" where
  "no_usage os \<longleftrightarrow> (\<forall>c \<in> set os. co_request_final_usage_json_str c = None)"

text \<open>All chunks of a stream, delivered and queued; the usage chunk is the last one.\<close>

definition history :: "client \<Rightarrow> async_request_stream \<Rightarrow> callback_stream_output list list" where
  "history c s = cl_delivered c @ outputs_of (ars_queue s)"

definition history_ok :: "bool \<Rightarrow> callback_stream_output list list \<Rightarrow> bool" where
  "history_ok is_fin h \<longleftrightarrow>
     (if is_fin then \<exists>h' u. h = h' @ [[usage_chunk (Some u)]] \<and> (\<forall>os \<in> set h'. no_usage os)
      else \<forall>os \<in> set h. no_usage os)"

definition end_ok :: "client \<Rightarrow> async_request_stream \<Rightarrow> bool" where
  "end_ok c s \<longleftrightarrow>
     (case cl_end c of
        None \<Rightarrow> True
      | Some Returned \<Rightarrow> ars_finished s \<and> ars_queue s = []
      | Some (Raised e) \<Rightarrow> e \<in> {duplicate_error (cl_request_id c), GeneratorExit, CancelledError}
      | Some Blocked \<Rightarrow> False)"

definition client_inv :: "async_request_stream list \<Rightarrow> client \<Rightarrow> bool" where
  "client_inv ss c \<longleftrightarrow>
     cl_stream c < length ss \<and>
     (\<forall>e. Exc e \<in> set (ars_queue (ss ! cl_stream c)) \<longrightarrow>
        e = duplicate_error (cl_request_id c)) \<and>
     history_ok (ars_finished (ss ! cl_stream c)) (history c (ss ! cl_stream c)) \<and>
     end_ok c (ss ! cl_stream c)"

definition sys_inv :: "'s sys \<Rightarrow> bool" where
  "sys_inv S \<longleftrightarrow>
     streams_inv (es_async_streamers (sys_engine S)) (es_streams (sys_engine S)) \<and>
     distinct (map cl_stream (sys_clients S)) \<and>
     (\<forall>c \<in> set (sys_clients S). client_inv (es_streams (sys_engine S)) c)"

section \<open>Frame lemmas\<close>

lemma record_event_frame [simp]:
  "es_async_streamers (record_event rid e st) = es_async_streamers st"
  "es_streams (record_event rid e st) = es_streams st"
  "es_ffi (record_event rid e st) = es_ffi st"
  "es_sync_text_streamers (record_event rid e st) = es_sync_text_streamers st"
  by (simp_all add: record_event_def split: option.splits)

lemma record_events_frame [simp]:
  "es_async_streamers (record_events rid es st) = es_async_streamers st"
  "es_streams (record_events rid es st) = es_streams st"
  "es_ffi (record_events rid es st) = es_ffi st"
  "es_sync_text_streamers (record_events rid es st) = es_sync_text_streamers st"
  by (induction rid es st rule: record_events.induct) simp_all

lemma update_stream_frame [simp]:
  "es_async_streamers (update_stream r f st) = es_async_streamers st"
  "es_ffi (update_stream r f st) = es_ffi st"
  "length (es_streams (update_stream r f st)) = length (es_streams st)"
  by (simp_all add: update_stream_def)

lemma update_stream_streams:
  "r < length (es_streams st) \<Longrightarrow>
     es_streams (update_stream r f st) = (es_streams st)[r := f (es_streams st ! r)]"
  by (simp add: update_stream_def)

lemma async_abort_frame [simp]:
  "es_streams (async_abort rid st) = es_streams st"
  "es_async_streamers (async_abort rid st) = dict_pop (es_async_streamers st) rid"
  by (simp_all add: async_abort_def ffi_def)

lemma engine_terminate_frame [simp]:
  "es_streams (engine_terminate st) = es_streams st"
  "es_async_streamers (engine_terminate st) = es_async_streamers st"
  by (simp_all add: engine_terminate_def ffi_def)

lemma outputs_of_simps [simp]:
  "outputs_of [] = []"
  "outputs_of (Outputs os # q) = os # outputs_of q"
  "outputs_of (Exc e # q) = outputs_of q"
  "outputs_of (StopIter # q) = outputs_of q"
  "outputs_of (q @ q') = outputs_of q @ outputs_of q'"
  by (simp_all add: outputs_of_def List.map_filter_def)

lemma is_outputs_simps [simp]:
  "is_outputs (Outputs os)" "\<not> is_outputs (Exc e)" "\<not> is_outputs StopIter"
  by (simp_all add: is_outputs_def)

lemma open_stream_wf: "open_stream s \<Longrightarrow> wf_stream s"
  by (simp add: open_stream_def wf_stream_def)

lemma streams_inv_pop: "streams_inv d ss \<Longrightarrow> streams_inv (dict_pop d rid) ss"
  unfolding streams_inv_def by auto

lemma streams_inv_set:
  "streams_inv d ss \<Longrightarrow> dict_get d rid = Some (r, ts) \<Longrightarrow> streams_inv (dict_set d rid (r, ts')) ss"
  unfolding streams_inv_def by (auto split: if_splits)

lemma streams_inv_push:
  assumes "streams_inv d ss" and "dict_get d rid = Some (r, ts)"
  shows "streams_inv d (ss[r := stream_push (Outputs os) (ss ! r)])"
proof -
  have "r < length ss" "open_stream (ss ! r)" using assms by (auto simp: streams_inv_def)
  then have "open_stream (stream_push (Outputs os) (ss ! r))"
    by (simp add: open_stream_def stream_push_def)
  with assms \<open>r < length ss\<close> show ?thesis
    unfolding streams_inv_def
    by (auto simp: nth_list_update dest!: set_update_subset_insert [THEN subsetD]
        intro: open_stream_wf)
qed

lemma streams_inv_regD:
  assumes "streams_inv d ss" and "dict_get d rid = Some (r, ts)"
  shows "r < length ss" "open_stream (ss ! r)"
  using assms by (auto simp: streams_inv_def)

lemma streams_inv_injD:
  "streams_inv d ss \<Longrightarrow> dict_get d rid = Some (r, ts) \<Longrightarrow> dict_get d rid' = Some (r, ts') \<Longrightarrow>
     rid = rid'"
  unfolding streams_inv_def by blast

lemma streams_inv_wfD: "streams_inv d ss \<Longrightarrow> s \<in> set ss \<Longrightarrow> wf_stream s"
  by (simp add: streams_inv_def)

lemma streams_invI:
  assumes "\<And>rid r ts. dict_get d rid = Some (r, ts) \<Longrightarrow> r < length ss \<and> open_stream (ss ! r)"
    and "\<And>rid rid' r ts ts'. dict_get d rid = Some (r, ts) \<Longrightarrow> dict_get d rid' = Some (r, ts') \<Longrightarrow>
      rid = rid'"
    and "\<And>s. s \<in> set ss \<Longrightarrow> wf_stream s"
  shows "streams_inv d ss"
  using assms unfolding streams_inv_def by blast

lemma streams_inv_finish:
  assumes inv: "streams_inv d ss" and reg: "dict_get d rid = Some (r, ts)"
  shows "streams_inv (dict_pop d rid)
     (ss[r := stream_finish (stream_push (Outputs os) (ss ! r))])"
proof (rule streams_invI)
  note r = streams_inv_regD [OF inv reg]
  show "r' < length (ss[r := stream_finish (stream_push (Outputs os) (ss ! r))]) \<and>
      open_stream (ss[r := stream_finish (stream_push (Outputs os) (ss ! r))] ! r')"
    if "dict_get (dict_pop d rid) rid' = Some (r', ts')" for rid' r' ts'
  proof -
    from that have *: "rid' \<noteq> rid" "dict_get d rid' = Some (r', ts')"
      by (auto split: if_splits)
    then have "r \<noteq> r'" using streams_inv_injD [OF inv reg] by blast
    then show ?thesis using streams_inv_regD [OF inv *(2)] by simp
  qed
  show "rid1 = rid2" if "dict_get (dict_pop d rid) rid1 = Some (r', ts1)"
    "dict_get (dict_pop d rid) rid2 = Some (r', ts2)" for rid1 rid2 r' ts1 ts2
    using that by (auto split: if_splits intro: streams_inv_injD [OF inv])
  have "wf_stream (stream_finish (stream_push (Outputs os) (ss ! r)))"
    using r(2) unfolding wf_stream_def
    by (auto simp: stream_finish_def stream_push_def open_stream_def)
  then show "wf_stream s" if "s \<in> set (ss[r := stream_finish (stream_push (Outputs os) (ss ! r))])"
    for s using set_list_updateD [OF that] streams_inv_wfD [OF inv] by auto
qed

lemma streams_inv_extend:
  assumes "streams_inv d ss" and "wf_stream s"
  shows "streams_inv d (ss @ [s])"
proof (rule streams_invI)
  show "r < length (ss @ [s]) \<and> open_stream ((ss @ [s]) ! r)"
    if "dict_get d rid = Some (r, ts)" for rid r ts
    using streams_inv_regD [OF assms(1) that] by (simp add: nth_append)
qed (use assms streams_inv_injD streams_inv_wfD in \<open>auto\<close>)

lemma streams_inv_register:
  assumes inv: "streams_inv d ss" and new: "dict_get d rid = None"
  shows "streams_inv (dict_set d rid (length ss, ts)) (ss @ [new_stream])"
proof (rule streams_invI)
  have opn: "open_stream new_stream" by (simp add: open_stream_def new_stream_def)
  show "r < length (ss @ [new_stream]) \<and> open_stream ((ss @ [new_stream]) ! r)"
    if "dict_get (dict_set d rid (length ss, ts)) rid' = Some (r, ts')" for rid' r ts'
    using that opn streams_inv_regD [OF inv] by (fastforce simp: nth_append split: if_splits)
  show "rid1 = rid2" if "dict_get (dict_set d rid (length ss, ts)) rid1 = Some (r, ts1)"
    "dict_get (dict_set d rid (length ss, ts)) rid2 = Some (r, ts2)" for rid1 rid2 r ts1 ts2
    using that by (auto split: if_splits dest: streams_inv_regD(1) [OF inv]
        intro: streams_inv_injD [OF inv])
  show "wf_stream s" if "s \<in> set (ss @ [new_stream])" for s
    using that opn open_stream_wf streams_inv_wfD [OF inv] by auto
qed

section \<open>Clients\<close>

text \<open>What the callbacks do to a stream: it grows by usage-free outputs, or it is finished.\<close>

inductive stream_ext :: "async_request_stream \<Rightarrow> async_request_stream \<Rightarrow> bool" where
  same: "stream_ext s s"
| push: "open_stream s \<Longrightarrow> no_usage os \<Longrightarrow> stream_ext s (stream_push (Outputs os) s)"
| finish: "open_stream s \<Longrightarrow>
     stream_ext s (stream_finish (stream_push (Outputs [usage_chunk (Some u)]) s))"

lemma list_all_is_outputs_Exc: "list_all is_outputs q \<Longrightarrow> Exc e \<notin> set q"
  by (auto simp: list_all_iff)

lemma client_inv_ext:
  assumes "client_inv ss c" and "length ss \<le> length ss'"
    and "stream_ext (ss ! cl_stream c) (ss' ! cl_stream c)"
  shows "client_inv ss' c"
  using assms(3)
proof cases
  case same
  then show ?thesis using assms(1,2) by (simp add: client_inv_def)
next
  case (push os)
  then show ?thesis using assms(1,2) list_all_is_outputs_Exc
    by (auto simp: client_inv_def end_ok_def history_ok_def history_def stream_push_def
        open_stream_def split: option.splits gen_end.splits)
next
  case (finish u)
  then show ?thesis using assms(1,2) list_all_is_outputs_Exc
    by (auto simp: client_inv_def end_ok_def history_ok_def history_def stream_push_def
        stream_finish_def open_stream_def split: option.splits gen_end.splits)
qed

lemma detok_loop_no_usage: "detok_loop put fin outs ss = (evs, ss', Inr cs) \<Longrightarrow> no_usage cs"
  by (induction put fin outs ss arbitrary: evs ss' cs rule: detok_loop.induct)
     (auto simp: no_usage_def res_simps split: prod.splits sum.splits)

text \<open>The part of the state the callbacks may change, with the two views of it.\<close>

definition callback_rel :: "'s engine_state \<Rightarrow> 's engine_state \<Rightarrow> bool" where
  "callback_rel st st' \<longleftrightarrow>
     streams_inv (es_async_streamers st') (es_streams st') \<and>
     length (es_streams st') = length (es_streams st) \<and>
     (\<forall>r < length (es_streams st). stream_ext (es_streams st ! r) (es_streams st' ! r))"

lemma callback_rel_nthI:
  assumes "streams_inv (es_async_streamers st') (es_streams st')"
    and "es_streams st' = (es_streams st)[r := s']" and "stream_ext (es_streams st ! r) s'"
  shows "callback_rel st st'"
proof -
  have "stream_ext (es_streams st ! r') ((es_streams st)[r := s'] ! r')"
    if "r' < length (es_streams st)" for r'
    using that assms(3) by (cases "r' = r") (auto intro: stream_ext.same)
  then show ?thesis using assms(1,2) by (simp add: callback_rel_def)
qed

lemma callback_rel_refl:
  "streams_inv (es_async_streamers st') (es_streams st) \<Longrightarrow> es_streams st' = es_streams st \<Longrightarrow>
     callback_rel st st'"
  by (simp add: callback_rel_def stream_ext.same)

lemma async_callback_one_rel:
  assumes inv: "streams_inv (es_async_streamers st) (es_streams st)"
    and run: "async_callback_one put fin d st = (st', e)"
  shows "callback_rel st st'"
proof (cases "unpack d")
  case (Inl err)
  then show ?thesis using run inv by (auto simp: async_callback_one_def intro: callback_rel_refl)
next
  case (Inr p)
  obtain rid outs where p: "p = (rid, outs)" by (cases p)
  note run = run [unfolded async_callback_one_def Inr p, simplified]
  show ?thesis
  proof (cases "dict_get (es_async_streamers st) rid")
    case None
    then show ?thesis using run inv by (auto intro: callback_rel_refl)
  next
    case (Some q)
    obtain r ts where q: "q = (r, ts)" by (cases q)
    note reg = Some [unfolded q]
    note r = streams_inv_regD [OF inv reg]
    show ?thesis
    proof (cases outs)
      case Nil
      then show ?thesis using run inv reg by (auto simp: Let_def intro: callback_rel_refl)
    next
      case (Cons out rest)
      show ?thesis
      proof (cases "so_request_final_usage_json_str out")
        case (Some u)
        then show ?thesis
          using run reg Cons r streams_inv_finish [OF inv reg]
          by (auto simp: Let_def update_stream_streams intro!: callback_rel_nthI stream_ext.finish)
      next
        case None
        obtain evs ss res where dl: "detok_loop put fin outs ts = (evs, ss, res)"
          by (cases "detok_loop put fin outs ts")
        note inv' = streams_inv_set [OF inv reg, of ss]
        show ?thesis
        proof (cases res)
          case (Inl err)
          then show ?thesis using run reg Cons None dl inv'
            by (auto simp: Let_def intro: callback_rel_refl)
        next
          case (Inr cs)
          have "stream_ext (es_streams st ! r) (stream_push (Outputs cs) (es_streams st ! r))"
            using r(2) detok_loop_no_usage dl Inr by (blast intro: stream_ext.push)
          then show ?thesis
            using run reg Cons None dl Inr r streams_inv_push [OF inv', of rid r ss cs]
            by (auto simp: Let_def update_stream_streams intro!: callback_rel_nthI)
        qed
      qed
    qed
  qed
qed

section \<open>Preservation\<close>

lemma sys_inv_callback:
  assumes "sys_inv S" and "callback_rel (sys_engine S) st'"
  shows "sys_inv (S\<lparr>sys_engine := st'\<rparr>)"
proof -
  let ?ss = "es_streams (sys_engine S)"
  have "client_inv (es_streams st') c" if "c \<in> set (sys_clients S)" for c
  proof -
    have c: "client_inv ?ss c" using assms(1) that by (simp add: sys_inv_def)
    then have "cl_stream c < length ?ss" by (simp add: client_inv_def)
    with c show ?thesis using assms(2) by (intro client_inv_ext [OF c]) (auto simp: callback_rel_def)
  qed
  then show ?thesis using assms by (simp add: sys_inv_def callback_rel_def)
qed

lemma sys_inv_impl:
  "sys_inv S \<Longrightarrow> async_request_stream_callback_impl put fin ds (sys_engine S) = (st', e) \<Longrightarrow>
     sys_inv (S\<lparr>sys_engine := st'\<rparr>)"
proof (induction ds arbitrary: S)
  case Nil
  then show ?case by (auto simp: sys_inv_def)
next
  case (Cons d ds)
  obtain st1 e1 where one: "async_callback_one put fin d (sys_engine S) = (st1, e1)"
    by (cases "async_callback_one put fin d (sys_engine S)")
  have "callback_rel (sys_engine S) st1"
    using Cons.prems(1) one by (auto simp: sys_inv_def intro: async_callback_one_rel)
  then have inv1: "sys_inv (S\<lparr>sys_engine := st1\<rparr>)" using Cons.prems(1) by (intro sys_inv_callback)
  then show ?case using Cons.prems(2) one Cons.IH [OF inv1] by (cases e1) auto
qed

lemma sys_inv_frame:
  "sys_inv S \<Longrightarrow> es_streams st' = es_streams (sys_engine S) \<Longrightarrow>
     es_async_streamers st' = es_async_streamers (sys_engine S) \<Longrightarrow>
     sys_inv (S\<lparr>sys_engine := st'\<rparr>)"
  by (simp add: sys_inv_def)

lemma sys_inv_abort: "sys_inv S \<Longrightarrow> sys_inv (S\<lparr>sys_engine := async_abort rid (sys_engine S)\<rparr>)"
  by (auto simp: sys_inv_def intro: streams_inv_pop)

text \<open>A new client on a fresh stream.\<close>

lemma sys_inv_new_client:
  assumes "sys_inv S" and "streams_inv d (es_streams (sys_engine S) @ [s])"
    and "client_inv (es_streams (sys_engine S) @ [s]) c"
    and "cl_stream c = length (es_streams (sys_engine S))"
    and "es_async_streamers st' = d" and "es_streams st' = es_streams (sys_engine S) @ [s]"
  shows "sys_inv (S\<lparr>sys_engine := st', sys_clients := sys_clients S @ [c]\<rparr>)"
proof -
  let ?ss = "es_streams (sys_engine S)"
  have old: "client_inv (?ss @ [s]) c' \<and> cl_stream c' \<noteq> length ?ss"
    if "c' \<in> set (sys_clients S)" for c'
  proof -
    have c': "client_inv ?ss c'" using assms(1) that by (simp add: sys_inv_def)
    then have "cl_stream c' < length ?ss" by (simp add: client_inv_def)
    with c' show ?thesis by (simp add: client_inv_def nth_append)
  qed
  then have "length ?ss \<notin> cl_stream ` set (sys_clients S)" by force
  then show ?thesis using assms old unfolding sys_inv_def by auto
qed

lemma start_inv:
  assumes inv: "sys_inv S"
    and run: "async_generate_start new_streamer prompt cfg rid (sys_engine S) = (st, Inr r)"
  shows "sys_inv (S\<lparr>sys_engine := st, sys_clients := sys_clients S @
     [\<lparr>cl_request_id = rid, cl_stream = r, cl_delivered = [], cl_end = None\<rparr>]\<rparr>)"
proof (cases "dict_get (es_async_streamers (sys_engine S)) rid")
  case None
  let ?ss = "es_streams (sys_engine S)"
  let ?d = "dict_set (es_async_streamers (sys_engine S)) rid
      (length ?ss, replicate (nat (gc_n cfg)) new_streamer)"
  have "streams_inv ?d (?ss @ [new_stream])"
    using inv None by (intro streams_inv_register) (auto simp: sys_inv_def)
  moreover have "es_async_streamers st = ?d" "es_streams st = ?ss @ [new_stream]" "r = length ?ss"
    using run None
    by (auto simp: async_generate_start_def async_lazy_init_event_loop_def ffi_def Let_def
        split: if_splits sum.splits)
  ultimately show ?thesis using inv
    by (intro sys_inv_new_client [where s = new_stream and d = ?d])
       (auto simp: client_inv_def history_ok_def history_def end_ok_def new_stream_def)
next
  case (Some p)
  let ?ss = "es_streams (sys_engine S)"
  let ?s = "stream_push (Exc (duplicate_error rid)) new_stream"
  let ?d = "es_async_streamers (sys_engine S)"
  have "wf_stream ?s" by (auto simp: wf_stream_def stream_push_def new_stream_def)
  then have "streams_inv ?d (?ss @ [?s])"
    using inv by (intro streams_inv_extend) (auto simp: sys_inv_def)
  moreover have "es_async_streamers st = ?d" "es_streams st = ?ss @ [?s]" "r = length ?ss"
    using run Some
    by (auto simp: async_generate_start_def async_lazy_init_event_loop_def Let_def
        split: if_splits sum.splits)
  ultimately show ?thesis using inv
    by (intro sys_inv_new_client [where s = ?s and d = ?d])
       (auto simp: client_inv_def history_ok_def history_def end_ok_def new_stream_def
         stream_push_def)
qed

lemma start_error_frame:
  assumes "async_generate_start new_streamer prompt cfg rid st = (st', Inl e)"
  shows "es_streams st' = es_streams st" "es_async_streamers st' = es_async_streamers st"
  using assms
  by (auto simp: async_generate_start_def async_lazy_init_event_loop_def Let_def
      split: if_splits sum.splits)

text \<open>A client that takes the first item of its stream; no other client has that stream.\<close>

lemma sys_inv_take:
  assumes inv: "sys_inv S" and i: "i < length (sys_clients S)"
    and q: "ars_queue (es_streams (sys_engine S) ! cl_stream (sys_clients S ! i)) = x # q"
    and c: "cl_stream c = cl_stream (sys_clients S ! i)"
    and c_inv: "client_inv ((es_streams (sys_engine S))[cl_stream c :=
      (es_streams (sys_engine S) ! cl_stream c)\<lparr>ars_queue := q\<rparr>]) c"
    and st': "es_streams st' = (es_streams (sys_engine S))[cl_stream c :=
      (es_streams (sys_engine S) ! cl_stream c)\<lparr>ars_queue := q\<rparr>]"
      "es_async_streamers st' = es_async_streamers (sys_engine S)"
  shows "sys_inv (S\<lparr>sys_engine := st', sys_clients := (sys_clients S)[i := c]\<rparr>)"
proof -
  let ?ss = "es_streams (sys_engine S)" and ?d = "es_async_streamers (sys_engine S)"
  let ?r = "cl_stream c" and ?cs = "sys_clients S"
  let ?s' = "(?ss ! ?r)\<lparr>ars_queue := q\<rparr>"
  have r: "?r < length ?ss" using inv i c by (auto simp: sys_inv_def client_inv_def)
  have sinv: "streams_inv ?d ?ss" using inv by (simp add: sys_inv_def)
  have wf': "wf_stream ?s'"
  proof -
    have "wf_stream (?ss ! ?r)" using streams_inv_wfD [OF sinv] r by simp
    then show ?thesis using q unfolding c [symmetric]
      by (auto simp: wf_stream_def append_eq_Cons_conv Cons_eq_append_conv)
  qed
  have op': "open_stream ?s'" if "open_stream (?ss ! ?r)"
    using that q unfolding c [symmetric] by (auto simp: open_stream_def)
  have "streams_inv ?d (?ss[?r := ?s'])"
  proof (rule streams_invI)
    show "k < length (?ss[?r := ?s']) \<and> open_stream (?ss[?r := ?s'] ! k)"
      if "dict_get ?d rid = Some (k, ts)" for rid k ts
      using streams_inv_regD [OF sinv that] op' r by (cases "k = ?r") auto
    show "rid = rid'" if "dict_get ?d rid = Some (k, ts)" "dict_get ?d rid' = Some (k, ts')"
      for rid rid' k ts ts' using streams_inv_injD [OF sinv that] .
    show "wf_stream s" if "s \<in> set (?ss[?r := ?s'])" for s
      using set_list_updateD [OF that] wf' streams_inv_wfD [OF sinv] by auto
  qed
  moreover have "client_inv (?ss[?r := ?s']) (?cs[i := c] ! k)" if "k < length ?cs" for k
  proof (cases "k = i")
    case True
    then show ?thesis using c_inv i by simp
  next
    case False
    have "cl_stream (?cs ! k) \<noteq> ?r"
      using inv that i False c by (auto simp: sys_inv_def distinct_conv_nth)
    moreover have "client_inv ?ss (?cs ! k)" using inv that by (simp add: sys_inv_def)
    ultimately show ?thesis using False by (simp add: client_inv_def)
  qed
  moreover have "map cl_stream (?cs[i := c]) = map cl_stream ?cs"
    using i c by (auto intro!: nth_equalityI simp: nth_list_update)
  ultimately show ?thesis using inv st' by (simp add: sys_inv_def all_set_conv_all_nth)
qed

lemma sys_inv_replace:
  assumes inv: "sys_inv S" and i: "i < length (sys_clients S)"
    and c: "cl_stream c = cl_stream (sys_clients S ! i)"
    and c_inv: "client_inv (es_streams (sys_engine S)) c"
  shows "sys_inv (S\<lparr>sys_clients := (sys_clients S)[i := c]\<rparr>)"
proof -
  have "map cl_stream ((sys_clients S)[i := c]) = map cl_stream (sys_clients S)"
    using i c by (auto intro!: nth_equalityI simp: nth_list_update)
  then show ?thesis using inv c_inv set_list_updateD [of _ "sys_clients S" i c]
    by (auto simp: sys_inv_def)
qed

lemma next_inv:
  assumes inv: "sys_inv S" and i: "i < length (sys_clients S)"
    and live: "cl_end (sys_clients S ! i) = None"
    and run: "async_generate_next (sys_clients S ! i) (sys_engine S) = (c, st)"
  shows "sys_inv (S\<lparr>sys_engine := st, sys_clients := (sys_clients S)[i := c]\<rparr>)"
proof -
  let ?c = "sys_clients S ! i" and ?st = "sys_engine S"
  let ?s = "es_streams ?st ! cl_stream ?c"
  have cinv: "client_inv (es_streams ?st) ?c" using inv i by (simp add: sys_inv_def)
  then have r: "cl_stream ?c < length (es_streams ?st)" by (simp add: client_inv_def)
  then have wf: "wf_stream ?s" using inv by (simp add: sys_inv_def streams_inv_def)
  show ?thesis
  proof (cases "ars_queue ?s")
    case Nil
    then have "c = ?c" "st = ?st" using run by (auto simp: async_generate_next_def stream_anext_def)
    then show ?thesis using inv by (simp add: sys_inv_def)
  next
    case (Cons x q)
    let ?st1 = "update_stream (cl_stream ?c) (\<lambda>_. ?s\<lparr>ars_queue := q\<rparr>) ?st"
    note st1 = update_stream_streams [OF r]
    have step: "sys_inv (S\<lparr>sys_engine := ?st1, sys_clients := (sys_clients S)[i := c']\<rparr>)"
      if "client_inv (es_streams ?st1) c'" "cl_stream c' = cl_stream ?c" for c'
      using that by (intro sys_inv_take [OF inv i Cons, of c']) (simp_all add: st1)
    show ?thesis
    proof (cases x)
      case (Outputs os)
      have "client_inv (es_streams ?st1) (?c\<lparr>cl_delivered := cl_delivered ?c @ [os]\<rparr>)"
        using cinv Cons Outputs r live
        by (simp add: client_inv_def st1 history_def end_ok_def)
      then show ?thesis using step run Cons Outputs
        by (auto simp: async_generate_next_def stream_anext_def)
    next
      case (Exc e)
      have e: "e = duplicate_error (cl_request_id ?c)" using cinv Cons Exc by (simp add: client_inv_def)
      have "client_inv (es_streams ?st1) (?c\<lparr>cl_end := Some (Raised e)\<rparr>)"
        using cinv Cons Exc r e
        by (simp add: client_inv_def st1 history_def end_ok_def)
      note inv1 = sys_inv_abort [OF step [OF this], of "cl_request_id ?c"]
      have "e \<noteq> StopAsyncIteration" using e by (simp add: duplicate_error_def)
      then have "c = ?c\<lparr>cl_end := Some (Raised e)\<rparr>" "st = async_abort (cl_request_id ?c) ?st1"
        using run Cons Exc
        by (auto simp: async_generate_next_def stream_anext_def error_cleanup_exit_def)
      then show ?thesis using inv1 by (simp add: sys_inv_def)
    next
      case StopIter
      have "ars_finished ?s \<and> q = []" using wf Cons StopIter
        by (auto simp: wf_stream_def Cons_eq_append_conv)
      then have "client_inv (es_streams ?st1) (?c\<lparr>cl_end := Some Returned\<rparr>)"
        using cinv Cons StopIter r
        by (simp add: client_inv_def st1 history_def end_ok_def)
      then show ?thesis using step run Cons StopIter
        by (auto simp: async_generate_next_def stream_anext_def error_cleanup_exit_def)
    qed
  qed
qed

lemma close_inv:
  assumes inv: "sys_inv S" and i: "i < length (sys_clients S)"
    and e: "e = GeneratorExit \<or> e = CancelledError"
    and run: "async_generate_close e (sys_clients S ! i) (sys_engine S) = (c, st)"
  shows "sys_inv (S\<lparr>sys_engine := st, sys_clients := (sys_clients S)[i := c]\<rparr>)"
proof -
  let ?c = "sys_clients S ! i"
  have cst: "c = ?c\<lparr>cl_end := Some (Raised e)\<rparr>" "st = async_abort (cl_request_id ?c) (sys_engine S)"
    using run by (auto simp: async_generate_close_def error_cleanup_exit_def)
  have "client_inv (es_streams (sys_engine S)) c"
    using inv i e unfolding cst
    by (auto simp: sys_inv_def client_inv_def end_ok_def history_def)
  then have "sys_inv (S\<lparr>sys_clients := (sys_clients S)[i := c]\<rparr>)"
    using cst by (intro sys_inv_replace [OF inv i]) simp_all
  from sys_inv_abort [OF this, of "cl_request_id ?c"] show ?thesis
    unfolding cst by (simp add: sys_inv_def)
qed

lemma engine_step_inv: "engine_step put fin ns S T \<Longrightarrow> sys_inv S \<Longrightarrow> sys_inv T"
proof (induction rule: engine_step.induct)
  case (submit prompt cfg rid S st r)
  then show ?case by (intro start_inv)
next
  case (submit_error prompt cfg rid S st e)
  then show ?case by (simp add: sys_inv_def start_error_frame [OF submit_error(1)])
next
  case (submit_refused S prompt input rid e)
  then show ?case by (simp add: sys_inv_def async_lazy_init_event_loop_def)
next
  case (terminate_engine S)
  then show ?case by (simp add: sys_inv_def)
next
  case (backend ds S st)
  then show ?case
    by (intro sys_inv_frame) (auto simp: async_request_stream_callback_def split: if_splits)
next
  case (event_loop S)
  show ?case
  proof (cases "es_scheduled (sys_engine S)")
    case Nil
    then show ?thesis using event_loop by (simp add: run_scheduled_def)
  next
    case (Cons ds rest)
    have "sys_inv (S\<lparr>sys_engine := (sys_engine S)\<lparr>es_scheduled := rest\<rparr>\<rparr>)"
      using event_loop by (simp add: sys_inv_def)
    from sys_inv_impl [OF this, of put fin ds] show ?thesis
      by (cases "async_request_stream_callback_impl put fin ds
            ((sys_engine S)\<lparr>es_scheduled := rest\<rparr>)") (simp add: run_scheduled_def Cons)
  qed
next
  case (consume i S c st)
  then show ?case by (intro next_inv)
next
  case (close i S e c st)
  then show ?case by (intro close_inv)
qed

lemma reachable_inv: "engine_reachable put fin ns S \<Longrightarrow> sys_inv S"
proof (induction rule: engine_reachable.induct)
  case (start tracing)
  then show ?case by (simp add: sys_inv_def streams_inv_def engine_state_init_def)
next
  case (step S T)
  show ?case by (rule engine_step_inv [OF step.hyps(2) step.IH])
qed

inductive_cases engine_stepE: "engine_step put fin ns S T"

section \<open>Executable runs\<close>

datatype action =
    Submit "string elem" generation_config string
  | Backend "request_stream_output list"
  | EventLoop
  | Consume nat
  | Close nat
  | Terminate

definition exec_action :: "'s put_fn \<Rightarrow> 's finish_fn \<Rightarrow> 's \<Rightarrow> 's sys \<Rightarrow> action \<Rightarrow> 's sys option" where
  "exec_action put fin ns S a =
     (case a of
        Submit prompt cfg rid \<Rightarrow>
          (case async_generate_start ns prompt cfg rid (sys_engine S) of
             (st, Inr r) \<Rightarrow> Some (S\<lparr>sys_engine := st, sys_clients := sys_clients S @
                [\<lparr>cl_request_id = rid, cl_stream = r, cl_delivered = [], cl_end = None\<rparr>]\<rparr>)
           | (st, Inl e) \<Rightarrow>
               Some (S\<lparr>sys_engine := st, sys_failed := sys_failed S @ [(rid, prompt, StartRaised e)]\<rparr>))
      | Backend ds \<Rightarrow>
          (case async_request_stream_callback ds (sys_engine S) of
             Inr st \<Rightarrow> Some (S\<lparr>sys_engine := st\<rparr>) | Inl e \<Rightarrow> None)
      | EventLoop \<Rightarrow> Some (S\<lparr>sys_engine := run_scheduled put fin (sys_engine S)\<rparr>)
      | Consume i \<Rightarrow>
          (if i < length (sys_clients S) \<and> cl_end (sys_clients S ! i) = None
           then (case async_generate_next (sys_clients S ! i) (sys_engine S) of
                   (c, st) \<Rightarrow> Some (S\<lparr>sys_engine := st, sys_clients := (sys_clients S)[i := c]\<rparr>))
           else None)
      | Close i \<Rightarrow>
          (if i < length (sys_clients S) \<and> cl_end (sys_clients S ! i) = None
           then (case async_generate_close GeneratorExit (sys_clients S ! i) (sys_engine S) of
                   (c, st) \<Rightarrow> Some (S\<lparr>sys_engine := st, sys_clients := (sys_clients S)[i := c]\<rparr>))
           else None)
      | Terminate \<Rightarrow> Some (S\<lparr>sys_engine := engine_terminate (sys_engine S)\<rparr>))"

fun exec_actions ::
    "'s put_fn \<Rightarrow> 's finish_fn \<Rightarrow> 's \<Rightarrow> 's sys \<Rightarrow> action list \<Rightarrow> 's sys option" where
  "exec_actions put fin ns S [] = Some S"
| "exec_actions put fin ns S (a # as) =
     (case exec_action put fin ns S a of
        None \<Rightarrow> None | Some T \<Rightarrow> exec_actions put fin ns T as)"

lemma exec_action_step: "exec_action put fin ns S a = Some T \<Longrightarrow> engine_step put fin ns S T"
  by (cases a)
     (auto simp: exec_action_def split: prod.splits sum.splits if_splits
       intro: engine_step.intros)

lemma exec_actions_reachable:
  "exec_actions put fin ns S as = Some T \<Longrightarrow> engine_reachable put fin ns S \<Longrightarrow>
     engine_reachable put fin ns T"
  by (induction as arbitrary: S)
     (auto split: option.splits dest: exec_action_step engine_reachable.step)

definition sys_init :: "bool \<Rightarrow> 's sys" where
  "sys_init tracing = \<lparr>sys_engine = engine_state_init tracing, sys_clients = [], sys_failed = []\<rparr>"

lemma exec_from_init:
  "exec_actions put fin ns (sys_init tracing) as = Some T \<Longrightarrow> engine_reachable put fin ns T"
  unfolding sys_init_def by (erule exec_actions_reachable) (rule engine_reachable.start)

lemmas exec_simps = exec_action_def async_generate_start_def async_lazy_init_event_loop_def
  async_request_stream_callback_def run_scheduled_def async_generate_next_def
  async_generate_close_def stream_anext_def stream_push_def stream_finish_def new_stream_def
  async_callback_one_def async_abort_def ffi_def update_stream_def error_cleanup_exit_def
  record_event_def sys_init_def engine_state_init_def unpack_def unpack_one_def usage_chunk_def
  duplicate_error_def Let_def

section \<open>What a client observes\<close>

definition observed :: "client \<Rightarrow> bool" where
  "observed c \<longleftrightarrow>
     (cl_end c = Some Returned \<longrightarrow>
       (\<exists>h u. cl_delivered c = h @ [[usage_chunk (Some u)]] \<and> (\<forall>os \<in> set h. no_usage os))) \<and>
     (\<forall>e. cl_end c = Some (Raised e) \<longrightarrow>
       e \<in> {duplicate_error (cl_request_id c), GeneratorExit, CancelledError}) \<and>
     (\<forall>os \<in> set (butlast (cl_delivered c)). no_usage os)"

lemma client_inv_observed:
  assumes c: "client_inv ss c"
  shows "observed c"
proof -
  let ?s = "ss ! cl_stream c"
  have h: "history_ok (ars_finished ?s) (cl_delivered c @ outputs_of (ars_queue ?s))"
    and e: "end_ok c ?s" using c by (auto simp: client_inv_def history_def)
  have "\<forall>os \<in> set (butlast (cl_delivered c)). no_usage os"
  proof (cases "ars_finished ?s")
    case True
    then obtain h' u where hu: "cl_delivered c @ outputs_of (ars_queue ?s) =
        h' @ [[usage_chunk (Some u)]]" "\<forall>os \<in> set h'. no_usage os"
      using h by (auto simp: history_ok_def)
    then have "set (butlast (cl_delivered c)) \<subseteq> set h'"
      by (metis butlast_append butlast_snoc in_set_butlast_appendI set_append subsetI Un_iff)
    then show ?thesis using hu(2) by blast
  next
    case False
    then show ?thesis using h by (auto simp: history_ok_def dest: in_set_butlastD)
  qed
  moreover have "\<exists>h u. cl_delivered c = h @ [[usage_chunk (Some u)]] \<and> (\<forall>os \<in> set h. no_usage os)"
    if "cl_end c = Some Returned"
    using h e that by (auto simp: end_ok_def history_ok_def)
  moreover have "e \<in> {duplicate_error (cl_request_id c), GeneratorExit, CancelledError}"
    if "cl_end c = Some (Raised e)" for e
    using e that by (auto simp: end_ok_def)
  ultimately show ?thesis unfolding observed_def by blast
qed

text \<open>The starts that failed; once the engine is terminated it stays so.\<close>

definition failed_ok :: "bool \<Rightarrow> string elem \<Rightarrow> start_failure \<Rightarrow> bool" where
  "failed_ok terminated prompt f \<longleftrightarrow>
     (case f of
        StartRaised e \<Rightarrow>
          (terminated \<and> e = ValueError ''The AsyncThreadedEngine has terminated.'') \<or>
          convert_prompts_to_data prompt = Inl e
      | NativeRefused e \<Rightarrow> (\<exists>input. convert_prompts_to_data prompt = Inr input))"

lemma start_error_cause:
  "async_generate_start ns prompt cfg rid st = (st', Inl e) \<Longrightarrow>
     failed_ok (es_terminated st) prompt (StartRaised e)"
  by (auto simp: async_generate_start_def failed_ok_def Let_def split: if_splits sum.splits)

lemma record_events_flag [simp]:
  "es_terminated (record_events rid es st) = es_terminated st"
  by (induction rid es st rule: record_events.induct)
     (simp_all add: record_event_def split: option.splits)

lemma async_callback_one_flag:
  "async_callback_one put fin d st = (st', e) \<Longrightarrow> es_terminated st' = es_terminated st"
  by (auto simp: async_callback_one_def record_event_def update_stream_def Let_def
      split: sum.splits option.splits prod.splits list.splits if_splits)

lemma impl_flag:
  "async_request_stream_callback_impl put fin ds st = (st', e) \<Longrightarrow>
     es_terminated st' = es_terminated st"
  by (induction put fin ds st rule: async_request_stream_callback_impl.induct)
     (auto split: prod.splits option.splits dest: async_callback_one_flag)

lemma engine_step_terminated:
  "engine_step put fin ns S T \<Longrightarrow> es_terminated (sys_engine S) \<Longrightarrow> es_terminated (sys_engine T)"
proof (induction rule: engine_step.induct)
  case (event_loop S)
  then show ?case
    by (cases "es_scheduled (sys_engine S)")
       (simp_all add: run_scheduled_def impl_flag [OF surjective_pairing])
qed (auto simp: async_generate_start_def async_lazy_init_event_loop_def engine_terminate_def ffi_def
      async_request_stream_callback_def async_generate_next_def async_generate_close_def
      error_cleanup_exit_def async_abort_def update_stream_def Let_def
      split: if_splits sum.splits option.splits prod.splits)

definition failures_inv :: "'s sys \<Rightarrow> bool" where
  "failures_inv S \<longleftrightarrow>
     (\<forall>(rid, prompt, f) \<in> set (sys_failed S). failed_ok (es_terminated (sys_engine S)) prompt f)"

lemma failures_inv_mono:
  assumes "failures_inv S" and "es_terminated (sys_engine S) \<longrightarrow> es_terminated (sys_engine T)"
    and "\<And>x. x \<in> set (sys_failed T) \<Longrightarrow> x \<in> set (sys_failed S) \<or>
      failed_ok (es_terminated (sys_engine T)) (fst (snd x)) (snd (snd x))"
  shows "failures_inv T"
  using assms unfolding failures_inv_def failed_ok_def
  by (fastforce split: start_failure.splits)

lemma engine_step_failures:
  assumes step: "engine_step put fin ns S T" and inv: "failures_inv S"
  shows "failures_inv T"
proof (rule failures_inv_mono [OF inv])
  show mono: "es_terminated (sys_engine S) \<longrightarrow> es_terminated (sys_engine T)"
    using engine_step_terminated [OF step] by blast
  show "x \<in> set (sys_failed S) \<or>
      failed_ok (es_terminated (sys_engine T)) (fst (snd x)) (snd (snd x))"
    if "x \<in> set (sys_failed T)" for x
    using step that mono
  proof cases
    case (submit_error prompt cfg rid st e)
    have "failed_ok (es_terminated (sys_engine T)) prompt (StartRaised e)"
      using start_error_cause [OF submit_error(2)] mono submit_error(1)
      by (auto simp: failed_ok_def)
    then show ?thesis using that submit_error(1) by auto
  next
    case (submit_refused prompt input rid e)
    then show ?thesis using that by (auto simp: failed_ok_def)
  qed auto
qed

lemma reachable_failures: "engine_reachable put fin ns S \<Longrightarrow> failures_inv S"
  by (induction rule: engine_reachable.induct)
     (simp add: failures_inv_def, rule engine_step_failures)

text \<open>
  C1: in every reachable state of the async engine, whatever the order in which requests are
  submitted, batches arrive, callbacks run, generators advance, generators are closed and the
  engine is terminated: a generator that has returned delivered the usage chunk exactly
  once, as its last chunk; a generator that entered its loop and raised did so because its
  request id was taken or because it was closed or cancelled (never for an item pushed after
  the end of its stream); the chunks a generator has delivered contain no usage before their last
  one; and a generator that raised before its loop did so because the engine had been
  terminated (\<open>ValueError\<close>), because its prompt could not be converted, or because the native
  engine refused to create the request.
\<close>

theorem client_observations:
  assumes "engine_reachable put fin ns S"
  shows "(\<forall>c \<in> set (sys_clients S).
       (cl_end c = Some Returned \<longrightarrow>
         (\<exists>h u. cl_delivered c = h @ [[usage_chunk (Some u)]] \<and> (\<forall>os \<in> set h. no_usage os))) \<and>
       (\<forall>e. cl_end c = Some (Raised e) \<longrightarrow>
         e \<in> {duplicate_error (cl_request_id c), GeneratorExit, CancelledError}) \<and>
       (\<forall>os \<in> set (butlast (cl_delivered c)). no_usage os)) \<and>
     (\<forall>(rid, prompt, f) \<in> set (sys_failed S).
       (case f of
          StartRaised e \<Rightarrow>
            (es_terminated (sys_engine S) \<and>
              e = ValueError ''The AsyncThreadedEngine has terminated.'') \<or>
            convert_prompts_to_data prompt = Inl e
        | NativeRefused e \<Rightarrow> (\<exists>input. convert_prompts_to_data prompt = Inr input)))"
proof (intro conjI)
  have "\<forall>c \<in> set (sys_clients S). observed c"
    using reachable_inv [OF assms] client_inv_observed by (auto simp: sys_inv_def)
  then show "\<forall>c \<in> set (sys_clients S).
       (cl_end c = Some Returned \<longrightarrow>
         (\<exists>h u. cl_delivered c = h @ [[usage_chunk (Some u)]] \<and> (\<forall>os \<in> set h. no_usage os))) \<and>
       (\<forall>e. cl_end c = Some (Raised e) \<longrightarrow>
         e \<in> {duplicate_error (cl_request_id c), GeneratorExit, CancelledError}) \<and>
       (\<forall>os \<in> set (butlast (cl_delivered c)). no_usage os)"
    unfolding observed_def .
qed (use reachable_failures [OF assms] in \<open>unfold failures_inv_def failed_ok_def\<close>)

text \<open>A small run for the witnesses: a stateless streamer that prints one letter per token.\<close>

definition demo_put :: "unit put_fn" where
  "demo_put s ids = (s, Inr (map (\<lambda>_. CHR ''a'') ids))"

definition demo_fin :: "unit finish_fn" where
  "demo_fin s = (s, Inr [])"

definition demo_config :: generation_config where
  "demo_config =
     \<lparr>gc_n = 1, gc_temperature = None, gc_top_p = None, gc_frequency_penalty = None,
      gc_presence_penalty = None, gc_repetition_penalty = None, gc_logprobs = False,
      gc_top_logprobs = 0, gc_logit_bias = None, gc_max_tokens = 8, gc_seed = None,
      gc_stop_strs = None, gc_stop_token_ids = None, gc_response_format = None,
      gc_debug_config = None\<rparr>"

definition demo_delta :: "string \<Rightarrow> request_stream_output" where
  "demo_delta rid =
     \<lparr>rso_request_id = rid, rso_delta_token_ids = [[7, 8]], rso_delta_logprob_json_strs = None,
      rso_finish_reason = [Some ''stop''], rso_request_final_usage_json_str = None,
      rso_extra_prefix_string = [[]]\<rparr>"

definition demo_usage :: "string \<Rightarrow> request_stream_output" where
  "demo_usage rid =
     \<lparr>rso_request_id = rid, rso_delta_token_ids = [], rso_delta_logprob_json_strs = None,
      rso_finish_reason = [], rso_request_final_usage_json_str = Some ''u'',
      rso_extra_prefix_string = []\<rparr>"

definition demo_actions :: "action list" where
  "demo_actions =
     [Submit (EStr ''hi'') demo_config ''r'', Backend [demo_delta ''r'', demo_usage ''r''], EventLoop,
      Consume 0, Consume 0, Consume 0]"

definition demo_chunk :: callback_stream_output where
  "demo_chunk =
     \<lparr>co_delta_text = ''aa'', co_delta_logprob_json_strs = None, co_finish_reason = Some ''stop'',
      co_request_final_usage_json_str = None\<rparr>"

lemmas demo_simps = demo_put_def demo_fin_def demo_config_def demo_delta_def demo_usage_def
  demo_actions_def demo_chunk_def

lemma demo_run:
  "\<exists>S. exec_actions demo_put demo_fin () (sys_init False)
       (demo_actions @ [Terminate, Submit (EStr ''late'') demo_config ''q'']) = Some S \<and>
     sys_clients S = [\<lparr>cl_request_id = ''r'', cl_stream = 0,
       cl_delivered = [[demo_chunk], [usage_chunk (Some ''u'')]], cl_end = Some Returned\<rparr>] \<and>
     sys_failed S = [(''q'', EStr ''late'',
       StartRaised (ValueError ''The AsyncThreadedEngine has terminated.''))]"
  by (simp add: demo_simps exec_simps engine_terminate_def convert_prompts_to_data.simps
      detokenize_def then_text_def dict_get_def dict_pop_def)

theorem client_observations_witness:
  "\<exists>S. engine_reachable demo_put demo_fin () S \<and>
     (\<forall>c \<in> set (sys_clients S). cl_end c = Some Returned \<and>
       (\<exists>h u. cl_delivered c = h @ [[usage_chunk (Some u)]] \<and> (\<forall>os \<in> set h. no_usage os))) \<and>
     es_terminated (sys_engine S) \<and> sys_failed S \<noteq> []"
proof -
  obtain S where run: "exec_actions demo_put demo_fin () (sys_init False)
       (demo_actions @ [Terminate, Submit (EStr ''late'') demo_config ''q'']) = Some S"
    and cs: "sys_clients S = [\<lparr>cl_request_id = ''r'', cl_stream = 0,
       cl_delivered = [[demo_chunk], [usage_chunk (Some ''u'')]], cl_end = Some Returned\<rparr>]"
    and fs: "sys_failed S = [(''q'', EStr ''late'',
       StartRaised (ValueError ''The AsyncThreadedEngine has terminated.''))]"
    using demo_run by blast
  have reach: "engine_reachable demo_put demo_fin () S" by (rule exec_from_init [OF run])
  note obs = client_observations [OF this, unfolded cs fs]
  have "es_terminated (sys_engine S)" using obs by (simp add: convert_prompts_to_data.simps)
  then show ?thesis using obs reach cs fs by (intro exI [of _ S]) simp
qed

end
