(* ===== verification/Stream_Delivery.thy ===== *)
theory Stream_Delivery
  imports Stream_System
begin

text \<open>
  What one request's generator delivers. \<open>stream_run\<close> is the specification: the chunks the
  deltas of one request stand for, up to the usage chunk. The async path (callbacks that see
  the deltas of all requests interleaved, a queue, a consumer) and the sync path (one request
  at a time) both implement it, so the two \<open>_generate\<close> methods agree.
\<close>

section \<open>Specification\<close>

fun stream_run ::
    "'s put_fn \<Rightarrow> 's finish_fn \<Rightarrow> 's list \<Rightarrow> request_stream_output list \<Rightarrow>
     callback_stream_output list gen" where
  "stream_run put fin ts [] = ([], Blocked)"
| "stream_run put fin ts (d # ds) =
     (case unpack d of
        Inl e \<Rightarrow> ([], Raised e)
      | Inr (_, []) \<Rightarrow> ([], Raised IndexError)
      | Inr (_, out # outs) \<Rightarrow>
          if so_request_final_usage_json_str out \<noteq> None
          then ([[usage_chunk (so_request_final_usage_json_str out)]], Returned)
          else (case detok_loop put fin (out # outs) ts of
                  (_, ts', Inl e) \<Rightarrow> ([], Raised e)
                | (_, ts', Inr cs) \<Rightarrow>
                    (case stream_run put fin ts' ds of (ys, en) \<Rightarrow> (cs # ys, en))))"

text \<open>The event loop runs the scheduled callbacks one after the other; errors are logged.\<close>

fun run_callbacks ::
    "'s put_fn \<Rightarrow> 's finish_fn \<Rightarrow> request_stream_output list list \<Rightarrow> 's engine_state \<Rightarrow>
     's engine_state \<times> py_error list" where
  "run_callbacks put fin [] st = (st, [])"
| "run_callbacks put fin (ds # dss) st =
     (case async_request_stream_callback_impl put fin ds st of
        (st', e) \<Rightarrow>
          (case run_callbacks put fin dss st' of
             (st'', es) \<Rightarrow> (st'', case e of None \<Rightarrow> es | Some x \<Rightarrow> x # es)))"

fun async_drain :: "nat \<Rightarrow> client \<Rightarrow> 's engine_state \<Rightarrow> client \<times> 's engine_state" where
  "async_drain 0 c st = (c, st)"
| "async_drain (Suc n) c st =
     (if cl_end c \<noteq> None then (c, st)
      else case async_generate_next c st of (c', st') \<Rightarrow> async_drain n c' st')"

section \<open>The async path\<close>

lemma async_impl_append:
  "async_request_stream_callback_impl put fin (ds @ ds') st =
     (case async_request_stream_callback_impl put fin ds st of
        (st', Some e) \<Rightarrow> (st', Some e)
      | (st', None) \<Rightarrow> async_request_stream_callback_impl put fin ds' st')"
  by (induction ds arbitrary: st) (auto split: prod.splits option.splits)

lemma run_callbacks_concat:
  "run_callbacks put fin dss st = (st', []) \<Longrightarrow>
     async_request_stream_callback_impl put fin (concat dss) st = (st', None)"
  by (induction dss arbitrary: st) (auto simp: async_impl_append split: prod.splits option.splits)

lemma unpack_request_id: "unpack d = Inr (rid, outs) \<Longrightarrow> rid = rso_request_id d"
  by (auto simp: unpack_def res_simps split: option.splits)

text \<open>A delta of another request, or of a request that is not registered, leaves a stream alone.\<close>

lemma callback_one_other:
  assumes inv: "streams_inv (es_async_streamers st) (es_streams st)"
    and run: "async_callback_one put fin d st = (st', None)"
    and other: "rso_request_id d \<noteq> rid"
    and nreg: "\<And>rid' ts. dict_get (es_async_streamers st) rid' = Some (r, ts) \<Longrightarrow> rid' = rid"
  shows "dict_get (es_async_streamers st') rid = dict_get (es_async_streamers st) rid"
    "es_streams st' ! r = es_streams st ! r"
proof -
  obtain rid' outs where u: "unpack d = Inr (rid', outs)"
    using run by (auto simp: async_callback_one_def split: sum.splits)
  have rid': "rid' \<noteq> rid" using unpack_request_id [OF u] other by simp
  have neq: "q \<noteq> r" if "dict_get (es_async_streamers st) rid' = Some (q, ts)" for q ts
    using nreg that rid' by blast
  show "dict_get (es_async_streamers st') rid = dict_get (es_async_streamers st) rid"
    using run u rid'
    by (auto simp: async_callback_one_def Let_def split: option.splits list.splits if_splits
        prod.splits sum.splits)
  show "es_streams st' ! r = es_streams st ! r"
    using run u rid' neq
    by (auto simp: async_callback_one_def Let_def update_stream_def
        split: option.splits list.splits if_splits prod.splits sum.splits)
qed

definition orphan :: "nat \<Rightarrow> 's engine_state \<Rightarrow> bool" where
  "orphan r st \<longleftrightarrow> (\<forall>rid ts. dict_get (es_async_streamers st) rid \<noteq> Some (r, ts))"

lemma callback_one_orphan:
  assumes run: "async_callback_one put fin d st = (st', e)" and orp: "orphan r st"
  shows "orphan r st'" "es_streams st' ! r = es_streams st ! r"
proof -
  have neq: "q \<noteq> r" if "dict_get (es_async_streamers st) rid' = Some (q, ts)" for q ts rid'
    using orp that by (auto simp: orphan_def)
  show "orphan r st'"
    using run orp unfolding orphan_def
    by (auto simp: async_callback_one_def Let_def split: option.splits list.splits if_splits
        prod.splits sum.splits)
  show "es_streams st' ! r = es_streams st ! r"
    using run neq
    by (auto simp: async_callback_one_def Let_def update_stream_def
        split: option.splits list.splits if_splits prod.splits sum.splits)
qed

lemma impl_orphan:
  "async_request_stream_callback_impl put fin ds st = (st', e) \<Longrightarrow> orphan r st \<Longrightarrow>
     orphan r st' \<and> es_streams st' ! r = es_streams st ! r"
proof (induction ds arbitrary: st)
  case Nil
  then show ?case by simp
next
  case (Cons d ds)
  obtain st1 e1 where one: "async_callback_one put fin d st = (st1, e1)"
    by (cases "async_callback_one put fin d st")
  note o1 = callback_one_orphan [OF one Cons.prems(2)]
  show ?case
  proof (cases e1)
    case None
    then show ?thesis using Cons.prems(1) Cons.IH [OF _ o1(1)] o1(2) one by simp
  next
    case (Some x)
    then show ?thesis using Cons.prems(1) o1 one by simp
  qed
qed

definition deliver :: "callback_stream_output list list \<Rightarrow> gen_end \<Rightarrow> async_request_stream \<Rightarrow>
    async_request_stream" where
  "deliver ys en s =
     s\<lparr>ars_queue := ars_queue s @ map Outputs ys @ (if en = Returned then [StopIter] else []),
       ars_finished := (en = Returned)\<rparr>"

text \<open>A delta of the request itself, by the kind of the delta.\<close>

lemma callback_one_self:
  assumes inv: "streams_inv (es_async_streamers st) (es_streams st)"
    and reg: "dict_get (es_async_streamers st) (rso_request_id d) = Some (r, ts)"
    and run: "async_callback_one put fin d st = (st', None)"
  shows "\<exists>out outs. unpack d = Inr (rso_request_id d, out # outs) \<and>
     (case so_request_final_usage_json_str out of
        Some u \<Rightarrow> orphan r st' \<and>
          es_streams st' ! r = deliver [[usage_chunk (Some u)]] Returned (es_streams st ! r)
      | None \<Rightarrow> \<exists>evs ts' cs. detok_loop put fin (out # outs) ts = (evs, ts', Inr cs) \<and>
          dict_get (es_async_streamers st') (rso_request_id d) = Some (r, ts') \<and>
          es_streams st' ! r = deliver [cs] Blocked (es_streams st ! r))"
proof -
  note r = streams_inv_regD [OF inv reg]
  obtain rid outs where u0: "unpack d = Inr (rid, outs)"
    using run by (cases "unpack d") (auto simp: async_callback_one_def)
  note u = u0 [unfolded unpack_request_id [OF u0]]
  note run = run [unfolded async_callback_one_def u, simplified, unfolded reg, simplified]
  obtain out rest where outs: "outs = out # rest" using run reg by (cases outs) (auto simp: Let_def)
  show ?thesis
  proof (cases "so_request_final_usage_json_str out")
    case (Some x)
    have "es_async_streamers st' = dict_pop (es_async_streamers st) (rso_request_id d)"
      using run reg outs Some by (auto simp: Let_def)
    then have "orphan r st'"
      unfolding orphan_def by (auto split: if_splits dest: streams_inv_injD [OF inv reg])
    moreover have "es_streams st' ! r =
        deliver [[usage_chunk (Some x)]] Returned (es_streams st ! r)"
      using run reg outs Some r
      by (auto simp: Let_def update_stream_streams deliver_def stream_push_def stream_finish_def
          open_stream_def)
    ultimately show ?thesis using u outs Some by simp
  next
    case None
    obtain evs ts' cs where dl: "detok_loop put fin (out # rest) ts = (evs, ts', Inr cs)"
      using run reg outs None
      by (cases "detok_loop put fin (out # rest) ts") (auto simp: Let_def split: sum.splits)
    have "dict_get (es_async_streamers st') (rso_request_id d) = Some (r, ts')"
      using run reg outs None dl by (auto simp: Let_def)
    moreover have "es_streams st' ! r = deliver [cs] Blocked (es_streams st ! r)"
      using run reg outs None dl r
      by (auto simp: Let_def update_stream_streams deliver_def stream_push_def open_stream_def)
    ultimately show ?thesis using u outs None dl by simp
  qed
qed

lemma impl_delivers:
  assumes "streams_inv (es_async_streamers st) (es_streams st)"
    and "dict_get (es_async_streamers st) rid = Some (r, ts)"
    and "async_request_stream_callback_impl put fin ds st = (st', None)"
    and "stream_run put fin ts (filter (\<lambda>d. rso_request_id d = rid) ds) = (ys, en)"
  shows "es_streams st' ! r = deliver ys en (es_streams st ! r) \<and> en \<in> {Returned, Blocked}"
  using assms
proof (induction ds arbitrary: st ts ys en)
  case Nil
  then show ?case using streams_inv_regD(2) [OF Nil(1,2)]
    by (auto simp: deliver_def open_stream_def)
next
  case (Cons d ds)
  obtain st1 where one: "async_callback_one put fin d st = (st1, None)"
    and rest: "async_request_stream_callback_impl put fin ds st1 = (st', None)"
    using Cons.prems(3) by (auto split: prod.splits option.splits)
  have inv1: "streams_inv (es_async_streamers st1) (es_streams st1)"
    using async_callback_one_rel [OF Cons.prems(1) one] by (simp add: callback_rel_def)
  show ?case
  proof (cases "rso_request_id d = rid")
    case False
    note o1 = callback_one_other [OF Cons.prems(1) one False, of r]
    have nreg: "rid' = rid" if "dict_get (es_async_streamers st) rid' = Some (r, ts')" for rid' ts'
      using streams_inv_injD [OF Cons.prems(1) that Cons.prems(2)] .
    show ?thesis using Cons.IH [OF inv1 _ rest] o1 [OF nreg] Cons.prems(2,4) False by simp
  next
    case True
    note reg = Cons.prems(2) [folded True]
    obtain out outs where u: "unpack d = Inr (rso_request_id d, out # outs)"
      and res: "case so_request_final_usage_json_str out of
        Some u \<Rightarrow> orphan r st1 \<and>
          es_streams st1 ! r = deliver [[usage_chunk (Some u)]] Returned (es_streams st ! r)
      | None \<Rightarrow> \<exists>evs ts' cs. detok_loop put fin (out # outs) ts = (evs, ts', Inr cs) \<and>
          dict_get (es_async_streamers st1) (rso_request_id d) = Some (r, ts') \<and>
          es_streams st1 ! r = deliver [cs] Blocked (es_streams st ! r)"
      using callback_one_self [OF Cons.prems(1) reg one] by blast
    show ?thesis
    proof (cases "so_request_final_usage_json_str out")
      case (Some x)
      then show ?thesis using res u True Cons.prems(4) impl_orphan [OF rest] by auto
    next
      case None
      then obtain evs ts' cs where dl: "detok_loop put fin (out # outs) ts = (evs, ts', Inr cs)"
        and reg1: "dict_get (es_async_streamers st1) rid = Some (r, ts')"
        and s1: "es_streams st1 ! r = deliver [cs] Blocked (es_streams st ! r)"
        using res True by auto
      obtain ys' where ys': "stream_run put fin ts' (filter (\<lambda>d. rso_request_id d = rid) ds) = (ys', en)"
        "ys = cs # ys'"
        using Cons.prems(4) True u None dl by (auto split: prod.splits)
      show ?thesis using Cons.IH [OF inv1 reg1 rest ys'(1)] s1 ys'(2) by (simp add: deliver_def)
    qed
  qed
qed

lemma run_callbacks_length:
  assumes "streams_inv (es_async_streamers st) (es_streams st)"
    and "run_callbacks put fin dss st = (st', es)"
  shows "length (es_streams st') = length (es_streams st)"
proof -
  have impl: "length (es_streams st1) = length (es_streams st0) \<and>
      streams_inv (es_async_streamers st1) (es_streams st1)"
    if "async_request_stream_callback_impl put fin ds st0 = (st1, e)"
      "streams_inv (es_async_streamers st0) (es_streams st0)" for ds st0 st1 e
    using that
  proof (induction ds arbitrary: st0)
    case Nil
    then show ?case by simp
  next
    case (Cons d ds)
    obtain st2 e2 where one: "async_callback_one put fin d st0 = (st2, e2)"
      by (cases "async_callback_one put fin d st0")
    have "callback_rel st0 st2" by (rule async_callback_one_rel [OF Cons.prems(2) one])
    then show ?case using Cons one by (cases e2) (auto simp: callback_rel_def)
  qed
  show ?thesis using assms
  proof (induction dss arbitrary: st es)
    case Nil
    then show ?case by simp
  next
    case (Cons ds dss)
    obtain st1 e1 where one: "async_request_stream_callback_impl put fin ds st = (st1, e1)"
      by (cases "async_request_stream_callback_impl put fin ds st")
    show ?case using impl [OF one Cons.prems(1)] Cons.prems(2) one Cons.IH
      by (auto split: prod.splits)
  qed
qed

section \<open>Draining the queue\<close>

lemma drain_outputs:
  assumes "cl_end c = None" and "cl_stream c < length (es_streams st)"
    and "ars_queue (es_streams st ! cl_stream c) = map Outputs ys @ q"
  shows "\<exists>st'. async_drain (length ys + n) c st =
       async_drain n (c\<lparr>cl_delivered := cl_delivered c @ ys\<rparr>) st' \<and>
     length (es_streams st') = length (es_streams st) \<and>
     ars_queue (es_streams st' ! cl_stream c) = q"
  using assms
proof (induction ys arbitrary: c st)
  case Nil
  then show ?case by auto
next
  case (Cons y ys)
  let ?r = "cl_stream c"
  let ?c1 = "c\<lparr>cl_delivered := cl_delivered c @ [y]\<rparr>"
  let ?st1 = "update_stream ?r (\<lambda>_. (es_streams st ! ?r)\<lparr>ars_queue := map Outputs ys @ q\<rparr>) st"
  have step: "async_generate_next c st = (?c1, ?st1)"
    using Cons.prems by (simp add: async_generate_next_def stream_anext_def Let_def)
  have "ars_queue (es_streams ?st1 ! cl_stream ?c1) = map Outputs ys @ q"
    using Cons.prems by (simp add: update_stream_streams)
  from Cons.IH [OF _ _ this] show ?case using Cons.prems step by simp
qed

lemma drain_ended: "cl_end c \<noteq> None \<Longrightarrow> async_drain m c st = (c, st)"
  by (cases m) auto

lemma drain_empty:
  "ars_queue (es_streams st ! cl_stream c) = [] \<Longrightarrow> async_drain m c st = (c, st)"
  by (induction m) (auto simp: async_generate_next_def stream_anext_def)

lemma drain_all:
  assumes "cl_end c = None" and "cl_stream c < length (es_streams st)"
    and "es_streams st ! cl_stream c = deliver ys en new_stream" and "en \<in> {Returned, Blocked}"
  shows "fst (async_drain (length ys + Suc m) c st) =
     c\<lparr>cl_delivered := cl_delivered c @ ys,
       cl_end := (if en = Returned then Some Returned else None)\<rparr>"
proof -
  let ?q = "if en = Returned then [StopIter] else []"
  let ?c1 = "c\<lparr>cl_delivered := cl_delivered c @ ys\<rparr>"
  have "ars_queue (es_streams st ! cl_stream c) = map Outputs ys @ ?q"
    using assms(3) by (simp add: deliver_def new_stream_def)
  from drain_outputs [OF assms(1,2) this, of "Suc m"] obtain st' where
    st': "async_drain (length ys + Suc m) c st = async_drain (Suc m) ?c1 st'"
    "ars_queue (es_streams st' ! cl_stream c) = ?q" by blast
  show ?thesis
  proof (cases "en = Returned")
    case True
    then show ?thesis using st' assms(1)
      by (auto simp: async_generate_next_def stream_anext_def Let_def drain_ended)
  next
    case False
    then show ?thesis using st' drain_empty [of st' ?c1 "Suc m"] assms(1) by simp
  qed
qed

section \<open>The sync path\<close>

lemma sync_impl_run:
  assumes "stream_run put fin (es_sync_text_streamers st) (ds @ rest) = (ys, en)"
    and "en \<in> {Returned, Blocked}"
  shows "\<exists>st' outs u. sync_request_stream_callback_impl put fin ds st = (st', Inr (outs, u)) \<and>
     (case u of
        Some x \<Rightarrow> ys = outs @ [[usage_chunk (Some x)]] \<and> en = Returned
      | None \<Rightarrow> \<exists>ys'. ys = outs @ ys' \<and>
          stream_run put fin (es_sync_text_streamers st') rest = (ys', en))"
  using assms
proof (induction ds arbitrary: st ys)
  case Nil
  then show ?case by auto
next
  case (Cons d ds)
  obtain rid out outs where u: "unpack d = Inr (rid, out # outs)"
    using Cons.prems by (cases "unpack d") (auto split: list.splits)
  show ?case
  proof (cases "so_request_final_usage_json_str out")
    case (Some x)
    then show ?thesis using Cons.prems u by (auto simp: Let_def)
  next
    case None
    obtain evs ts' cs where
      dl: "detok_loop put fin (out # outs) (es_sync_text_streamers st) = (evs, ts', Inr cs)"
      using Cons.prems u None
      by (cases "detok_loop put fin (out # outs) (es_sync_text_streamers st)")
         (auto split: sum.splits)
    define st1 where "st1 = record_event rid ''finish callback''
        ((record_events rid evs (record_event rid ''start callback'' st))
          \<lparr>es_sync_text_streamers := ts'\<rparr>)"
    obtain ys1 where ys1: "stream_run put fin (es_sync_text_streamers st1) (ds @ rest) = (ys1, en)"
      "ys = cs # ys1"
      using Cons.prems u None dl by (auto simp: st1_def split: prod.splits)
    obtain st' outs' w where
      run1: "sync_request_stream_callback_impl put fin ds st1 = (st', Inr (outs', w))"
      and res: "case w of
        Some x \<Rightarrow> ys1 = outs' @ [[usage_chunk (Some x)]] \<and> en = Returned
      | None \<Rightarrow> \<exists>ys'. ys1 = outs' @ ys' \<and>
          stream_run put fin (es_sync_text_streamers st') rest = (ys', en)"
      using Cons.IH [OF ys1(1) Cons.prems(2)] by blast
    have "sync_request_stream_callback_impl put fin (d # ds) st = (st', Inr (cs # outs', w))"
      using u None dl run1 by (simp add: Let_def st1_def [symmetric])
    then show ?thesis using res ys1(2)
      by (intro exI [of _ st'] exI [of _ "cs # outs'"] exI [of _ w]) (auto split: option.splits)
  qed
qed

lemma sync_loop_run:
  assumes "stream_run put fin (es_sync_text_streamers st) (concat dss) = (ys, en)"
    and "en \<in> {Returned, Blocked}"
  shows "fst (sync_generate_loop put fin rid dss st) = (ys, en)"
  using assms
proof (induction dss arbitrary: st ys)
  case Nil
  then show ?case by simp
next
  case (Cons ds dss)
  obtain st' outs u where run: "sync_request_stream_callback_impl put fin ds st = (st', Inr (outs, u))"
    and res: "case u of
        Some x \<Rightarrow> ys = outs @ [[usage_chunk (Some x)]] \<and> en = Returned
      | None \<Rightarrow> \<exists>ys'. ys = outs @ ys' \<and>
          stream_run put fin (es_sync_text_streamers st') (concat dss) = (ys', en)"
    using sync_impl_run [of put fin st ds "concat dss"] Cons.prems by auto
  show ?case
  proof (cases u)
    case (Some x)
    then show ?thesis using run res by simp
  next
    case None
    then obtain ys' where "ys = outs @ ys'"
      "stream_run put fin (es_sync_text_streamers st') (concat dss) = (ys', en)"
      using res by auto
    then show ?thesis using run None Cons.IH [OF _ Cons.prems(2), of st' ys']
      by (auto split: prod.splits)
  qed
qed

section \<open>Both paths deliver the specification\<close>

lemma start_fresh:
  assumes "async_generate_start ns prompt cfg rid st0 = (st, Inr r)"
    and "dict_get (es_async_streamers st0) rid = None"
  shows "dict_get (es_async_streamers st) rid = Some (r, replicate (nat (gc_n cfg)) ns)"
    "es_streams st ! r = new_stream" "r < length (es_streams st)"
    "\<exists>data. convert_prompts_to_data prompt = Inr data"
  using assms
  by (auto simp: async_generate_start_def async_lazy_init_event_loop_def ffi_def Let_def
      split: if_splits sum.splits)

lemma async_drain_run:
  assumes inv: "sys_inv S"
    and fresh: "dict_get (es_async_streamers (sys_engine S)) rid = None"
    and submit: "async_generate_start ns prompt cfg rid (sys_engine S) = (st, Inr r)"
    and callbacks: "run_callbacks put fin dss st = (st', [])"
    and spec: "stream_run put fin (replicate (nat (gc_n cfg)) ns)
      (filter (\<lambda>d. rso_request_id d = rid) (concat dss)) = (ys, en)"
  shows "fst (async_drain (length ys + Suc m)
       \<lparr>cl_request_id = rid, cl_stream = r, cl_delivered = [], cl_end = None\<rparr> st') =
       \<lparr>cl_request_id = rid, cl_stream = r, cl_delivered = ys,
        cl_end = (if en = Returned then Some Returned else None)\<rparr>"
    "es_streams st' ! r = deliver ys en new_stream" "en \<in> {Returned, Blocked}"
proof -
  note st = start_fresh [OF submit fresh]
  have inv1: "streams_inv (es_async_streamers st) (es_streams st)"
    using start_inv [OF inv submit] by (simp add: sys_inv_def)
  show d: "es_streams st' ! r = deliver ys en new_stream" "en \<in> {Returned, Blocked}"
    using impl_delivers [OF inv1 st(1) run_callbacks_concat [OF callbacks] spec] st(2) by simp_all
  have len: "length (es_streams st') = length (es_streams st)"
    using run_callbacks_length [OF inv1 callbacks] .
  then show "fst (async_drain (length ys + Suc m)
       \<lparr>cl_request_id = rid, cl_stream = r, cl_delivered = [], cl_end = None\<rparr> st') =
       \<lparr>cl_request_id = rid, cl_stream = r, cl_delivered = ys,
        cl_end = (if en = Returned then Some Returned else None)\<rparr>"
    using drain_all [of _ st' ys en m] d st(3) by simp
qed

lemma sync_generate_run:
  assumes "\<not> es_terminated st0" "convert_prompts_to_data prompt = Inr input"
    and "stream_run put fin (replicate (nat (gc_n cfg)) ns) (concat batches) = (ys, en)"
    and "en \<in> {Returned, Blocked}"
  shows "fst (sync_generate put fin ns prompt cfg rid batches st0) = (ys, en)"
  using assms by (auto simp: sync_generate_def ffi_def intro!: sync_loop_run)

text \<open>
  C2: the async and the sync generator deliver the same chunks. Let a request with a fresh id be
  submitted to the async engine in any reachable state and let any batches of deltas, of this
  request and of others in any interleaving, be handled without an exception. Then the
  request's generator yields exactly the chunks that its own deltas stand for, in order, and
  returns when they contain the usage chunk; and the sync generator, given the same deltas
  of the request in any division into batches, yields the same chunks and ends the same way.
\<close>

theorem async_and_sync_generate_agree:
  assumes reach: "engine_reachable put fin ns S"
    and fresh: "dict_get (es_async_streamers (sys_engine S)) rid = None"
    and submit: "async_generate_start ns (prompt :: string elem) cfg rid (sys_engine S) = (st, Inr r)"
    and callbacks: "run_callbacks put fin dss st = (st', [])"
    and spec: "stream_run put fin (replicate (nat (gc_n cfg)) ns)
      (filter (\<lambda>d. rso_request_id d = rid) (concat dss)) = (ys, en)"
    and sync: "\<not> es_terminated st0"
      "concat batches = filter (\<lambda>d. rso_request_id d = rid) (concat dss)"
  shows "fst (async_drain (length ys + 1)
       \<lparr>cl_request_id = rid, cl_stream = r, cl_delivered = [], cl_end = None\<rparr> st') =
       \<lparr>cl_request_id = rid, cl_stream = r, cl_delivered = ys,
        cl_end = (if en = Returned then Some Returned else None)\<rparr> \<and>
     fst (sync_generate put fin ns prompt cfg rid batches st0) = (ys, en)"
  using async_drain_run(1) [OF reachable_inv [OF reach] fresh submit callbacks spec, of 0]
    async_drain_run(3) [OF reachable_inv [OF reach] fresh submit callbacks spec] start_fresh(4) [OF submit fresh] spec sync
  by (auto intro: sync_generate_run)

theorem async_and_sync_generate_agree_witness:
  "\<exists>st r st'. async_generate_start () (EStr ''hi'' :: string elem) demo_config ''r''
       (engine_state_init False) = (st, Inr r) \<and>
     run_callbacks demo_put demo_fin [[demo_delta ''q'', demo_delta ''r''], [demo_usage ''r'']] st
       = (st', []) \<and>
     cl_delivered (fst (async_drain 3
       \<lparr>cl_request_id = ''r'', cl_stream = r, cl_delivered = [], cl_end = None\<rparr> st'))
       = [[demo_chunk], [usage_chunk (Some ''u'')]] \<and>
     fst (sync_generate demo_put demo_fin () (EStr ''hi'' :: string elem) demo_config ''r''
       [[demo_delta ''r'', demo_usage ''r'']] (engine_state_init True))
       = ([[demo_chunk], [usage_chunk (Some ''u'')]], Returned)"
proof -
  let ?S = "\<lparr>sys_engine = engine_state_init False, sys_clients = [], sys_failed = []\<rparr> :: unit sys"
  let ?dss = "[[demo_delta ''q'', demo_delta ''r''], [demo_usage ''r'']]"
  obtain st r where submit: "async_generate_start () (EStr ''hi'' :: string elem) demo_config ''r''
       (sys_engine ?S) = (st, Inr r)" "st = (engine_state_init False)\<lparr>es_event_loop := True,
         es_streams := [new_stream], es_async_streamers := [(''r'', 0, [()])],
         es_ffi := [AddRequest ''r'']\<rparr>"
    by (simp add: async_generate_start_def async_lazy_init_event_loop_def engine_state_init_def
        ffi_def demo_config_def)
  obtain st' where cb: "run_callbacks demo_put demo_fin ?dss st = (st', [])"
    unfolding submit(2) by (simp add: demo_simps exec_simps detokenize_def then_text_def)
  have spec: "stream_run demo_put demo_fin (replicate (nat (gc_n demo_config)) ())
      (filter (\<lambda>d. rso_request_id d = ''r'') (concat ?dss)) =
      ([[demo_chunk], [usage_chunk (Some ''u'')]], Returned)"
    by (simp add: demo_simps unpack_def unpack_one_def detokenize_def then_text_def)
  have reach: "engine_reachable demo_put demo_fin () ?S" by (rule engine_reachable.start)
  have "fst (async_drain (length [[demo_chunk], [usage_chunk (Some ''u'')]] + 1)
       \<lparr>cl_request_id = ''r'', cl_stream = r, cl_delivered = [], cl_end = None\<rparr> st') =
       \<lparr>cl_request_id = ''r'', cl_stream = r,
        cl_delivered = [[demo_chunk], [usage_chunk (Some ''u'')]], cl_end = Some Returned\<rparr> \<and>
     fst (sync_generate demo_put demo_fin () (EStr ''hi'' :: string elem) demo_config ''r''
       [[demo_delta ''r'', demo_usage ''r'']] (engine_state_init True))
       = ([[demo_chunk], [usage_chunk (Some ''u'')]], Returned)"
    using async_and_sync_generate_agree [OF reach _ submit(1) cb spec, of "engine_state_init True"
        "[[demo_delta ''r'', demo_usage ''r'']]"]
    by (simp add: engine_state_init_def demo_delta_def demo_usage_def)
  then show ?thesis using submit(1) cb by (auto simp: numeral_3_eq_3)
qed

section \<open>Duplicate request ids\<close>

text \<open>A client whose stream is not finished and that no callback can reach any more.\<close>

definition starved :: "nat \<Rightarrow> 's sys \<Rightarrow> bool" where
  "starved i S \<longleftrightarrow>
     i < length (sys_clients S) \<and> cl_end (sys_clients S ! i) \<noteq> Some Returned \<and>
     orphan (cl_stream (sys_clients S ! i)) (sys_engine S) \<and>
     \<not> ars_finished (es_streams (sys_engine S) ! cl_stream (sys_clients S ! i))"

lemma next_frame:
  assumes "async_generate_next c st = (c', st')"
  shows "ars_finished (es_streams st' ! r) = ars_finished (es_streams st ! r)"
    "orphan r st \<Longrightarrow> orphan r st'" "cl_stream c' = cl_stream c" "cl_request_id c' = cl_request_id c"
  using assms
  by (auto simp: async_generate_next_def stream_anext_def Let_def error_cleanup_exit_def
      orphan_def update_stream_def nth_list_update
      split: list.splits stream_item.splits if_splits)

lemma next_returns_finished:
  assumes "async_generate_next c st = (c', st')" and "wf_stream (es_streams st ! cl_stream c)"
    and "cl_end c = None" and "cl_end c' = Some Returned"
  shows "ars_finished (es_streams st ! cl_stream c)"
  using assms
  by (auto simp: async_generate_next_def stream_anext_def Let_def wf_stream_def Cons_eq_append_conv
      duplicate_error_def split: list.splits stream_item.splits if_splits)

lemma start_frame:
  assumes "async_generate_start ns prompt cfg rid st = (st', res)" and "k < length (es_streams st)"
  shows "es_streams st' ! k = es_streams st ! k" "orphan k st \<Longrightarrow> orphan k st'"
  using assms
  by (auto simp: async_generate_start_def async_lazy_init_event_loop_def ffi_def Let_def nth_append
      orphan_def split: if_splits sum.splits)

lemma scheduled_orphan:
  "orphan r st \<Longrightarrow> orphan r (run_scheduled put fin st) \<and>
     es_streams (run_scheduled put fin st) ! r = es_streams st ! r"
proof (cases "es_scheduled st")
  case (Cons ds rest)
  assume "orphan r st"
  then have "orphan r (st\<lparr>es_scheduled := rest\<rparr>)" by (simp add: orphan_def)
  then show ?thesis
    using impl_orphan [of put fin ds "st\<lparr>es_scheduled := rest\<rparr>"
        "fst (async_request_stream_callback_impl put fin ds (st\<lparr>es_scheduled := rest\<rparr>))"
        "snd (async_request_stream_callback_impl put fin ds (st\<lparr>es_scheduled := rest\<rparr>))" r]
    by (simp add: run_scheduled_def Cons)
qed (simp add: run_scheduled_def)

lemma starved_step:
  "engine_step put fin ns S T \<Longrightarrow> sys_inv S \<Longrightarrow> starved i S \<Longrightarrow> starved i T"
proof (induction rule: engine_step.induct)
  case (submit prompt cfg rid S st r)
  then have "cl_stream (sys_clients S ! i) < length (es_streams (sys_engine S))"
    by (simp add: starved_def sys_inv_def client_inv_def)
  from start_frame [OF submit(1) this] show ?case using submit(3)
    by (simp add: starved_def nth_append)
next
  case (submit_error prompt cfg rid S st e)
  then show ?case
    by (simp add: starved_def orphan_def start_error_frame [OF submit_error(1)])
next
  case (submit_refused S prompt input rid e)
  then show ?case by (simp add: starved_def orphan_def async_lazy_init_event_loop_def)
next
  case (terminate_engine S)
  then show ?case by (simp add: starved_def orphan_def)
next
  case (backend ds S st)
  then show ?case
    by (auto simp: starved_def orphan_def async_request_stream_callback_def split: if_splits)
next
  case (event_loop S)
  then show ?case by (simp add: starved_def scheduled_orphan)
next
  case (consume j S c st)
  note fr = next_frame [OF consume(3)]
  have "cl_end c \<noteq> Some Returned" if "j = i"
  proof
    assume "cl_end c = Some Returned"
    moreover have "wf_stream (es_streams (sys_engine S) ! cl_stream (sys_clients S ! i))"
      using consume(4,5) by (simp add: starved_def sys_inv_def client_inv_def streams_inv_def)
    ultimately have "ars_finished (es_streams (sys_engine S) ! cl_stream (sys_clients S ! i))"
      using next_returns_finished [OF consume(3)] consume(2) that by simp
    then show False using consume(5) by (simp add: starved_def)
  qed
  then show ?case using consume fr by (cases "j = i") (simp_all add: starved_def)
next
  case (close j S e c st)
  then show ?case
    by (cases "j = i")
       (auto simp: starved_def async_generate_close_def error_cleanup_exit_def orphan_def
         split: if_splits)
qed

text \<open>
  C5: a second request with the id of a request in flight destroys the first one. The second
  generator raises the duplicate-id error, and the clean-up scope around it then
  aborts the id at the native engine and unregisters it, although both belong to the first
  request; from then on the first generator never returns, however the run continues.
\<close>

theorem duplicate_id_starves_the_first_request:
  assumes reach: "engine_reachable put fin ns S"
    and first: "i < length (sys_clients S)" "cl_end (sys_clients S ! i) = None"
      "dict_get (es_async_streamers (sys_engine S)) rid = Some (cl_stream (sys_clients S ! i), ts)"
    and second: "exec_actions put fin ns S
      [Submit prompt cfg rid, Consume (length (sys_clients S))] = Some U"
      "length (sys_clients U) = Suc (length (sys_clients S))"
    and later: "(engine_step put fin ns)\<^sup>*\<^sup>* U T"
  shows "cl_end (sys_clients U ! length (sys_clients S)) = Some (Raised (duplicate_error rid)) \<and>
     es_ffi (sys_engine U) = es_ffi (sys_engine S) @ [AbortRequest rid] \<and>
     dict_get (es_async_streamers (sys_engine U)) rid = None \<and>
     cl_end (sys_clients T ! i) \<noteq> Some Returned"
proof -
  let ?n = "length (sys_clients S)" and ?st = "sys_engine S"
  let ?r = "cl_stream (sys_clients S ! i)"
  have inv: "sys_inv S" by (rule reachable_inv [OF reach])
  then have sinv: "streams_inv (es_async_streamers ?st) (es_streams ?st)" by (simp add: sys_inv_def)
  note r = streams_inv_regD [OF sinv first(3)]
  obtain res st1 where start: "async_generate_start ns prompt cfg rid ?st = (st1, res)"
    by (cases "async_generate_start ns prompt cfg rid ?st") auto
  have res: "res = Inr (length (es_streams ?st))" and st1: "es_streams st1 = es_streams ?st @
      [stream_push (Exc (duplicate_error rid)) new_stream]"
    "es_async_streamers st1 = es_async_streamers ?st" "es_ffi st1 = es_ffi ?st"
    using start first(3) second
    by (auto simp: async_generate_start_def async_lazy_init_event_loop_def Let_def exec_action_def
        split: if_splits sum.splits)
  have U: "sys_clients U = sys_clients S @ [\<lparr>cl_request_id = rid, cl_stream = length (es_streams ?st),
        cl_delivered = [], cl_end = Some (Raised (duplicate_error rid))\<rparr>]"
    "es_async_streamers (sys_engine U) = dict_pop (es_async_streamers ?st) rid"
    "es_ffi (sys_engine U) = es_ffi ?st @ [AbortRequest rid]"
    "es_streams (sys_engine U) ! ?r = es_streams ?st ! ?r"
    using second(1) start res st1 r(1)
    by (auto simp: exec_action_def async_generate_next_def stream_anext_def stream_push_def
        new_stream_def error_cleanup_exit_def async_abort_def ffi_def update_stream_def
        duplicate_error_def nth_append Let_def)
  have "orphan ?r (sys_engine U)"
    unfolding orphan_def U(2) by (auto split: if_splits dest: streams_inv_injD [OF sinv first(3)])
  then have st_U: "starved i U"
    using first r(2) U by (simp add: starved_def nth_append open_stream_def)
  have "sys_inv U"
    by (rule reachable_inv [OF exec_actions_reachable [OF second(1) reach]])
  from later this st_U have "sys_inv T \<and> starved i T"
    by (induction rule: rtranclp_induct) (auto dest: starved_step engine_step_inv)
  then show ?thesis using U by (simp add: starved_def nth_append)
qed

theorem duplicate_id_starves_the_first_request_witness:
  "\<exists>S U. exec_actions demo_put demo_fin () (sys_init False)
       [Submit (EStr ''hi'') demo_config ''r''] = Some S \<and>
     exec_actions demo_put demo_fin () S [Submit (EStr ''yo'') demo_config ''r'', Consume 1] = Some U \<and>
     cl_end (sys_clients U ! 1) = Some (Raised (duplicate_error ''r'')) \<and>
     (\<forall>T. (engine_step demo_put demo_fin ())\<^sup>*\<^sup>* U T \<longrightarrow> cl_end (sys_clients T ! 0) \<noteq> Some Returned)"
proof -
  obtain S where S: "exec_actions demo_put demo_fin () (sys_init False)
       [Submit (EStr ''hi'') demo_config ''r''] = Some S"
    "sys_clients S = [\<lparr>cl_request_id = ''r'', cl_stream = 0, cl_delivered = [], cl_end = None\<rparr>]"
    "dict_get (es_async_streamers (sys_engine S)) ''r'' = Some (0, [()])"
    by (simp add: demo_simps exec_simps)
  obtain U where U: "exec_actions demo_put demo_fin () S
       [Submit (EStr ''yo'') demo_config ''r'', Consume (length (sys_clients S))] = Some U"
    "length (sys_clients U) = Suc (length (sys_clients S))"
    using S by (auto simp: demo_simps exec_simps)
  have reach: "engine_reachable demo_put demo_fin () S" by (rule exec_from_init [OF S(1)])
  note dup = duplicate_id_starves_the_first_request [OF reach, of 0 "''r''" "[()]", OF _ _ _ U]
  have "cl_end (sys_clients U ! 1) = Some (Raised (duplicate_error ''r''))"
    using dup [of U] S by simp
  moreover have "cl_end (sys_clients T ! 0) \<noteq> Some Returned"
    if "(engine_step demo_put demo_fin ())\<^sup>*\<^sup>* U T" for T
    using dup [OF _ _ _ that] S by simp
  ultimately show ?thesis using S U by auto
qed

end
