(* ===== verification/Engine.thy ===== *)
theory Engine
  imports Stream_Output Stream_Delivery
begin

text \<open>
  \<open>serve/engine.py\<close>: the handlers \<open>_handle_chat_completion\<close> and \<open>_handle_completion\<close> of the async
  and the sync engine, and the non-streaming methods \<open>_chat_completion\<close> and \<open>_completion\<close> that
  accumulate a handler's responses. A handler is run over the values its \<open>_generate\<close> yields;
  the events of the generator and of the handler each keep their own order in the trace.
\<close>

section \<open>Environment\<close>

text \<open>The tokenizer, the model config, the template and the codecs an engine object holds.\<close>

record 'img engine_env =
  env_dump :: "chat_function \<Rightarrow> string"
  env_dumps :: "chat_function list \<Rightarrow> string"
  env_image_io :: "'img image_io"
  env_encode :: "string \<Rightarrow> int list"
  env_decode :: "int list \<Rightarrow> string"
  env_model_config :: "json dict option"
  env_max_input_sequence_length :: int
  env_conv_template :: conversation
  env_parse_lpc :: "string \<Rightarrow> log_probs_content res"
  env_parse_usage :: "string \<Rightarrow> completion_usage res"

type_synonym ('img, 's) generate_fn =
  "'img elem \<Rightarrow> generation_config \<Rightarrow> string \<Rightarrow> 's engine_state \<Rightarrow>
   callback_stream_output list gen \<times> 's engine_state"

text \<open>
  The async generator, when the event loop handles the given batches of deltas before the
  generator takes its items.
\<close>

definition async_generate ::
    "'s put_fn \<Rightarrow> 's finish_fn \<Rightarrow> 's \<Rightarrow> request_stream_output list list \<Rightarrow> ('img, 's) generate_fn" where
  "async_generate put fin ns dss prompt cfg request_id st =
     (case async_generate_start ns prompt cfg request_id st of
        (st1, Inl e) \<Rightarrow> (([], Raised e), st1)
      | (st1, Inr r) \<Rightarrow>
          (let st2 = fst (run_callbacks put fin dss st1) in
           case async_drain (Suc (length (ars_queue (es_streams st2 ! r))))
                  \<lparr>cl_request_id = request_id, cl_stream = r, cl_delivered = [], cl_end = None\<rparr> st2 of
             (c, st3) \<Rightarrow>
               ((cl_delivered c, case cl_end c of None \<Rightarrow> Blocked | Some en \<Rightarrow> en), st3)))"

section \<open>The handlers\<close>

definition strip_extra :: "bool \<Rightarrow> completion_usage option \<Rightarrow> completion_usage option" where
  "strip_extra include_extra u =
     (if include_extra then u else map_option (\<lambda>x. x\<lparr>usage_extra := None\<rparr>) u)"

fun chat_stream_loop ::
    "'img engine_env \<Rightarrow> bool \<Rightarrow> chat_completion_request \<Rightarrow> string \<Rightarrow> bool \<Rightarrow>
     callback_stream_output list list \<Rightarrow> string option list \<Rightarrow> 's engine_state \<Rightarrow>
     (chat_completion_stream_response list \<times> py_error option) \<times> 's engine_state" where
  "chat_stream_loop env include_extra request request_id use_fc [] frs st = (([], None), st)"
| "chat_stream_loop env include_extra request request_id use_fc (c # cs) frs st =
     (case process_chat_completion_stream_output (env_parse_lpc env) (env_parse_usage env) c
             request request_id use_fc frs st of
        (st, Inl e) \<Rightarrow> (([], Some e), st)
      | (st, Inr (frs, r)) \<Rightarrow>
          (case chat_stream_loop env include_extra request request_id use_fc cs frs st of
             ((ys, e), st) \<Rightarrow>
               (((case r of
                    None \<Rightarrow> ys
                  | Some x \<Rightarrow> x\<lparr>csr_usage := strip_extra include_extra (csr_usage x)\<rparr> # ys), e), st)))"

text \<open>
  \<open>close\<close> is what happens to the suspended \<open>_generate\<close> when the loop body raises.
\<close>

definition handle_chat_completion ::
    "'img engine_env \<Rightarrow> ('img, 's) generate_fn \<Rightarrow> (string \<Rightarrow> 's engine_state \<Rightarrow> 's engine_state) \<Rightarrow>
     bool \<Rightarrow> chat_completion_request \<Rightarrow> string \<Rightarrow> 's engine_state \<Rightarrow>
     chat_completion_stream_response gen \<times> 's engine_state" where
  "handle_chat_completion env generate close include_extra request request_id st =
     (case process_chat_completion_request (env_dump env) (env_dumps env) (env_image_io env)
             request request_id st (env_model_config env) (env_encode env)
             (env_max_input_sequence_length env) (env_conv_template env) of
        (st, Inl e) \<Rightarrow> (([], Raised e), st)
      | (st, Inr pc) \<Rightarrow>
          (let st = record_event request_id ''invoke generate'' st in
           case generate (EList (map elem_of_prompt (pc_prompts pc))) (pc_generation_cfg pc)
                  request_id st of
             ((chunks, en), st) \<Rightarrow>
               (case chat_stream_loop env include_extra (pc_request pc) request_id
                       (pc_use_function_calling pc) chunks
                       (replicate (nat (gc_n (pc_generation_cfg pc))) None) st of
                  ((ys, Some e), st) \<Rightarrow> ((ys, Raised e), close request_id st)
                | ((ys, None), st) \<Rightarrow>
                    ((ys, en),
                     if en = Returned then record_event request_id ''finish'' st else st))))"

definition sync_handle_chat_completion ::
    "'img engine_env \<Rightarrow> 's put_fn \<Rightarrow> 's finish_fn \<Rightarrow> 's \<Rightarrow> request_stream_output list list \<Rightarrow>
     chat_completion_request \<Rightarrow> string \<Rightarrow> 's engine_state \<Rightarrow>
     chat_completion_stream_response gen \<times> 's engine_state" where
  "sync_handle_chat_completion env put fin ns batches request request_id st =
     handle_chat_completion env (\<lambda>p c i. sync_generate put fin ns p c i batches)
       sync_generate_close True request request_id st"

definition async_close :: "string \<Rightarrow> 's engine_state \<Rightarrow> 's engine_state" where
  "async_close request_id st = error_cleanup_exit (Some GeneratorExit) (async_abort request_id) st"

definition async_handle_chat_completion ::
    "'img engine_env \<Rightarrow> 's put_fn \<Rightarrow> 's finish_fn \<Rightarrow> 's \<Rightarrow> request_stream_output list list \<Rightarrow> bool \<Rightarrow>
     chat_completion_request \<Rightarrow> string \<Rightarrow> 's engine_state \<Rightarrow>
     chat_completion_stream_response gen \<times> 's engine_state" where
  "async_handle_chat_completion env put fin ns dss request_final_usage_include_extra request
     request_id st =
     handle_chat_completion env (async_generate put fin ns dss) async_close
       request_final_usage_include_extra request request_id st"

fun completion_stream_loop ::
    "'img engine_env \<Rightarrow> bool \<Rightarrow> completion_request \<Rightarrow> string \<Rightarrow> callback_stream_output list list \<Rightarrow>
     string option list \<Rightarrow> 's engine_state \<Rightarrow>
     (completion_response list \<times> string option list res) \<times> 's engine_state" where
  "completion_stream_loop env include_extra request request_id [] frs st = (([], Inr frs), st)"
| "completion_stream_loop env include_extra request request_id (c # cs) frs st =
     (case process_completion_stream_output (env_parse_lpc env) (env_parse_usage env) c
             request request_id frs st of
        (st, Inl e) \<Rightarrow> (([], Inl e), st)
      | (st, Inr (frs, r)) \<Rightarrow>
          (case completion_stream_loop env include_extra request request_id cs frs st of
             ((ys, e), st) \<Rightarrow>
               (((case r of
                    None \<Rightarrow> ys
                  | Some x \<Rightarrow> x\<lparr>crs_usage := strip_extra include_extra (crs_usage x)\<rparr> # ys), e), st)))"

definition opt_list :: "'a option \<Rightarrow> 'a list" where
  "opt_list x = (case x of None \<Rightarrow> [] | Some y \<Rightarrow> [y])"

definition handle_completion ::
    "'img engine_env \<Rightarrow> ('img, 's) generate_fn \<Rightarrow> (string \<Rightarrow> 's engine_state \<Rightarrow> 's engine_state) \<Rightarrow>
     bool \<Rightarrow> completion_request \<Rightarrow> string \<Rightarrow> 's engine_state \<Rightarrow>
     completion_response gen \<times> 's engine_state" where
  "handle_completion env generate close include_extra request request_id st =
     (case process_completion_request request request_id st (env_encode env) (env_decode env)
             (env_max_input_sequence_length env) (env_conv_template env) of
        (st, Inl e) \<Rightarrow> (([], Raised e), st)
      | (st, Inr pp) \<Rightarrow>
          (let echo = opt_list (pp_echo_response pp);
               st = record_event request_id ''invoke generate'' st in
           case generate (EList (map EInt (pp_prompt pp))) (pp_generation_cfg pp) request_id st of
             ((chunks, en), st) \<Rightarrow>
               (case completion_stream_loop env include_extra (pp_request pp) request_id chunks
                       (replicate (nat (gc_n (pp_generation_cfg pp))) None) st of
                  ((ys, Inl e), st) \<Rightarrow> ((echo @ ys, Raised e), close request_id st)
                | ((ys, Inr frs), st) \<Rightarrow>
                    if en \<noteq> Returned then ((echo @ ys, en), st)
                    else
                      (case create_completion_suffix_response (pp_request pp) request_id frs of
                         Inl e \<Rightarrow> ((echo @ ys, Raised e), st)
                       | Inr s \<Rightarrow>
                           ((echo @ ys @ opt_list s, Returned),
                            record_event request_id ''finish'' st)))))"

definition sync_handle_completion ::
    "'img engine_env \<Rightarrow> 's put_fn \<Rightarrow> 's finish_fn \<Rightarrow> 's \<Rightarrow> request_stream_output list list \<Rightarrow>
     completion_request \<Rightarrow> string \<Rightarrow> 's engine_state \<Rightarrow> completion_response gen \<times> 's engine_state" where
  "sync_handle_completion env put fin ns batches request request_id st =
     handle_completion env (\<lambda>p c i. sync_generate put fin ns p c i batches)
       sync_generate_close True request request_id st"

definition async_handle_completion ::
    "'img engine_env \<Rightarrow> 's put_fn \<Rightarrow> 's finish_fn \<Rightarrow> 's \<Rightarrow> request_stream_output list list \<Rightarrow> bool \<Rightarrow>
     completion_request \<Rightarrow> string \<Rightarrow> 's engine_state \<Rightarrow> completion_response gen \<times> 's engine_state" where
  "async_handle_completion env put fin ns dss request_final_usage_include_extra request
     request_id st =
     handle_completion env (async_generate put fin ns dss) async_close
       request_final_usage_include_extra request request_id st"

section \<open>Non-streaming results\<close>

record chat_acc =
  ca_output_texts :: "string list"
  ca_finish_reasons :: "string option list"
  ca_logprob_results :: "log_probs_content list list option"
  ca_usage :: "completion_usage option"

definition chat_acc_init :: "int \<Rightarrow> bool \<Rightarrow> chat_acc" where
  "chat_acc_init n logprobs =
     \<lparr>ca_output_texts = replicate (nat n) [], ca_finish_reasons = replicate (nat n) None,
      ca_logprob_results = (if logprobs then Some (replicate (nat n) []) else None),
      ca_usage = None\<rparr>"

text \<open>\<open>if finish_reason is not None and finish_reasons[i] is None: finish_reasons[i] = ...\<close>.\<close>

definition first_reason :: "string option list \<Rightarrow> nat \<Rightarrow> string option \<Rightarrow> string option list res" where
  "first_reason frs i fr =
     (if fr = None then Inr frs
      else bindR (indexR frs i) (\<lambda>old. Inr (if old = None then frs[i := fr] else frs)))"

definition chat_acc_choice ::
    "chat_acc \<Rightarrow> chat_completion_stream_response_choice \<Rightarrow> chat_acc res" where
  "chat_acc_choice a c =
     (case cm_content (csc_delta c) of
        Some (Text t) \<Rightarrow>
          bindR (indexR (ca_output_texts a) (csc_index c)) (\<lambda>old.
          bindR (first_reason (ca_finish_reasons a) (csc_index c) (csc_finish_reason c)) (\<lambda>frs.
          let a = a\<lparr>ca_output_texts := (ca_output_texts a)[csc_index c := old @ t],
                    ca_finish_reasons := frs\<rparr> in
          case csc_logprobs c of
            None \<Rightarrow> Inr a
          | Some lp \<Rightarrow>
              (case ca_logprob_results a of
                 None \<Rightarrow> Inl AssertionError
               | Some l \<Rightarrow>
                   bindR (indexR l (csc_index c)) (\<lambda>old.
                   Inr (a\<lparr>ca_logprob_results :=
                            Some (l[csc_index c := old @ lp_content lp])\<rparr>)))))
      | _ \<Rightarrow> Inl AssertionError)"

definition chat_acc_response ::
    "chat_acc \<Rightarrow> chat_completion_stream_response \<Rightarrow> chat_acc res" where
  "chat_acc_response a r =
     (if csr_usage r \<noteq> None then Inr (a\<lparr>ca_usage := csr_usage r\<rparr>)
      else foldR chat_acc_choice a (csr_choices r))"

text \<open>
  The rest of \<open>_chat_completion\<close> after its loop: \<open>None\<close> stands for waiting on the generator.
\<close>

definition finish_chat_completion ::
    "'e ast_io \<Rightarrow> chat_completion_request \<Rightarrow> string \<Rightarrow> chat_acc \<Rightarrow> chat_completion_response res" where
  "finish_chat_completion ast request request_id a =
     (if None \<in> set (ca_finish_reasons a) then Inl AssertionError
      else
        bindR (process_function_call_output ast (ca_output_texts a) (ca_finish_reasons a))
          (\<lambda>(texts, frs, use_fc, calls).
        wrap_chat_completion_response request_id (cc_model request) texts frs calls
          (ca_logprob_results a) use_fc (ca_usage a)))"

definition collect_chat_completion ::
    "'e ast_io \<Rightarrow> chat_completion_request \<Rightarrow> string \<Rightarrow> chat_completion_stream_response gen \<Rightarrow>
     chat_completion_response res option" where
  "collect_chat_completion ast request request_id g =
     (case foldR chat_acc_response (chat_acc_init (cc_n request) (cc_logprobs request)) (fst g) of
        Inl e \<Rightarrow> Some (Inl e)
      | Inr a \<Rightarrow>
          (case snd g of
             Blocked \<Rightarrow> None
           | Raised e \<Rightarrow> Some (Inl e)
           | Returned \<Rightarrow> Some (finish_chat_completion ast request request_id a)))"

text \<open>
  \<open>_chat_completion\<close>: the request is built (and validated) first; with \<open>stream\<close> the generator
  itself is the result.
\<close>

datatype ('r, 'x) api_result = Streaming "'r gen" | Whole "'x res option"

definition chat_completion ::
    "'e ast_io \<Rightarrow> (chat_completion_request \<Rightarrow> string \<Rightarrow> 's engine_state \<Rightarrow>
       chat_completion_stream_response gen \<times> 's engine_state) \<Rightarrow>
     chat_completion_request \<Rightarrow> string option \<Rightarrow> string \<Rightarrow> 's engine_state \<Rightarrow>
     (chat_completion_stream_response, chat_completion_response) api_result \<times> 's engine_state" where
  "chat_completion ast handler request given_id uuid st =
     (let request_id = (case given_id of None \<Rightarrow> ''chatcmpl-'' @ uuid | Some i \<Rightarrow> i) in
      case validate_chat_request request of
        Inl e \<Rightarrow> (Whole (Some (Inl e)), st)
      | Inr request \<Rightarrow>
          (case handler request request_id st of
             (g, st) \<Rightarrow>
               (if cc_stream request then Streaming g
                else Whole (collect_chat_completion ast request request_id g), st)))"

record completion_acc =
  pa_output_texts :: "string list"
  pa_finish_reasons :: "string option list"
  pa_logprob_results :: "completion_log_probs option list"
  pa_usage :: "completion_usage option"

definition completion_acc_init :: "int \<Rightarrow> completion_acc" where
  "completion_acc_init n =
     \<lparr>pa_output_texts = replicate (nat n) [], pa_finish_reasons = replicate (nat n) None,
      pa_logprob_results = replicate (nat n) None, pa_usage = None\<rparr>"

definition completion_acc_choice ::
    "completion_acc \<Rightarrow> completion_response_choice \<Rightarrow> completion_acc res" where
  "completion_acc_choice a c =
     bindR (indexR (pa_output_texts a) (crc_index c)) (\<lambda>old.
     bindR (first_reason (pa_finish_reasons a) (crc_index c) (crc_finish_reason c)) (\<lambda>frs.
     let a = a\<lparr>pa_output_texts := (pa_output_texts a)[crc_index c := old @ crc_text c],
               pa_finish_reasons := frs\<rparr> in
     if crc_logprobs c = None then Inr a
     else bindR (updateR (pa_logprob_results a) (crc_index c) (crc_logprobs c)) (\<lambda>l.
          Inr (a\<lparr>pa_logprob_results := l\<rparr>))))"

definition completion_acc_response ::
    "completion_acc \<Rightarrow> completion_response \<Rightarrow> completion_acc res" where
  "completion_acc_response a r =
     (if crs_usage r \<noteq> None then Inr (a\<lparr>pa_usage := crs_usage r\<rparr>)
      else foldR completion_acc_choice a (crs_choices r))"

definition collect_completion ::
    "completion_request \<Rightarrow> string \<Rightarrow> completion_response gen \<Rightarrow> completion_response res option" where
  "collect_completion request request_id g =
     (case foldR completion_acc_response (completion_acc_init (cr_n request)) (fst g) of
        Inl e \<Rightarrow> Some (Inl e)
      | Inr a \<Rightarrow>
          (case snd g of
             Blocked \<Rightarrow> None
           | Raised e \<Rightarrow> Some (Inl e)
           | Returned \<Rightarrow>
               Some (if None \<in> set (pa_finish_reasons a) then Inl AssertionError
                     else wrap_completion_response request_id (cr_model request)
                            (pa_output_texts a) (pa_finish_reasons a) (pa_logprob_results a)
                            (pa_usage a))))"

definition completion ::
    "(completion_request \<Rightarrow> string \<Rightarrow> 's engine_state \<Rightarrow> completion_response gen \<times> 's engine_state) \<Rightarrow>
     completion_request \<Rightarrow> string option \<Rightarrow> string \<Rightarrow> 's engine_state \<Rightarrow>
     (completion_response, completion_response) api_result \<times> 's engine_state" where
  "completion handler request given_id uuid st =
     (let request_id = (case given_id of None \<Rightarrow> ''cmpl-'' @ uuid | Some i \<Rightarrow> i) in
      case validate_completion_request request of
        Inl e \<Rightarrow> (Whole (Some (Inl e)), st)
      | Inr request \<Rightarrow>
          (case handler request request_id st of
             (g, st) \<Rightarrow>
               (if cr_stream request then Streaming g
                else Whole (collect_completion request request_id g), st)))"

end
