(* ===== verification/Engine_Correct.thy ===== *)
theory Engine_Correct
  imports Engine
begin

text \<open>
  End-to-end properties of the engine: what the non-streaming chat completion returns for the
  chunks of its generator, that the async and the sync handlers stream the same responses, and
  how function-call output is reported.
\<close>

section \<open>Accumulating the choices of one chunk\<close>

definition reason_of :: "bool \<Rightarrow> string option \<Rightarrow> callback_stream_output \<Rightarrow> string option" where
  "reason_of use_fc fr out =
     (if fr = None
      then map_option (\<lambda>r. if use_fc then ''tool_calls'' else r) (co_finish_reason out) else fr)"

definition plain_output :: "callback_stream_output \<Rightarrow> bool" where
  "plain_output out \<longleftrightarrow>
     co_request_final_usage_json_str out = None \<and> co_delta_logprob_json_strs out = None \<and>
     co_finish_reason out \<in> {None, Some ''stop'', Some ''length''}"

definition chat_reasons :: "string option set" where
  "chat_reasons = insert None (Some ` set chat_finish_reasons)"

lemma reason_of_chat:
  "plain_output out \<Longrightarrow> fr \<in> chat_reasons \<Longrightarrow> reason_of use_fc fr out \<in> chat_reasons"
  by (auto simp: reason_of_def plain_output_def chat_reasons_def chat_finish_reasons_def)

lemma check_literal_chat: "fr \<in> chat_reasons \<Longrightarrow> check_literal chat_finish_reasons fr = Inr ()"
  by (auto simp: chat_reasons_def check_literal_def)

lemma note_finish_append:
  "note_finish use_fc (pre @ f # fs) (length pre) out =
     Inr (pre @ reason_of use_fc f out # fs, f = None \<and> co_finish_reason out \<noteq> None)"
  by (cases "co_finish_reason out") (auto simp: note_finish_def reason_of_def)

lemma first_reason_append:
  "first_reason (pre @ f # fs) (length pre) (reason_of use_fc f out) =
     Inr (pre @ reason_of use_fc f out # fs)"
  by (auto simp: first_reason_def reason_of_def)

definition add_texts :: "string list \<Rightarrow> callback_stream_output list \<Rightarrow> string list" where
  "add_texts ts outs = map2 (\<lambda>t out. t @ co_delta_text out) ts outs"

definition add_reasons ::
    "bool \<Rightarrow> string option list \<Rightarrow> callback_stream_output list \<Rightarrow> string option list" where
  "add_reasons use_fc fs outs = map2 (reason_of use_fc) fs outs"

lemma chat_choices_collect:
  fixes st :: "'s engine_state"
  assumes "length fs = length outs" "length ts = length outs" "length tpre = length pre"
    and "\<And>out. out \<in> set outs \<Longrightarrow> plain_output out" "set fs \<subseteq> chat_reasons"
  shows "\<exists>st' cs. chat_choices parse use_fc rid (length pre) outs (pre @ fs) st =
       (st', Inr (pre @ add_reasons use_fc fs outs, cs)) \<and>
     es_sync_text_streamers st' = es_sync_text_streamers st \<and>
     (\<forall>a. ca_output_texts a = tpre @ ts \<longrightarrow> ca_finish_reasons a = pre @ fs \<longrightarrow>
       foldR chat_acc_choice a cs =
         Inr (a\<lparr>ca_output_texts := tpre @ add_texts ts outs,
               ca_finish_reasons := pre @ add_reasons use_fc fs outs\<rparr>))"
  using assms
proof (induction outs arbitrary: pre tpre fs ts st)
  case Nil
  then show ?case by (auto simp: add_texts_def add_reasons_def)
next
  case (Cons out outs)
  obtain f fs' where fs: "fs = f # fs'" using Cons.prems(1) by (cases fs) auto
  obtain t ts' where ts: "ts = t # ts'" using Cons.prems(2) by (cases ts) auto
  let ?f = "reason_of use_fc f out" and ?t = "t @ co_delta_text out"
  have out: "plain_output out" using Cons.prems(4) by simp
  have IH: "\<exists>st' cs. chat_choices parse use_fc rid (length pre + 1) outs (pre @ ?f # fs') st1 =
       (st', Inr (pre @ ?f # add_reasons use_fc fs' outs, cs)) \<and>
     es_sync_text_streamers st' = es_sync_text_streamers st1 \<and>
     (\<forall>a. ca_output_texts a = tpre @ ?t # ts' \<longrightarrow> ca_finish_reasons a = pre @ ?f # fs' \<longrightarrow>
       foldR chat_acc_choice a cs =
         Inr (a\<lparr>ca_output_texts := tpre @ ?t # add_texts ts' outs,
               ca_finish_reasons := pre @ ?f # add_reasons use_fc fs' outs\<rparr>))" for st1 :: "'s engine_state"
    using Cons.IH [of fs' ts' "tpre @ [?t]" "pre @ [?f]" st1] Cons.prems fs ts by simp
  have f: "?f \<in> chat_reasons" using Cons.prems(5) fs out by (intro reason_of_chat) auto
  show ?case
  proof (cases "\<not> (f = None \<and> co_finish_reason out \<noteq> None) \<and> co_delta_text out = []")
    case True
    then have "?f = f" by (auto simp: reason_of_def)
    then show ?thesis
      using IH [of "record_event rid ''skip empty delta text'' st"] True fs ts
      by (auto simp: note_finish_append add_texts_def add_reasons_def)
  next
    case False
    let ?c = "\<lparr>csc_finish_reason = ?f, csc_index = length pre,
        csc_delta = assistant_message (Some (Text (co_delta_text out))) None, csc_logprobs = None\<rparr>"
    obtain st' cs where run: "chat_choices parse use_fc rid (length pre + 1) outs (pre @ ?f # fs') st =
        (st', Inr (pre @ ?f # add_reasons use_fc fs' outs, cs))"
      "es_sync_text_streamers st' = es_sync_text_streamers st"
      and acc: "\<And>a. ca_output_texts a = tpre @ ?t # ts' \<Longrightarrow> ca_finish_reasons a = pre @ ?f # fs' \<Longrightarrow>
       foldR chat_acc_choice a cs =
         Inr (a\<lparr>ca_output_texts := tpre @ ?t # add_texts ts' outs,
               ca_finish_reasons := pre @ ?f # add_reasons use_fc fs' outs\<rparr>)"
      using IH [of st] by blast
    have "chat_choices parse use_fc rid (length pre) (out # outs) (pre @ fs) st =
        (st', Inr (pre @ ?f # add_reasons use_fc fs' outs, ?c # cs))"
      using False fs run f out
      by (auto simp: note_finish_append delta_log_probs_def plain_output_def mk_chat_stream_choice_def
          check_literal_chat)
    moreover have "chat_acc_choice a ?c =
        Inr (a\<lparr>ca_output_texts := tpre @ ?t # ts', ca_finish_reasons := pre @ ?f # fs'\<rparr>)"
      if "ca_output_texts a = tpre @ ts" "ca_finish_reasons a = pre @ fs" for a
      using that fs ts Cons.prems(3) first_reason_append [of pre f fs' use_fc out]
      by (simp add: chat_acc_choice_def assistant_message_def)
        (metis list_update_length nth_append_length)
    ultimately show ?thesis using run(2) acc fs ts
      by (auto simp: add_texts_def add_reasons_def)
  qed
qed

section \<open>Accumulating all chunks\<close>

definition plain_chunk :: "nat \<Rightarrow> callback_stream_output list \<Rightarrow> bool" where
  "plain_chunk n c \<longleftrightarrow> length c = n \<and> list_all plain_output c"

definition texts_after :: "string list \<Rightarrow> callback_stream_output list list \<Rightarrow> string list" where
  "texts_after ts cs = foldl add_texts ts cs"

definition reasons_after ::
    "bool \<Rightarrow> string option list \<Rightarrow> callback_stream_output list list \<Rightarrow> string option list" where
  "reasons_after use_fc fs cs = foldl (add_reasons use_fc) fs cs"

lemma add_lengths [simp]:
  "length ts = length c \<Longrightarrow> length (add_texts ts c) = length c"
  "length fs = length c \<Longrightarrow> length (add_reasons use_fc fs c) = length c"
  by (simp_all add: add_texts_def add_reasons_def)

lemma add_reasons_chat:
  "list_all plain_output c \<Longrightarrow> set fs \<subseteq> chat_reasons \<Longrightarrow>
     set (add_reasons use_fc fs c) \<subseteq> chat_reasons"
  by (auto simp: add_reasons_def list_all_iff dest: set_zip_leftD set_zip_rightD
      intro!: reason_of_chat)

lemma chat_chunk_collect:
  fixes st :: "'s engine_state"
  assumes "plain_chunk n c" "0 < n" "cc_n request = int n"
    and "length fs = n" "length ts = n" "set fs \<subseteq> chat_reasons"
  shows "\<exists>st' r. process_chat_completion_stream_output parse_lpc parse_usage c request rid use_fc fs st =
       (st', Inr (add_reasons use_fc fs c, r)) \<and>
     (\<forall>x. r = Some x \<longrightarrow> csr_usage x = None) \<and>
     (\<forall>a. ca_output_texts a = ts \<longrightarrow> ca_finish_reasons a = fs \<longrightarrow>
       foldR chat_acc_response a (opt_list r) =
         Inr (a\<lparr>ca_output_texts := add_texts ts c, ca_finish_reasons := add_reasons use_fc fs c\<rparr>))"
proof -
  have plain: "list_all plain_output c" and len: "length c = n"
    using assms(1) by (auto simp: plain_chunk_def)
  then have hd: "c \<noteq> []" "co_request_final_usage_json_str (c ! 0) = None"
    using assms(2) by (auto simp: list_all_length plain_output_def)
  obtain st' cs where run: "chat_choices parse_lpc use_fc rid 0 c fs st =
      (st', Inr (add_reasons use_fc fs c, cs))"
    and acc: "\<And>a. ca_output_texts a = ts \<Longrightarrow> ca_finish_reasons a = fs \<Longrightarrow>
      foldR chat_acc_choice a cs = Inr (a\<lparr>ca_output_texts := add_texts ts c,
        ca_finish_reasons := add_reasons use_fc fs c\<rparr>)"
    using chat_choices_collect [of fs c ts "[]" "[]" parse_lpc use_fc rid st] assms plain len
    by (auto simp: list_all_iff)
  show ?thesis
  proof (cases "cs = []")
    case True
    then show ?thesis using run acc hd len assms(3)
      by (auto simp: process_chat_completion_stream_output_def opt_list_def)
  next
    case False
    then show ?thesis using run acc hd len assms(3)
      by (auto simp: process_chat_completion_stream_output_def opt_list_def chat_acc_response_def)
  qed
qed

lemma chat_final_chunk:
  assumes "parse_usage u = Inr usage" and "\<not> cc_stream request"
  shows "process_chat_completion_stream_output parse_lpc parse_usage [usage_chunk (Some u)] request
      rid use_fc fs st =
    (record_event rid ''yield final usage'' st,
     Inr (fs, Some \<lparr>csr_id = rid, csr_choices = [], csr_model = cc_model request,
                    csr_usage = Some usage\<rparr>))"
  using assms
  by (simp add: process_chat_completion_stream_output_def usage_chunk_def final_usage_wanted_def)

lemma chat_loop_collect:
  fixes st :: "'s engine_state"
  assumes "\<And>c. c \<in> set cs \<Longrightarrow> plain_chunk n c" "0 < n" "cc_n request = int n"
    and "length fs = n" "length ts = n" "set fs \<subseteq> chat_reasons"
    and "env_parse_usage env u = Inr usage" "\<not> cc_stream request"
    and "ca_output_texts a = ts" "ca_finish_reasons a = fs"
  shows "\<exists>ys st'. chat_stream_loop env True request rid use_fc (cs @ [[usage_chunk (Some u)]]) fs st =
       ((ys, None), st') \<and>
     foldR chat_acc_response a ys =
       Inr (a\<lparr>ca_output_texts := texts_after ts cs, ca_finish_reasons := reasons_after use_fc fs cs,
              ca_usage := Some usage\<rparr>)"
  using assms
proof (induction cs arbitrary: fs ts st a)
  case Nil
  then show ?case
    by (auto simp: chat_final_chunk texts_after_def reasons_after_def strip_extra_def
        chat_acc_response_def)
next
  case (Cons c cs)
  have c: "plain_chunk n c" using Cons.prems(1) by simp
  obtain st1 r where one: "process_chat_completion_stream_output (env_parse_lpc env)
      (env_parse_usage env) c request rid use_fc fs st = (st1, Inr (add_reasons use_fc fs c, r))"
    "\<And>x. r = Some x \<Longrightarrow> csr_usage x = None"
    and acc: "foldR chat_acc_response a (opt_list r) =
      Inr (a\<lparr>ca_output_texts := add_texts ts c, ca_finish_reasons := add_reasons use_fc fs c\<rparr>)"
    using chat_chunk_collect [OF c Cons.prems(2-6), of "env_parse_lpc env" "env_parse_usage env"
        rid use_fc st] Cons.prems(9,10) by blast
  let ?a = "a\<lparr>ca_output_texts := add_texts ts c, ca_finish_reasons := add_reasons use_fc fs c\<rparr>"
  have len: "length c = n" "list_all plain_output c" using c by (auto simp: plain_chunk_def)
  then obtain ys st' where rest: "chat_stream_loop env True request rid use_fc
      (cs @ [[usage_chunk (Some u)]]) (add_reasons use_fc fs c) st1 = ((ys, None), st')"
    and acc': "foldR chat_acc_response ?a ys =
       Inr (?a\<lparr>ca_output_texts := texts_after (add_texts ts c) cs,
              ca_finish_reasons := reasons_after use_fc (add_reasons use_fc fs c) cs,
              ca_usage := Some usage\<rparr>)"
    using Cons.IH [of "add_reasons use_fc fs c" "add_texts ts c" ?a st1] Cons.prems add_reasons_chat
    by auto
  have "chat_stream_loop env True request rid use_fc ((c # cs) @ [[usage_chunk (Some u)]]) fs st =
      ((opt_list r @ ys, None), st')"
    using one(1) rest one(2) by (cases r) (auto simp: opt_list_def strip_extra_def)
  then show ?case using acc acc' by (simp add: foldR_append texts_after_def reasons_after_def)
qed

text \<open>The specification: per generation, all texts in order and the first finish reason.\<close>

definition generation_text :: "callback_stream_output list list \<Rightarrow> nat \<Rightarrow> string" where
  "generation_text cs i = concat (map (\<lambda>c. co_delta_text (c ! i)) cs)"

definition generation_reason :: "callback_stream_output list list \<Rightarrow> nat \<Rightarrow> string option" where
  "generation_reason cs i =
     (case filter (\<lambda>x. x \<noteq> None) (map (\<lambda>c. co_finish_reason (c ! i)) cs) of
        [] \<Rightarrow> None | x # _ \<Rightarrow> x)"

lemma texts_after_nth:
  assumes "\<And>c. c \<in> set cs \<Longrightarrow> plain_chunk n c" "length ts = n" "i < n"
  shows "length (texts_after ts cs) = n \<and> texts_after ts cs ! i = ts ! i @ generation_text cs i"
  using assms
proof (induction cs arbitrary: ts)
  case Nil
  then show ?case by (simp add: texts_after_def generation_text_def)
next
  case (Cons c cs)
  then have "length c = n" by (simp add: plain_chunk_def)
  then show ?case using Cons.IH [of "add_texts ts c"] Cons.prems
    by (simp add: texts_after_def generation_text_def add_texts_def)
qed

lemma reasons_after_nth:
  assumes "\<And>c. c \<in> set cs \<Longrightarrow> plain_chunk n c" "length fs = n" "i < n"
  shows "length (reasons_after False fs cs) = n \<and> reasons_after False fs cs ! i =
     (if fs ! i = None then generation_reason cs i else fs ! i)"
  using assms
proof (induction cs arbitrary: fs)
  case Nil
  then show ?case by (simp add: reasons_after_def generation_reason_def)
next
  case (Cons c cs)
  then have len: "length c = n" by (simp add: plain_chunk_def)
  then have "add_reasons False fs c ! i = reason_of False (fs ! i) (c ! i)"
    using Cons.prems by (simp add: add_reasons_def)
  then show ?case using Cons.IH [of "add_reasons False fs c"] Cons.prems len
    by (auto simp: reasons_after_def generation_reason_def reason_of_def option.map_ident)
qed

lemma reasons_after_chat:
  "(\<And>c. c \<in> set cs \<Longrightarrow> list_all plain_output c) \<Longrightarrow> set fs \<subseteq> chat_reasons \<Longrightarrow>
     set (reasons_after use_fc fs cs) \<subseteq> chat_reasons"
  by (induction cs arbitrary: fs) (auto simp: reasons_after_def add_reasons_chat)

section \<open>The non-streaming chat completion\<close>

lemma record_event_terminated [simp]: "es_terminated (record_event rid e st) = es_terminated st"
  by (simp add: record_event_def split: option.splits)

lemma processed_chat_fields:
  assumes "process_chat_completion_request dump dumps io request rid st mc tok mx cv = (st', Inr pc)"
  shows "gc_n (pc_generation_cfg pc) = cc_n request" "cc_n (pc_request pc) = cc_n request"
    "cc_stream (pc_request pc) = cc_stream request" "cc_model (pc_request pc) = cc_model request"
    "es_terminated st' = es_terminated st"
    "es_streams st' = es_streams st" "es_async_streamers st' = es_async_streamers st"
  using assms
  by (auto simp: process_chat_completion_request_def Let_def res_simps get_generation_config_def
      split: prod.splits option.splits)

definition chat_response_of ::
    "string \<Rightarrow> chat_completion_request \<Rightarrow> nat \<Rightarrow> callback_stream_output list list \<Rightarrow>
     completion_usage \<Rightarrow> chat_completion_response" where
  "chat_response_of rid request n cs usage =
     \<lparr>ccr_id = rid,
      ccr_choices = map (\<lambda>i.
        \<lparr>ccc_finish_reason = generation_reason cs i, ccc_index = i,
         ccc_message = assistant_message (Some (Text (generation_text cs i))) None,
         ccc_logprobs = None\<rparr>) [0..<n],
      ccr_model = cc_model request, ccr_usage = Some usage\<rparr>"

lemma generation_reason_simps [simp]:
  "generation_reason [] i = None"
  "generation_reason (c # cs) i =
     (if co_finish_reason (c ! i) \<noteq> None then co_finish_reason (c ! i) else generation_reason cs i)"
  by (simp_all add: generation_reason_def)

lemma generation_reason_plain:
  assumes "\<And>c. c \<in> set cs \<Longrightarrow> plain_chunk n c" "i < n"
  shows "generation_reason cs i \<in> {None, Some ''stop'', Some ''length''}"
  using assms
proof (induction cs)
  case (Cons c cs)
  have "co_finish_reason (c ! i) \<in> {None, Some ''stop'', Some ''length''}"
    using Cons.prems by (auto simp: plain_chunk_def plain_output_def list_all_length)
  then show ?case using Cons by auto
qed simp

lemma generation_reason_None_iff:
  "generation_reason cs i = None \<longleftrightarrow> (\<forall>c \<in> set cs. co_finish_reason (c ! i) = None)"
  by (induction cs) auto

lemma wrap_chat_plain:
  assumes "length texts = n" "length frs = n" "\<And>i. i < n \<Longrightarrow> frs ! i \<in> chat_reasons"
  shows "wrap_chat_completion_response rid model texts frs (map (\<lambda>_. []) texts) None False usage =
     Inr \<lparr>ccr_id = rid, ccr_choices = map (\<lambda>i.
        \<lparr>ccc_finish_reason = frs ! i, ccc_index = i,
         ccc_message = assistant_message (Some (Text (texts ! i))) None,
         ccc_logprobs = None\<rparr>) [0..<n], ccr_model = model, ccr_usage = usage\<rparr>"
proof -
  let ?xs = "enumerate 0 (zip texts (zip frs (map (\<lambda>_. [] :: chat_tool_call list) texts)))"
  let ?f = "\<lambda>(i, txt, fr, calls). bindR (indexR frs i) (\<lambda>fr_i. bindR (Inr None) (\<lambda>lp.
      mk_chat_choice i fr_i (if \<not> False \<or> fr = Some ''error''
        then assistant_message (Some (Text txt)) None
        else assistant_message None (Some calls)) lp))"
  let ?g = "\<lambda>(i, txt, fr, calls). \<lparr>ccc_finish_reason = frs ! i, ccc_index = i,
      ccc_message = assistant_message (Some (Text txt)) None, ccc_logprobs = None\<rparr>"
  have "?f x = Inr (?g x)" if "x \<in> set ?xs" for x
  proof -
    have "fst x < n" using enumerate_fst_less [OF that] assms by simp
    then show ?thesis using assms
      by (cases x) (simp add: mk_chat_choice_def check_literal_chat)
  qed
  then have "mapR ?f ?xs = Inr (map ?g ?xs)" by (rule mapR_cong_Inr)
  moreover have "map ?g ?xs = map (\<lambda>i. \<lparr>ccc_finish_reason = frs ! i, ccc_index = i,
         ccc_message = assistant_message (Some (Text (texts ! i))) None,
         ccc_logprobs = None\<rparr>) [0..<n]"
    using assms by (intro nth_equalityI) (auto simp: nth_enumerate_eq)
  ultimately show ?thesis by (simp add: wrap_chat_completion_response_def)
qed

lemma plain_choices_finished:
  fixes cs n
  defines "ts \<equiv> texts_after (replicate n []) cs" and "rs \<equiv> reasons_after False (replicate n None) cs"
  assumes "0 < n" and chunks: "\<And>c. c \<in> set cs \<Longrightarrow> plain_chunk n c"
    "\<And>i. i < n \<Longrightarrow> \<exists>c \<in> set cs. co_finish_reason (c ! i) \<noteq> None"
  shows "finish_chat_completion ast request rid ((chat_acc_init (int n) False)\<lparr>ca_output_texts := ts,
      ca_finish_reasons := rs, ca_usage := Some usage\<rparr>) = Inr (chat_response_of rid request n cs usage)"
proof -
  have ts: "length ts = n" "\<And>i. i < n \<Longrightarrow> ts ! i = generation_text cs i"
    using texts_after_nth [of cs n "replicate n []"] chunks(1) assms(3) by (auto simp: ts_def)
  have rs: "length rs = n" "\<And>i. i < n \<Longrightarrow> rs ! i = generation_reason cs i"
    using reasons_after_nth [of cs n "replicate n None"] chunks(1) assms(3) by (auto simp: rs_def)
  have some: "generation_reason cs i \<in> {Some ''stop'', Some ''length''}" if "i < n" for i
  proof -
    have "generation_reason cs i \<noteq> None"
      using chunks(2) [OF that] by (auto simp: generation_reason_None_iff)
    then show ?thesis using generation_reason_plain [of cs n i] chunks(1) that by auto
  qed
  have "None \<notin> set rs" "Some ''tool_calls'' \<notin> set rs"
    using some rs by (force simp: in_set_conv_nth)+
  moreover have "rs ! i \<in> chat_reasons" if "i < n" for i
    using some [OF that] rs(2) [OF that] by (auto simp: chat_reasons_def chat_finish_reasons_def)
  ultimately show ?thesis
    using wrap_chat_plain [OF ts(1) rs(1), of rid "cc_model request" "Some usage"] ts(2) rs(2)
    by (simp add: finish_chat_completion_def process_function_call_output_def chat_acc_init_def
        chat_response_of_def)
qed

text \<open>
  C3: the non-streaming chat completion of \<open>MLCEngine\<close> returns the whole generation, for a
  request without log probs and without function calling. When the request passes its checks,
  every delta chunk has one output per generation, without log probs and with no finish
  reason, \<open>stop\<close> or \<open>length\<close>, every generation gets a reason, and the usage chunk comes last, the
  response has one choice per generation, in order; its text is the concatenation of all
  the delta texts of that generation, its finish reason is the first one reported, and the
  usage is the one of the usage chunk, in whatever batches the deltas arrive.
\<close>

theorem sync_chat_completion_whole:
  assumes valid: "validate_chat_request request = Inr request" "\<not> cc_stream request"
      "\<not> cc_logprobs request" "cc_n request = int n" "0 < n"
    and prep: "process_chat_completion_request (env_dump env) (env_dumps env) (env_image_io env)
      request rid st (env_model_config env) (env_encode env) (env_max_input_sequence_length env)
      (env_conv_template env) = (st1, Inr pc)" "\<not> pc_use_function_calling pc"
    and engine: "\<not> es_terminated st"
      "convert_prompts_to_data (EList (map elem_of_prompt (pc_prompts pc))) = Inr input"
    and run: "stream_run put fin (replicate n ns) (concat batches) =
      (cs @ [[usage_chunk (Some u)]], Returned)"
    and chunks: "\<And>c. c \<in> set cs \<Longrightarrow> plain_chunk n c"
      "\<And>i. i < n \<Longrightarrow> \<exists>c \<in> set cs. co_finish_reason (c ! i) \<noteq> None"
    and usage: "env_parse_usage env u = Inr usage"
  shows "fst (chat_completion ast (sync_handle_chat_completion env put fin ns batches) request
      (Some rid) uuid st) = Whole (Some (Inr (chat_response_of rid request n cs usage)))"
proof -
  note pc = processed_chat_fields [OF prep(1)]
  let ?st1 = "record_event rid ''invoke generate'' st1"
  obtain st2 where gen: "sync_generate put fin ns (EList (map elem_of_prompt (pc_prompts pc)))
      (pc_generation_cfg pc) rid batches ?st1 = ((cs @ [[usage_chunk (Some u)]], Returned), st2)"
  proof -
    have "fst (sync_generate put fin ns (EList (map elem_of_prompt (pc_prompts pc)))
      (pc_generation_cfg pc) rid batches ?st1) = (cs @ [[usage_chunk (Some u)]], Returned)"
      using engine pc run valid(4) by (intro sync_generate_run) auto
    then show ?thesis using that by (metis prod.collapse)
  qed
  let ?frs = "replicate n None" and ?a = "chat_acc_init (int n) False"
  obtain ys st3 where loop: "chat_stream_loop env True (pc_request pc) rid False
      (cs @ [[usage_chunk (Some u)]]) ?frs st2 = ((ys, None), st3)"
    and acc: "foldR chat_acc_response ?a ys = Inr (?a\<lparr>ca_output_texts := texts_after (replicate n []) cs,
        ca_finish_reasons := reasons_after False ?frs cs, ca_usage := Some usage\<rparr>)"
    using chat_loop_collect [of cs n "pc_request pc" ?frs "replicate n []" env u usage ?a rid False st2]
      chunks valid pc usage by (auto simp: chat_acc_init_def chat_reasons_def)
  have handler: "fst (sync_handle_chat_completion env put fin ns batches request rid st) = (ys, Returned)"
    using prep gen loop pc valid
    by (simp add: sync_handle_chat_completion_def handle_chat_completion_def)
  have "finish_chat_completion ast request rid (?a\<lparr>ca_output_texts := texts_after (replicate n []) cs,
      ca_finish_reasons := reasons_after False ?frs cs, ca_usage := Some usage\<rparr>) =
    Inr (chat_response_of rid request n cs usage)"
    using plain_choices_finished [OF valid(5) chunks] by simp
  then have "collect_chat_completion ast request rid (ys, Returned) =
      Some (Inr (chat_response_of rid request n cs usage))"
    using acc valid by (simp add: collect_chat_completion_def)
  then show ?thesis using handler valid
    by (cases "sync_handle_chat_completion env put fin ns batches request rid st")
       (auto simp: chat_completion_def)
qed

definition demo_template :: conversation where
  "demo_template = conversation_defaults [(''user'', ''U''), (''assistant'', ''A'')] [''|'']"

definition demo_usage_value :: completion_usage where
  "demo_usage_value =
     \<lparr>prompt_tokens = 1, completion_tokens = 2, total_tokens = 3, usage_extra = None\<rparr>"

definition demo_env :: "unit engine_env" where
  "demo_env =
     \<lparr>env_dump = (\<lambda>_. []), env_dumps = (\<lambda>_. []), env_image_io = no_images,
      env_encode = (\<lambda>s. [1]), env_decode = (\<lambda>_. []), env_model_config = None,
      env_max_input_sequence_length = 100, env_conv_template = demo_template,
      env_parse_lpc = (\<lambda>_. Inl (ForeignError [])),
      env_parse_usage = (\<lambda>_. Inr demo_usage_value)\<rparr>"

definition demo_request :: chat_completion_request where
  "demo_request = default_chat_request
     [\<lparr>cm_content = Some (Text ''hi''), cm_role = ''user'', cm_name = None, cm_tool_calls = None,
       cm_tool_call_id = None\<rparr>]"

lemma demo_template_fields [simp]:
  "messages demo_template = []" "stop_token_ids demo_template = []" "stop_str demo_template = []"
  "system_prefix_token_ids demo_template = None"
  by (simp_all add: demo_template_def conversation_defaults_def)

lemma demo_as_prompt:
  "as_prompt no_images None (demo_template\<lparr>use_function_calling := False,
     messages := [(''user'', Some (Text ''hi'')), (''assistant'', None)]\<rparr>) = Inr [PStr ''Uhi|A'']"
  by code_simp

lemma demo_prepared:
  "\<exists>st1 pc. process_chat_completion_request (env_dump demo_env) (env_dumps demo_env)
       (env_image_io demo_env) demo_request ''r'' st (env_model_config demo_env)
       (env_encode demo_env) (env_max_input_sequence_length demo_env)
       (env_conv_template demo_env) = (st1, Inr pc) \<and>
     \<not> pc_use_function_calling pc \<and> pc_prompts pc = [Toks [1]]"
  by (simp add: process_chat_completion_request_def demo_env_def demo_request_def
      default_chat_request_def Let_def demo_as_prompt
      check_unsupported_fields_def get_unsupported_fields_def openai_api_get_unsupported_fields_def
      check_message_validity_def check_message_def check_function_call_usage_def
      process_prompts_def process_prompt_elem_def add_system_prefix_def
      check_and_get_prompts_length_def get_generation_config_def)

theorem sync_chat_completion_whole_witness:
  "fst (chat_completion (\<lparr>parse_eval = (\<lambda>_. Inl SyntaxError), node_eval = (\<lambda>_ :: unit. Inr JNull),
       text_eval = (\<lambda>_. Inl SyntaxError)\<rparr>)
     (sync_handle_chat_completion demo_env demo_put demo_fin () [[demo_delta ''r''], [demo_usage ''r'']])
     demo_request (Some ''r'') [] (engine_state_init False)) =
   Whole (Some (Inr (chat_response_of ''r'' demo_request 1 [[demo_chunk]] demo_usage_value)))"
proof -
  obtain st1 pc where pc: "process_chat_completion_request (env_dump demo_env) (env_dumps demo_env)
       (env_image_io demo_env) demo_request ''r'' (engine_state_init False :: unit engine_state)
       (env_model_config demo_env) (env_encode demo_env) (env_max_input_sequence_length demo_env)
       (env_conv_template demo_env) = (st1, Inr pc)"
    "\<not> pc_use_function_calling pc" "pc_prompts pc = [Toks [1]]"
    using demo_prepared by blast
  have valid: "validate_chat_request demo_request = Inr demo_request" "\<not> cc_stream demo_request"
    "\<not> cc_logprobs demo_request" "cc_n demo_request = int 1"
    by (simp_all add: demo_request_def default_chat_request_def validate_chat_request_def validated_def
        check_penalty_range_def check_logit_bias_def check_logprobs_chat_def check_stream_options_def
        check_debug_config_def CHAT_COMPLETION_MAX_TOP_LOGPROBS_def)
  have run: "stream_run demo_put demo_fin (replicate 1 ()) (concat [[demo_delta ''r''], [demo_usage ''r'']]) =
      ([[demo_chunk]] @ [[usage_chunk (Some ''u'')]], Returned)"
    by (simp add: demo_simps unpack_def unpack_one_def detokenize_def then_text_def)
  have conv: "convert_prompts_to_data (EList (map elem_of_prompt (pc_prompts pc))) = Inr [TokenData [1]]"
    by (simp add: pc(3) int_of_elem_def)
  show ?thesis
    by (rule sync_chat_completion_whole [OF valid _ pc(1,2) _ conv run])
       (auto simp: engine_state_init_def plain_chunk_def plain_output_def demo_chunk_def demo_env_def)
qed

section \<open>Async and sync handlers\<close>

text \<open>The results of the processing functions do not depend on the engine state.\<close>

lemma snd_bindS_cong:
  assumes "snd m = snd m'" and "\<And>st st' x. snd (k st x) = snd (k' st' x)"
  shows "snd (bindS m k) = snd (bindS m' k')"
  using assms by (cases m; cases m'; cases "snd m") (auto simp: bindS_def)

lemma process_chat_state:
  "snd (process_chat_completion_request dump dumps io request rid st mc tok mx cv) =
   snd (process_chat_completion_request dump dumps io request rid st' mc tok mx cv)"
  unfolding process_chat_completion_request_def Let_def
  by (intro snd_bindS_cong) (auto split: prod.splits)

lemma chat_choices_state:
  "snd (chat_choices parse use_fc rid i outs frs st) = snd (chat_choices parse use_fc rid i outs frs st')"
proof (induction outs arbitrary: i frs st st')
  case Nil
  then show ?case by simp
next
  case (Cons out outs)
  note IH = Cons.IH
  show ?case unfolding chat_choices.simps
    by (rule snd_bindS_cong)
       (auto split: prod.splits intro!: snd_bindS_cong IH)
qed

lemma process_chat_output_state:
  "snd (process_chat_completion_stream_output pl pu outs request rid use_fc frs st) =
   snd (process_chat_completion_stream_output pl pu outs request rid use_fc frs st')"
  unfolding process_chat_completion_stream_output_def
  by (rule snd_bindS_cong)
     (auto split: option.splits prod.splits intro!: snd_bindS_cong chat_choices_state)

lemma chat_stream_loop_state:
  "fst (chat_stream_loop env ex request rid use_fc cs frs st) =
   fst (chat_stream_loop env ex request rid use_fc cs frs st')"
proof (induction cs arbitrary: frs st st')
  case Nil
  then show ?case by simp
next
  case (Cons c cs)
  let ?p = "process_chat_completion_stream_output (env_parse_lpc env) (env_parse_usage env) c request
      rid use_fc frs"
  obtain a x where a: "?p st = (a, x)" by (cases "?p st")
  moreover have "snd (?p st) = snd (?p st')" by (rule process_chat_output_state)
  ultimately obtain b where b: "?p st' = (b, x)" by (cases "?p st'") auto
  show ?case
  proof (cases x)
    case (Inl e)
    then show ?thesis using a b by simp
  next
    case (Inr y)
    obtain frs' r where y: "y = (frs', r)" by (cases y)
    show ?thesis using a b Inr y Cons.IH [of frs' a b]
      by (cases "chat_stream_loop env ex request rid use_fc cs frs' a";
          cases "chat_stream_loop env ex request rid use_fc cs frs' b") auto
  qed
qed

lemma async_generate_run:
  assumes inv: "sys_inv S"
    and fresh: "dict_get (es_async_streamers (sys_engine S)) rid = None"
    and submit: "async_generate_start ns prompt cfg rid (sys_engine S) = (st, Inr r)"
    and callbacks: "run_callbacks put fin dss st = (st', [])"
    and spec: "stream_run put fin (replicate (nat (gc_n cfg)) ns)
      (filter (\<lambda>d. rso_request_id d = rid) (concat dss)) = (ys, en)"
  shows "fst (async_generate put fin ns dss prompt cfg rid (sys_engine S)) = (ys, en)"
    "en \<in> {Returned, Blocked}"
proof -
  note run = async_drain_run [OF inv fresh submit callbacks spec]
  show "en \<in> {Returned, Blocked}" by (rule run(3))
  have "\<exists>m. Suc (length (ars_queue (es_streams st' ! r))) = length ys + Suc m"
    by (simp add: run(2) deliver_def new_stream_def)
  then obtain m where m: "Suc (length (ars_queue (es_streams st' ! r))) = length ys + Suc m" by blast
  show "fst (async_generate put fin ns dss prompt cfg rid (sys_engine S)) = (ys, en)"
    using run(1) [of m] run(3) submit callbacks m
    by (auto simp: async_generate_def Let_def split: prod.splits)
qed



section \<open>Function calls\<close>

lemma no_calls_iff:
  assumes "mapR g (List.map_filter (\<lambda>x. x) fns) = Inr calls"
  shows "(\<forall>f \<in> set fns. f = None) \<longleftrightarrow> calls = []"
  using mapR_length [OF assms] by (auto simp: List.map_filter_def filter_empty_conv)

definition call_outcome ::
    "'e ast_io \<Rightarrow> string \<Rightarrow> string \<Rightarrow> string option \<Rightarrow> chat_tool_call list \<Rightarrow> bool" where
  "call_outcome ast t t' fr calls \<longleftrightarrow>
     (case convert_function_str_to_json ast t of
        Inl e \<Rightarrow> syntax_or_value_error e \<and> t' = t \<and> fr = Some ''error'' \<and> calls = []
      | Inr fns \<Rightarrow>
          if \<forall>f \<in> set fns. f = None
          then t' = invalid_call_text \<and> fr = Some ''error'' \<and> calls = []
          else t' = t \<and> fr = Some ''tool_calls'' \<and> calls \<noteq> [] \<and>
            mapR mk_tool_call (List.map_filter (\<lambda>x. x) fns) = Inr calls)"

lemma function_call_loop_outcome:
  assumes "function_call_loop ast (length pre) ts (pre @ frs) = Inr (ts', frs', calls)"
    and "length frs = length ts"
  shows "length ts' = length ts \<and> length calls = length ts \<and>
     (\<exists>rs. frs' = pre @ rs \<and> length rs = length ts \<and>
       (\<forall>i < length ts. call_outcome ast (ts ! i) (ts' ! i) (rs ! i) (calls ! i)))"
  using assms
proof (induction ts arbitrary: pre frs ts' frs' calls)
  case Nil
  then show ?case by simp
next
  case (Cons t ts)
  obtain f fs where frs: "frs = f # fs" using Cons.prems(2) by (cases frs) auto
  obtain t1 r1 c1 ts1 cs1 where first: "call_outcome ast t t1 r1 c1"
    and rest: "function_call_loop ast (length pre + 1) ts (pre @ r1 # fs) = Inr (ts1, frs', cs1)"
    and eqs: "ts' = t1 # ts1" "calls = c1 # cs1"
    using Cons.prems(1) frs
    by (auto simp: res_simps call_outcome_def no_calls_iff split: sum.splits if_splits)
  have "length (pre @ [r1]) = length pre + 1" "pre @ r1 # fs = (pre @ [r1]) @ fs" by simp_all
  then obtain rs where IH: "length ts1 = length ts" "length cs1 = length ts"
    "frs' = pre @ r1 # rs" "length rs = length ts"
    "\<And>i. i < length ts \<Longrightarrow> call_outcome ast (ts ! i) (ts1 ! i) (rs ! i) (cs1 ! i)"
    using Cons.IH [of "pre @ [r1]" fs ts1 frs' cs1] rest Cons.prems(2) frs by fastforce
  have "call_outcome ast ((t # ts) ! i) (ts' ! i) ((r1 # rs) ! i) (calls ! i)"
    if "i < length (t # ts)" for i
    using that first IH(5) eqs by (cases i) auto
  then show ?case using IH eqs
    by (intro conjI exI [of _ "r1 # rs"]) auto
qed

text \<open>
  C21: how the function-call output of each generation is reported when some generation ended in
  tool calls. Text that parses to at least one call becomes tool calls; text that parses but
  holds no call is replaced by the error message; text that does not parse gets the finish
  reason \<open>error\<close> but keeps its raw content, because the error message is assigned
  to the loop variable and not to \<open>output_texts[i]\<close>.
\<close>

theorem function_call_output_reported:
  assumes "Some ''tool_calls'' \<in> set frs" and "length frs = length texts"
    and "process_function_call_output ast texts frs = Inr (texts', frs', use_fc, calls)"
  shows "use_fc \<and> length texts' = length texts \<and> length frs' = length texts \<and>
     length calls = length texts \<and>
     (\<forall>i < length texts. call_outcome ast (texts ! i) (texts' ! i) (frs' ! i) (calls ! i))"
  using assms function_call_loop_outcome [of ast "[]" texts frs]
  by (auto simp: process_function_call_output_def res_simps)

definition demo_ast :: "json ast_io" where
  "demo_ast =
     \<lparr>parse_eval = (\<lambda>s. if s = ''f(x=1)'' then Inr (NameCall ''f'' [(Some ''x'', JInt 1)])
                        else Inl SyntaxError),
      node_eval = Inr, text_eval = (\<lambda>_. Inl (ValueError []))\<rparr>"

theorem function_call_output_reported_witness:
  "\<exists>texts' frs' calls. process_function_call_output demo_ast [''f(x=1)'', ''bad('']
       [Some ''tool_calls'', Some ''tool_calls''] = Inr (texts', frs', True, calls) \<and>
     texts' ! 1 = ''bad('' \<and> frs' ! 1 = Some ''error'' \<and> frs' ! 0 = Some ''tool_calls''"
proof -
  obtain texts' frs' use_fc calls where run: "process_function_call_output demo_ast
      [''f(x=1)'', ''bad(''] [Some ''tool_calls'', Some ''tool_calls''] =
      Inr (texts', frs', use_fc, calls)"
    by (simp add: process_function_call_output_def convert_function_str_to_json_def demo_ast_def
        parse_function_call_def mk_tool_call_def syntax_or_value_error_def List.map_filter_def)
  note spec = function_call_output_reported [OF _ _ run]
  have "call_outcome demo_ast ''f(x=1)'' (texts' ! 0) (frs' ! 0) (calls ! 0)"
    "call_outcome demo_ast ''bad('' (texts' ! 1) (frs' ! 1) (calls ! 1)"
    using spec by (auto simp: numeral_2_eq_2 All_less_Suc)
  then show ?thesis using run spec
    by (simp add: call_outcome_def convert_function_str_to_json_def demo_ast_def
        parse_function_call_def)
qed

end
