(* ===== verification/Engine_Config.thy ===== *)
theory Engine_Config
  imports Engine "HOL-Library.Multiset"
begin

text \<open>
  The engine configuration (\<open>serve/config.py\<close>), the processing of the constructor arguments, the
  life cycle of \<open>MLCEngineBase\<close> (construction and \<open>terminate\<close>), and the engine metrics
  (\<open>EngineMetrics.prometheus_text\<close>, \<open>_query_engine_metrics\<close>) of \<open>serve/engine_base.py\<close>. The file
  system, the model download and the JIT compiler are arguments.
\<close>

section \<open>EngineConfig\<close>

datatype additional_model = AMStr string | AMPair string string

record engine_config =
  ec_model :: "string option"
  ec_model_lib :: "string option"
  ec_additional_models :: "additional_model list"
  ec_mode :: "string option"
  ec_tensor_parallel_shards :: "int option"
  ec_pipeline_parallel_stages :: "int option"
  ec_opt :: "string option"
  ec_gpu_memory_utilization :: "pyfloat option"
  ec_kv_cache_page_size :: int
  ec_max_num_sequence :: "int option"
  ec_max_total_sequence_length :: "int option"
  ec_max_single_sequence_length :: "int option"
  ec_prefill_chunk_size :: "int option"
  ec_sliding_window_size :: "int option"
  ec_attention_sink_size :: "int option"
  ec_max_history_size :: "int option"
  ec_kv_state_kind :: "string option"
  ec_speculative_mode :: string
  ec_spec_draft_length :: int
  ec_spec_tree_width :: int
  ec_prefix_cache_mode :: string
  ec_prefix_cache_max_num_recycling_seqs :: "int option"
  ec_prefill_mode :: string
  ec_verbose :: bool

definition default_engine_config :: engine_config where
  "default_engine_config =
     \<lparr>ec_model = None, ec_model_lib = None, ec_additional_models = [], ec_mode = None,
      ec_tensor_parallel_shards = None, ec_pipeline_parallel_stages = None, ec_opt = None,
      ec_gpu_memory_utilization = None, ec_kv_cache_page_size = 16, ec_max_num_sequence = None,
      ec_max_total_sequence_length = None, ec_max_single_sequence_length = None,
      ec_prefill_chunk_size = None, ec_sliding_window_size = None, ec_attention_sink_size = None,
      ec_max_history_size = None, ec_kv_state_kind = None, ec_speculative_mode = ''disable'',
      ec_spec_draft_length = 0, ec_spec_tree_width = 1, ec_prefix_cache_mode = ''radix'',
      ec_prefix_cache_max_num_recycling_seqs = None, ec_prefill_mode = ''hybrid'',
      ec_verbose = True\<rparr>"

text \<open>
  The JSON object of a config, and back. A tuple is written as a list, and \<open>_parse_models\<close> reads
  both by index, so a pair of strings and a two-element list are one value here. The
  dataclass does not check the types of its fields; a value outside the declared type has no
  record and is an error of the model. An unknown key is a \<open>TypeError\<close> of the constructor.
\<close>

definition opt_json :: "('a \<Rightarrow> json) \<Rightarrow> 'a option \<Rightarrow> json" where
  "opt_json f v = (case v of None \<Rightarrow> JNull | Some x \<Rightarrow> f x)"

fun additional_model_json :: "additional_model \<Rightarrow> json" where
  "additional_model_json (AMStr m) = JStr m"
| "additional_model_json (AMPair m l) = JList [JStr m, JStr l]"

definition engine_config_asdict :: "engine_config \<Rightarrow> json dict" where
  "engine_config_asdict c =
     [(''model'', opt_json JStr (ec_model c)),
      (''model_lib'', opt_json JStr (ec_model_lib c)),
      (''additional_models'', JList (map additional_model_json (ec_additional_models c))),
      (''mode'', opt_json JStr (ec_mode c)),
      (''tensor_parallel_shards'', opt_json JInt (ec_tensor_parallel_shards c)),
      (''pipeline_parallel_stages'', opt_json JInt (ec_pipeline_parallel_stages c)),
      (''opt'', opt_json JStr (ec_opt c)),
      (''gpu_memory_utilization'', opt_json JFloat (ec_gpu_memory_utilization c)),
      (''kv_cache_page_size'', JInt (ec_kv_cache_page_size c)),
      (''max_num_sequence'', opt_json JInt (ec_max_num_sequence c)),
      (''max_total_sequence_length'', opt_json JInt (ec_max_total_sequence_length c)),
      (''max_single_sequence_length'', opt_json JInt (ec_max_single_sequence_length c)),
      (''prefill_chunk_size'', opt_json JInt (ec_prefill_chunk_size c)),
      (''sliding_window_size'', opt_json JInt (ec_sliding_window_size c)),
      (''attention_sink_size'', opt_json JInt (ec_attention_sink_size c)),
      (''max_history_size'', opt_json JInt (ec_max_history_size c)),
      (''kv_state_kind'', opt_json JStr (ec_kv_state_kind c)),
      (''speculative_mode'', JStr (ec_speculative_mode c)),
      (''spec_draft_length'', JInt (ec_spec_draft_length c)),
      (''spec_tree_width'', JInt (ec_spec_tree_width c)),
      (''prefix_cache_mode'', JStr (ec_prefix_cache_mode c)),
      (''prefix_cache_max_num_recycling_seqs'', opt_json JInt (ec_prefix_cache_max_num_recycling_seqs c)),
      (''prefill_mode'', JStr (ec_prefill_mode c)),
      (''verbose'', JBool (ec_verbose c))]"

definition untyped :: "'a res" where
  "untyped = Inl (ForeignError ''value outside the declared type'')"

definition get_str :: "json \<Rightarrow> string res" where
  "get_str v = (case v of JStr s \<Rightarrow> Inr s | _ \<Rightarrow> untyped)"

definition get_int :: "json \<Rightarrow> int res" where
  "get_int v = (case v of JInt i \<Rightarrow> Inr i | _ \<Rightarrow> untyped)"

definition get_float :: "json \<Rightarrow> pyfloat res" where
  "get_float v = (case v of JFloat x \<Rightarrow> Inr x | _ \<Rightarrow> untyped)"

definition get_bool :: "json \<Rightarrow> bool res" where
  "get_bool v = (case v of JBool b \<Rightarrow> Inr b | _ \<Rightarrow> untyped)"

definition get_opt :: "(json \<Rightarrow> 'a res) \<Rightarrow> json \<Rightarrow> 'a option res" where
  "get_opt f v = (if v = JNull then Inr None else bindR (f v) (\<lambda>x. Inr (Some x)))"

definition get_additional_model :: "json \<Rightarrow> additional_model res" where
  "get_additional_model v =
     (case v of
        JStr m \<Rightarrow> Inr (AMStr m)
      | JList [JStr m, JStr l] \<Rightarrow> Inr (AMPair m l)
      | _ \<Rightarrow> untyped)"

definition get_list :: "(json \<Rightarrow> 'a res) \<Rightarrow> json \<Rightarrow> 'a list res" where
  "get_list f v = (case v of JList xs \<Rightarrow> mapR f xs | _ \<Rightarrow> untyped)"

definition set_config_field :: "engine_config \<Rightarrow> string \<times> json \<Rightarrow> engine_config res" where
  "set_config_field c p =
     (case p of (k, v) \<Rightarrow>
       if k = ''model'' then bindR (get_opt get_str v) (\<lambda>x. Inr (c\<lparr>ec_model := x\<rparr>))
       else if k = ''model_lib'' then bindR (get_opt get_str v) (\<lambda>x. Inr (c\<lparr>ec_model_lib := x\<rparr>))
       else if k = ''additional_models'' then
         bindR (get_list get_additional_model v) (\<lambda>x. Inr (c\<lparr>ec_additional_models := x\<rparr>))
       else if k = ''mode'' then bindR (get_opt get_str v) (\<lambda>x. Inr (c\<lparr>ec_mode := x\<rparr>))
       else if k = ''tensor_parallel_shards'' then
         bindR (get_opt get_int v) (\<lambda>x. Inr (c\<lparr>ec_tensor_parallel_shards := x\<rparr>))
       else if k = ''pipeline_parallel_stages'' then
         bindR (get_opt get_int v) (\<lambda>x. Inr (c\<lparr>ec_pipeline_parallel_stages := x\<rparr>))
       else if k = ''opt'' then bindR (get_opt get_str v) (\<lambda>x. Inr (c\<lparr>ec_opt := x\<rparr>))
       else if k = ''gpu_memory_utilization'' then
         bindR (get_opt get_float v) (\<lambda>x. Inr (c\<lparr>ec_gpu_memory_utilization := x\<rparr>))
       else if k = ''kv_cache_page_size'' then
         bindR (get_int v) (\<lambda>x. Inr (c\<lparr>ec_kv_cache_page_size := x\<rparr>))
       else if k = ''max_num_sequence'' then
         bindR (get_opt get_int v) (\<lambda>x. Inr (c\<lparr>ec_max_num_sequence := x\<rparr>))
       else if k = ''max_total_sequence_length'' then
         bindR (get_opt get_int v) (\<lambda>x. Inr (c\<lparr>ec_max_total_sequence_length := x\<rparr>))
       else if k = ''max_single_sequence_length'' then
         bindR (get_opt get_int v) (\<lambda>x. Inr (c\<lparr>ec_max_single_sequence_length := x\<rparr>))
       else if k = ''prefill_chunk_size'' then
         bindR (get_opt get_int v) (\<lambda>x. Inr (c\<lparr>ec_prefill_chunk_size := x\<rparr>))
       else if k = ''sliding_window_size'' then
         bindR (get_opt get_int v) (\<lambda>x. Inr (c\<lparr>ec_sliding_window_size := x\<rparr>))
       else if k = ''attention_sink_size'' then
         bindR (get_opt get_int v) (\<lambda>x. Inr (c\<lparr>ec_attention_sink_size := x\<rparr>))
       else if k = ''max_history_size'' then
         bindR (get_opt get_int v) (\<lambda>x. Inr (c\<lparr>ec_max_history_size := x\<rparr>))
       else if k = ''kv_state_kind'' then
         bindR (get_opt get_str v) (\<lambda>x. Inr (c\<lparr>ec_kv_state_kind := x\<rparr>))
       else if k = ''speculative_mode'' then
         bindR (get_str v) (\<lambda>x. Inr (c\<lparr>ec_speculative_mode := x\<rparr>))
       else if k = ''spec_draft_length'' then
         bindR (get_int v) (\<lambda>x. Inr (c\<lparr>ec_spec_draft_length := x\<rparr>))
       else if k = ''spec_tree_width'' then
         bindR (get_int v) (\<lambda>x. Inr (c\<lparr>ec_spec_tree_width := x\<rparr>))
       else if k = ''prefix_cache_mode'' then
         bindR (get_str v) (\<lambda>x. Inr (c\<lparr>ec_prefix_cache_mode := x\<rparr>))
       else if k = ''prefix_cache_max_num_recycling_seqs'' then
         bindR (get_opt get_int v) (\<lambda>x. Inr (c\<lparr>ec_prefix_cache_max_num_recycling_seqs := x\<rparr>))
       else if k = ''prefill_mode'' then bindR (get_str v) (\<lambda>x. Inr (c\<lparr>ec_prefill_mode := x\<rparr>))
       else if k = ''verbose'' then bindR (get_bool v) (\<lambda>x. Inr (c\<lparr>ec_verbose := x\<rparr>))
       else Inl TypeError)"

definition engine_config_from_dict :: "json dict \<Rightarrow> engine_config res" where
  "engine_config_from_dict d = foldR set_config_field default_engine_config d"

section \<open>Constructor arguments\<close>

definition check_engine_config ::
    "string \<Rightarrow> string option \<Rightarrow> string \<Rightarrow> engine_config \<Rightarrow> unit res" where
  "check_engine_config model model_lib mode c =
     (if ec_model c \<noteq> None \<and> ec_model c \<noteq> Some model
      then Inl (ValueError ''model differs from engine_config.model'')
      else if ec_model_lib c \<noteq> None \<and> model_lib \<noteq> None \<and> ec_model_lib c \<noteq> model_lib
      then Inl (ValueError ''model_lib differs from engine_config.model_lib'')
      else if ec_mode c \<noteq> None \<and> ec_mode c \<noteq> Some mode
      then Inl (ValueError ''mode differs from engine_config.mode'')
      else if ec_kv_cache_page_size c \<noteq> 16
      then Inl (ValueError ''KV cache only supports page size 16'')
      else Inr ())"

record model_info =
  mi_model :: string
  mi_model_lib :: "string option"

definition parse_models ::
    "string \<Rightarrow> string option \<Rightarrow> additional_model list \<Rightarrow> model_info list" where
  "parse_models model model_lib ams =
     \<lparr>mi_model = model, mi_model_lib = model_lib\<rparr> #
     map (\<lambda>am. case am of
            AMStr m \<Rightarrow> \<lparr>mi_model = m, mi_model_lib = None\<rparr>
          | AMPair m l \<Rightarrow> \<lparr>mi_model = m, mi_model_lib = Some l\<rparr>) ams"

record model_io =
  get_or_download_model :: "string \<Rightarrow> string res"
  read_conv_template :: "string \<Rightarrow> conversation res"
  read_model_config :: "string \<Rightarrow> json dict res"
  path_is_file :: "string \<Rightarrow> bool"
  jit_model_lib :: "string \<Rightarrow> json dict \<Rightarrow> string res"

definition compile_overrides :: "engine_config \<Rightarrow> json dict" where
  "compile_overrides c =
     [(''context_window_size'', opt_json JInt (ec_max_single_sequence_length c)),
      (''prefill_chunk_size'', opt_json JInt (ec_prefill_chunk_size c)),
      (''sliding_window_size'', opt_json JInt (ec_sliding_window_size c)),
      (''attention_sink_size'', opt_json JInt (ec_attention_sink_size c)),
      (''tensor_parallel_shards'', opt_json JInt (ec_tensor_parallel_shards c)),
      (''pipeline_parallel_stages'', opt_json JInt (ec_pipeline_parallel_stages c)),
      (''max_batch_size'', opt_json JInt (ec_max_num_sequence c)),
      (''opt'', opt_json JStr (ec_opt c))]"

text \<open>
  \<open>_convert_model_info\<close>, with the two variables of the enclosing function: the conversation
  (set by the first model) and the list of config paths.
\<close>

definition convert_model_info ::
    "model_io \<Rightarrow> engine_config \<Rightarrow> conversation option \<times> string list \<times> (string \<times> string) list \<Rightarrow>
     model_info \<Rightarrow> (conversation option \<times> string list \<times> (string \<times> string) list) res" where
  "convert_model_info io c acc m =
     (case acc of (conv, paths, args) \<Rightarrow>
       bindR (get_or_download_model io (mi_model m)) (\<lambda>model_path.
       let config_path = model_path @ ''/mlc-chat-config.json''; paths = paths @ [config_path] in
       bindR (read_conv_template io config_path) (\<lambda>template.
       let conv = (if conv = None then Some template else conv) in
       bindR (case mi_model_lib m of
                Some lib \<Rightarrow>
                  if prefix ''mock://'' lib \<or> path_is_file io lib then Inr lib
                  else Inl (FileNotFoundError lib)
              | None \<Rightarrow> jit_model_lib io model_path (compile_overrides c)) (\<lambda>lib.
       Inr (conv, paths, args @ [(model_path, lib)])))))"

definition process_model_args ::
    "model_io \<Rightarrow> model_info list \<Rightarrow> engine_config \<Rightarrow>
     ((string \<times> string) list \<times> string list \<times> conversation) res" where
  "process_model_args io models c =
     bindR (foldR (convert_model_info io c) (None, [], []) models) (\<lambda>(conv, paths, args).
       case conv of
         None \<Rightarrow> Inl AssertionError
       | Some cv \<Rightarrow> Inr (args, paths, cv))"

section \<open>Life cycle\<close>

text \<open>
  The object while its constructor runs and later: which attributes exist (\<open>hasattr\<close>), the
  termination flag once it is set, and the calls on the native engine and its threads.
\<close>

datatype lifecycle_call =
    InitThreadedEngine
  | StartBackgroundLoop
  | StartStreamBackLoop
  | Reload "json dict"
  | ExitLoop
  | JoinBackgroundLoop
  | JoinStreamBackLoop

text \<open>A thread attribute: not assigned, assigned to a thread that is not started, or started.\<close>

datatype thread_state =
    Unset
  | Constructed
  | Started

record base_engine =
  be_terminated :: "bool option"
  be_ffi :: bool
  be_loop_thread :: thread_state
  be_stream_thread :: thread_state
  be_conv_template :: "conversation option"
  be_model_config_dicts :: "json dict list"
  be_max_input_sequence_length :: "int option"
  be_calls :: "lifecycle_call list"

definition base_engine_new :: base_engine where
  "base_engine_new =
     \<lparr>be_terminated = None, be_ffi = False, be_loop_thread = Unset, be_stream_thread = Unset,
      be_conv_template = None, be_model_config_dicts = [], be_max_input_sequence_length = None, be_calls = []\<rparr>"

definition be_call :: "lifecycle_call \<Rightarrow> base_engine \<Rightarrow> base_engine" where
  "be_call c b = b\<lparr>be_calls := be_calls b @ [c]\<rparr>"

definition reload_config :: "engine_config \<Rightarrow> (string \<times> string) list \<Rightarrow> string \<Rightarrow> engine_config" where
  "reload_config c args mode =
     c\<lparr>ec_model := Some (fst (hd args)), ec_model_lib := Some (snd (hd args)),
       ec_additional_models := map (\<lambda>(m, l). AMPair m l) (tl args), ec_mode := Some mode\<rparr>"

text \<open>One statement after another on the object; an exception leaves the object as it is then.\<close>

definition and_then :: "'b \<times> unit res \<Rightarrow> ('b \<Rightarrow> 'b \<times> unit res) \<Rightarrow> 'b \<times> unit res" where
  "and_then m k = (case m of (b, Inl e) \<Rightarrow> (b, Inl e) | (b, Inr _) \<Rightarrow> k b)"

lemma and_then_simps [simp]:
  "and_then (b, Inl e) k = (b, Inl e)"
  "and_then (b, Inr u) k = k b"
  by (simp_all add: and_then_def)

text \<open>
  The two threads are constructed and assigned first and started then; \<open>start\<close> raises when the
  system does not give a thread, which leaves the thread constructed. Only after both were
  started is \<open>_terminated\<close> set.
\<close>

definition construct_threads :: "base_engine \<Rightarrow> base_engine" where
  "construct_threads b = b\<lparr>be_loop_thread := Constructed, be_stream_thread := Constructed\<rparr>"

definition start_loop_thread :: "unit res \<Rightarrow> base_engine \<Rightarrow> base_engine \<times> unit res" where
  "start_loop_thread start b =
     (case start of
        Inl e \<Rightarrow> (b, Inl e)
      | Inr _ \<Rightarrow> (be_call StartBackgroundLoop (b\<lparr>be_loop_thread := Started\<rparr>), Inr ()))"

definition start_stream_thread :: "unit res \<Rightarrow> base_engine \<Rightarrow> base_engine \<times> unit res" where
  "start_stream_thread start b =
     (case start of
        Inl e \<Rightarrow> (b, Inl e)
      | Inr _ \<Rightarrow> (be_call StartStreamBackLoop (b\<lparr>be_stream_thread := Started\<rparr>), Inr ()))"

definition start_threads :: "unit res \<Rightarrow> unit res \<Rightarrow> base_engine \<Rightarrow> base_engine \<times> unit res" where
  "start_threads start_loop start_stream b =
     and_then (start_loop_thread start_loop (construct_threads b)) (\<lambda>b.
     and_then (start_stream_thread start_stream b) (\<lambda>b.
     (b\<lparr>be_terminated := Some False\<rparr>, Inr ())))"

text \<open>
  What the constructor gets from outside, each call with its possible exception: the device
  detection, the native module, the tokenizer of the first model, \<open>init_threaded_engine\<close>, the start of
  the two threads, and \<open>reload\<close> followed by \<open>get_complete_engine_config\<close>.
\<close>

record construct_env =
  ce_device :: "unit res"
  ce_create_module :: "unit res"
  ce_tokenizer :: "string \<Rightarrow> unit res"
  ce_init_threaded_engine :: "unit res"
  ce_start_background_loop :: "unit res"
  ce_start_stream_back_loop :: "unit res"
  ce_reload :: "json dict \<Rightarrow> engine_config res"

text \<open>
  \<open>MLCEngineBase.__init__\<close>. The object is returned also when the constructor raises: its
  deleter runs \<open>terminate\<close> on it.
\<close>

definition read_complete_config :: "engine_config \<Rightarrow> base_engine \<Rightarrow> base_engine \<times> unit res" where
  "read_complete_config full b =
     (case (ec_max_single_sequence_length full, ec_max_total_sequence_length full) of
        (Some x, Some y) \<Rightarrow> (b\<lparr>be_max_input_sequence_length := Some (min x y)\<rparr>, Inr ())
      | _ \<Rightarrow> (b, Inl TypeError))"

definition base_engine_init ::
    "model_io \<Rightarrow> construct_env \<Rightarrow> string \<Rightarrow> string option \<Rightarrow> string \<Rightarrow> engine_config option \<Rightarrow>
     base_engine \<times> unit res" where
  "base_engine_init io env model model_lib mode engine_config =
     (let c = (case engine_config of None \<Rightarrow> default_engine_config | Some c \<Rightarrow> c);
          b = base_engine_new in
      case bindR (check_engine_config model model_lib mode c) (\<lambda>_.
           bindR (ce_device env) (\<lambda>_.
           process_model_args io (parse_models model model_lib (ec_additional_models c)) c)) of
        Inl e \<Rightarrow> (b, Inl e)
      | Inr (args, paths, conv) \<Rightarrow>
          (let b = b\<lparr>be_conv_template := Some conv\<rparr> in
           case mapR (read_model_config io) paths of
             Inl e \<Rightarrow> (b, Inl e)
           | Inr dicts \<Rightarrow>
          (let b = b\<lparr>be_model_config_dicts := dicts\<rparr> in
           and_then (b, ce_create_module env) (\<lambda>b.
           and_then (b\<lparr>be_ffi := True\<rparr>, ce_tokenizer env (fst (hd args))) (\<lambda>b.
           and_then (be_call InitThreadedEngine b, ce_init_threaded_engine env) (\<lambda>b.
           and_then (start_threads (ce_start_background_loop env) (ce_start_stream_back_loop env) b) (\<lambda>b.
             let d = engine_config_asdict (reload_config c args mode); b = be_call (Reload d) b in
             case ce_reload env d of
               Inl e \<Rightarrow> (b, Inl e)
             | Inr full \<Rightarrow> read_complete_config full b)))))))"

text \<open>\<open>Thread.join\<close> raises for a thread that was not started.\<close>

definition unstarted_error :: py_error where
  "unstarted_error = RuntimeError ''cannot join thread before it is started''"

definition join_thread :: "thread_state \<Rightarrow> lifecycle_call \<Rightarrow> base_engine \<Rightarrow> base_engine \<times> unit res" where
  "join_thread t c b =
     (case t of
        Unset \<Rightarrow> (b, Inr ())
      | Constructed \<Rightarrow> (b, Inl unstarted_error)
      | Started \<Rightarrow> (be_call c b, Inr ()))"

definition terminate :: "base_engine \<Rightarrow> base_engine \<times> unit res" where
  "terminate b =
     (if be_terminated b = Some True then (b, Inr ())
      else
        let b = b\<lparr>be_terminated := Some True\<rparr> in
        if \<not> be_ffi b then (b, Inr ())
        else
          and_then (join_thread (be_loop_thread b) JoinBackgroundLoop (be_call ExitLoop b)) (\<lambda>b.
          join_thread (be_stream_thread b) JoinStreamBackLoop b))"

lemma join_thread_frame [simp]: "be_terminated (fst (join_thread t c b)) = be_terminated b"
  by (simp add: join_thread_def be_call_def split: thread_state.splits)

interpretation base_life: shutdown "\<lambda>b. fst (terminate b)" "\<lambda>b. be_terminated b = Some True"
  by unfold_locales
     (auto simp: terminate_def be_call_def and_then_def Let_def split: prod.splits sum.splits
       dest: arg_cong [where f = "\<lambda>p. be_terminated (fst p)"])

section \<open>Metrics\<close>

text \<open>The lines \<open>prometheus_text\<close> collects: comments, and metrics with their values.\<close>

datatype metric_line = Comment string | Metric string json

definition is_number :: "json \<Rightarrow> bool" where
  "is_number v = (case v of JBool _ \<Rightarrow> True | JInt _ \<Rightarrow> True | JFloat _ \<Rightarrow> True | _ \<Rightarrow> False)"

definition is_scope :: "json \<Rightarrow> bool" where
  "is_scope v = (case v of JObj d \<Rightarrow> d \<noteq> [] | _ \<Rightarrow> False)"

lemma json_member_size: "p \<in> set d \<Longrightarrow> size (snd p) < size (JObj d)"
  by (induction d) auto

function traverse :: "string \<Rightarrow> string \<Rightarrow> json \<Rightarrow> metric_line list" where
  "traverse scope pre v =
     (case v of
        JObj d \<Rightarrow>
          (if scope \<noteq> [] then [Comment scope] else []) @
          map (\<lambda>p. Metric (pre @ fst p) (snd p)) (filter (\<lambda>p. is_number (snd p)) d) @
          concat (map (\<lambda>p. traverse (scope @ ''/'' @ fst p) (pre @ fst p @ ''_'') (snd p))
            (filter (\<lambda>p. is_scope (snd p)) d))
      | _ \<Rightarrow> [])"
  by pat_completeness auto

termination
  by (relation "measure (\<lambda>(_, _, v). size v)") (auto dest: json_member_size)

declare traverse.simps [simp del]

fun render_line :: "(json \<Rightarrow> string) \<Rightarrow> metric_line \<Rightarrow> string" where
  "render_line fmt (Comment scope) = ''\<newline># '' @ scope"
| "render_line fmt (Metric key v) = key @ [CHR 0x09] @ fmt v"

definition metrics_note :: "string list" where
  "metrics_note =
     [''# NOTE: these metrics count token in the unit of serving model'' @ [CHR 0x27] @ ''s tokenization'',
      ''# be careful when comparing them to client-side metrics that may use'',
      ''# different tokenization to standardize across models.\<newline>'']"

definition prometheus_text :: "(json \<Rightarrow> string) \<Rightarrow> json dict \<Rightarrow> string" where
  "prometheus_text fmt metrics =
     str_join ''\<newline>'' (metrics_note @ map (render_line fmt) (traverse [] [] (JObj metrics)))"

text \<open>
  The two queries over the stream of a special request: the sync one returns at the first
  response with usage, the async one reads the stream to its end.
\<close>

definition query_engine_metrics ::
    "chat_completion_stream_response gen \<Rightarrow> json dict option res option" where
  "query_engine_metrics g =
     (case filter (\<lambda>r. csr_usage r \<noteq> None) (fst g) of
        r # _ \<Rightarrow> Some (Inr (case csr_usage r of None \<Rightarrow> None | Some u \<Rightarrow> usage_extra u))
      | [] \<Rightarrow>
          (case snd g of
             Returned \<Rightarrow> Some (Inl (RuntimeError ''query_engine metrics did not get metrics back''))
           | Raised e \<Rightarrow> Some (Inl e)
           | Blocked \<Rightarrow> None))"

fun async_query_loop ::
    "chat_completion_stream_response list \<Rightarrow> json dict option option \<Rightarrow> json dict option option res" where
  "async_query_loop [] acc = Inr acc"
| "async_query_loop (r # rs) acc =
     (case csr_usage r of
        None \<Rightarrow> async_query_loop rs acc
      | Some u \<Rightarrow> if acc \<noteq> None then Inl AssertionError else async_query_loop rs (Some (usage_extra u)))"

definition async_query_engine_metrics ::
    "chat_completion_stream_response gen \<Rightarrow> json dict option res option" where
  "async_query_engine_metrics g =
     (case async_query_loop (fst g) None of
        Inl e \<Rightarrow> Some (Inl e)
      | Inr acc \<Rightarrow>
          (case snd g of
             Raised e \<Rightarrow> Some (Inl e)
           | Blocked \<Rightarrow> None
           | Returned \<Rightarrow>
               (case acc of
                  Some m \<Rightarrow> Some (Inr m)
                | None \<Rightarrow>
                    Some (Inl (RuntimeError ''query_engine metrics did not get metrics back'')))))"

section \<open>Round trip of the config\<close>

lemma get_opt_json [simp]:
  "get_opt get_str (opt_json JStr x) = Inr x"
  "get_opt get_int (opt_json JInt y) = Inr y"
  "get_opt get_float (opt_json JFloat z) = Inr z"
  by (auto simp: get_opt_def opt_json_def get_str_def get_int_def get_float_def split: option.splits)

lemma get_additional_models [simp]:
  "get_list get_additional_model (JList (map additional_model_json ams)) = Inr ams"
proof -
  have "get_additional_model (additional_model_json am) = Inr am" for am
    by (cases am) (auto simp: get_additional_model_def)
  then show ?thesis by (simp add: get_list_def mapR_map mapR_Inr)
qed

text \<open>
  An engine config survives the round trip through its JSON object, which is how it is
  handed to the native engine; a key that is no field of the config is refused.
\<close>

theorem engine_config_roundtrip:
  "engine_config_from_dict (engine_config_asdict c) = Inr c \<and>
   (k \<notin> set (map fst (engine_config_asdict c)) \<longrightarrow>
      engine_config_from_dict (engine_config_asdict c @ [(k, v)]) = Inl TypeError)"
proof -
  have "foldR set_config_field c0 (engine_config_asdict c) = Inr c" for c0
    unfolding engine_config_asdict_def
    by (simp add: set_config_field_def get_str_def get_int_def get_bool_def)
  moreover have "set_config_field c (k, v) = Inl TypeError"
    if "k \<notin> set (map fst (engine_config_asdict c))"
    using that by (simp add: engine_config_asdict_def set_config_field_def)
  ultimately show ?thesis by (simp add: engine_config_from_dict_def foldR_append)
qed

theorem engine_config_roundtrip_witness:
  "engine_config_from_dict (engine_config_asdict default_engine_config @ [(''max_seq_len'', JInt 4)]) =
     Inl TypeError"
proof -
  have "''max_seq_len'' \<notin> set (map fst (engine_config_asdict default_engine_config))"
    by (simp add: engine_config_asdict_def)
  then show ?thesis
    using engine_config_roundtrip [of default_engine_config "''max_seq_len''" "JInt 4"] by blast
qed

section \<open>Model arguments\<close>

text \<open>What one model contributes: its path, its config path and its library.\<close>

definition model_entry ::
    "model_io \<Rightarrow> engine_config \<Rightarrow> model_info \<Rightarrow> string \<Rightarrow> string \<times> string \<Rightarrow> bool" where
  "model_entry io c m config_path arg \<longleftrightarrow>
     get_or_download_model io (mi_model m) = Inr (fst arg) \<and>
     config_path = fst arg @ ''/mlc-chat-config.json'' \<and>
     (\<exists>t. read_conv_template io config_path = Inr t) \<and>
     (case mi_model_lib m of
        Some lib \<Rightarrow> snd arg = lib \<and> (prefix ''mock://'' lib \<or> path_is_file io lib)
      | None \<Rightarrow> jit_model_lib io (fst arg) (compile_overrides c) = Inr (snd arg))"

lemma convert_model_info_step:
  assumes "convert_model_info io c (conv, paths, args) m = Inr (conv', paths', args')"
  shows "\<exists>p arg. paths' = paths @ [p] \<and> args' = args @ [arg] \<and> model_entry io c m p arg \<and>
     (case conv of Some cv \<Rightarrow> conv' = Some cv
      | None \<Rightarrow> \<exists>t. read_conv_template io p = Inr t \<and> conv' = Some t)"
  using assms
  by (auto simp: convert_model_info_def model_entry_def Let_def res_simps
      split: option.splits if_splits)

lemma convert_models:
  assumes "foldR (convert_model_info io c) (conv, paths, args) ms = Inr (conv', paths', args')"
  shows "\<exists>ps as. paths' = paths @ ps \<and> args' = args @ as \<and> length ps = length ms \<and>
     length as = length ms \<and> (\<forall>i < length ms. model_entry io c (ms ! i) (ps ! i) (as ! i)) \<and>
     (case conv of
        Some cv \<Rightarrow> conv' = Some cv
      | None \<Rightarrow> ms \<noteq> [] \<longrightarrow> (\<exists>t. read_conv_template io (ps ! 0) = Inr t \<and> conv' = Some t))"
  using assms
proof (induction ms arbitrary: conv paths args)
  case Nil
  then show ?case by (auto split: option.splits)
next
  case (Cons m ms)
  obtain conv1 paths1 args1 where one: "convert_model_info io c (conv, paths, args) m =
      Inr (conv1, paths1, args1)"
    and rest: "foldR (convert_model_info io c) (conv1, paths1, args1) ms = Inr (conv', paths', args')"
    using Cons.prems by (auto simp: res_simps)
  obtain p arg where step: "paths1 = paths @ [p]" "args1 = args @ [arg]" "model_entry io c m p arg"
    and conv: "case conv of Some cv \<Rightarrow> conv1 = Some cv
      | None \<Rightarrow> \<exists>t. read_conv_template io p = Inr t \<and> conv1 = Some t"
    using convert_model_info_step [OF one] by blast
  obtain ps as where IH: "paths' = paths1 @ ps" "args' = args1 @ as" "length ps = length ms"
     "length as = length ms" "\<And>i. i < length ms \<Longrightarrow> model_entry io c (ms ! i) (ps ! i) (as ! i)"
    and conv': "\<And>cv. conv1 = Some cv \<Longrightarrow> conv' = Some cv"
    using Cons.IH [OF rest] by (auto split: option.splits)
  have "model_entry io c ((m # ms) ! i) ((p # ps) ! i) ((arg # as) ! i)" if "i < length (m # ms)" for i
    using that step(3) IH(5) by (cases i) auto
  then show ?case using step IH conv conv'
    by (intro exI [of _ "p # ps"] exI [of _ "arg # as"]) (auto split: option.splits)
qed

text \<open>
  The model arguments of the engine: one path and library per model, in order; a given
  library is taken as it is (it must exist, except for a mock), otherwise it is compiled; the
  conversation template is the one of the first model.
\<close>

theorem process_model_args_correct:
  assumes "process_model_args io (parse_models model model_lib ams) c = Inr (args, paths, conv)"
  shows "length args = Suc (length ams) \<and> length paths = length args \<and>
     (\<forall>i < length args.
       model_entry io c (parse_models model model_lib ams ! i) (paths ! i) (args ! i)) \<and>
     read_conv_template io (paths ! 0) = Inr conv"
proof -
  let ?ms = "parse_models model model_lib ams"
  have len: "length ?ms = Suc (length ams)" by (simp add: parse_models_def)
  then have ne: "?ms \<noteq> []" by auto
  from assms have "foldR (convert_model_info io c) (None, [], []) ?ms = Inr (Some conv, paths, args)"
    by (auto simp: process_model_args_def res_simps split: option.splits)
  from convert_models [OF this] len ne show ?thesis by auto
qed

definition demo_io :: model_io where
  "demo_io =
     \<lparr>get_or_download_model = (\<lambda>m. Inr (''/m/'' @ m)), read_conv_template = (\<lambda>_. Inr chatml),
      read_model_config = (\<lambda>_. Inr []), path_is_file = (\<lambda>_. False), jit_model_lib = (\<lambda>p _. Inr (p @ ''.so''))\<rparr>"

theorem process_model_args_correct_witness:
  "\<exists>args paths. process_model_args demo_io (parse_models ''a'' None [AMPair ''b'' ''mock://x''])
       default_engine_config = Inr (args, paths, chatml) \<and>
     length args = 2 \<and> args ! 1 = (''/m/b'', ''mock://x'')"
proof -
  obtain args paths conv where run: "process_model_args demo_io
      (parse_models ''a'' None [AMPair ''b'' ''mock://x'']) default_engine_config =
      Inr (args, paths, conv)"
    by (simp add: process_model_args_def parse_models_def convert_model_info_def demo_io_def)
  note spec = process_model_args_correct [OF run]
  have "model_entry demo_io default_engine_config \<lparr>mi_model = ''b'', mi_model_lib = Some ''mock://x''\<rparr>
      (paths ! 1) (args ! 1)"
    using spec by (auto simp: parse_models_def All_less_Suc)
  then have "args ! 1 = (''/m/b'', ''mock://x'')"
    by (cases "args ! 1") (simp add: model_entry_def demo_io_def)
  moreover have "conv = chatml" using spec by (simp add: demo_io_def)
  ultimately show ?thesis using run spec by simp
qed

section \<open>Termination of the engine\<close>

text \<open>
  The object as the constructor leaves it: the calls on the threads are those of the started ones, and the
  stream thread is assigned with the loop thread and started after it.
\<close>

definition constructed :: "base_engine \<Rightarrow> bool" where
  "constructed b \<longleftrightarrow>
     be_terminated b \<noteq> Some True \<and>
     (StartBackgroundLoop \<in> set (be_calls b) \<longleftrightarrow> be_loop_thread b = Started) \<and>
     (StartStreamBackLoop \<in> set (be_calls b) \<longleftrightarrow> be_stream_thread b = Started) \<and>
     (be_loop_thread b = Unset \<longleftrightarrow> be_stream_thread b = Unset) \<and>
     (be_stream_thread b = Started \<longrightarrow> be_loop_thread b = Started) \<and>
     (be_loop_thread b \<noteq> Unset \<longrightarrow> be_ffi b) \<and>
     set (be_calls b) \<inter> {ExitLoop, JoinBackgroundLoop, JoinStreamBackLoop} = {}"

lemma constructed_frame [simp]:
  "constructed (b\<lparr>be_conv_template := x\<rparr>) = constructed b"
  "constructed (b\<lparr>be_model_config_dicts := y\<rparr>) = constructed b"
  "constructed (b\<lparr>be_max_input_sequence_length := z\<rparr>) = constructed b"
  "constructed base_engine_new"
  by (simp_all add: constructed_def base_engine_new_def)

lemma constructed_calls [simp]:
  "constructed (be_call InitThreadedEngine b) = constructed b"
  "constructed (be_call (Reload d) b) = constructed b"
  "be_loop_thread (be_call c b) = be_loop_thread b" "be_stream_thread (be_call c b) = be_stream_thread b"
  by (simp_all add: constructed_def be_call_def)

text \<open>The threads of an engine without threads: either both run or one of the starts raised.\<close>

lemma start_threads_constructed:
  assumes "constructed b" "be_loop_thread b = Unset" "be_ffi b" "start_threads sl ss b = (b', r)"
  shows "constructed b' \<and> be_loop_thread b' \<noteq> Unset \<and> (be_stream_thread b' = Started \<longleftrightarrow> r = Inr ()) \<and>
     (r = Inr () \<longleftrightarrow> sl = Inr () \<and> ss = Inr ())"
  using assms
  by (auto simp: start_threads_def start_loop_thread_def start_stream_thread_def construct_threads_def
      constructed_def be_call_def split: sum.splits)

definition threads_ok :: "construct_env \<Rightarrow> base_engine \<Rightarrow> unit res \<Rightarrow> bool" where
  "threads_ok env b r \<longleftrightarrow>
     constructed b \<and> (r = Inr () \<longrightarrow> be_stream_thread b = Started) \<and>
     (be_loop_thread b \<noteq> Unset \<longrightarrow> (be_stream_thread b = Started \<longleftrightarrow>
       ce_start_background_loop env = Inr () \<and> ce_start_stream_back_loop env = Inr ()))"

lemma threads_ok_early:
  "constructed b \<Longrightarrow> be_loop_thread b = Unset \<Longrightarrow> threads_ok env b (Inl e)"
  by (simp add: threads_ok_def)

lemma threads_ok_and_then:
  assumes "\<And>e. r = Inl e \<Longrightarrow> threads_ok env b (Inl e)"
    and "r = Inr () \<Longrightarrow> case k b of (b', r') \<Rightarrow> threads_ok env b' r'"
  shows "case and_then (b, r) k of (b', r') \<Rightarrow> threads_ok env b' r'"
  using assms by (cases r) auto

lemma reload_threads:
  assumes "constructed b" "be_stream_thread b = Started"
    and "ce_start_background_loop env = Inr ()" "ce_start_stream_back_loop env = Inr ()"
  shows "case (case ce_reload env d of Inl e \<Rightarrow> (be_call (Reload d) b, Inl e)
       | Inr full \<Rightarrow> read_complete_config full (be_call (Reload d) b)) of (b', r') \<Rightarrow> threads_ok env b' r'"
  using assms by (auto simp: threads_ok_def read_complete_config_def split: sum.splits option.splits)

lemma base_engine_init_threads:
  assumes "base_engine_init io env model model_lib mode cfg = (b, r)"
  shows "threads_ok env b r"
proof -
  have "case base_engine_init io env model model_lib mode cfg of (b, r) \<Rightarrow> threads_ok env b r"
    unfolding base_engine_init_def Let_def
  proof (split sum.split, intro conjI allI impI, goal_cases)
    case (2 x)
    obtain args paths conv where x: "x = (args, paths, conv)" by (cases x)
    let ?b = "base_engine_new\<lparr>be_conv_template := Some conv\<rparr>"
    show ?case
    proof (cases "mapR (read_model_config io) paths")
      case (Inr dicts)
      let ?b = "?b\<lparr>be_model_config_dicts := dicts\<rparr>"
      have new: "constructed ?b" "be_loop_thread ?b = Unset"
        by (simp_all add: base_engine_new_def constructed_def)
      then have ffi: "constructed (?b\<lparr>be_ffi := True\<rparr>)" by (simp add: constructed_def)
      let ?i = "be_call InitThreadedEngine (?b\<lparr>be_ffi := True\<rparr>)"
      obtain b2 r2 where st: "start_threads (ce_start_background_loop env) (ce_start_stream_back_loop env) ?i
          = (b2, r2)" by (cases "start_threads (ce_start_background_loop env) (ce_start_stream_back_loop env) ?i")
      have started: "constructed b2 \<and> be_loop_thread b2 \<noteq> Unset \<and>
          (be_stream_thread b2 = Started \<longleftrightarrow> r2 = Inr ()) \<and>
          (r2 = Inr () \<longleftrightarrow> ce_start_background_loop env = Inr () \<and> ce_start_stream_back_loop env = Inr ())"
        using ffi by (intro start_threads_constructed [OF _ _ _ st]) (simp_all add: base_engine_new_def be_call_def constructed_def)
      have tail: "case and_then (start_threads (ce_start_background_loop env) (ce_start_stream_back_loop env) ?i)
          (\<lambda>b. case ce_reload env d of Inl e \<Rightarrow> (be_call (Reload d) b, Inl e)
            | Inr full \<Rightarrow> read_complete_config full (be_call (Reload d) b)) of (b', r') \<Rightarrow> threads_ok env b' r'" for d
        unfolding st
      proof (rule threads_ok_and_then, goal_cases)
        case (1 e)
        with started show ?case by (auto simp: threads_ok_def)
      next
        case 2
        with started show ?case by (intro reload_threads) auto
      qed
      have unset: "be_loop_thread base_engine_new = Unset" by (simp add: base_engine_new_def)
      show ?thesis
        unfolding x prod.case Inr sum.case
        by (intro threads_ok_and_then threads_ok_early tail) (use ffi in \<open>simp_all add: unset\<close>)
    qed (simp add: x threads_ok_def base_engine_new_def constructed_def)
  qed (auto simp: threads_ok_def base_engine_new_def constructed_def)
  then show ?thesis using assms by simp
qed

text \<open>
  C26: What \<open>terminate\<close> does, whether the constructor succeeded or raised and wherever it raised: it
  marks the engine terminated, stops the native loop exactly when the native engine was created,
  joins exactly the threads that were started, and a second call does nothing. It returns
  normally when the constructor succeeded, or stopped before it constructed the threads; it raises a
  \<open>RuntimeError\<close> exactly when the threads had been constructed and the system refused to start one of
  them: that thread is joined although it never ran.
\<close>

theorem terminate_after_init:
  assumes "base_engine_init io env model model_lib mode cfg = (b, r)"
  shows "be_terminated (fst (terminate b)) = Some True \<and>
     terminate (fst (terminate b)) = (fst (terminate b), Inr ()) \<and>
     (ExitLoop \<in> set (be_calls (fst (terminate b))) \<longleftrightarrow> be_ffi b) \<and>
     (JoinBackgroundLoop \<in> set (be_calls (fst (terminate b))) \<longleftrightarrow>
       StartBackgroundLoop \<in> set (be_calls b)) \<and>
     (JoinStreamBackLoop \<in> set (be_calls (fst (terminate b))) \<longleftrightarrow>
       StartStreamBackLoop \<in> set (be_calls b)) \<and>
     snd (terminate b) =
       (if be_loop_thread b \<noteq> Unset \<and>
           \<not> (ce_start_background_loop env = Inr () \<and> ce_start_stream_back_loop env = Inr ())
        then Inl (RuntimeError ''cannot join thread before it is started'') else Inr ()) \<and>
     (r = Inr () \<longrightarrow> snd (terminate b) = Inr ())"
proof -
  have b: "constructed b" "r = Inr () \<Longrightarrow> be_stream_thread b = Started"
    "be_loop_thread b \<noteq> Unset \<Longrightarrow> (be_stream_thread b = Started) =
       (ce_start_background_loop env = Inr () \<and> ce_start_stream_back_loop env = Inr ())"
    using base_engine_init_threads [OF assms] by (simp_all add: threads_ok_def)
  have down: "be_terminated (fst (terminate b)) = Some True" by (rule base_life.stop_down)
  then have "terminate (fst (terminate b)) = (fst (terminate b), Inr ())"
    by (simp add: terminate_def [of "fst (terminate b)"])
  moreover have "(ExitLoop \<in> set (be_calls (fst (terminate b))) \<longleftrightarrow> be_ffi b) \<and>
     (JoinBackgroundLoop \<in> set (be_calls (fst (terminate b))) \<longleftrightarrow> be_loop_thread b = Started) \<and>
     (JoinStreamBackLoop \<in> set (be_calls (fst (terminate b))) \<longleftrightarrow> be_stream_thread b = Started) \<and>
     snd (terminate b) = (if be_loop_thread b \<noteq> Unset \<and> be_stream_thread b \<noteq> Started
       then Inl unstarted_error else Inr ())"
    using b(1)
    by (cases "be_loop_thread b"; cases "be_stream_thread b")
       (auto simp: constructed_def terminate_def join_thread_def be_call_def Let_def)
  ultimately show ?thesis using down b
    by (auto simp: constructed_def unstarted_error_def)
qed

definition demo_construct :: "unit res \<Rightarrow> construct_env" where
  "demo_construct start_stream =
     \<lparr>ce_device = Inr (), ce_create_module = Inr (), ce_tokenizer = (\<lambda>_. Inr ()),
      ce_init_threaded_engine = Inr (), ce_start_background_loop = Inr (),
      ce_start_stream_back_loop = start_stream,
      ce_reload = (\<lambda>_. Inr (default_engine_config\<lparr>ec_max_single_sequence_length := Some 10,
          ec_max_total_sequence_length := Some 20\<rparr>))\<rparr>"

lemmas demo_construct_simps = base_engine_init_def default_engine_config_def check_engine_config_def
  process_model_args_def parse_models_def convert_model_info_def demo_io_def Let_def demo_construct_def
  base_engine_new_def be_call_def start_threads_def start_loop_thread_def start_stream_thread_def
  construct_threads_def read_complete_config_def

theorem terminate_after_init_witness:
  "(\<exists>b. base_engine_init demo_io (demo_construct (Inr ())) ''a'' None ''local'' None = (b, Inr ()) \<and>
     be_max_input_sequence_length b = Some 10 \<and> snd (terminate b) = Inr () \<and>
     JoinStreamBackLoop \<in> set (be_calls (fst (terminate b)))) \<and>
   (\<exists>b. base_engine_init demo_io (demo_construct (Inl (RuntimeError ''no thread''))) ''a'' None ''local'' None
       = (b, Inl (RuntimeError ''no thread'')) \<and>
     JoinBackgroundLoop \<in> set (be_calls (fst (terminate b))) \<and>
     snd (terminate b) = Inl (RuntimeError ''cannot join thread before it is started''))"
proof (rule conjI)
  obtain b where run: "base_engine_init demo_io (demo_construct (Inr ())) ''a'' None ''local'' None = (b, Inr ())"
    "be_max_input_sequence_length b = Some 10" "StartStreamBackLoop \<in> set (be_calls b)"
    by (simp add: demo_construct_simps)
  then show "\<exists>b. base_engine_init demo_io (demo_construct (Inr ())) ''a'' None ''local'' None = (b, Inr ()) \<and>
     be_max_input_sequence_length b = Some 10 \<and> snd (terminate b) = Inr () \<and>
     JoinStreamBackLoop \<in> set (be_calls (fst (terminate b)))"
    using terminate_after_init [OF run(1)] by (auto simp: demo_construct_def)
next
  obtain b where run: "base_engine_init demo_io (demo_construct (Inl (RuntimeError ''no thread''))) ''a'' None
      ''local'' None = (b, Inl (RuntimeError ''no thread''))"
    "be_loop_thread b = Started" "StartBackgroundLoop \<in> set (be_calls b)"
    by (simp add: demo_construct_simps)
  then show "\<exists>b. base_engine_init demo_io (demo_construct (Inl (RuntimeError ''no thread''))) ''a'' None ''local'' None
       = (b, Inl (RuntimeError ''no thread'')) \<and>
     JoinBackgroundLoop \<in> set (be_calls (fst (terminate b))) \<and>
     snd (terminate b) = Inl (RuntimeError ''cannot join thread before it is started'')"
    using terminate_after_init [OF run(1)] by (auto simp: demo_construct_def)
qed

section \<open>The metrics text\<close>

function leaves :: "string \<Rightarrow> json \<Rightarrow> (string \<times> json) list" where
  "leaves pre v =
     (case v of
        JObj d \<Rightarrow>
          concat (map (\<lambda>p. if is_number (snd p) then [(pre @ fst p, snd p)]
                           else leaves (pre @ fst p @ ''_'') (snd p)) d)
      | _ \<Rightarrow> [])"
  by pat_completeness auto

termination
  by (relation "measure (\<lambda>(_, v). size v)") (auto dest: json_member_size)

declare leaves.simps [simp del]

definition metrics_of :: "metric_line list \<Rightarrow> (string \<times> json) list" where
  "metrics_of ls = List.map_filter (\<lambda>l. case l of Metric k v \<Rightarrow> Some (k, v) | Comment _ \<Rightarrow> None) ls"

lemma metrics_of_simps [simp]:
  "metrics_of [] = []"
  "metrics_of (Comment c # ls) = metrics_of ls"
  "metrics_of (Metric k v # ls) = (k, v) # metrics_of ls"
  "metrics_of (ls @ ls') = metrics_of ls @ metrics_of ls'"
  "metrics_of (map (\<lambda>p. Metric (f p) (g p)) ps) = map (\<lambda>p. (f p, g p)) ps"
  by (simp_all add: metrics_of_def List.map_filter_def comp_def)

lemma metrics_of_concat: "metrics_of (concat lss) = concat (map metrics_of lss)"
  by (induction lss) auto

lemma scope_leaves:
  "\<not> is_number v \<Longrightarrow> \<not> is_scope v \<Longrightarrow> leaves pre v = []"
  by (cases v) (auto simp: is_number_def is_scope_def leaves.simps)

lemma traverse_leaves: "mset (metrics_of (traverse scope pre v)) = mset (leaves pre v)"
proof (induction scope pre v rule: traverse.induct)
  case (1 scope pre v)
  show ?case
  proof (cases v)
    case (JObj d)
    let ?t = "\<lambda>p. traverse (scope @ ''/'' @ fst p) (pre @ fst p @ ''_'') (snd p)"
    let ?l = "\<lambda>p. leaves (pre @ fst p @ ''_'') (snd p)"
    have IH: "mset (metrics_of (?t p)) = mset (?l p)" if "p \<in> set d" "is_scope (snd p)" for p
      using 1 [OF JObj, of p] that by simp
    have "mset (map (\<lambda>p. (pre @ fst p, snd p)) (filter (\<lambda>p. is_number (snd p)) ps)) +
        mset (concat (map (\<lambda>p. metrics_of (?t p)) (filter (\<lambda>p. is_scope (snd p)) ps))) =
        mset (concat (map (\<lambda>p. if is_number (snd p) then [(pre @ fst p, snd p)] else ?l p) ps))"
      if "set ps \<subseteq> set d" for ps
      using that
    proof (induction ps)
      case (Cons p ps)
      have "\<not> (is_number (snd p) \<and> is_scope (snd p))"
        by (cases "snd p") (auto simp: is_number_def is_scope_def)
      then show ?case using Cons IH scope_leaves [of "snd p"] by (auto simp: ac_simps)
    qed simp
    from this [of d] show ?thesis
      by (simp add: JObj traverse.simps [of scope] leaves.simps [of pre] metrics_of_concat comp_def)
  qed (simp_all add: traverse.simps [of scope] leaves.simps [of pre])
qed

text \<open>
  \<open>prometheus_text\<close> prints every number of the (nested) metrics exactly once, under the
  key path joined by underscores, and nothing else besides its comment lines.
\<close>

theorem prometheus_text_metrics:
  "\<exists>ls. prometheus_text fmt metrics = str_join ''\<newline>'' (metrics_note @ map (render_line fmt) ls) \<and>
     mset (metrics_of ls) = mset (leaves [] (JObj metrics))"
  unfolding prometheus_text_def using traverse_leaves by blast

section \<open>Metric queries\<close>

lemma async_query_loop_Some:
  "async_query_loop rs (Some m) =
     (if \<exists>r \<in> set rs. csr_usage r \<noteq> None then Inl AssertionError else Inr (Some m))"
  by (induction rs) (auto split: option.splits)

lemma async_query_loop_None:
  "async_query_loop rs None =
     (case filter (\<lambda>r. csr_usage r \<noteq> None) rs of
        [] \<Rightarrow> Inr None
      | [r] \<Rightarrow> Inr (Some (case csr_usage r of None \<Rightarrow> None | Some u \<Rightarrow> usage_extra u))
      | _ \<Rightarrow> Inl AssertionError)"
proof (induction rs)
  case (Cons r rs)
  have "(\<exists>x \<in> set rs. csr_usage x \<noteq> None) \<longleftrightarrow> filter (\<lambda>r. csr_usage r \<noteq> None) rs \<noteq> []"
    by (simp add: filter_empty_conv)
  then show ?case using Cons
    by (cases "csr_usage r") (auto simp: async_query_loop_Some split: list.splits)
qed simp

text \<open>
  On a finished stream the two metric queries agree as long as at most one response
  carries usage (which the stream of a request guarantees); with several the sync query
  returns the first and the async query raises.
\<close>

theorem metric_queries_agree:
  "(length (filter (\<lambda>r. csr_usage r \<noteq> None) ys) \<le> 1 \<longrightarrow>
     async_query_engine_metrics (ys, Returned) = query_engine_metrics (ys, Returned)) \<and>
   (length (filter (\<lambda>r. csr_usage r \<noteq> None) ys) > 1 \<longrightarrow>
     async_query_engine_metrics (ys, Returned) = Some (Inl AssertionError) \<and>
     (\<exists>m. query_engine_metrics (ys, Returned) = Some (Inr m)))"
  by (auto simp: async_query_engine_metrics_def query_engine_metrics_def async_query_loop_None
      split: list.splits)

definition usage_response :: chat_completion_stream_response where
  "usage_response = \<lparr>csr_id = ''r'', csr_choices = [], csr_model = None,
     csr_usage = Some \<lparr>prompt_tokens = 1, completion_tokens = 2, total_tokens = 3,
       usage_extra = Some [(''ttft'', JInt 4)]\<rparr>\<rparr>"

theorem metric_queries_agree_witness:
  "async_query_engine_metrics ([usage_response], Returned) = Some (Inr (Some [(''ttft'', JInt 4)])) \<and>
   async_query_engine_metrics ([usage_response, usage_response], Returned) = Some (Inl AssertionError)"
  using metric_queries_agree [of "[usage_response]"]
    metric_queries_agree [of "[usage_response, usage_response]"]
  by (simp add: usage_response_def query_engine_metrics_def)

end
