(* ===== verification/Server.thy ===== *)
theory Server
  imports Engine_Config
begin

text \<open>
  The HTTP server: \<open>ServerContext\<close> (\<open>serve/server/server_context.py\<close>), the OpenAI entry points
  (\<open>serve/entrypoints/openai_entrypoints.py\<close>), the microserving entry points
  (\<open>serve/entrypoints/microserving_entrypoints.py\<close>) and the debug and metrics entry points.
  FastAPI, the JSON codecs and the connection state of a client are arguments; an engine is
  used through its handlers.
\<close>

section \<open>Server context\<close>

text \<open>
  \<open>sc_current\<close> tells whether the class attribute \<open>ServerContext.server_context\<close> is set (to this
  context), \<open>sc_terminated\<close> the engines that were terminated.
\<close>

record 'e server_context =
  sc_current :: bool
  sc_enable_debug :: bool
  sc_models :: "'e dict"
  sc_terminated :: "'e list"

definition server_context_init :: "bool \<Rightarrow> 'e server_context" where
  "server_context_init debug =
     \<lparr>sc_current = False, sc_enable_debug = debug, sc_models = [], sc_terminated = []\<rparr>"

definition context_enter :: "'e server_context \<Rightarrow> 'e server_context res" where
  "context_enter s =
     (if sc_current s then Inl (RuntimeError ''Server context already exists.'')
      else Inr (s\<lparr>sc_current := True\<rparr>))"

definition context_exit :: "'e server_context \<Rightarrow> 'e server_context" where
  "context_exit s =
     s\<lparr>sc_terminated := sc_terminated s @ map snd (sc_models s), sc_models := []\<rparr>"

definition add_model :: "string \<Rightarrow> 'e \<Rightarrow> 'e server_context \<Rightarrow> 'e server_context res" where
  "add_model hosted_model engine s =
     (if dict_get (sc_models s) hosted_model \<noteq> None
      then Inl (RuntimeError (''Model '' @ hosted_model @ '' already running.''))
      else Inr (s\<lparr>sc_models := dict_set (sc_models s) hosted_model engine\<rparr>))"

definition get_engine :: "string option \<Rightarrow> 'e server_context \<Rightarrow> 'e option" where
  "get_engine model s =
     (case sc_models s of
        [p] \<Rightarrow> Some (snd p)
      | ms \<Rightarrow> (case model of None \<Rightarrow> None | Some m \<Rightarrow> dict_get ms m))"

definition get_model_list :: "'e server_context \<Rightarrow> string list" where
  "get_model_list s = map fst (sc_models s)"

section \<open>Replies\<close>

text \<open>
  A reply is an error response with a status, an event stream, or a JSON body. An entry point
  may also raise (\<open>Inl\<close>) or wait for its engine (\<open>None\<close>).
\<close>

datatype 'r reply = ErrorReply nat string | EventStream "string gen" | Reply 'r

text \<open>The exception handler the server installs for \<open>BadRequestError\<close>; \<open>message\<close> is \<open>e.args[0]\<close>.\<close>

definition bad_request_error_handler :: "(bad_request \<Rightarrow> string) \<Rightarrow> 'r reply res \<Rightarrow> 'r reply res" where
  "bad_request_error_handler message r =
     (case r of
        Inl (BadRequestError b) \<Rightarrow> Inr (ErrorReply 400 (message b))
      | _ \<Rightarrow> r)"

definition quoted :: "string \<Rightarrow> string" where
  "quoted s = [CHR 0x22] @ s @ [CHR 0x22]"

definition not_served :: "string option \<Rightarrow> 'r reply" where
  "not_served model =
     ErrorReply 400 (''The requested model '' @
       quoted (case model of None \<Rightarrow> ''None'' | Some m \<Rightarrow> m) @ '' is not served.'')"

definition sse :: "string \<Rightarrow> string" where
  "sse payload = ''data: '' @ payload @ ''\<newline>\<newline>''"

definition sse_done :: string where
  "sse_done = sse ''[DONE]''"

text \<open>
  The streaming path: the first response is taken before the reply is built, so that its
  exception reaches the entry point. A generator that ends without a response raises
  \<open>StopAsyncIteration\<close> out of \<open>anext\<close>, which a coroutine turns into a \<open>RuntimeError\<close>. When the
  generator ends, the stream ends with \<open>[DONE]\<close>.
\<close>

definition stream_reply :: "('r \<Rightarrow> string) \<Rightarrow> 'r gen \<Rightarrow> 'x reply res option" where
  "stream_reply dump g =
     (case g of
        ([], Returned) \<Rightarrow> Some (Inl (RuntimeError ''coroutine raised StopAsyncIteration''))
      | ([], Raised e) \<Rightarrow> Some (Inl e)
      | ([], Blocked) \<Rightarrow> None
      | (ys, en) \<Rightarrow>
          Some (Inr (EventStream
            (map (\<lambda>r. sse (dump r)) ys @ (if en = Returned then [sse_done] else []), en))))"

section \<open>Completions\<close>

text \<open>
  \<open>logprob_results[i]\<close> is set by the first log probs of a choice and extended by the later
  ones; the text offsets stay those of the first.
\<close>

definition extend_log_probs ::
    "completion_log_probs option \<Rightarrow> completion_log_probs \<Rightarrow> completion_log_probs" where
  "extend_log_probs old lp =
     (case old of
        None \<Rightarrow> lp
      | Some o1 \<Rightarrow>
          o1\<lparr>clp_token_logprobs := clp_token_logprobs o1 @ clp_token_logprobs lp,
             clp_tokens := clp_tokens o1 @ clp_tokens lp,
             clp_top_logprobs := clp_top_logprobs o1 @ clp_top_logprobs lp\<rparr>)"

definition entry_acc_choice ::
    "completion_acc \<Rightarrow> completion_response_choice \<Rightarrow> completion_acc res" where
  "entry_acc_choice a c =
     bindR (indexR (pa_output_texts a) (crc_index c)) (\<lambda>old.
     bindR (first_reason (pa_finish_reasons a) (crc_index c) (crc_finish_reason c)) (\<lambda>frs.
     let a = a\<lparr>pa_output_texts := (pa_output_texts a)[crc_index c := old @ crc_text c],
               pa_finish_reasons := frs\<rparr> in
     case crc_logprobs c of
       None \<Rightarrow> Inr a
     | Some lp \<Rightarrow>
         bindR (indexR (pa_logprob_results a) (crc_index c)) (\<lambda>old.
         Inr (a\<lparr>pa_logprob_results :=
                  (pa_logprob_results a)[crc_index c := Some (extend_log_probs old lp)]\<rparr>))))"

definition entry_acc_response ::
    "bool \<Rightarrow> completion_acc \<Rightarrow> completion_response \<Rightarrow> completion_acc res" where
  "entry_acc_response debug a r =
     (if crs_usage r \<noteq> None then Inr (a\<lparr>pa_usage := strip_extra debug (crs_usage r)\<rparr>)
      else foldR entry_acc_choice a (crs_choices r))"

text \<open>
  The non-streaming loop: \<open>disc k\<close> tells whether the client is found disconnected when the
  \<open>k\<close>-th response arrives; the loop then stops (\<open>Inr None\<close>).
\<close>

fun entry_loop ::
    "('a \<Rightarrow> 'r \<Rightarrow> 'a res) \<Rightarrow> (nat \<Rightarrow> bool) \<Rightarrow> nat \<Rightarrow> 'a \<Rightarrow> 'r list \<Rightarrow> 'a option res" where
  "entry_loop acc disc k a [] = Inr (Some a)"
| "entry_loop acc disc k a (r # rs) =
     (if disc k then Inr None
      else bindR (acc a r) (\<lambda>a. entry_loop acc disc (k + 1) a rs))"

definition disconnected_reply :: "'r reply" where
  "disconnected_reply = ErrorReply 400 ''The request has disconnected''"

definition entry_finish ::
    "('a \<Rightarrow> 'x res) \<Rightarrow> gen_end \<Rightarrow> 'a option res \<Rightarrow> 'x reply res option" where
  "entry_finish fin_fn en r =
     (case r of
        Inl e \<Rightarrow> Some (Inl e)
      | Inr None \<Rightarrow> Some (Inr disconnected_reply)
      | Inr (Some a) \<Rightarrow>
          (case en of
             Blocked \<Rightarrow> None
           | Raised e \<Rightarrow> Some (Inl e)
           | Returned \<Rightarrow> Some (bindR (fin_fn a) (\<lambda>x. Inr (Reply x)))))"

type_synonym 'e completion_handler =
  "'e \<Rightarrow> completion_request \<Rightarrow> string \<Rightarrow> bool \<Rightarrow> completion_response gen"

definition request_completion ::
    "'e completion_handler \<Rightarrow> (completion_response \<Rightarrow> string) \<Rightarrow> (nat \<Rightarrow> bool) \<Rightarrow> string \<Rightarrow>
     'e server_context \<Rightarrow> completion_request \<Rightarrow> completion_response reply res option" where
  "request_completion handle dump disc uuid s request =
     (let debug = sc_enable_debug s;
          request = (if debug then request else request\<lparr>cr_debug_config := None\<rparr>) in
      case get_engine (cr_model request) s of
        None \<Rightarrow> Some (Inr (not_served (cr_model request)))
      | Some engine \<Rightarrow>
          (let request_id = (case cr_user request of None \<Rightarrow> ''cmpl-'' @ uuid | Some u \<Rightarrow> u);
               g = handle engine request request_id debug in
           if cr_stream request then stream_reply dump g
           else
             entry_finish
               (\<lambda>a. wrap_completion_response request_id (cr_model request) (pa_output_texts a)
                      (pa_finish_reasons a) (pa_logprob_results a) (pa_usage a))
               (snd g)
               (entry_loop (entry_acc_response debug) disc 0
                  (completion_acc_init (cr_n request)) (fst g))))"

section \<open>Chat completions\<close>

definition chat_entry_acc_response ::
    "bool \<Rightarrow> chat_acc \<Rightarrow> chat_completion_stream_response \<Rightarrow> chat_acc res" where
  "chat_entry_acc_response debug a r =
     foldR chat_acc_choice
       (if csr_usage r \<noteq> None then a\<lparr>ca_usage := strip_extra debug (csr_usage r)\<rparr> else a)
       (csr_choices r)"

type_synonym 'e chat_handler =
  "'e \<Rightarrow> chat_completion_request \<Rightarrow> string \<Rightarrow> bool \<Rightarrow> chat_completion_stream_response gen"

definition request_chat_completion ::
    "'x ast_io \<Rightarrow> 'e chat_handler \<Rightarrow> (chat_completion_stream_response \<Rightarrow> string) \<Rightarrow> (nat \<Rightarrow> bool) \<Rightarrow>
     string \<Rightarrow> 'e server_context \<Rightarrow> chat_completion_request \<Rightarrow>
     chat_completion_response reply res option" where
  "request_chat_completion ast handle dump disc uuid s request =
     (let debug = sc_enable_debug s;
          request = (if debug then request else request\<lparr>cc_debug_config := None\<rparr>) in
      case get_engine (cc_model request) s of
        None \<Rightarrow> Some (Inr (not_served (cc_model request)))
      | Some engine \<Rightarrow>
          (let request_id = (case cc_user request of None \<Rightarrow> ''chatcmpl-'' @ uuid | Some u \<Rightarrow> u);
               g = handle engine request request_id debug in
           if cc_stream request then stream_reply dump g
           else
             entry_finish (finish_chat_completion ast request request_id) (snd g)
               (entry_loop (chat_entry_acc_response debug) disc 0
                  (chat_acc_init (cc_n request) (cc_logprobs request)) (fst g))))"

definition request_models :: "'e server_context \<Rightarrow> string list" where
  "request_models s = get_model_list s"

section \<open>Microserving\<close>

definition set_disagg :: "disagg_config \<Rightarrow> completion_request \<Rightarrow> completion_request res" where
  "set_disagg dg r =
     (case cr_debug_config r of
        None \<Rightarrow> Inl AttributeError
      | Some d \<Rightarrow> Inr (r\<lparr>cr_debug_config := Some (d\<lparr>dc_disagg_config := Some dg\<rparr>)\<rparr>))"

definition whole_with_usage :: "completion_request \<Rightarrow> completion_request" where
  "whole_with_usage r =
     r\<lparr>cr_stream_options := Some \<lparr>include_usage = Some True\<rparr>, cr_stream := False\<rparr>"

text \<open>
  \<open>serve_completion\<close> stands for \<open>request_completion\<close> in the current server. An error response has
  no attribute \<open>usage\<close>.
\<close>

definition prep_recv ::
    "(completion_request \<Rightarrow> completion_response reply res option) \<Rightarrow> completion_request \<Rightarrow> int \<Rightarrow>
     (json \<times> json) res option" where
  "prep_recv serve_completion r end_pos =
     (case set_disagg (default_disagg_config\<lparr>dg_kind := Some ''prepare_receive'',
             dg_kv_window_begin := Some 0, dg_kv_window_end := Some end_pos\<rparr>) r of
        Inl e \<Rightarrow> Some (Inl e)
      | Inr r \<Rightarrow>
          (case serve_completion (whole_with_usage r) of
             None \<Rightarrow> None
           | Some (Inl e) \<Rightarrow> Some (Inl e)
           | Some (Inr (Reply resp)) \<Rightarrow>
               (case crs_usage resp of
                  None \<Rightarrow> Some (Inl AssertionError)
                | Some u \<Rightarrow>
                    (case usage_extra u of
                       None \<Rightarrow> Some (Inl AssertionError)
                     | Some extra \<Rightarrow>
                         (case (dict_get extra ''prefix_matched_length'',
                                dict_get extra ''kv_append_metadata'') of
                            (Some len, Some md) \<Rightarrow> Some (Inr (len, md))
                          | _ \<Rightarrow> Some (Inl AssertionError))))
           | Some (Inr _) \<Rightarrow> Some (Inl AttributeError)))"

definition remote_send ::
    "(completion_request \<Rightarrow> completion_response reply res option) \<Rightarrow> completion_request \<Rightarrow> int \<Rightarrow> int \<Rightarrow>
     string \<Rightarrow> int \<Rightarrow> unit res option" where
  "remote_send serve_completion r begin_pos end_pos kv_addr_info recv_rank =
     (case set_disagg (default_disagg_config\<lparr>dg_kind := Some ''remote_send'',
             dg_kv_window_begin := Some begin_pos, dg_kv_window_end := Some end_pos,
             dg_kv_append_metadata := Some kv_addr_info,
             dg_dst_group_offset := Some recv_rank\<rparr>) r of
        Inl e \<Rightarrow> Some (Inl e)
      | Inr r \<Rightarrow>
          (case serve_completion (whole_with_usage r) of
             None \<Rightarrow> None
           | Some (Inl e) \<Rightarrow> Some (Inl e)
           | Some (Inr _) \<Rightarrow> Some (Inr ())))"

definition start_generate ::
    "(completion_request \<Rightarrow> completion_response reply res option) \<Rightarrow> completion_request \<Rightarrow> int \<Rightarrow>
     completion_response reply res option" where
  "start_generate serve_completion r begin_pos =
     (case set_disagg (default_disagg_config\<lparr>dg_kind := Some ''start_generation'',
             dg_kv_window_begin := Some begin_pos\<rparr>) r of
        Inl e \<Rightarrow> Some (Inl e)
      | Inr r \<Rightarrow> serve_completion r)"

section \<open>Debug and metrics\<close>

definition invalid_request :: "string \<Rightarrow> 'r reply" where
  "invalid_request body = ErrorReply 400 (''Invalid request '' @ body)"

text \<open>
  The body of a debug request: \<open>decode\<close> is \<open>json.loads\<close> (\<open>None\<close> for a \<open>JSONDecodeError\<close>). A body
  that is not an object is outside the declared use; \<open>"model" not in v\<close> and \<open>v["model"]\<close> are
  those of an object here, and an error otherwise.
\<close>

definition body_model :: "(string \<Rightarrow> json option) \<Rightarrow> string \<Rightarrow> json option reply res" where
  "body_model decode body =
     (case decode body of
        None \<Rightarrow> Inr (invalid_request body)
      | Some (JObj d) \<Rightarrow>
          (case dict_get d ''model'' of
             None \<Rightarrow> Inr (invalid_request body)
           | Some v \<Rightarrow> Inr (Reply (Some v)))
      | Some _ \<Rightarrow> Inl TypeError)"

text \<open>A model that is not a string is looked up, and reported, like a missing one.\<close>

definition model_key :: "json \<Rightarrow> string option" where
  "model_key v = (case v of JStr m \<Rightarrow> Some m | _ \<Rightarrow> None)"

definition debug_dump_event_trace ::
    "(string \<Rightarrow> json option) \<Rightarrow> ('e \<Rightarrow> json option) \<Rightarrow> 'e server_context \<Rightarrow> string \<Rightarrow> json reply res" where
  "debug_dump_event_trace decode trace_json s body =
     bindR (body_model decode body) (\<lambda>rep.
       case rep of
         Reply (Some v) \<Rightarrow>
           (case get_engine (model_key v) s of
              None \<Rightarrow> Inr (not_served (model_key v))
            | Some e \<Rightarrow>
                (case trace_json e of
                   None \<Rightarrow> Inr (ErrorReply 400 (''The requested model '' @
                       quoted (case model_key v of None \<Rightarrow> ''None'' | Some m \<Rightarrow> m) @
                       '' does not enable tracing''))
                 | Some j \<Rightarrow> Inr (Reply j)))
       | ErrorReply c m \<Rightarrow> Inr (ErrorReply c m)
       | _ \<Rightarrow> Inl TypeError)"

definition debug_reset_engine :: "(string \<Rightarrow> json option) \<Rightarrow> 'e server_context \<Rightarrow> string \<Rightarrow> 'e reply res" where
  "debug_reset_engine decode s body =
     bindR (body_model decode body) (\<lambda>rep.
       case rep of
         Reply (Some v) \<Rightarrow>
           (case get_engine (model_key v) s of
              None \<Rightarrow> Inl AttributeError
            | Some e \<Rightarrow> Inr (Reply e))
       | ErrorReply c m \<Rightarrow> Inr (ErrorReply c m)
       | _ \<Rightarrow> Inl TypeError)"

definition debug_dump_engine_metrics ::
    "(string \<Rightarrow> json option) \<Rightarrow> ('e \<Rightarrow> json dict res) \<Rightarrow> 'e server_context \<Rightarrow> string \<Rightarrow> json dict reply res" where
  "debug_dump_engine_metrics decode query s body =
     (case decode body of
        None \<Rightarrow> Inr (invalid_request body)
      | Some (JObj d) \<Rightarrow>
          (case get_engine (case dict_get d ''model'' of None \<Rightarrow> None | Some v \<Rightarrow> model_key v) s of
             None \<Rightarrow> Inl AttributeError
           | Some e \<Rightarrow> bindR (query e) (\<lambda>m. Inr (Reply m)))
      | Some _ \<Rightarrow> Inl AttributeError)"

definition first_engine :: "'e server_context \<Rightarrow> 'e option" where
  "first_engine s =
     (case get_model_list s of [] \<Rightarrow> None | m # _ \<Rightarrow> get_engine (Some m) s)"

text \<open>The profiler entry points call one function on the workers of the first engine.\<close>

definition debug_cuda_profiler :: "string \<Rightarrow> 'e server_context \<Rightarrow> ('e \<times> string) list" where
  "debug_cuda_profiler func s = (case first_engine s of None \<Rightarrow> [] | Some e \<Rightarrow> [(e, func)])"

definition metrics_endpoint ::
    "(json \<Rightarrow> string) \<Rightarrow> ('e \<Rightarrow> json dict res) \<Rightarrow> 'e server_context \<Rightarrow> string option res" where
  "metrics_endpoint fmt query s =
     (case first_engine s of
        None \<Rightarrow> Inr None
      | Some e \<Rightarrow> bindR (query e) (\<lambda>m. Inr (Some (prometheus_text fmt m))))"

end
