(* ===== verification/Server_Correct.thy ===== *)
theory Server_Correct
  imports Server
begin

text \<open>
  Properties of the server. The entry points use an engine through the contract of the locale
  \<open>completion_engine\<close>: the choices of every response are those of the request, with a valid
  index and finish reason, and without \<open>include_extra\<close> no usage carries extra data. The locale's
  lemmas are proved from the contract alone; \<open>_handle_completion\<close> of the async engine provides it.
\<close>

section \<open>The contract\<close>

definition response_ok :: "nat \<Rightarrow> bool \<Rightarrow> completion_response \<Rightarrow> bool" where
  "response_ok n include_extra r \<longleftrightarrow>
     (\<forall>c \<in> set (crs_choices r). crc_index c < n \<and>
        (crc_finish_reason c = None \<or> crc_finish_reason c \<in> Some ` set completion_finish_reasons)) \<and>
     (\<forall>u. crs_usage r = Some u \<longrightarrow> \<not> include_extra \<longrightarrow> usage_extra u = None)"

definition choices_of :: "completion_response list \<Rightarrow> completion_response_choice list" where
  "choices_of ys = concat (map crs_choices (filter (\<lambda>r. crs_usage r = None) ys))"

definition choice_text :: "completion_response_choice list \<Rightarrow> nat \<Rightarrow> string" where
  "choice_text cs i = concat (map crc_text (filter (\<lambda>c. crc_index c = i) cs))"

definition choice_tokens :: "completion_response_choice list \<Rightarrow> nat \<Rightarrow> string list" where
  "choice_tokens cs i =
     concat (map (\<lambda>c. case crc_logprobs c of None \<Rightarrow> [] | Some lp \<Rightarrow> clp_tokens lp)
       (filter (\<lambda>c. crc_index c = i) cs))"

definition acc_ok :: "nat \<Rightarrow> completion_acc \<Rightarrow> bool" where
  "acc_ok n a \<longleftrightarrow>
     length (pa_output_texts a) = n \<and> length (pa_finish_reasons a) = n \<and>
     length (pa_logprob_results a) = n \<and>
     set (pa_finish_reasons a) \<subseteq> insert None (Some ` set completion_finish_reasons)"

definition tokens_of :: "completion_log_probs option \<Rightarrow> string list" where
  "tokens_of lp = (case lp of None \<Rightarrow> [] | Some l \<Rightarrow> clp_tokens l)"

lemma tokens_of_extend [simp]:
  "tokens_of (Some (extend_log_probs old lp)) = tokens_of old @ clp_tokens lp"
  by (auto simp: tokens_of_def extend_log_probs_def split: option.splits)

lemma acc_choice:
  assumes "acc_ok n a" "crc_index c < n"
    and "crc_finish_reason c = None \<or> crc_finish_reason c \<in> Some ` set completion_finish_reasons"
  shows "\<exists>a'. entry_acc_choice a c = Inr a' \<and> acc_ok n a' \<and> pa_usage a' = pa_usage a \<and>
     (\<forall>i < n. pa_output_texts a' ! i = pa_output_texts a ! i @ choice_text [c] i \<and>
       tokens_of (pa_logprob_results a' ! i) = tokens_of (pa_logprob_results a ! i) @ choice_tokens [c] i)"
proof -
  obtain frs where frs: "first_reason (pa_finish_reasons a) (crc_index c) (crc_finish_reason c) = Inr frs"
    "length frs = n" "set frs \<subseteq> insert None (Some ` set completion_finish_reasons)"
  proof -
    let ?frs = "if crc_finish_reason c \<noteq> None \<and> pa_finish_reasons a ! crc_index c = None
      then (pa_finish_reasons a)[crc_index c := crc_finish_reason c] else pa_finish_reasons a"
    have "first_reason (pa_finish_reasons a) (crc_index c) (crc_finish_reason c) = Inr ?frs"
      using assms by (simp add: first_reason_def acc_ok_def)
    moreover have "length ?frs = n" using assms by (simp add: acc_ok_def)
    moreover have "set ?frs \<subseteq> insert None (Some ` set completion_finish_reasons)"
      using assms set_update_subset_insert [of "pa_finish_reasons a" "crc_index c" "crc_finish_reason c"]
      by (auto simp: acc_ok_def simp del: not_None_eq)
    ultimately show ?thesis using that by blast
  qed
  show ?thesis
  proof (cases "crc_logprobs c")
    case None
    then show ?thesis using assms frs
      by (auto simp: entry_acc_choice_def acc_ok_def choice_text_def choice_tokens_def nth_list_update
          Let_def)
  next
    case (Some lp)
    then show ?thesis using assms frs
      by (auto simp: entry_acc_choice_def acc_ok_def choice_text_def choice_tokens_def nth_list_update
          Let_def)
  qed
qed

lemma choice_append:
  "choice_text (cs @ ds) i = choice_text cs i @ choice_text ds i"
  "choice_tokens (cs @ ds) i = choice_tokens cs i @ choice_tokens ds i"
  by (simp_all add: choice_text_def choice_tokens_def)

lemma acc_choices:
  assumes "acc_ok n a" "\<And>c. c \<in> set cs \<Longrightarrow> crc_index c < n \<and>
    (crc_finish_reason c = None \<or> crc_finish_reason c \<in> Some ` set completion_finish_reasons)"
  shows "\<exists>a'. foldR entry_acc_choice a cs = Inr a' \<and> acc_ok n a' \<and> pa_usage a' = pa_usage a \<and>
     (\<forall>i < n. pa_output_texts a' ! i = pa_output_texts a ! i @ choice_text cs i \<and>
       tokens_of (pa_logprob_results a' ! i) = tokens_of (pa_logprob_results a ! i) @ choice_tokens cs i)"
  using assms
proof (induction cs arbitrary: a)
  case Nil
  then show ?case by (simp add: choice_text_def choice_tokens_def)
next
  case (Cons c cs)
  obtain a1 where a1: "entry_acc_choice a c = Inr a1" "acc_ok n a1" "pa_usage a1 = pa_usage a"
    "\<And>i. i < n \<Longrightarrow> pa_output_texts a1 ! i = pa_output_texts a ! i @ choice_text [c] i \<and>
       tokens_of (pa_logprob_results a1 ! i) = tokens_of (pa_logprob_results a ! i) @ choice_tokens [c] i"
    using acc_choice [OF Cons.prems(1), of c] Cons.prems(2) by auto
  obtain a2 where a2: "foldR entry_acc_choice a1 cs = Inr a2" "acc_ok n a2" "pa_usage a2 = pa_usage a1"
    "\<And>i. i < n \<Longrightarrow> pa_output_texts a2 ! i = pa_output_texts a1 ! i @ choice_text cs i \<and>
       tokens_of (pa_logprob_results a2 ! i) = tokens_of (pa_logprob_results a1 ! i) @ choice_tokens cs i"
    using Cons.IH [OF a1(2)] Cons.prems(2) by auto
  show ?case using a1 a2 choice_append [of "[c]" cs] by (intro exI [of _ a2]) auto
qed

lemma entry_loop_ok:
  assumes "acc_ok n a" "\<And>r. r \<in> set ys \<Longrightarrow> response_ok n debug r"
  shows "entry_loop (entry_acc_response debug) disc k a ys = Inr None \<or>
     (\<exists>a'. entry_loop (entry_acc_response debug) disc k a ys = Inr (Some a') \<and> acc_ok n a' \<and>
       (\<forall>i < n. pa_output_texts a' ! i = pa_output_texts a ! i @ choice_text (choices_of ys) i \<and>
         tokens_of (pa_logprob_results a' ! i) =
           tokens_of (pa_logprob_results a ! i) @ choice_tokens (choices_of ys) i) \<and>
       (\<not> debug \<longrightarrow> (\<forall>u. pa_usage a = Some u \<longrightarrow> usage_extra u = None) \<longrightarrow>
         (\<forall>u. pa_usage a' = Some u \<longrightarrow> usage_extra u = None)))"
  using assms
proof (induction ys arbitrary: a k)
  case Nil
  then show ?case by (simp add: choices_of_def choice_text_def choice_tokens_def)
next
  case (Cons r ys)
  show ?case
  proof (cases "disc k")
    case True
    then show ?thesis by simp
  next
    case False
    show ?thesis
    proof (cases "crs_usage r")
      case (Some u)
      let ?a = "a\<lparr>pa_usage := strip_extra debug (crs_usage r)\<rparr>"
      have "acc_ok n ?a" using Cons.prems(1) by (simp add: acc_ok_def)
      from Cons.IH [OF this, of "k + 1"] show ?thesis using False Some Cons.prems(2)
        by (auto simp: entry_acc_response_def choices_of_def strip_extra_def)
    next
      case None
      obtain a1 where a1: "foldR entry_acc_choice a (crs_choices r) = Inr a1" "acc_ok n a1"
        "pa_usage a1 = pa_usage a"
        "\<And>i. i < n \<Longrightarrow> pa_output_texts a1 ! i = pa_output_texts a ! i @ choice_text (crs_choices r) i \<and>
         tokens_of (pa_logprob_results a1 ! i) =
           tokens_of (pa_logprob_results a ! i) @ choice_tokens (crs_choices r) i"
        using acc_choices [OF Cons.prems(1), of "crs_choices r"] Cons.prems(2) [of r]
        by (auto simp: response_ok_def)
      have cs: "choices_of (r # ys) = crs_choices r @ choices_of ys"
        using None by (simp add: choices_of_def)
      have step: "entry_loop (entry_acc_response debug) disc k a (r # ys) =
          entry_loop (entry_acc_response debug) disc (k + 1) a1 ys"
        using False None a1(1) by (simp add: entry_acc_response_def)
      show ?thesis using Cons.IH [OF a1(2), of "k + 1"] Cons.prems(2) a1(3,4)
        unfolding step cs choice_append by auto
    qed
  qed
qed

lemma acc_ok_init: "acc_ok (nat n) (completion_acc_init n)"
  by (auto simp: acc_ok_def completion_acc_init_def)

lemma wrap_completion_ok:
  assumes "acc_ok n a"
  shows "wrap_completion_response rid model (pa_output_texts a) (pa_finish_reasons a)
       (pa_logprob_results a) usage =
     Inr \<lparr>crs_id = rid, crs_choices = map (\<lambda>i. \<lparr>crc_finish_reason = pa_finish_reasons a ! i,
         crc_index = i, crc_logprobs = pa_logprob_results a ! i,
         crc_text = pa_output_texts a ! i\<rparr>) [0..<n], crs_model = model, crs_usage = usage\<rparr>"
proof -
  let ?xs = "enumerate 0 (zip (pa_output_texts a) (pa_finish_reasons a))"
  let ?f = "\<lambda>(i, txt, fr). bindR (indexR (pa_logprob_results a) i)
      (\<lambda>lp. mk_completion_choice i fr txt lp)"
  let ?g = "\<lambda>(i, txt, fr). \<lparr>crc_finish_reason = fr, crc_index = i,
      crc_logprobs = pa_logprob_results a ! i, crc_text = txt\<rparr>"
  have "?f x = Inr (?g x)" if "x \<in> set ?xs" for x
  proof -
    have "fst x < n" using enumerate_fst_less [OF that] assms by (simp add: acc_ok_def)
    moreover obtain i tx fr where x: "x = (i, tx, fr)" by (cases x)
    then have "(tx, fr) \<in> set (zip (pa_output_texts a) (pa_finish_reasons a))"
      using that enumerate_memD by fastforce
    then have "snd (snd x) \<in> set (pa_finish_reasons a)" using x by (auto dest: set_zip_rightD)
    then have "check_literal completion_finish_reasons (snd (snd x)) = Inr ()"
      using assms by (auto simp: acc_ok_def check_literal_def split: option.splits)
    ultimately show ?thesis using assms x by (auto simp: acc_ok_def mk_completion_choice_def)
  qed
  then have "mapR ?f ?xs = Inr (map ?g ?xs)" by (rule mapR_cong_Inr)
  moreover have "map ?g ?xs = map (\<lambda>i. \<lparr>crc_finish_reason = pa_finish_reasons a ! i,
         crc_index = i, crc_logprobs = pa_logprob_results a ! i,
         crc_text = pa_output_texts a ! i\<rparr>) [0..<n]"
    using assms by (intro nth_equalityI) (auto simp: nth_enumerate_eq acc_ok_def)
  ultimately show ?thesis by (simp add: wrap_completion_response_def)
qed

text \<open>
  What a request becomes before it reaches the engine, and its id.
\<close>

definition served_request :: "'e server_context \<Rightarrow> completion_request \<Rightarrow> completion_request" where
  "served_request s q = (if sc_enable_debug s then q else q\<lparr>cr_debug_config := None\<rparr>)"

definition served_id :: "string \<Rightarrow> completion_request \<Rightarrow> string" where
  "served_id uuid q = (case cr_user q of None \<Rightarrow> ''cmpl-'' @ uuid | Some u \<Rightarrow> u)"

locale completion_engine =
  fixes handle :: "'e completion_handler"
  assumes responses_ok: "r \<in> set (fst (handle e q i x)) \<Longrightarrow> response_ok (nat (cr_n q)) x r"
begin

lemma request_completion_whole:
  assumes engine: "get_engine (cr_model q) s = Some e" and whole: "\<not> cr_stream q"
    and g: "handle e (served_request s q) (served_id uuid q) (sc_enable_debug s) = (ys, en)"
    and conn: "\<And>k. \<not> disc k"
  shows "(en = Blocked \<longrightarrow> request_completion handle dump disc uuid s q = None) \<and>
   (\<forall>err. en = Raised err \<longrightarrow> request_completion handle dump disc uuid s q = Some (Inl err)) \<and>
   (en = Returned \<longrightarrow> (\<exists>resp. request_completion handle dump disc uuid s q = Some (Inr (Reply resp)) \<and>
      crs_id resp = served_id uuid q \<and> length (crs_choices resp) = nat (cr_n q) \<and>
      (\<forall>i < nat (cr_n q). crc_index (crs_choices resp ! i) = i \<and>
         crc_text (crs_choices resp ! i) = choice_text (choices_of ys) i \<and>
         tokens_of (crc_logprobs (crs_choices resp ! i)) = choice_tokens (choices_of ys) i) \<and>
      (\<not> sc_enable_debug s \<longrightarrow> (\<forall>u. crs_usage resp = Some u \<longrightarrow> usage_extra u = None))))"
proof -
  let ?d = "sc_enable_debug s" and ?q = "served_request s q" and ?n = "nat (cr_n q)"
  have q: "cr_n ?q = cr_n q" "cr_model ?q = cr_model q" "cr_stream ?q = cr_stream q"
    "cr_user ?q = cr_user q" by (simp_all add: served_request_def)
  have ok: "response_ok ?n ?d r" if "r \<in> set ys" for r
    using responses_ok [of r e ?q "served_id uuid q" ?d] g that q by simp
  have not_none: "entry_loop (entry_acc_response ?d) disc k a ys \<noteq> Inr None" for k a ys
    by (induction ys arbitrary: k a) (auto simp: conn res_simps)
  obtain a where loop: "entry_loop (entry_acc_response ?d) disc 0 (completion_acc_init (cr_n q)) ys =
      Inr (Some a)" and a: "acc_ok ?n a"
    "\<And>i. i < ?n \<Longrightarrow> pa_output_texts a ! i = choice_text (choices_of ys) i \<and>
       tokens_of (pa_logprob_results a ! i) = choice_tokens (choices_of ys) i"
    "\<not> ?d \<longrightarrow> (\<forall>u. pa_usage a = Some u \<longrightarrow> usage_extra u = None)"
    using entry_loop_ok [OF acc_ok_init ok, of ys disc 0] not_none
    by (auto simp: completion_acc_init_def tokens_of_def)
  have req: "request_completion handle dump disc uuid s q =
      entry_finish (\<lambda>a. wrap_completion_response (served_id uuid q) (cr_model q) (pa_output_texts a)
        (pa_finish_reasons a) (pa_logprob_results a) (pa_usage a)) en (Inr (Some a))"
    using engine whole g loop q unfolding request_completion_def served_request_def [symmetric] Let_def
    by (simp add: served_id_def)
  show ?thesis
  proof (cases en)
    case Returned
    then show ?thesis using a unfolding req
      by (simp add: entry_finish_def wrap_completion_ok [OF a(1)])
  qed (simp_all add: req entry_finish_def)
qed

lemma reply_no_extra:
  assumes off: "\<not> sc_enable_debug s"
    and rep: "request_completion handle dump disc uuid s q = Some (Inr (Reply resp))"
  shows "\<forall>u. crs_usage resp = Some u \<longrightarrow> usage_extra u = None"
proof -
  let ?q = "served_request s q" and ?n = "nat (cr_n q)"
  obtain e where e: "get_engine (cr_model q) s = Some e"
    using rep by (auto simp: request_completion_def Let_def not_served_def split: option.splits if_splits)
  let ?g = "handle e ?q (served_id uuid q) (sc_enable_debug s)"
  have q: "cr_n ?q = cr_n q" by (simp add: served_request_def)
  have ok: "response_ok ?n (sc_enable_debug s) r" if "r \<in> set (fst ?g)" for r
    using responses_ok [OF that] q by simp
  have whole: "\<not> cr_stream q"
    using rep e off by (auto simp: request_completion_def Let_def stream_reply_def
        split: if_splits list.splits gen_end.splits prod.splits)
  have "request_completion handle dump disc uuid s q =
      entry_finish (\<lambda>a. wrap_completion_response (served_id uuid q) (cr_model q) (pa_output_texts a)
        (pa_finish_reasons a) (pa_logprob_results a) (pa_usage a)) (snd ?g)
        (entry_loop (entry_acc_response (sc_enable_debug s)) disc 0 (completion_acc_init (cr_n q)) (fst ?g))"
    using e whole off by (simp add: request_completion_def served_request_def served_id_def Let_def)
  with rep obtain a where loop: "entry_loop (entry_acc_response (sc_enable_debug s)) disc 0
        (completion_acc_init (cr_n q)) (fst ?g) = Inr (Some a)"
    and wrap: "wrap_completion_response (served_id uuid q) (cr_model q) (pa_output_texts a)
        (pa_finish_reasons a) (pa_logprob_results a) (pa_usage a) = Inr resp"
    by (auto simp: entry_finish_def disconnected_reply_def res_simps
        split: sum.splits option.splits gen_end.splits)
  have "\<forall>u. pa_usage a = Some u \<longrightarrow> usage_extra u = None"
    using entry_loop_ok [OF acc_ok_init ok, of "fst ?g" disc 0] loop off
    by (auto simp: completion_acc_init_def)
  then show ?thesis using wrap by (auto simp: wrap_completion_response_def res_simps)
qed

lemma stream_no_extra:
  assumes "\<not> sc_enable_debug s" and "r \<in> set (fst (handle e (served_request s q) i (sc_enable_debug s)))"
  shows "\<forall>u. crs_usage r = Some u \<longrightarrow> usage_extra u = None"
  using responses_ok [OF assms(2)] assms(1) by (simp add: response_ok_def)

end

section \<open>The async engine provides the contract\<close>

lemma mk_completion_choice_ok:
  "mk_completion_choice i fr t lp = Inr c \<Longrightarrow>
     crc_index c = i \<and> (crc_finish_reason c = None \<or>
       crc_finish_reason c \<in> Some ` set completion_finish_reasons)"
  by (auto simp: mk_completion_choice_def res_simps check_literal_def split: option.splits if_splits)

lemma note_finish_length: "note_finish use_fc frs i out = Inr (frs', b) \<Longrightarrow> length frs' = length frs"
  by (auto simp: note_finish_def res_simps split: option.splits if_splits)

lemma completion_choices_ok:
  assumes "completion_choices parse i outs frs = Inr (frs', cs)"
  shows "length frs' = length frs \<and>
     (\<forall>c \<in> set cs. crc_index c < i + length outs \<and> (crc_finish_reason c = None \<or>
        crc_finish_reason c \<in> Some ` set completion_finish_reasons))"
  using assms
proof (induction outs arbitrary: i frs frs' cs)
  case Nil
  then show ?case by simp
next
  case (Cons out outs)
  obtain frs1 b where nf: "note_finish False frs i out = Inr (frs1, b)"
    using Cons.prems by (auto simp: res_simps)
  note len = note_finish_length [OF nf]
  show ?case
  proof (cases "\<not> b \<and> co_delta_text out = []")
    case True
    then show ?thesis using Cons.prems Cons.IH [of "i + 1" frs1 frs' cs] nf len by auto
  next
    case False
    then obtain c cs1 lp fr where c: "mk_completion_choice i fr (co_delta_text out) lp = Inr c"
      and rest: "completion_choices parse (i + 1) outs frs1 = Inr (frs', cs1)" "cs = c # cs1"
      using Cons.prems nf by (auto simp: res_simps split: if_splits)
    show ?thesis using Cons.IH [OF rest(1)] mk_completion_choice_ok [OF c] rest(2) len by auto
  qed
qed

lemma process_completion_output_ok:
  assumes "process_completion_stream_output pl pu outs q rid frs st = (st', Inr (frs', r))"
  shows "length frs' = length frs \<and> (\<forall>x. r = Some x \<longrightarrow>
     response_ok (nat (cr_n q)) True x)"
  using assms completion_choices_ok [of pl 0 outs frs]
  by (fastforce simp: process_completion_stream_output_def res_simps response_ok_def
      split: option.splits if_splits prod.splits)

lemma response_ok_strip:
  "response_ok n True x \<Longrightarrow> response_ok n ex (x\<lparr>crs_usage := strip_extra ex (crs_usage x)\<rparr>)"
  by (auto simp: response_ok_def strip_extra_def)

lemma completion_loop_ok:
  assumes "completion_stream_loop env ex q rid cs frs st = ((ys, r), st')"
  shows "(\<forall>y \<in> set ys. response_ok (nat (cr_n q)) ex y) \<and> (\<forall>frs'. r = Inr frs' \<longrightarrow> length frs' = length frs)"
  using assms
proof (induction cs arbitrary: frs st ys r st')
  case Nil
  then show ?case by auto
next
  case (Cons c cs)
  obtain st1 res where one: "process_completion_stream_output (env_parse_lpc env) (env_parse_usage env)
      c q rid frs st = (st1, res)" by (cases "process_completion_stream_output (env_parse_lpc env)
      (env_parse_usage env) c q rid frs st")
  show ?case
  proof (cases res)
    case (Inl e)
    then show ?thesis using Cons.prems one by auto
  next
    case (Inr p)
    obtain frs1 x where p: "p = (frs1, x)" by (cases p)
    obtain ys1 where rest: "completion_stream_loop env ex q rid cs frs1 st1 = ((ys1, r), st')"
      and ys: "ys = (case x of None \<Rightarrow> ys1
        | Some y \<Rightarrow> y\<lparr>crs_usage := strip_extra ex (crs_usage y)\<rparr> # ys1)"
      using Cons.prems one Inr p by (auto split: prod.splits)
    show ?thesis
      using Cons.IH [OF rest] process_completion_output_ok [of "env_parse_lpc env" "env_parse_usage env"
          c q rid frs st st1 frs1 x] one Inr p ys response_ok_strip
      by (auto split: option.splits)
  qed
qed

lemma mapR_setD:
  assumes "mapR f xs = Inr ys" and "y \<in> set ys"
  shows "\<exists>x \<in> set xs. f x = Inr y"
proof -
  obtain i where "i < length ys" "ys ! i = y" using assms(2) by (auto simp: in_set_conv_nth)
  then show ?thesis using mapR_nth [OF assms(1), of i] mapR_length [OF assms(1)] by (auto intro!: bexI [of _ "xs ! i"])
qed

lemma echo_ok:
  assumes "echo_response decode q rid prompt n = Inr (Some x)"
  shows "response_ok (nat n) ex x"
proof -
  obtain cs where cs: "mapR (\<lambda>i. mk_completion_choice i None (decode prompt) None) [0..<nat n] = Inr cs"
    "x = \<lparr>crs_id = rid, crs_choices = cs, crs_model = cr_model q, crs_usage = None\<rparr>"
    using assms by (auto simp: echo_response_def res_simps split: if_splits)
  have "crc_index c < nat n \<and> (crc_finish_reason c = None \<or>
      crc_finish_reason c \<in> Some ` set completion_finish_reasons)" if "c \<in> set cs" for c
    using mapR_setD [OF cs(1) that] by (auto dest!: mk_completion_choice_ok)
  then show ?thesis using cs(2) by (simp add: response_ok_def)
qed

lemma suffix_ok:
  assumes "create_completion_suffix_response q rid frs = Inr (Some x)"
  shows "response_ok (length frs) ex x"
proof -
  obtain suf cs where cs: "mapR (\<lambda>(i, fr). mk_completion_choice i fr suf None) (enumerate 0 frs) = Inr cs"
    "x = \<lparr>crs_id = rid, crs_choices = cs, crs_model = cr_model q, crs_usage = None\<rparr>"
    using assms by (auto simp: create_completion_suffix_response_def res_simps split: option.splits if_splits)
  have "crc_index c < length frs \<and> (crc_finish_reason c = None \<or>
      crc_finish_reason c \<in> Some ` set completion_finish_reasons)" if c: "c \<in> set cs" for c
  proof -
    obtain p where p: "p \<in> set (enumerate 0 frs)" "(\<lambda>(i, fr). mk_completion_choice i fr suf None) p = Inr c"
      using mapR_setD [OF cs(1) c] by blast
    obtain i fr where "p = (i, fr)" by (cases p)
    then show ?thesis
      using enumerate_fst_less [OF p(1)] p(2) by (auto dest!: mk_completion_choice_ok)
  qed
  then show ?thesis using cs(2) by (simp add: response_ok_def)
qed

lemma processed_completion_fields:
  assumes "process_completion_request q rid st encode decode mx cv = (st', Inr pp)"
  shows "gc_n (pp_generation_cfg pp) = cr_n q" "cr_n (pp_request pp) = cr_n q"
    "\<forall>x. pp_echo_response pp = Some x \<longrightarrow> response_ok (nat (cr_n q)) ex x"
  using assms
  by (auto simp: process_completion_request_def Let_def res_simps get_generation_config_def
      intro: echo_ok split: prod.splits option.splits)

lemma handle_completion_ok:
  assumes "r \<in> set (fst (fst (handle_completion env generate close ex q rid st)))"
  shows "response_ok (nat (cr_n q)) ex r"
proof -
  obtain st1 pp where prep: "process_completion_request q rid st (env_encode env) (env_decode env)
      (env_max_input_sequence_length env) (env_conv_template env) = (st1, Inr pp)"
    using assms by (auto simp: handle_completion_def split: prod.splits sum.splits)
  note pp = processed_completion_fields [OF prep]
  let ?n = "nat (gc_n (pp_generation_cfg pp))"
  obtain chunks en st2 where gen: "generate (EList (map EInt (pp_prompt pp))) (pp_generation_cfg pp) rid
      (record_event rid ''invoke generate'' st1) = ((chunks, en), st2)"
    by (metis prod.collapse)
  obtain ys res st3 where loop: "completion_stream_loop env ex (pp_request pp) rid chunks
      (replicate ?n None) st2 = ((ys, res), st3)"
    by (metis prod.collapse)
  note ok = completion_loop_ok [OF loop]
  have echo: "response_ok (nat (cr_n q)) ex x" if "x \<in> set (opt_list (pp_echo_response pp))" for x
    using that pp(3) by (auto simp: opt_list_def split: option.splits)
  have suf: "response_ok (nat (cr_n q)) ex x"
    if "create_completion_suffix_response (pp_request pp) rid frs = Inr s" "res = Inr frs"
      "x \<in> set (opt_list s)" for x frs s
    using that suffix_ok [of "pp_request pp" rid frs x ex] ok pp(1)
    by (auto simp: opt_list_def split: option.splits)
  show ?thesis using assms prep gen loop ok pp echo suf
    by (auto simp: handle_completion_def Let_def split: sum.splits if_splits)
qed

text \<open>The handlers of the engines a server hosts, each with its deltas and its state.\<close>

definition async_completion_handler ::
    "('e \<Rightarrow> 'img engine_env) \<Rightarrow> 's put_fn \<Rightarrow> 's finish_fn \<Rightarrow> 's \<Rightarrow>
     ('e \<Rightarrow> request_stream_output list list) \<Rightarrow> ('e \<Rightarrow> 's engine_state) \<Rightarrow> 'e completion_handler" where
  "async_completion_handler env put fin ns dss st e q i x =
     fst (async_handle_completion (env e) put fin ns (dss e) x q i (st e))"

interpretation async_completion: completion_engine "async_completion_handler env put fin ns dss st"
    for env :: "'e \<Rightarrow> 'img engine_env" and put :: "'s put_fn" and fin :: "'s finish_fn" and ns :: 's
      and dss :: "'e \<Rightarrow> request_stream_output list list" and st :: "'e \<Rightarrow> 's engine_state"
  by unfold_locales
     (auto simp: async_completion_handler_def async_handle_completion_def intro: handle_completion_ok)

section \<open>Completions of the server\<close>

text \<open>
  C22: the non-streaming completion entry point over the async engine. If the client stays
  connected, the reply fails only when the engine's generator raised, with that exception,
  and waits only when it waits. When the generator returned, the reply has one choice per
  generation; the text and the log-prob tokens of each choice are the concatenation of all
  those the engine streamed for it (echo and suffix included); and with the debug mode off
  the usage carries no extra data.
\<close>

theorem server_completion_whole:
  assumes "get_engine (cr_model q) s = Some e" and "\<not> cr_stream q" and "\<And>k. \<not> disc k"
    and "async_completion_handler env put fin ns dss st e (served_request s q) (served_id uuid q)
      (sc_enable_debug s) = (ys, en)"
  shows "(en = Blocked \<longrightarrow> request_completion (async_completion_handler env put fin ns dss st) dump disc
        uuid s q = None) \<and>
   (\<forall>err. en = Raised err \<longrightarrow> request_completion (async_completion_handler env put fin ns dss st) dump
        disc uuid s q = Some (Inl err)) \<and>
   (en = Returned \<longrightarrow> (\<exists>resp. request_completion (async_completion_handler env put fin ns dss st) dump
        disc uuid s q = Some (Inr (Reply resp)) \<and>
      crs_id resp = served_id uuid q \<and> length (crs_choices resp) = nat (cr_n q) \<and>
      (\<forall>i < nat (cr_n q). crc_index (crs_choices resp ! i) = i \<and>
         crc_text (crs_choices resp ! i) = choice_text (choices_of ys) i \<and>
         tokens_of (crc_logprobs (crs_choices resp ! i)) = choice_tokens (choices_of ys) i) \<and>
      (\<not> sc_enable_debug s \<longrightarrow> (\<forall>u. crs_usage resp = Some u \<longrightarrow> usage_extra u = None))))"
  by (rule async_completion.request_completion_whole [OF assms(1,2,4,3)])

definition demo_context :: "unit server_context" where
  "demo_context =
     \<lparr>sc_current = True, sc_enable_debug = False, sc_models = [(''m'', ())], sc_terminated = []\<rparr>"

definition demo_completion :: completion_request where
  "demo_completion = (default_completion_request (PromptIds [1, 2]))\<lparr>cr_user := Some ''r''\<rparr>"

definition demo_engine_env :: "unit engine_env" where
  "demo_engine_env =
     \<lparr>env_dump = (\<lambda>_. []), env_dumps = (\<lambda>_. []), env_image_io = no_images,
      env_encode = (\<lambda>s. [1]), env_decode = (\<lambda>_. []), env_model_config = None,
      env_max_input_sequence_length = 100,
      env_conv_template = conversation_defaults [] [''|''],
      env_parse_lpc = (\<lambda>_. Inl (ForeignError [])),
      env_parse_usage = (\<lambda>_. Inr \<lparr>prompt_tokens = 1, completion_tokens = 2, total_tokens = 3,
         usage_extra = Some []\<rparr>)\<rparr>"

definition demo_handler :: "unit completion_handler" where
  "demo_handler = async_completion_handler (\<lambda>_. demo_engine_env) demo_put demo_fin ()
     (\<lambda>_. [[demo_delta ''r'', demo_usage ''r'']]) (\<lambda>_. engine_state_init False)"

lemma demo_handler_run:
  "\<exists>ys. demo_handler () demo_completion ''r'' False = (ys, Returned) \<and>
     choice_text (choices_of ys) 0 = ''aa''"
  by (simp add: demo_handler_def async_completion_handler_def async_handle_completion_def
      handle_completion_def demo_completion_def default_completion_request_def demo_engine_env_def
      process_completion_request_def check_unsupported_fields_def get_unsupported_fields_def
      openai_api_get_unsupported_fields_def process_prompts_def check_and_get_prompts_length_def
      get_generation_config_def echo_response_def conversation_defaults_def async_generate_def
      int_of_elem_def exec_simps demo_simps detokenize_def then_text_def opt_list_def
      process_completion_stream_output_def note_finish_def completion_log_probs_of_def
      mk_completion_choice_def check_literal_def completion_finish_reasons_def
      final_usage_wanted_def create_completion_suffix_response_def strip_extra_def
      choices_of_def choice_text_def)

theorem server_completion_whole_witness:
  "\<exists>resp. request_completion demo_handler (\<lambda>_. []) (\<lambda>_. False) [] demo_context demo_completion =
       Some (Inr (Reply resp)) \<and>
     crc_text (crs_choices resp ! 0) = ''aa''"
proof -
  obtain ys where ys: "demo_handler () demo_completion ''r'' False = (ys, Returned)"
    "choice_text (choices_of ys) 0 = ''aa''" using demo_handler_run by blast
  have q: "served_request demo_context demo_completion = demo_completion"
    "served_id [] demo_completion = ''r''" "sc_enable_debug demo_context = False"
    "get_engine (cr_model demo_completion) demo_context = Some ()"
    "\<not> cr_stream demo_completion" "cr_n demo_completion = 1"
    by (simp_all add: served_request_def served_id_def demo_context_def demo_completion_def
        default_completion_request_def get_engine_def)
  show ?thesis
    using server_completion_whole [of demo_completion demo_context "()" "\<lambda>_. False"
        "\<lambda>_. demo_engine_env" demo_put demo_fin "()" "\<lambda>_. [[demo_delta ''r'', demo_usage ''r'']]"
        "\<lambda>_. engine_state_init False" "[]" ys Returned "\<lambda>_. []"] ys q
    unfolding demo_handler_def [symmetric] by auto
qed

section \<open>Debug data\<close>

text \<open>
  C27: with the debug mode off nothing of the debug interface passes the streaming entry point:
  the engine gets the request without its debug config, and no event carries extra
  usage data. The events are the engine's responses in order, followed by the end mark when
  the engine's generator returned.
\<close>

theorem debug_off_stream:
  assumes off: "\<not> sc_enable_debug s" and stream: "cr_stream q"
    and engine: "get_engine (cr_model q) s = Some e"
    and rep: "request_completion (async_completion_handler env put fin ns dss st) dump disc uuid s q =
      Some (Inr (EventStream (texts, en)))"
  shows "\<exists>ys. async_completion_handler env put fin ns dss st e (q\<lparr>cr_debug_config := None\<rparr>)
       (served_id uuid q) False = (ys, en) \<and>
     texts = map (\<lambda>r. sse (dump r)) ys @ (if en = Returned then [sse_done] else []) \<and>
     (\<forall>r \<in> set ys. \<forall>u. crs_usage r = Some u \<longrightarrow> usage_extra u = None)"
proof -
  let ?h = "async_completion_handler env put fin ns dss st"
  let ?g = "?h e (q\<lparr>cr_debug_config := None\<rparr>) (served_id uuid q) False"
  have "stream_reply dump ?g = Some (Inr (EventStream (texts, en) :: completion_response reply))"
    using rep off stream engine by (simp add: request_completion_def Let_def served_id_def)
  then have "?g = (fst ?g, en) \<and>
      texts = map (\<lambda>r. sse (dump r)) (fst ?g) @ (if en = Returned then [sse_done] else [])"
    by (cases ?g) (auto simp: stream_reply_def split: list.splits gen_end.splits)
  moreover have "\<forall>u. crs_usage r = Some u \<longrightarrow> usage_extra u = None" if "r \<in> set (fst ?g)" for r
    using async_completion.stream_no_extra [of s r env put fin ns dss st e q] that off
    by (simp add: served_request_def)
  ultimately show ?thesis by blast
qed

theorem debug_off_stream_witness:
  "\<exists>texts. request_completion demo_handler (\<lambda>_. ''x'') (\<lambda>_. False) [] demo_context
       (demo_completion\<lparr>cr_stream := True, cr_stream_options := Some \<lparr>include_usage = Some True\<rparr>\<rparr>) =
       Some (Inr (EventStream (texts, Returned))) \<and>
     last texts = sse_done"
proof -
  let ?q = "demo_completion\<lparr>cr_stream := True, cr_stream_options := Some \<lparr>include_usage = Some True\<rparr>\<rparr>"
  obtain y ys where run: "demo_handler () ?q ''r'' False = (y # ys, Returned)"
    by (simp add: demo_handler_def async_completion_handler_def async_handle_completion_def
      handle_completion_def demo_completion_def default_completion_request_def demo_engine_env_def
      process_completion_request_def check_unsupported_fields_def get_unsupported_fields_def
      openai_api_get_unsupported_fields_def process_prompts_def check_and_get_prompts_length_def
      get_generation_config_def echo_response_def conversation_defaults_def async_generate_def
      int_of_elem_def exec_simps demo_simps detokenize_def then_text_def opt_list_def
      process_completion_stream_output_def note_finish_def completion_log_probs_of_def
      mk_completion_choice_def check_literal_def completion_finish_reasons_def
      final_usage_wanted_def create_completion_suffix_response_def strip_extra_def)
  have q: "?q\<lparr>cr_debug_config := None\<rparr> = ?q"
    by (simp add: demo_completion_def default_completion_request_def)
  obtain texts where rep: "request_completion demo_handler (\<lambda>_. ''x'') (\<lambda>_. False) [] demo_context ?q =
       Some (Inr (EventStream (texts, Returned)))"
    using run q by (simp add: request_completion_def demo_context_def get_engine_def Let_def
        stream_reply_def) (simp add: demo_completion_def)
  have "last texts = sse_done"
    using debug_off_stream [of demo_context ?q "()" "\<lambda>_. demo_engine_env" demo_put demo_fin "()"
        "\<lambda>_. [[demo_delta ''r'', demo_usage ''r'']]" "\<lambda>_. engine_state_init False" "\<lambda>_. ''x''"
        "\<lambda>_. False" "[]" texts Returned] rep
    unfolding demo_handler_def [symmetric]
    by (auto simp: demo_context_def get_engine_def)
  then show ?thesis using rep by auto
qed

text \<open>
  The microserving entry point \<open>prep_recv\<close> needs the debug mode: on a server without it
  no request succeeds, because the disaggregation config travels in the debug config and the
  answer in the extra usage data, and both are removed.
\<close>

theorem prep_recv_needs_debug:
  assumes "\<not> sc_enable_debug s"
  shows "\<nexists>x. prep_recv (request_completion (async_completion_handler env put fin ns dss st) dump disc
       uuid s) q k = Some (Inr x)"
  by (auto simp: prep_recv_def split: sum.splits option.splits reply.splits prod.splits
      dest: async_completion.reply_no_extra [OF assms])

theorem prep_recv_needs_debug_witness:
  "\<not> sc_enable_debug demo_context \<and>
   (\<nexists>x. prep_recv (request_completion demo_handler (\<lambda>_. []) (\<lambda>_. False) [] demo_context)
      (demo_completion\<lparr>cr_debug_config := Some default_debug_config\<rparr>) 1 = Some (Inr x))"
proof -
  have off: "\<not> sc_enable_debug demo_context" by (simp add: demo_context_def)
  show ?thesis unfolding demo_handler_def by (intro conjI off prep_recv_needs_debug [OF off])
qed

section \<open>Log probs of the engine's own completion\<close>

fun last_log_probs ::
    "completion_response_choice list \<Rightarrow> nat \<Rightarrow> completion_log_probs option" where
  "last_log_probs [] i = None"
| "last_log_probs (c # cs) i =
     (if last_log_probs cs i \<noteq> None then last_log_probs cs i
      else if crc_index c = i then crc_logprobs c else None)"

lemma completion_acc_choice_log_probs:
  assumes "completion_acc_choice a c = Inr a1" "i < length (pa_logprob_results a)"
  shows "length (pa_logprob_results a1) = length (pa_logprob_results a) \<and>
    pa_logprob_results a1 ! i = (if crc_index c = i \<and> crc_logprobs c \<noteq> None then crc_logprobs c
       else pa_logprob_results a ! i)"
proof (cases "crc_logprobs c")
  case None
  then show ?thesis using assms by (auto simp: completion_acc_choice_def res_simps Let_def)
next
  case (Some lp)
  then show ?thesis using assms
    by (auto simp: completion_acc_choice_def res_simps Let_def nth_list_update)
qed

text \<open>
  The non-streaming \<open>_completion\<close> of the engine classes keeps, for each choice, only the log
  probs of the last response that has any, and drops the earlier ones; the HTTP entry
  point concatenates them.
\<close>

theorem engine_completion_keeps_last_log_probs:
  assumes "foldR completion_acc_choice a cs = Inr a'" and "i < length (pa_logprob_results a)"
  shows "pa_logprob_results a' ! i =
     (if last_log_probs cs i \<noteq> None then last_log_probs cs i else pa_logprob_results a ! i)"
  using assms
proof (induction cs arbitrary: a)
  case Nil
  then show ?case by simp
next
  case (Cons c cs)
  obtain a1 where a1: "completion_acc_choice a c = Inr a1" "foldR completion_acc_choice a1 cs = Inr a'"
    using Cons.prems(1) by (auto simp: res_simps)
  show ?case using Cons.IH [OF a1(2)] Cons.prems(2)
      completion_acc_choice_log_probs [OF a1(1) Cons.prems(2)] by auto
qed

definition token_choice :: "string \<Rightarrow> completion_response_choice" where
  "token_choice t =
     \<lparr>crc_finish_reason = None, crc_index = 0,
      crc_logprobs = Some \<lparr>clp_text_offset = None, clp_token_logprobs = [Fin (- 1)], clp_tokens = [t],
        clp_top_logprobs = [[]]\<rparr>, crc_text = t\<rparr>"

theorem engine_completion_keeps_last_log_probs_witness:
  "\<exists>a'. foldR completion_acc_choice (completion_acc_init 1) [token_choice ''a'', token_choice ''b''] = Inr a' \<and>
     pa_output_texts a' ! 0 = ''ab'' \<and> tokens_of (pa_logprob_results a' ! 0) = [''b'']"
proof -
  obtain a' where a': "foldR completion_acc_choice (completion_acc_init 1)
      [token_choice ''a'', token_choice ''b''] = Inr a'" "pa_output_texts a' ! 0 = ''ab''"
    by (simp add: completion_acc_choice_def completion_acc_init_def token_choice_def first_reason_def)
  have "pa_logprob_results a' ! 0 = crc_logprobs (token_choice ''b'')"
    using engine_completion_keeps_last_log_probs [OF a'(1), of 0]
    by (simp add: completion_acc_init_def token_choice_def)
  then show ?thesis using a' by (simp add: tokens_of_def token_choice_def)
qed

section \<open>The server context\<close>

text \<open>
  The life of the server context. \<open>add_model\<close> refuses a name twice and otherwise makes the
  engine reachable under it; with a single model every request reaches it, whatever model it
  names; leaving the context terminates every engine once and empties the table; but it
  does not reset the class attribute, so no context can be entered afterwards.
\<close>

theorem server_context_lifecycle:
  assumes enter: "context_enter s = Inr s1" and add: "add_model m e s1 = Inr s2"
  shows "get_engine (Some m) s2 = Some e \<and>
     (sc_models s = [] \<longrightarrow> get_engine any s2 = Some e) \<and>
     add_model m e' s2 = Inl (RuntimeError (''Model '' @ m @ '' already running.'')) \<and>
     sc_models (context_exit s2) = [] \<and>
     sc_terminated (context_exit s2) = sc_terminated s @ map snd (sc_models s) @ [e] \<and>
     (\<forall>x. context_enter (context_exit s2) \<noteq> Inr x)"
proof -
  have new: "dict_get (sc_models s) m = None" and s2: "sc_current s2"
    "sc_models s2 = dict_set (sc_models s) m e" "sc_terminated s2 = sc_terminated s"
    using enter add by (auto simp: context_enter_def add_model_def split: if_splits)
  have snoc: "dict_set d m e = d @ [(m, e)]" if "dict_get d m = None" for d :: "'a dict"
    using that by (induction d) (auto split: if_splits)
  have got: "dict_get (sc_models s2) m = Some e" using s2 by simp
  have "get_engine (Some m) s2 = Some e"
  proof (cases "sc_models s")
    case Nil
    then show ?thesis using s2 by (simp add: get_engine_def)
  next
    case (Cons p d)
    then show ?thesis using got s2(2) snoc [OF new]
      by (cases p; cases d) (simp_all add: get_engine_def)
  qed
  then show ?thesis using s2 got snoc [OF new]
    by (auto simp: add_model_def context_exit_def context_enter_def get_engine_def)
qed

theorem server_context_lifecycle_witness:
  "\<exists>s1 s2. context_enter (server_context_init True) = Inr s1 \<and> add_model ''m'' (7 :: nat) s1 = Inr s2 \<and>
     get_engine None s2 = Some 7 \<and> sc_terminated (context_exit s2) = [7]"
proof -
  obtain s1 s2 where run: "context_enter (server_context_init True) = Inr s1"
    "add_model ''m'' (7 :: nat) s1 = Inr s2"
    by (simp add: context_enter_def server_context_init_def add_model_def)
  from server_context_lifecycle [OF run, of None 7] show ?thesis
    using run by (auto simp: server_context_init_def)
qed

end
