(* ===== verification/Router.thy ===== *)
theory Router
  imports Server_Correct
begin

text \<open>
  The router of \<open>router/router.py\<close>: endpoints and devices, the choice of the least loaded
  endpoint, the round-robin and the disaggregated handling of a completion, the retry loop
  around them, and the decoding of the event streams of the servers. HTTP is an argument
  (\<open>post\<close>); so are the JSON decoding of a response and the rounding of floating-point
  arithmetic.
\<close>

section \<open>Construction\<close>

record router =
  rt_mode :: string
  rt_pd_balance_factor :: rat
  rt_num_servers :: nat
  rt_server_urls :: "string list"
  rt_num_running_requests :: "int list"
  rt_device_id_starts :: "int list"

definition device_id_starts :: "int list \<Rightarrow> int list" where
  "device_id_starts num_gpus = foldl (\<lambda>starts g. starts @ [last starts + g]) [0] num_gpus"

definition router_init ::
    "string list option \<Rightarrow> int list option \<Rightarrow> int list option \<Rightarrow> string \<Rightarrow> rat \<Rightarrow> router res" where
  "router_init hosts ports num_gpus mode factor =
     (let hosts = (case hosts of None \<Rightarrow> [''127.0.0.1''] | Some h \<Rightarrow> h);
          ports = (case ports of None \<Rightarrow> [8080] | Some p \<Rightarrow> p);
          num_gpus = (case num_gpus of None \<Rightarrow> [1] | Some g \<Rightarrow> g);
          n = length hosts in
      if \<not> (n = length ports \<and> length ports = length num_gpus) then Inl AssertionError
      else Inr
        \<lparr>rt_mode = mode, rt_pd_balance_factor = factor, rt_num_servers = n,
         rt_server_urls = map (\<lambda>(h, p). ''http://'' @ h @ '':'' @ int_str p) (zip hosts ports),
         rt_num_running_requests = replicate n 0,
         rt_device_id_starts = device_id_starts num_gpus\<rparr>)"

text \<open>
  What the server \<open>i\<close> is started with: its address, its first device, its engine config, the
  size of the communication world and the rank of its first worker. \<open>0.8\<close> is the float nearest
  to it.
\<close>

record server_launch =
  sl_host :: string
  sl_port :: int
  sl_device :: string
  sl_engine_config :: engine_config
  sl_npes :: int
  sl_pe_start :: int

definition start_server :: "string list \<Rightarrow> int list \<Rightarrow> bool \<Rightarrow> router \<Rightarrow> nat \<Rightarrow> server_launch" where
  "start_server hosts ports enable_prefix_cache rt i =
     \<lparr>sl_host = hosts ! i, sl_port = ports ! i,
      sl_device = ''cuda:'' @ int_str (rt_device_id_starts rt ! i),
      sl_engine_config = default_engine_config
        \<lparr>ec_prefix_cache_mode := (if enable_prefix_cache then ''radix'' else ''disable''),
         ec_gpu_memory_utilization := Some (Fin (3602879701896397 / 4503599627370496))\<rparr>,
      sl_npes = last (rt_device_id_starts rt), sl_pe_start = rt_device_id_starts rt ! i\<rparr>"

section \<open>The least loaded endpoint\<close>

fun pick_loop :: "int list \<Rightarrow> nat list \<Rightarrow> nat option \<Rightarrow> int \<Rightarrow> nat option res" where
  "pick_loop running [] best min_running = Inr best"
| "pick_loop running (c # cs) best min_running =
     bindR (indexR running c) (\<lambda>k.
       if k < min_running then pick_loop running cs (Some c) k
       else pick_loop running cs best min_running)"

definition pick_endpoint :: "int list \<Rightarrow> nat list \<Rightarrow> nat res" where
  "pick_endpoint running candidates =
     bindR (pick_loop running candidates None 1000000000) (\<lambda>best.
       case best of None \<Rightarrow> Inl AssertionError | Some c \<Rightarrow> Inr c)"

section \<open>Requests to the servers\<close>

datatype micro_request =
    Completions completion_request
  | PrepRecv completion_request int
  | RemoteSend completion_request int int string int
  | StartGenerate completion_request int

text \<open>A reply: its status, its lines when it is read as a stream, its JSON otherwise.\<close>

record http_reply =
  hp_status :: int
  hp_lines :: "string gen"
  hp_json :: "json res"

type_synonym post_fn = "string \<Rightarrow> micro_request \<Rightarrow> http_reply"

text \<open>
  The payload of one line of an event stream, or \<open>None\<close> for a line that is skipped. The prefix
  \<open>data: \<close> is removed by its length.
\<close>

definition sse_payload :: "string \<Rightarrow> string option" where
  "sse_payload chunk =
     (let chunk = str_strip chunk in
      if chunk = [] then None
      else
        let raw_data = str_strip (drop 6 chunk) in
        if raw_data = ''[DONE]'' then None else Some raw_data)"

fun decode_lines ::
    "(string \<Rightarrow> completion_response res) \<Rightarrow> string list \<Rightarrow> gen_end \<Rightarrow> completion_response gen" where
  "decode_lines decode [] en = ([], en)"
| "decode_lines decode (l # ls) en =
     (case sse_payload l of
        None \<Rightarrow> decode_lines decode ls en
      | Some raw \<Rightarrow>
          (case decode raw of
             Inl e \<Rightarrow> ([], Raised e)
           | Inr r \<Rightarrow> (case decode_lines decode ls en of (ys, en') \<Rightarrow> (r # ys, en'))))"

text \<open>The common reading of a completion reply, streamed or whole.\<close>

definition read_completions ::
    "(string \<Rightarrow> completion_response res) \<Rightarrow> (json \<Rightarrow> completion_response res) \<Rightarrow> bool \<Rightarrow> http_reply \<Rightarrow>
     completion_response gen" where
  "read_completions decode validate stream rep =
     (if hp_status rep \<noteq> 200 then ([], Raised AssertionError)
      else if stream then decode_lines decode (fst (hp_lines rep)) (snd (hp_lines rep))
      else
        (case bindR (hp_json rep) validate of
           Inl e \<Rightarrow> ([], Raised e)
         | Inr r \<Rightarrow> ([r], Returned)))"

definition send_prepare_receive :: "post_fn \<Rightarrow> string \<Rightarrow> completion_request \<Rightarrow> int \<Rightarrow> (json \<times> json) res" where
  "send_prepare_receive post url q end_pos =
     (let rep = post (url @ ''/microserving/prep_recv'') (PrepRecv q end_pos) in
      if hp_status rep \<noteq> 200 then Inl AssertionError
      else
        bindR (hp_json rep) (\<lambda>d.
        bindR (json_item d ''kv_append_metadata'') (\<lambda>md.
        bindR (json_item d ''prefix_matched_length'') (\<lambda>len. Inr (md, len)))))"

definition send_remote_send ::
    "post_fn \<Rightarrow> string \<Rightarrow> completion_request \<Rightarrow> int \<Rightarrow> int \<Rightarrow> string \<Rightarrow> int \<Rightarrow> unit res" where
  "send_remote_send post url q begin_pos end_pos md rank =
     (let rep = post (url @ ''/microserving/remote_send'') (RemoteSend q begin_pos end_pos md rank) in
      if hp_status rep \<noteq> 200 then Inl AssertionError else bindR (hp_json rep) (\<lambda>_. Inr ()))"

definition send_start_generate ::
    "post_fn \<Rightarrow> (string \<Rightarrow> completion_response res) \<Rightarrow> (json \<Rightarrow> completion_response res) \<Rightarrow> string \<Rightarrow>
     completion_request \<Rightarrow> int \<Rightarrow> completion_response gen" where
  "send_start_generate post decode validate url q begin_pos =
     read_completions decode validate (cr_stream q)
       (post (url @ ''/microserving/start_generate'') (StartGenerate q begin_pos))"

section \<open>Handling a completion\<close>

text \<open>
  The two handlers yield \<open>None\<close> before a response whose first choice was preempted. A handler is
  a generator that shares the router with others: when it is entered it picks an endpoint and changes
  the router; while it runs others may change it; and when it ends, or is closed or
  cancelled while it is suspended, the statements after its body or its \<open>except\<close> clause change the
  router as it is then. A run of a handler is its endpoint (a local variable, unset when none was
  picked), the values it yields and the way its body ends, and \<open>hr_exit\<close>: what it does to the router
  when it is left in a given way.
\<close>

record handler_run =
  hr_endpoint :: "nat option"
  hr_values :: "completion_response option list"
  hr_end :: gen_end
  hr_exit :: "gen_end \<Rightarrow> router \<Rightarrow> router"

definition failed_run :: "py_error \<Rightarrow> handler_run" where
  "failed_run e = \<lparr>hr_endpoint = None, hr_values = [], hr_end = Raised e, hr_exit = (\<lambda>_ rt. rt)\<rparr>"

definition mark_preempt :: "completion_response \<Rightarrow> completion_response option list" where
  "mark_preempt r =
     (case crs_choices r of
        [] \<Rightarrow> [Some r]
      | c # _ \<Rightarrow> if crc_finish_reason c = Some ''preempt'' then [None, Some r] else [Some r])"

definition add_running :: "nat \<Rightarrow> int \<Rightarrow> router \<Rightarrow> router" where
  "add_running i k rt =
     rt\<lparr>rt_num_running_requests :=
          (rt_num_running_requests rt)[i := rt_num_running_requests rt ! i + k]\<rparr>"

text \<open>
  Round robin: the counter is decremented when the session block is left normally; an exception
  skips it.
\<close>

definition handle_round_robin ::
    "post_fn \<Rightarrow> (string \<Rightarrow> completion_response res) \<Rightarrow> (json \<Rightarrow> completion_response res) \<Rightarrow>
     completion_request \<Rightarrow> router \<Rightarrow> handler_run \<times> router" where
  "handle_round_robin post decode validate q rt =
     (case pick_endpoint (rt_num_running_requests rt) [0..<rt_num_servers rt] of
        Inl e \<Rightarrow> (failed_run e, rt)
      | Inr d \<Rightarrow>
          (case read_completions decode validate (cr_stream q)
                  (post (rt_server_urls rt ! d @ ''/v1/completions'') (Completions q)) of
             (ys, en) \<Rightarrow>
               (\<lparr>hr_endpoint = Some d, hr_values = concat (map mark_preempt ys), hr_end = en,
                 hr_exit = (\<lambda>en rt. if en = Returned then add_running d (- 1) rt else rt)\<rparr>,
                add_running d 1 rt)))"

text \<open>
  The end of the KV window. \<open>rnd\<close> is the rounding of a real number to a float; \<open>1e-5\<close> is the
  float nearest to it; \<open>int()\<close> truncates.
\<close>

definition truncate_rat :: "rat \<Rightarrow> int" where
  "truncate_rat x = (if x < 0 then - \<lfloor>- x\<rfloor> else \<lfloor>x\<rfloor>)"

definition eps_float :: rat where
  "eps_float = 5902958103587057 / 590295810358705651712"

definition kv_window_end :: "(rat \<Rightarrow> rat) \<Rightarrow> rat \<Rightarrow> nat \<Rightarrow> int" where
  "kv_window_end rnd factor len =
     (if \<bar>factor\<bar> < eps_float then - 1
      else truncate_rat (rnd (rnd (1 - factor) * of_nat len)))"

definition absolute_end :: "nat \<Rightarrow> int \<Rightarrow> int" where
  "absolute_end len k = (if k < 0 then int len + k else k)"

definition prompt_length :: "completion_prompt \<Rightarrow> nat" where
  "prompt_length p = (case p of PromptText s \<Rightarrow> length s | PromptIds ids \<Rightarrow> length ids)"

text \<open>
  The second step of the disaggregated handler: the prefill server is asked to compute and send
  what the decode server has not matched; nothing is sent when the window is empty. The
  request model takes the metadata as a string only.
\<close>

definition transfer_kv ::
    "post_fn \<Rightarrow> completion_request \<Rightarrow> router \<Rightarrow> nat \<Rightarrow> json \<Rightarrow> int \<Rightarrow> int \<Rightarrow> micro_request list \<times> unit res" where
  "transfer_kv post q rt d md matched end_pos =
     (if matched < end_pos then
        (case md of
           JStr md \<Rightarrow>
             ([RemoteSend q matched end_pos md (rt_device_id_starts rt ! d)],
              send_remote_send post (rt_server_urls rt ! 0) q matched end_pos md
                (rt_device_id_starts rt ! d))
         | _ \<Rightarrow> ([], Inl (ValidationError [BadFieldType ''kv_addr_info''])))
      else ([], Inr ()))"

text \<open>
  The body of the disaggregated handler: the requests it sends and what it yields.
  \<open>prefix_matched_length\<close> is an integer in the servers' replies; any other JSON value stands for
  a type error of the comparison.
\<close>

definition disagg_body ::
    "post_fn \<Rightarrow> (string \<Rightarrow> completion_response res) \<Rightarrow> (json \<Rightarrow> completion_response res) \<Rightarrow>
     (rat \<Rightarrow> rat) \<Rightarrow> completion_request \<Rightarrow> router \<Rightarrow> nat \<Rightarrow>
     micro_request list \<times> completion_response option gen" where
  "disagg_body post decode validate rnd q rt d =
     (let url = rt_server_urls rt ! d; len = prompt_length (cr_prompt q);
          k = kv_window_end rnd (rt_pd_balance_factor rt) len;
          end_pos = absolute_end len k;
          r1 = PrepRecv q k in
      case send_prepare_receive post url q k of
        Inl e \<Rightarrow> ([r1], ([], Raised e))
      | Inr (md, matched) \<Rightarrow>
          (case matched of
             JInt matched \<Rightarrow>
               if \<not> matched \<le> end_pos then ([r1], ([], Raised AssertionError))
               else
                 (case transfer_kv post q rt d md matched end_pos of
                    (r2, Inl e) \<Rightarrow> (r1 # r2, ([], Raised e))
                  | (r2, Inr _) \<Rightarrow>
                      (case send_start_generate post decode validate url q end_pos of
                         (ys, en) \<Rightarrow>
                           (r1 # r2 @ [StartGenerate q end_pos],
                            (concat (map mark_preempt ys), en))))
           | _ \<Rightarrow> ([r1], ([], Raised TypeError))))"

text \<open>\<open>except Exception\<close> does not catch the exceptions that end a task or a generator.\<close>

definition is_exception :: "py_error \<Rightarrow> bool" where
  "is_exception e \<longleftrightarrow> e \<notin> {GeneratorExit, CancelledError, SystemExit}"

definition handle_disagg ::
    "post_fn \<Rightarrow> (string \<Rightarrow> completion_response res) \<Rightarrow> (json \<Rightarrow> completion_response res) \<Rightarrow>
     (rat \<Rightarrow> rat) \<Rightarrow> completion_request \<Rightarrow> string \<Rightarrow> router \<Rightarrow> handler_run \<times> router" where
  "handle_disagg post decode validate rnd q request_id rt =
     (let q = q\<lparr>cr_user := Some request_id\<rparr> in
      case pick_endpoint (rt_num_running_requests rt) [1..<rt_num_servers rt] of
        Inl e \<Rightarrow> (failed_run e, rt)
      | Inr d \<Rightarrow>
          (case snd (disagg_body post decode validate rnd q rt d) of
             (vs, en) \<Rightarrow>
               (\<lparr>hr_endpoint = Some d, hr_values = vs, hr_end = en,
                 hr_exit = (\<lambda>en rt. case en of
                     Returned \<Rightarrow> add_running d (- 1) rt
                   | Raised e \<Rightarrow> if is_exception e then add_running d (- 1) rt else rt
                   | Blocked \<Rightarrow> rt)\<rparr>,
                add_running d 1 rt)))"

definition translate_request ::
    "post_fn \<Rightarrow> (string \<Rightarrow> completion_response res) \<Rightarrow> (json \<Rightarrow> completion_response res) \<Rightarrow>
     (rat \<Rightarrow> rat) \<Rightarrow> completion_request \<Rightarrow> string \<Rightarrow> router \<Rightarrow> handler_run \<times> router" where
  "translate_request post decode validate rnd q request_id rt =
     (if rt_mode rt = ''disagg'' then handle_disagg post decode validate rnd q request_id rt
      else if rt_mode rt = ''round-robin'' then handle_round_robin post decode validate q rt
      else (failed_run (ValueError ''Cannot reach here''), rt))"

text \<open>
  The retry loop of \<open>handle_completion\<close>: a \<open>None\<close> ends the attempt, whose generator is closed, and
  starts another one. Each attempt sees its own behaviour of the servers; when the list of
  attempts is exhausted the run is not finished.
\<close>

fun completion_attempts ::
    "post_fn list \<Rightarrow> (string \<Rightarrow> completion_response res) \<Rightarrow> (json \<Rightarrow> completion_response res) \<Rightarrow>
     (rat \<Rightarrow> rat) \<Rightarrow> completion_request \<Rightarrow> string \<Rightarrow> router \<Rightarrow> completion_response gen \<times> router" where
  "completion_attempts [] decode validate rnd q request_id rt = (([], Blocked), rt)"
| "completion_attempts (post # posts) decode validate rnd q request_id rt =
     (case translate_request post decode validate rnd q request_id rt of
        (run, rt) \<Rightarrow>
          (let vs = map the (takeWhile (\<lambda>v. v \<noteq> None) (hr_values run)) in
           if None \<in> set (hr_values run)
           then (case completion_attempts posts decode validate rnd q request_id
                        (hr_exit run (Raised GeneratorExit) rt) of
                   ((ys, en), rt') \<Rightarrow> ((vs @ ys, en), rt'))
           else ((vs, hr_end run), hr_exit run (hr_end run) rt)))"

definition router_handle_completion ::
    "(string \<Rightarrow> int list) \<Rightarrow> post_fn list \<Rightarrow> (string \<Rightarrow> completion_response res) \<Rightarrow>
     (json \<Rightarrow> completion_response res) \<Rightarrow> (rat \<Rightarrow> rat) \<Rightarrow> completion_request \<Rightarrow> string \<Rightarrow> router \<Rightarrow>
     completion_response gen \<times> router" where
  "router_handle_completion encode posts decode validate rnd q request_id rt =
     (let q = (case cr_prompt q of
                 PromptText s \<Rightarrow> q\<lparr>cr_prompt := PromptIds (encode s)\<rparr> | PromptIds _ \<Rightarrow> q);
          q = (if cr_debug_config q = None then q\<lparr>cr_debug_config := Some default_debug_config\<rparr>
               else q) in
      completion_attempts posts decode validate rnd q request_id rt)"

end
