(* ===== verification/Router_Correct.thy ===== *)
theory Router_Correct
  imports Router
begin

text \<open>
  Properties of the router: the endpoint it picks, the device ranges, the KV windows of a
  disaggregated request, the round trip of an event stream from the server to the router, and
  what the load counters mean when requests overlap, fail, are preempted or closed.
\<close>

section \<open>The least loaded endpoint\<close>

text \<open>The first of the least loaded candidates, below a bound.\<close>

definition first_least :: "int list \<Rightarrow> nat list \<Rightarrow> nat \<Rightarrow> int \<Rightarrow> bool" where
  "first_least running cs d m \<longleftrightarrow>
     (\<exists>pre post. cs = pre @ d # post \<and> running ! d < m \<and> (\<forall>c \<in> set pre. running ! d < running ! c) \<and>
        (\<forall>c \<in> set post. running ! d \<le> running ! c))"

lemma first_least_here:
  "running ! c < m \<Longrightarrow> (\<And>d. d \<in> set cs \<Longrightarrow> running ! c \<le> running ! d) \<Longrightarrow>
     first_least running (c # cs) c m"
  unfolding first_least_def by (intro exI [of _ "[]"] exI [of _ cs]) auto

lemma first_least_Cons:
  assumes "first_least running cs d b" "running ! d < running ! c" "running ! d < m"
  shows "first_least running (c # cs) d m"
proof -
  obtain pre post where "cs = pre @ d # post" "\<forall>c \<in> set pre. running ! d < running ! c"
    "\<forall>c \<in> set post. running ! d \<le> running ! c" using assms(1) by (auto simp: first_least_def)
  then show ?thesis using assms(2,3) unfolding first_least_def
    by (intro exI [of _ "c # pre"] exI [of _ post]) auto
qed

lemma first_least_less: "first_least running cs d m \<Longrightarrow> running ! d < m"
  by (auto simp: first_least_def)

lemma pick_loop_least:
  assumes "\<And>c. c \<in> set cs \<Longrightarrow> c < length running"
  shows "\<exists>r. pick_loop running cs best m = Inr r \<and>
     ((r = best \<and> (\<forall>c \<in> set cs. m \<le> running ! c)) \<or> (\<exists>d. r = Some d \<and> first_least running cs d m))"
  using assms
proof (induction cs arbitrary: best m)
  case Nil
  then show ?case by simp
next
  case (Cons c cs)
  have c: "c < length running" using Cons.prems by simp
  show ?case
  proof (cases "running ! c < m")
    case True
    obtain r where r: "pick_loop running cs (Some c) (running ! c) = Inr r"
      and res: "(r = Some c \<and> (\<forall>d \<in> set cs. running ! c \<le> running ! d)) \<or>
        (\<exists>d. r = Some d \<and> first_least running cs d (running ! c))"
      using Cons.IH [of "Some c" "running ! c"] Cons.prems by auto
    from res have "\<exists>d. r = Some d \<and> first_least running (c # cs) d m"
    proof (elim disjE exE conjE)
      fix d assume "r = Some d" "first_least running cs d (running ! c)"
      then show ?thesis using True first_least_less first_least_Cons by (metis order.strict_trans)
    qed (use True first_least_here in blast)
    then show ?thesis using r True c by simp
  next
    case False
    obtain r where r: "pick_loop running cs best m = Inr r"
      and res: "(r = best \<and> (\<forall>d \<in> set cs. m \<le> running ! d)) \<or> (\<exists>d. r = Some d \<and> first_least running cs d m)"
      using Cons.IH [of best m] Cons.prems by auto
    have "first_least running (c # cs) d m" if "first_least running cs d m" for d
      using that first_least_less [OF that] False by (intro first_least_Cons [OF that]) auto
    then show ?thesis using r res False c by auto
  qed
qed

text \<open>
  \<open>_pick_endpoint\<close> returns the first of the least loaded candidates; it fails only when there is
  no candidate with fewer than a billion running requests.
\<close>

theorem pick_endpoint_least:
  assumes "\<And>c. c \<in> set cs \<Longrightarrow> c < length running"
  shows "case pick_endpoint running cs of
       Inr d \<Rightarrow> d \<in> set cs \<and> (\<forall>c \<in> set cs. running ! d \<le> running ! c) \<and>
         (\<exists>pre post. cs = pre @ d # post \<and> (\<forall>c \<in> set pre. running ! d < running ! c))
     | Inl e \<Rightarrow> e = AssertionError \<and> (\<forall>c \<in> set cs. 1000000000 \<le> running ! c)"
proof -
  obtain r where r: "pick_loop running cs None 1000000000 = Inr r"
    and res: "(r = None \<and> (\<forall>c \<in> set cs. 1000000000 \<le> running ! c)) \<or>
      (\<exists>d. r = Some d \<and> first_least running cs d 1000000000)"
    using pick_loop_least [of cs running None 1000000000] assms by auto
  show ?thesis
  proof (cases r)
    case None
    then show ?thesis using r res by (simp add: pick_endpoint_def)
  next
    case (Some d)
    then obtain pre post where d: "cs = pre @ d # post" "\<forall>c \<in> set pre. running ! d < running ! c"
      "\<forall>c \<in> set post. running ! d \<le> running ! c" using res by (auto simp: first_least_def)
    have "running ! d \<le> running ! c" if "c \<in> set cs" for c using that d by (auto simp: less_imp_le)
    then show ?thesis using r Some d by (auto simp: pick_endpoint_def)
  qed
qed

theorem pick_endpoint_least_witness:
  "pick_endpoint [5, 2, 3, 2] [1..<4] = Inr 1 \<and>
   (case pick_endpoint [5, 2, 3, 2] [1..<4] of
       Inr d \<Rightarrow> d \<in> set [1..<4] \<and> (\<forall>c \<in> set [1..<4]. [5, 2, 3, 2 :: int] ! d \<le> [5, 2, 3, 2] ! c)
     | Inl e \<Rightarrow> False)"
proof -
  have "pick_endpoint [5, 2, 3, 2] [1..<4] = Inr 1"
    by (simp add: pick_endpoint_def upt_conv_Cons)
  then show ?thesis using pick_endpoint_least [of "[1..<4]" "[5, 2, 3, 2]"] by simp
qed

section \<open>Device ranges\<close>

lemma device_starts_snoc:
  "foldl (\<lambda>starts g. starts @ [last starts + g]) (pre @ [x]) gs =
     pre @ map (\<lambda>i. x + sum_list (take i gs)) [0..<Suc (length gs)]"
proof (induction gs arbitrary: pre x)
  case Nil
  then show ?case by simp
next
  case (Cons g gs)
  have upt: "[0..<Suc (length (g # gs))] = 0 # map Suc [0..<Suc (length gs)]"
    by (simp add: map_Suc_upt upt_conv_Cons del: upt_Suc)
  show ?case using Cons.IH [of "pre @ [x]" "x + g"]
    by (simp only: upt foldl.simps last_snoc append_assoc) (simp add: comp_def ac_simps del: upt_Suc)
qed

lemma sum_list_take_mono:
  fixes xs :: "int list"
  assumes "\<forall>x \<in> set xs. 0 \<le> x" "i \<le> j"
  shows "sum_list (take i xs) \<le> sum_list (take j xs)"
proof -
  have "take j xs = take i xs @ take (j - i) (drop i xs)"
    using take_add [of i "j - i" xs] assms(2) by simp
  moreover have "0 \<le> sum_list (take (j - i) (drop i xs))"
    using assms(1) by (intro sum_list_nonneg) (auto dest: in_set_takeD in_set_dropD)
  ultimately show ?thesis by simp
qed

text \<open>
  The router gives the servers consecutive device ranges: server \<open>i\<close> starts after the devices
  of the servers before it and ends where the next one starts, so that the worker ranks two
  servers are launched with never overlap, and every server is told the number of all devices
  as the size of the world.
\<close>

theorem device_ranges:
  assumes "router_init (Some hosts) (Some ports) (Some gpus) mode f = Inr rt"
  shows "length (rt_device_id_starts rt) = Suc (rt_num_servers rt) \<and>
     (\<forall>i \<le> rt_num_servers rt. rt_device_id_starts rt ! i = sum_list (take i gpus)) \<and>
     (\<forall>i < rt_num_servers rt. rt_device_id_starts rt ! Suc i = rt_device_id_starts rt ! i + gpus ! i) \<and>
     length (rt_server_urls rt) = rt_num_servers rt \<and>
     rt_num_running_requests rt = replicate (rt_num_servers rt) 0 \<and>
     (\<forall>i < rt_num_servers rt. sl_npes (start_server hosts ports pc rt i) = sum_list gpus) \<and>
     ((\<forall>g \<in> set gpus. 0 \<le> g) \<longrightarrow> (\<forall>i j. i < j \<longrightarrow> j < rt_num_servers rt \<longrightarrow>
        sl_pe_start (start_server hosts ports pc rt i) + gpus ! i \<le> sl_pe_start (start_server hosts ports pc rt j)))"
proof -
  have rt: "rt_device_id_starts rt = device_id_starts gpus" "rt_num_servers rt = length gpus"
    "length (rt_server_urls rt) = length gpus" "rt_num_running_requests rt = replicate (length gpus) 0"
    using assms by (auto simp: router_init_def Let_def split: if_splits)
  have starts: "device_id_starts gpus = map (\<lambda>i. sum_list (take i gpus)) [0..<Suc (length gpus)]"
    using device_starts_snoc [of "[]" 0 gpus] by (simp add: device_id_starts_def)
  have nth: "device_id_starts gpus ! i = sum_list (take i gpus)" if "i \<le> length gpus" for i
    using that unfolding starts by (simp del: upt_Suc)
  have "sum_list (take (Suc i) gpus) = sum_list (take i gpus) + gpus ! i" if "i < length gpus" for i
    using that by (simp add: take_Suc_conv_app_nth)
  moreover have "last (rt_device_id_starts rt) = sum_list gpus"
    unfolding rt starts by simp
  moreover have "sum_list (take i gpus) + gpus ! i \<le> sum_list (take j gpus)"
    if "\<forall>g \<in> set gpus. 0 \<le> g" "i < j" "j < length gpus" for i j
    using sum_list_take_mono [of gpus "Suc i" j] that by (simp add: take_Suc_conv_app_nth)
  ultimately show ?thesis using rt nth starts by (simp add: start_server_def del: upt_Suc)
qed

theorem device_ranges_witness:
  "\<exists>rt. router_init (Some [''a'', ''b'']) (Some [1, 2]) (Some [4, 8]) ''disagg'' 0 = Inr rt \<and>
     rt_device_id_starts rt ! 1 = 4 \<and> rt_device_id_starts rt ! 2 = 12"
proof -
  obtain rt where rt: "router_init (Some [''a'', ''b'']) (Some [1, 2]) (Some [4, 8]) ''disagg'' 0 = Inr rt"
    "rt_num_servers rt = 2"
    by (simp add: router_init_def)
  then show ?thesis using device_ranges [OF rt(1)] by (auto simp: numeral_2_eq_2)
qed

section \<open>KV windows\<close>

lemma truncate_bounds: "0 \<le> x \<Longrightarrow> x \<le> of_nat n \<Longrightarrow> 0 \<le> truncate_rat x \<and> truncate_rat x \<le> int n"
proof -
  assume x: "0 \<le> x" "x \<le> of_nat n"
  then have "\<lfloor>x\<rfloor> \<le> \<lfloor>of_nat n :: rat\<rfloor>" by (intro floor_mono)
  then show ?thesis using x by (simp add: truncate_rat_def)
qed

lemma kv_window_end_bounds:
  assumes rnd: "mono rnd" "rnd 0 = 0" "rnd 1 = 1" "rnd (of_nat len) = of_nat len"
    and f: "0 \<le> f" "f \<le> 1" and len: "0 < len"
  shows "0 \<le> absolute_end len (kv_window_end rnd f len) \<and>
     absolute_end len (kv_window_end rnd f len) \<le> int len"
proof (cases "\<bar>f\<bar> < eps_float")
  case True
  then show ?thesis using len by (simp add: kv_window_end_def absolute_end_def)
next
  case False
  have "rnd 0 \<le> rnd (1 - f)" "rnd (1 - f) \<le> rnd 1" using f rnd(1) by (auto intro: monoD)
  then have r: "0 \<le> rnd (1 - f)" "rnd (1 - f) \<le> 1" using rnd(2,3) by simp_all
  then have "0 \<le> rnd (1 - f) * of_nat len" "rnd (1 - f) * of_nat len \<le> of_nat len"
    by (simp_all add: mult_left_le_one_le)
  then have "rnd 0 \<le> rnd (rnd (1 - f) * of_nat len)" "rnd (rnd (1 - f) * of_nat len) \<le> rnd (of_nat len)"
    using rnd(1) by (auto intro: monoD)
  then have "0 \<le> rnd (rnd (1 - f) * of_nat len)" "rnd (rnd (1 - f) * of_nat len) \<le> of_nat len"
    using rnd(2,4) by simp_all
  from truncate_bounds [OF this] show ?thesis using False
    by (simp add: kv_window_end_def absolute_end_def)
qed

text \<open>
  C24: the KV windows of a disaggregated request. When the router gets to start the
  generation, the part of the prompt it asked the prefill server to compute and send begins
  where the decode server's prefix match ends, is skipped when it is empty, and ends where the
  decode server is told to begin; that position lies within the prompt. So the matched
  prefix, the sent window and the local window cover the prompt without gap or overlap. The
  rounding of floats need only be monotone and exact on 0, 1 and the prompt length.
\<close>

theorem disagg_windows:
  assumes rnd: "mono rnd" "rnd 0 = 0" "rnd 1 = 1"
      "rnd (of_nat (prompt_length (cr_prompt q))) = of_nat (prompt_length (cr_prompt q))"
    and factor: "0 \<le> rt_pd_balance_factor rt" "rt_pd_balance_factor rt \<le> 1"
    and prompt: "0 < prompt_length (cr_prompt q)"
    and run: "disagg_body post decode validate rnd q rt d = (reqs, g)" "StartGenerate q b \<in> set reqs"
  shows "\<exists>k matched md.
     reqs = PrepRecv q k # (if matched < b then [RemoteSend q matched b md (rt_device_id_starts rt ! d)]
       else []) @ [StartGenerate q b] \<and>
     (\<exists>j. send_prepare_receive post (rt_server_urls rt ! d) q k = Inr (j, JInt matched) \<and>
       (matched < b \<longrightarrow> j = JStr md)) \<and>
     absolute_end (prompt_length (cr_prompt q)) k = b \<and>
     matched \<le> b \<and> 0 \<le> b \<and> b \<le> int (prompt_length (cr_prompt q))"
proof -
  let ?len = "prompt_length (cr_prompt q)"
  let ?k = "kv_window_end rnd (rt_pd_balance_factor rt) ?len"
  obtain j matched where prep: "send_prepare_receive post (rt_server_urls rt ! d) q ?k = Inr (j, JInt matched)"
    using run by (auto simp: disagg_body_def Let_def split: sum.splits json.splits)
  obtain r2 where r2: "transfer_kv post q rt d j matched (absolute_end ?len ?k) = (r2, Inr ())"
    and le: "matched \<le> absolute_end ?len ?k"
    and reqs: "reqs = PrepRecv q ?k # r2 @ [StartGenerate q (absolute_end ?len ?k)]"
    using run prep
    by (auto simp: disagg_body_def Let_def transfer_kv_def
        split: sum.splits if_splits prod.splits json.splits)
  have b: "b = absolute_end ?len ?k"
    using run(2) r2 unfolding reqs by (auto simp: transfer_kv_def split: if_splits json.splits)
  obtain md where "r2 = (if matched < b then [RemoteSend q matched b md (rt_device_id_starts rt ! d)] else [])"
    "matched < b \<longrightarrow> j = JStr md"
    using r2 unfolding b by (auto simp: transfer_kv_def split: if_splits json.splits)
  moreover have "0 \<le> b \<and> b \<le> int ?len"
    unfolding b by (rule kv_window_end_bounds [OF rnd factor prompt])
  ultimately show ?thesis using prep b le reqs by auto
qed

definition demo_router :: router where
  "demo_router =
     \<lparr>rt_mode = ''disagg'', rt_pd_balance_factor = 1 / 2, rt_num_servers = 2,
      rt_server_urls = [''p'', ''d''], rt_num_running_requests = [0, 0],
      rt_device_id_starts = [0, 1, 2]\<rparr>"

definition demo_post :: post_fn where
  "demo_post url r =
     (case r of
        PrepRecv _ _ \<Rightarrow> \<lparr>hp_status = 200, hp_lines = ([], Returned),
          hp_json = Inr (JObj [(''kv_append_metadata'', JStr ''kv''), (''prefix_matched_length'', JInt 1)])\<rparr>
      | _ \<Rightarrow> \<lparr>hp_status = 200, hp_lines = ([], Returned), hp_json = Inr (JObj [])\<rparr>)"

definition demo_prompt :: completion_request where
  "demo_prompt = default_completion_request (PromptIds [1, 2, 3, 4])"

theorem disagg_windows_witness:
  "\<exists>reqs g. disagg_body demo_post (\<lambda>_. Inl TypeError) (\<lambda>_. Inl TypeError) (\<lambda>x. x) demo_prompt
       demo_router 1 = (reqs, g) \<and>
     reqs = [PrepRecv demo_prompt 2, RemoteSend demo_prompt 1 2 ''kv'' 1, StartGenerate demo_prompt 2]"
proof -
  obtain reqs g where run: "disagg_body demo_post (\<lambda>_. Inl TypeError) (\<lambda>_. Inl TypeError) (\<lambda>x. x)
      demo_prompt demo_router 1 = (reqs, g)" "StartGenerate demo_prompt 2 \<in> set reqs"
    by (simp add: disagg_body_def demo_post_def demo_router_def demo_prompt_def Let_def
        default_completion_request_def prompt_length_def kv_window_end_def eps_float_def truncate_rat_def
        send_prepare_receive_def send_remote_send_def send_start_generate_def read_completions_def
        absolute_end_def transfer_kv_def json_item_def dict_item_def)
  have len: "prompt_length (cr_prompt demo_prompt) = 4"
    by (simp add: demo_prompt_def default_completion_request_def prompt_length_def)
  have k: "kv_window_end (\<lambda>x. x) (1 / 2) 4 = 2"
    by (simp add: kv_window_end_def eps_float_def truncate_rat_def)
  obtain k matched md where spec: "reqs = PrepRecv demo_prompt k # (if matched < 2
      then [RemoteSend demo_prompt matched 2 md (rt_device_id_starts demo_router ! 1)] else []) @
      [StartGenerate demo_prompt 2]"
    "\<exists>j. send_prepare_receive demo_post (rt_server_urls demo_router ! 1) demo_prompt k =
      Inr (j, JInt matched) \<and> (matched < 2 \<longrightarrow> j = JStr md)"
    using disagg_windows [OF _ _ _ _ _ _ _ run] len
    by (auto simp: demo_router_def mono_def)
  have "matched = 1" "md = ''kv''"
    using spec(2) by (auto simp: send_prepare_receive_def demo_post_def json_item_def dict_item_def)
  moreover have "PrepRecv demo_prompt 2 \<in> set reqs"
    using run(1) len k by (auto simp: disagg_body_def demo_router_def Let_def split: sum.splits prod.splits json.splits if_splits)
  ultimately show ?thesis using run(1) spec(1) by (simp add: demo_router_def)
qed

section \<open>Event streams\<close>

text \<open>The lines of a body, each with its line end, as an HTTP client iterates over them.\<close>

fun lines_of :: "string \<Rightarrow> string list" where
  "lines_of [] = []"
| "lines_of (c # cs) =
     (if c = CHR 0x0A then [c] # lines_of cs
      else case lines_of cs of [] \<Rightarrow> [[c]] | l # ls \<Rightarrow> (c # l) # ls)"

lemma lines_of_line:
  "CHR 0x0A \<notin> set p \<Longrightarrow> lines_of (p @ CHR 0x0A # rest) = (p @ [CHR 0x0A]) # lines_of rest"
  by (induction p) auto

text \<open>A JSON text: not empty, without line ends and without white space at its ends.\<close>

definition json_text :: "string \<Rightarrow> bool" where
  "json_text p \<longleftrightarrow> p \<noteq> [] \<and> CHR 0x0A \<notin> set p \<and> \<not> is_space (hd p) \<and> \<not> is_space (last p)"

lemma dropWhile_hd: "\<not> P (hd p) \<Longrightarrow> dropWhile P p = p"
  by (cases p) auto

lemma strip_json: "json_text p \<Longrightarrow> str_strip p = p"
  by (simp add: json_text_def str_strip_def dropWhile_hd hd_rev)

lemma strip_line:
  assumes "json_text p"
  shows "str_strip (''data: '' @ p @ [CHR 0x0A]) = ''data: '' @ p"
proof -
  obtain q c where p: "p = q @ [c]" "\<not> is_space c"
    using assms by (cases p rule: rev_cases) (auto simp: json_text_def)
  show ?thesis unfolding str_strip_def p(1) using p(2) by (simp add: is_space_def)
qed

lemma lines_of_sse:
  assumes "json_text p"
  shows "lines_of (sse p @ rest) = (''data: '' @ p @ [CHR 0x0A]) # [CHR 0x0A] # lines_of rest"
proof -
  have "CHR 0x0A \<notin> set (''data: '' @ p)" using assms by (auto simp: json_text_def)
  from lines_of_line [OF this, of "CHR 0x0A # rest"] show ?thesis by (simp add: sse_def)
qed

lemma sse_payload_line:
  assumes "json_text p" "p \<noteq> ''[DONE]''"
  shows "sse_payload (''data: '' @ p @ [CHR 0x0A]) = Some p"
proof -
  have "str_strip (drop 6 (''data: '' @ p)) = p" using strip_json [OF assms(1)] by simp
  then show ?thesis using strip_line [OF assms(1)] assms(2)
    by (simp add: sse_payload_def Let_def)
qed

lemma sse_payload_skipped: "sse_payload [CHR 0x0A] = None" "sse_payload (''data: [DONE]'' @ [CHR 0x0A]) = None"
  by (simp_all add: sse_payload_def str_strip_def is_space_def)

text \<open>
  C25: what the server streams, the router reads back. The body of the server's event stream for a
  run of the engine that returned, cut into lines, decodes at the router to exactly the
  responses of the run, in order, provided that the JSON text of a response has no raw line
  end and is decoded to the response.
\<close>

theorem event_stream_roundtrip:
  assumes "\<And>r. r \<in> set ys \<Longrightarrow> json_text (dump r) \<and> dump r \<noteq> ''[DONE]'' \<and> decode (dump r) = Inr r"
    and "stream_reply dump (ys, Returned) = Some (Inr (EventStream (texts, Returned) :: completion_response reply))"
  shows "decode_lines decode (lines_of (concat texts)) Returned = (ys, Returned)"
proof -
  have texts: "texts = map (\<lambda>r. sse (dump r)) ys @ [sse_done]"
    using assms(2) by (auto simp: stream_reply_def split: list.splits)
  have "decode_lines decode (lines_of (concat (map (\<lambda>r. sse (dump r)) ys) @ sse_done)) Returned =
      (ys, Returned)"
    using assms(1)
  proof (induction ys)
    case Nil
    have "lines_of sse_done = [''data: [DONE]'' @ [CHR 0x0A], [CHR 0x0A]]"
      using lines_of_sse [of "''[DONE]''" "[]"] by (simp add: sse_done_def json_text_def is_space_def)
    then show ?case using sse_payload_skipped by simp
  next
    case (Cons r ys)
    then have "decode_lines decode (lines_of (concat (map (\<lambda>r. sse (dump r)) ys) @ sse_done)) Returned =
        (ys, Returned)" by simp
    moreover have "json_text (dump r)" "dump r \<noteq> ''[DONE]''" "decode (dump r) = Inr r"
      using Cons.prems by auto
    ultimately show ?case
      by (simp add: lines_of_sse sse_payload_line sse_payload_skipped del: append_Cons)
  qed
  then show ?thesis unfolding texts by simp
qed

definition demo_response :: completion_response where
  "demo_response = \<lparr>crs_id = ''i'', crs_choices = [], crs_model = None, crs_usage = None\<rparr>"

theorem event_stream_roundtrip_witness:
  "\<exists>texts. stream_reply (\<lambda>_. ''{}'') ([demo_response], Returned) =
       Some (Inr (EventStream (texts, Returned) :: completion_response reply)) \<and>
     decode_lines (\<lambda>_. Inr demo_response) (lines_of (concat texts)) Returned = ([demo_response], Returned)"
proof -
  obtain texts where t: "stream_reply (\<lambda>_. ''{}'') ([demo_response], Returned) =
       Some (Inr (EventStream (texts, Returned) :: completion_response reply))"
    by (simp add: stream_reply_def)
  have "decode_lines (\<lambda>_. Inr demo_response) (lines_of (concat texts)) Returned = ([demo_response], Returned)"
    by (rule event_stream_roundtrip [OF _ t]) (auto simp: json_text_def is_space_def)
  then show ?thesis using t by blast
qed

section \<open>Load counters\<close>

text \<open>
  Requests in flight at a router, in any interleaving. A step enters a handler
  (\<open>translate_request\<close>, on the router as it is, with any request and any behaviour of the servers), lets
  the body of a handler in flight come to its end, or closes or cancels one that is suspended; the
  last two apply what that handler does on its exit to the router as it is then. A retry
  after a preemption is a step of the last kind and one of the first. \<open>rs_over\<close> remembers the endpoint and
  the end of every handler that is over.
\<close>

record router_sys =
  rs_router :: router
  rs_live :: "handler_run list"
  rs_over :: "(nat option \<times> gen_end) list"

definition exit_run :: "nat \<Rightarrow> gen_end \<Rightarrow> router_sys \<Rightarrow> router_sys" where
  "exit_run i en S =
     (let run = rs_live S ! i in
      S\<lparr>rs_router := hr_exit run en (rs_router S),
        rs_live := take i (rs_live S) @ drop (Suc i) (rs_live S),
        rs_over := (hr_endpoint run, en) # rs_over S\<rparr>)"

inductive router_step :: "router_sys \<Rightarrow> router_sys \<Rightarrow> bool" where
  dispatch: "translate_request post decode validate rnd q rid (rs_router S) = (run, rt) \<Longrightarrow>
     router_step S (S\<lparr>rs_router := rt, rs_live := run # rs_live S\<rparr>)"
| finish: "i < length (rs_live S) \<Longrightarrow> hr_end (rs_live S ! i) \<noteq> Blocked \<Longrightarrow>
     router_step S (exit_run i (hr_end (rs_live S ! i)) S)"
| leave: "i < length (rs_live S) \<Longrightarrow> e = GeneratorExit \<or> e = CancelledError \<Longrightarrow>
     router_step S (exit_run i (Raised e) S)"

inductive router_reachable :: "router_sys \<Rightarrow> bool" where
  start: "router_init hosts ports num_gpus mode factor = Inr rt \<Longrightarrow>
     router_reachable \<lparr>rs_router = rt, rs_live = [], rs_over = []\<rparr>"
| step: "router_reachable S \<Longrightarrow> router_step S T \<Longrightarrow> router_reachable T"

text \<open>The specification: which exits release an endpoint, and the two counts of an endpoint.\<close>

definition releases :: "string \<Rightarrow> gen_end \<Rightarrow> bool" where
  "releases mode en \<longleftrightarrow>
     en = Returned \<or> (mode = ''disagg'' \<and> (\<exists>e. en = Raised e \<and> is_exception e))"

definition in_flight :: "router_sys \<Rightarrow> nat \<Rightarrow> nat" where
  "in_flight S i = length (filter (\<lambda>run. hr_endpoint run = Some i) (rs_live S))"

definition leaked :: "router_sys \<Rightarrow> nat \<Rightarrow> nat" where
  "leaked S i = length (filter (\<lambda>(d, en). d = Some i \<and> \<not> releases (rt_mode (rs_router S)) en) (rs_over S))"

definition candidates :: "router \<Rightarrow> nat list" where
  "candidates rt = [(if rt_mode rt = ''disagg'' then 1 else 0)..<rt_num_servers rt]"

definition router_ok :: "router \<Rightarrow> bool" where
  "router_ok rt \<longleftrightarrow> length (rt_num_running_requests rt) = rt_num_servers rt"

definition run_ok :: "router \<Rightarrow> handler_run \<Rightarrow> bool" where
  "run_ok rt run \<longleftrightarrow>
     (case hr_endpoint run of
        None \<Rightarrow> (\<forall>en rt'. hr_exit run en rt' = rt')
      | Some d \<Rightarrow> d < rt_num_servers rt \<and>
          (\<forall>en rt'. hr_exit run en rt' = (if releases (rt_mode rt) en then add_running d (- 1) rt' else rt')))"

definition load_inv :: "router_sys \<Rightarrow> bool" where
  "load_inv S \<longleftrightarrow> router_ok (rs_router S) \<and> (\<forall>run \<in> set (rs_live S). run_ok (rs_router S) run) \<and>
     (\<forall>i < rt_num_servers (rs_router S).
        rt_num_running_requests (rs_router S) ! i = int (in_flight S i) + int (leaked S i))"

lemma run_ok_cong:
  "rt_mode rt' = rt_mode rt \<Longrightarrow> rt_num_servers rt' = rt_num_servers rt \<Longrightarrow> run_ok rt' run = run_ok rt run"
  by (cases "hr_endpoint run") (simp_all add: run_ok_def)

lemma add_running_frame [simp]:
  "rt_mode (add_running d k rt) = rt_mode rt" "rt_num_servers (add_running d k rt) = rt_num_servers rt"
  "length (rt_num_running_requests (add_running d k rt)) = length (rt_num_running_requests rt)"
  by (simp_all add: add_running_def)

lemma add_running_nth:
  "i < length (rt_num_running_requests rt) \<Longrightarrow>
     rt_num_running_requests (add_running d k rt) ! i =
       rt_num_running_requests rt ! i + (if i = d then k else 0)"
  by (simp add: add_running_def nth_list_update)

lemma pick_endpoint_mem:
  assumes "pick_endpoint running cs = Inr d" "set cs \<subseteq> {0..<length running}"
  shows "d \<in> set cs" "\<And>c. c \<in> set cs \<Longrightarrow> running ! d \<le> running ! c"
proof -
  have "\<exists>r. pick_loop running cs None 1000000000 = Inr r \<and>
     ((r = None \<and> (\<forall>c \<in> set cs. 1000000000 \<le> running ! c)) \<or>
      (\<exists>d. r = Some d \<and> first_least running cs d 1000000000))"
    using assms(2) by (intro pick_loop_least) auto
  then have fl: "first_least running cs d 1000000000" using assms(1) by (auto simp: pick_endpoint_def)
  then show "d \<in> set cs" by (auto simp: first_least_def)
  show "running ! d \<le> running ! c" if "c \<in> set cs" for c
    using fl that by (auto simp: first_least_def less_imp_le)
qed

text \<open>
  What entering a handler does, for both modes: without an endpoint nothing; otherwise the
  picked endpoint is counted, and the exits that release it are those of the mode.
\<close>

lemma translate_request_enter:
  assumes "translate_request post decode validate rnd q rid rt = (run, rt')"
  shows "(hr_endpoint run = None \<and> rt' = rt \<and> (\<forall>en rt'. hr_exit run en rt' = rt') \<and> hr_values run = [] \<and>
       (\<exists>e. hr_end run = Raised e)) \<or>
     (\<exists>d. hr_endpoint run = Some d \<and> rt' = add_running d 1 rt \<and>
       pick_endpoint (rt_num_running_requests rt) (candidates rt) = Inr d \<and>
       (\<forall>en rt'. hr_exit run en rt' = (if releases (rt_mode rt) en then add_running d (- 1) rt' else rt')))"
  using assms
  by (auto simp: translate_request_def handle_disagg_def handle_round_robin_def failed_run_def candidates_def
      releases_def Let_def split: if_splits sum.splits prod.splits gen_end.splits)

lemma translate_request_ok:
  assumes "router_ok rt" and run: "translate_request post decode validate rnd q rid rt = (run, rt')"
  shows "router_ok rt'" "run_ok rt run" "rt_mode rt' = rt_mode rt" "rt_num_servers rt' = rt_num_servers rt"
    "i < rt_num_servers rt \<Longrightarrow> rt_num_running_requests rt' ! i =
       rt_num_running_requests rt ! i + (if hr_endpoint run = Some i then 1 else 0)"
    "hr_endpoint run = Some d \<Longrightarrow> d \<in> set (candidates rt) \<and>
       (\<forall>c \<in> set (candidates rt). rt_num_running_requests rt ! d \<le> rt_num_running_requests rt ! c)"
proof -
  have cands: "set (candidates rt) \<subseteq> {0..<length (rt_num_running_requests rt)}"
    using assms(1) by (auto simp: candidates_def router_ok_def)
  note enter = translate_request_enter [OF run]
  show "router_ok rt'" "rt_mode rt' = rt_mode rt" "rt_num_servers rt' = rt_num_servers rt"
    using enter assms(1) by (auto simp: router_ok_def)
  have less: "d < rt_num_servers rt"
    if "pick_endpoint (rt_num_running_requests rt) (candidates rt) = Inr d" for d
    using pick_endpoint_mem(1) [OF that cands] by (auto simp: candidates_def)
  show "run_ok rt run" using enter less by (auto simp: run_ok_def)
  show "rt_num_running_requests rt' ! i =
       rt_num_running_requests rt ! i + (if hr_endpoint run = Some i then 1 else 0)"
    if "i < rt_num_servers rt"
    using enter assms(1) that by (auto simp: router_ok_def add_running_nth)
  show "d \<in> set (candidates rt) \<and>
       (\<forall>c \<in> set (candidates rt). rt_num_running_requests rt ! d \<le> rt_num_running_requests rt ! c)"
    if "hr_endpoint run = Some d"
    using enter that pick_endpoint_mem [OF _ cands] by auto
qed

lemma exit_run_inv:
  assumes inv: "load_inv S" and i: "i < length (rs_live S)"
  shows "load_inv (exit_run i en S)"
proof -
  let ?run = "rs_live S ! i" and ?rt = "rs_router S"
  let ?T = "exit_run i en S"
  have live: "rs_live S = take i (rs_live S) @ ?run # drop (Suc i) (rs_live S)"
    using i by (simp add: id_take_nth_drop [symmetric])
  have flight: "in_flight S k = in_flight ?T k + (if hr_endpoint ?run = Some k then 1 else 0)" for k
    unfolding in_flight_def by (subst live) (simp add: exit_run_def Let_def)
  have ok: "run_ok ?rt ?run" using inv i by (simp add: load_inv_def)
  have frame: "rt_mode (rs_router ?T) = rt_mode ?rt" "rt_num_servers (rs_router ?T) = rt_num_servers ?rt"
    "router_ok (rs_router ?T)"
    using ok inv by (auto simp: exit_run_def Let_def run_ok_def load_inv_def router_ok_def split: option.splits)
  have runs: "run_ok (rs_router ?T) run" if "run \<in> set (rs_live ?T)" for run
  proof -
    have "run \<in> set (rs_live S)"
      using that by (auto simp: exit_run_def Let_def dest: in_set_takeD in_set_dropD)
    then show ?thesis using inv run_ok_cong [OF frame(1,2)] by (simp add: load_inv_def)
  qed
  have lost: "leaked ?T k = leaked S k +
      (if hr_endpoint ?run = Some k \<and> \<not> releases (rt_mode ?rt) en then 1 else 0)" for k
    using frame(1) by (simp add: leaked_def exit_run_def Let_def)
  have "rt_num_running_requests (rs_router ?T) ! k = int (in_flight ?T k) + int (leaked ?T k)"
    if k: "k < rt_num_servers ?rt" for k
  proof -
    have "rt_num_running_requests (rs_router ?T) ! k = rt_num_running_requests ?rt ! k -
        (if hr_endpoint ?run = Some k \<and> releases (rt_mode ?rt) en then 1 else 0)"
      using ok inv k
      by (auto simp: exit_run_def Let_def run_ok_def load_inv_def router_ok_def add_running_nth
          split: option.splits)
    then show ?thesis using inv k flight [of k] lost [of k] by (auto simp: load_inv_def)
  qed
  then show ?thesis using frame runs by (simp add: load_inv_def)
qed

lemma router_step_inv: "router_step S T \<Longrightarrow> load_inv S \<Longrightarrow> load_inv T"
proof (induction rule: router_step.induct)
  case (dispatch post decode validate rnd q rid S run rt)
  then have ok: "router_ok (rs_router S)" by (simp add: load_inv_def)
  note enter = translate_request_ok [OF ok dispatch(1)]
  have "run_ok rt r" if "r \<in> set (run # rs_live S)" for r
    using that enter(2) dispatch(2) run_ok_cong [OF enter(3,4)] by (auto simp: load_inv_def)
  then show ?case using dispatch(2) enter
    by (auto simp: load_inv_def in_flight_def leaked_def)
qed (blast intro: exit_run_inv)+

lemma router_reachable_inv: "router_reachable S \<Longrightarrow> load_inv S"
proof (induction rule: router_reachable.induct)
  case (start hosts ports num_gpus mode factor rt)
  then show ?case
    by (auto simp: router_init_def Let_def load_inv_def router_ok_def in_flight_def leaked_def split: if_splits)
qed (rule router_step_inv)

text \<open>
  C23: the load counters of the router, under any interleaving of requests, with any behaviour of
  the servers. The counter of an endpoint is the number of its handlers in flight plus the
  number of handlers that were left there without a decrement: in round-robin mode every one
  that did not return, in disaggregated mode every one that was closed or cancelled. It is never
  negative; and while no count leaked, the endpoint a handler picks has the fewest handlers in flight
  among the candidates of the mode.
\<close>

theorem load_counters:
  assumes "router_reachable S"
  shows "(\<forall>i < rt_num_servers (rs_router S).
       rt_num_running_requests (rs_router S) ! i = int (in_flight S i) + int (leaked S i) \<and>
       0 \<le> rt_num_running_requests (rs_router S) ! i) \<and>
     (\<forall>post decode validate rnd q rid run rt d.
       translate_request post decode validate rnd q rid (rs_router S) = (run, rt) \<longrightarrow>
       hr_endpoint run = Some d \<longrightarrow> (\<forall>c < rt_num_servers (rs_router S). leaked S c = 0) \<longrightarrow>
       d \<in> set (candidates (rs_router S)) \<and>
       (\<forall>c \<in> set (candidates (rs_router S)). in_flight S d \<le> in_flight S c))"
proof -
  have inv: "load_inv S" by (rule router_reachable_inv [OF assms])
  then have ok: "router_ok (rs_router S)" and cnt: "\<And>i. i < rt_num_servers (rs_router S) \<Longrightarrow>
      rt_num_running_requests (rs_router S) ! i = int (in_flight S i) + int (leaked S i)"
    by (auto simp: load_inv_def)
  have "d \<in> set (candidates (rs_router S)) \<and>
       (\<forall>c \<in> set (candidates (rs_router S)). in_flight S d \<le> in_flight S c)"
    if "translate_request post decode validate rnd q rid (rs_router S) = (run, rt)" "hr_endpoint run = Some d"
      "\<forall>c < rt_num_servers (rs_router S). leaked S c = 0" for post decode validate rnd q rid run rt d
  proof -
    note least = translate_request_ok(6) [OF ok that(1,2)]
    have load: "rt_num_running_requests (rs_router S) ! c = int (in_flight S c)"
      if "c \<in> set (candidates (rs_router S))" for c
      using that cnt [of c] \<open>\<forall>c < rt_num_servers (rs_router S). leaked S c = 0\<close>
      by (simp add: candidates_def)
    have d: "d \<in> set (candidates (rs_router S))" using least by blast
    show ?thesis using least load [OF d] load by simp
  qed
  then show ?thesis using cnt by auto
qed

text \<open>Two requests in round-robin mode, of which the first is cancelled.\<close>

definition demo_pair :: router where
  "demo_pair =
     \<lparr>rt_mode = ''round-robin'', rt_pd_balance_factor = 0, rt_num_servers = 2,
      rt_server_urls = [''http://a:1'', ''http://b:2''], rt_num_running_requests = [0, 0],
      rt_device_id_starts = [0, 1, 2]\<rparr>"

lemma demo_pair_init:
  "router_init (Some [''a'', ''b'']) (Some [1, 2]) (Some [1, 1]) ''round-robin'' 0 = Inr demo_pair"
  by code_simp

lemma demo_dispatch:
  assumes "rt_mode (rs_router S) = ''round-robin''" "rt_num_servers (rs_router S) = 2"
    and "rt_num_running_requests (rs_router S) = [x, y]" "x < 1000000000" "d = (if y < x then 1 else 0)"
  shows "\<exists>run. hr_endpoint run = Some d \<and> (\<forall>e rt. hr_exit run (Raised e) rt = rt) \<and>
     router_step S (S\<lparr>rs_router := add_running d 1 (rs_router S), rs_live := run # rs_live S\<rparr>)"
proof -
  have pick: "pick_endpoint [x, y] [0, 1] = Inr d"
    using assms(4,5) by (cases "y < x") (simp_all add: pick_endpoint_def)
  let ?out = "read_completions (\<lambda>_. Inl TypeError) (\<lambda>_. Inl TypeError) (cr_stream demo_prompt)
      (demo_post (rt_server_urls (rs_router S) ! d @ ''/v1/completions'') (Completions demo_prompt))"
  obtain run where run: "translate_request demo_post (\<lambda>_. Inl TypeError) (\<lambda>_. Inl TypeError) (\<lambda>x. x)
      demo_prompt ''r'' (rs_router S) = (run, add_running d 1 (rs_router S))"
    "hr_endpoint run = Some d" "\<forall>e rt. hr_exit run (Raised e) rt = rt"
    using assms(1-3) pick
    by (cases ?out) (auto simp: translate_request_def handle_round_robin_def upt_conv_Cons numeral_2_eq_2)
  then show ?thesis using router_step.dispatch [OF run(1)] by blast
qed

theorem load_counters_witness:
  "\<exists>S. router_reachable S \<and> rt_num_running_requests (rs_router S) = [1, 1] \<and>
     in_flight S 0 + leaked S 0 = 1 \<and> in_flight S 1 + leaked S 1 = 1 \<and> leaked S 0 = 1"
proof -
  let ?S0 = "\<lparr>rs_router = demo_pair, rs_live = [], rs_over = []\<rparr>"
  have r0: "router_reachable ?S0" by (rule router_reachable.start [OF demo_pair_init])
  obtain run1 where run1: "hr_endpoint run1 = Some 0" "\<forall>e rt. hr_exit run1 (Raised e) rt = rt"
    "router_step ?S0 (?S0\<lparr>rs_router := add_running 0 1 demo_pair, rs_live := [run1]\<rparr>)"
    using demo_dispatch [of ?S0 0 0 0] by (auto simp: demo_pair_def)
  let ?S1 = "?S0\<lparr>rs_router := add_running 0 1 demo_pair, rs_live := [run1]\<rparr>"
  have r1: "router_reachable ?S1" by (rule router_reachable.step [OF r0 run1(3)])
  obtain run2 where run2: "hr_endpoint run2 = Some 1"
    "router_step ?S1 (?S1\<lparr>rs_router := add_running 1 1 (rs_router ?S1), rs_live := [run2, run1]\<rparr>)"
    using demo_dispatch [of ?S1 1 0 1] by (auto simp: demo_pair_def add_running_def)
  let ?S2 = "?S1\<lparr>rs_router := add_running 1 1 (rs_router ?S1), rs_live := [run2, run1]\<rparr>"
  let ?S3 = "exit_run 1 (Raised CancelledError) ?S2"
  have "router_step ?S2 ?S3" by (rule router_step.leave) simp_all
  then have r3: "router_reachable ?S3" by (intro router_reachable.step [OF router_reachable.step [OF r1 run2(2)]])
  have c: "rt_num_running_requests (rs_router ?S3) = [1, 1]" "rt_num_servers (rs_router ?S3) = 2" "leaked ?S3 0 = 1"
    using run1(1,2) by (simp_all add: exit_run_def leaked_def releases_def add_running_def demo_pair_def)
  then have "in_flight ?S3 0 + leaked ?S3 0 = 1" "in_flight ?S3 1 + leaked ?S3 1 = 1"
    using load_counters [OF r3] by (auto simp: All_less_Suc numeral_2_eq_2)
  then show ?thesis using r3 c by blast
qed

section \<open>Preempted attempts\<close>

fun preempted_attempts ::
    "post_fn list \<Rightarrow> (string \<Rightarrow> completion_response res) \<Rightarrow> (json \<Rightarrow> completion_response res) \<Rightarrow>
     (rat \<Rightarrow> rat) \<Rightarrow> completion_request \<Rightarrow> string \<Rightarrow> router \<Rightarrow> nat" where
  "preempted_attempts [] decode validate rnd q rid rt = 0"
| "preempted_attempts (p # ps) decode validate rnd q rid rt =
     (case translate_request p decode validate rnd q rid rt of
        (run, rt) \<Rightarrow>
          if None \<in> set (hr_values run)
          then Suc (preempted_attempts ps decode validate rnd q rid (hr_exit run (Raised GeneratorExit) rt))
          else 0)"

lemma sum_list_update_int:
  "i < length xs \<Longrightarrow> sum_list (xs[i := xs ! i + k]) = sum_list xs + (k :: int)"
  by (induction xs arbitrary: i) (auto split: nat.splits)

lemma sum_add_running:
  "router_ok rt \<Longrightarrow> d < rt_num_servers rt \<Longrightarrow>
     sum_list (rt_num_running_requests (add_running d k rt)) = sum_list (rt_num_running_requests rt) + k"
  by (simp add: add_running_def router_ok_def sum_list_update_int)

lemma handler_counts:
  assumes ok: "router_ok rt" and run: "translate_request post decode validate rnd q rid rt = (run, rt')"
  shows "router_ok (hr_exit run en rt')"
    "None \<in> set (hr_values run) \<Longrightarrow>
       sum_list (rt_num_running_requests (hr_exit run (Raised GeneratorExit) rt')) =
       sum_list (rt_num_running_requests rt) + 1"
    "hr_end run = Returned \<Longrightarrow> sum_list (rt_num_running_requests (hr_exit run Returned rt')) =
       sum_list (rt_num_running_requests rt)"
proof -
  note enter = translate_request_enter [OF run] and after = translate_request_ok [OF ok run]
  have less: "d < rt_num_servers rt" if "hr_endpoint run = Some d" for d
    using after(2) that by (simp add: run_ok_def)
  show "router_ok (hr_exit run en rt')"
    using enter after(1) by (auto simp: router_ok_def)
  show "sum_list (rt_num_running_requests (hr_exit run (Raised GeneratorExit) rt')) =
       sum_list (rt_num_running_requests rt) + 1"
    if "None \<in> set (hr_values run)"
    using enter that less sum_add_running [OF ok] by (auto simp: releases_def is_exception_def)
  show "sum_list (rt_num_running_requests (hr_exit run Returned rt')) = sum_list (rt_num_running_requests rt)"
    if "hr_end run = Returned"
    using enter that less sum_add_running [OF ok] sum_add_running [OF after(1)] after(4)
    by (auto simp: releases_def)
qed

text \<open>
  Every preempted attempt leaks one count. When \<open>handle_completion\<close> returns, the load counters
  have grown in total by the number of attempts that were preempted on the way: the retry
  loop abandons the attempt's generator at its \<open>yield None\<close>, and the clean-up of the handler
  (\<open>except Exception\<close>, or the statement after the session block) does not run then.
\<close>

theorem preemption_leaks_load:
  assumes "router_ok rt"
    and "completion_attempts posts decode validate rnd q rid rt = ((ys, Returned), rt')"
  shows "sum_list (rt_num_running_requests rt') =
     sum_list (rt_num_running_requests rt) + int (preempted_attempts posts decode validate rnd q rid rt)"
  using assms
proof (induction posts arbitrary: rt ys)
  case Nil
  then show ?case by simp
next
  case (Cons p ps)
  obtain run rt1 where run: "translate_request p decode validate rnd q rid rt = (run, rt1)"
    by (cases "translate_request p decode validate rnd q rid rt")
  note c = handler_counts [OF Cons.prems(1) run]
  show ?case
  proof (cases "None \<in> set (hr_values run)")
    case True
    obtain ys' where "completion_attempts ps decode validate rnd q rid (hr_exit run (Raised GeneratorExit) rt1) =
        ((ys', Returned), rt')"
      using Cons.prems(2) True run by (auto simp: Let_def split: prod.splits)
    from Cons.IH [OF c(1) this] show ?thesis using c(2) [OF True] True run by simp
  next
    case False
    then show ?thesis using Cons.prems(2) c(3) run by (auto simp: Let_def)
  qed
qed

definition demo_finish :: "json \<Rightarrow> completion_response res" where
  "demo_finish j =
     (case j of
        JStr s \<Rightarrow> Inr (demo_response\<lparr>crs_choices :=
          [\<lparr>crc_finish_reason = Some s, crc_index = 0, crc_logprobs = None, crc_text = []\<rparr>]\<rparr>)
      | _ \<Rightarrow> Inl TypeError)"

definition demo_post_finish :: "string \<Rightarrow> post_fn" where
  "demo_post_finish s url r =
     (case r of
        StartGenerate _ _ \<Rightarrow> \<lparr>hp_status = 200, hp_lines = ([], Returned), hp_json = Inr (JStr s)\<rparr>
      | _ \<Rightarrow> demo_post url r)"

lemma demo_attempt:
  assumes "k < 1000000000" "rt = demo_router\<lparr>rt_num_running_requests := [0, k]\<rparr>"
  shows "\<exists>run r. translate_request (demo_post_finish s) (\<lambda>_. Inl TypeError) demo_finish (\<lambda>x. x) demo_prompt ''r'' rt =
       (run, add_running 1 1 rt) \<and>
     hr_values run = (if s = ''preempt'' then [None, Some r] else [Some r]) \<and> hr_end run = Returned \<and>
     hr_exit run (Raised GeneratorExit) = (\<lambda>rt. rt) \<and> hr_exit run Returned = add_running 1 (- 1)"
proof -
  let ?q = "demo_prompt\<lparr>cr_user := Some ''r''\<rparr>"
  have pick: "pick_endpoint [0, k] [1] = Inr 1"
    using assms(1) by (simp add: pick_endpoint_def)
  obtain r where "snd (disagg_body (demo_post_finish s) (\<lambda>_. Inl TypeError) demo_finish (\<lambda>x. x) ?q rt 1) =
      (if s = ''preempt'' then [None, Some r] else [Some r], Returned)"
    by (simp add: assms(2) demo_post_finish_def demo_finish_def demo_post_def demo_router_def demo_prompt_def
        disagg_body_def transfer_kv_def mark_preempt_def default_completion_request_def prompt_length_def
        kv_window_end_def eps_float_def truncate_rat_def send_prepare_receive_def send_remote_send_def
        send_start_generate_def read_completions_def absolute_end_def json_item_def dict_item_def
        demo_response_def Let_def)
  moreover have "rt_mode rt = ''disagg''" "rt_num_servers rt = 2" "rt_num_running_requests rt = [0, k]"
    by (simp_all add: assms(2) demo_router_def)
  ultimately show ?thesis
    using pick
    by (simp add: translate_request_def handle_disagg_def Let_def upt_conv_Cons numeral_2_eq_2 is_exception_def)
qed

theorem preemption_leaks_load_witness:
  "\<exists>ys rt'. completion_attempts [demo_post_finish ''preempt'', demo_post_finish ''stop''] (\<lambda>_. Inl TypeError)
       demo_finish (\<lambda>x. x) demo_prompt ''r'' demo_router = ((ys, Returned), rt') \<and>
     sum_list (rt_num_running_requests rt') = 1"
proof -
  have r0: "demo_router = demo_router\<lparr>rt_num_running_requests := [0, 0]\<rparr>" by (simp add: demo_router_def)
  have r1: "add_running 1 1 demo_router = demo_router\<lparr>rt_num_running_requests := [0, 1]\<rparr>"
    by (simp add: add_running_def demo_router_def)
  obtain run1 r where run1: "translate_request (demo_post_finish ''preempt'') (\<lambda>_. Inl TypeError) demo_finish
      (\<lambda>x. x) demo_prompt ''r'' demo_router = (run1, add_running 1 1 demo_router)"
    "hr_values run1 = [None, Some r]" "hr_exit run1 (Raised GeneratorExit) = (\<lambda>rt. rt)"
    using demo_attempt [OF _ r0, of "''preempt''"] by auto
  obtain run2 r' where run2: "translate_request (demo_post_finish ''stop'') (\<lambda>_. Inl TypeError) demo_finish
      (\<lambda>x. x) demo_prompt ''r'' (add_running 1 1 demo_router) = (run2, add_running 1 1 (add_running 1 1 demo_router))"
    "hr_values run2 = [Some r']" "hr_end run2 = Returned"
    using demo_attempt [OF _ r1, of "''stop''"] by auto
  obtain ys rt' where run: "completion_attempts [demo_post_finish ''preempt'', demo_post_finish ''stop'']
      (\<lambda>_. Inl TypeError) demo_finish (\<lambda>x. x) demo_prompt ''r'' demo_router = ((ys, Returned), rt')"
    using run1 run2 by simp
  have "preempted_attempts [demo_post_finish ''preempt'', demo_post_finish ''stop'']
      (\<lambda>_. Inl TypeError) demo_finish (\<lambda>x. x) demo_prompt ''r'' demo_router = 1"
    using run1 run2 by simp
  then show ?thesis
    using run preemption_leaks_load [OF _ run] by (auto simp: router_ok_def demo_router_def)
qed

end
