(* ===== verification/Bench.thy ===== *)
theory Bench
  imports Protocol
begin

text \<open>
  The benchmark driver: the request records (\<open>bench/request_record.py\<close>) and the request
  processors (\<open>bench/request_processor.py\<close>) with the pipelines that are built from them. The
  random numbers, the tokenizer, the rounding of floats and the servers are arguments. Records
  are mutated in place by the processors; a processor is modelled by the list it returns.
\<close>

section \<open>Records\<close>

record server_metrics =
  sm_input_tokens :: int
  sm_prefill_tokens :: int
  sm_output_tokens :: int
  sm_end_to_end_latency_s :: rat
  sm_prefill_tokens_per_s :: rat
  sm_inter_token_latency_s :: rat
  sm_time_per_output_token_s :: rat
  sm_time_to_first_token_s :: "rat option"

record metrics =
  mt_success :: bool
  mt_start_time :: rat
  mt_finish_time :: rat
  mt_end_to_end_latency_s :: rat
  mt_input_tokens :: "int option"
  mt_output_tokens :: "int option"
  mt_inter_token_latency_s :: "rat option"
  mt_time_per_output_token_s :: "rat option"
  mt_time_to_first_token_s :: "rat option"
  mt_server_metrics :: "server_metrics option"
  mt_exec_feature :: "json dict option"

record request_record =
  rr_request_id :: "int option"
  rr_chat_cmpl :: chat_completion_request
  rr_output_str :: "string option"
  rr_first_chunk_output_str :: string
  rr_timestamp :: "rat option"
  rr_metrics :: "metrics option"
  rr_error_msg :: "string option"

text \<open>A dataset hands out plain records, or groups of records with a common prefix.\<close>

datatype dataset_record = Plain request_record | Grouped "request_record list"

section \<open>Slices\<close>

text \<open>\<open>xs[:k]\<close> and \<open>xs[k:]\<close>: a negative bound counts from the end.\<close>

definition slice_bound :: "int \<Rightarrow> nat \<Rightarrow> nat" where
  "slice_bound k n = nat (if k < 0 then int n + k else k)"

definition slice_upto :: "'a list \<Rightarrow> int \<Rightarrow> 'a list" where
  "slice_upto xs k = take (slice_bound k (length xs)) xs"

definition slice_from :: "'a list \<Rightarrow> int \<Rightarrow> 'a list" where
  "slice_from xs k = drop (slice_bound k (length xs)) xs"

text \<open>Every \<open>n\<close>-th element: \<open>xs[slice(0, len(xs), n)]\<close> for a positive \<open>n\<close>.\<close>

fun every :: "nat \<Rightarrow> 'a list \<Rightarrow> 'a list" where
  "every n [] = []"
| "every n (x # xs) = x # every n (drop (n - 1) xs)"

section \<open>Sampling\<close>

text \<open>\<open>record.request_id = i\<close> for the position \<open>i\<close> of each record.\<close>

definition number_records :: "request_record list \<Rightarrow> request_record list" where
  "number_records rs = map (\<lambda>(i, r). r\<lparr>rr_request_id := Some (int i)\<rparr>) (enumerate 0 rs)"

text \<open>
  The sampling loop: shuffled copies are appended until there are enough; \<open>shuffle k\<close> is the
  effect of the \<open>k\<close>-th shuffle. It need not end: the list could be empty.
\<close>

partial_function (option) sample_loop ::
    "(nat \<Rightarrow> request_record list \<Rightarrow> request_record list) \<Rightarrow> int \<Rightarrow> request_record list \<Rightarrow> nat \<Rightarrow>
     request_record list \<Rightarrow> request_record list option" where
  "sample_loop shuffle n records k samples =
     (if int (length samples) < n
      then sample_loop shuffle n records (k + 1) (samples @ shuffle k records)
      else Some samples)"

definition insufficient :: py_error where
  "insufficient = ValueError ''Insufficient requests.''"

definition sample_plain ::
    "(nat \<Rightarrow> request_record list \<Rightarrow> request_record list) \<Rightarrow> int \<Rightarrow> bool \<Rightarrow> request_record list \<Rightarrow>
     request_record list res option" where
  "sample_plain shuffle n take_first records =
     (if take_first then
        if int (length records) < n then Some (Inl insufficient)
        else Some (Inr (number_records (slice_upto records n)))
      else
        (case sample_loop shuffle n records 0 [] of
           None \<Rightarrow> None
         | Some samples \<Rightarrow> Some (Inr (number_records (slice_upto samples n)))))"

text \<open>
  The groups are used in the order of the input: the shuffled list \<open>records\<close> of the code is not
  read again.
\<close>

fun take_groups :: "int \<Rightarrow> request_record list list \<Rightarrow> request_record list" where
  "take_groups remaining [] = []"
| "take_groups remaining (g # gs) =
     (let used = min (int (length g)) remaining; rest = remaining - used in
      slice_upto g used @ (if rest = 0 then [] else take_groups rest gs))"

definition too_many_grouped :: py_error where
  "too_many_grouped = ValueError ''Due to the existence of shared common prefixes''"

definition sample_grouped :: "int \<Rightarrow> request_record list list \<Rightarrow> request_record list res" where
  "sample_grouped n groups =
     (if n > int (sum_list (map length groups)) then Inl too_many_grouped
      else Inr (number_records (take_groups n groups)))"

definition is_grouped :: "dataset_record \<Rightarrow> bool" where
  "is_grouped d = (case d of Grouped _ \<Rightarrow> True | Plain _ \<Rightarrow> False)"

definition group_of :: "dataset_record \<Rightarrow> request_record list" where
  "group_of d = (case d of Grouped g \<Rightarrow> g | Plain r \<Rightarrow> [r])"

definition sample_requests ::
    "(nat \<Rightarrow> request_record list \<Rightarrow> request_record list) \<Rightarrow> int \<Rightarrow> bool \<Rightarrow> dataset_record list \<Rightarrow>
     request_record list res option" where
  "sample_requests shuffle n take_first ds =
     (case ds of
        [] \<Rightarrow> Some (Inl AssertionError)
      | d # _ \<Rightarrow>
          if is_grouped d then
            if list_all is_grouped ds then Some (sample_grouped n (map group_of ds))
            else Some (Inl AssertionError)
          else if list_all (\<lambda>d. \<not> is_grouped d) ds
          then sample_plain shuffle n take_first (concat (map group_of ds))
          else Some (Inl AssertionError))"

section \<open>Processors on records\<close>

definition map_chat :: "(chat_completion_request \<Rightarrow> chat_completion_request) \<Rightarrow> request_record \<Rightarrow> request_record" where
  "map_chat f r = r\<lparr>rr_chat_cmpl := f (rr_chat_cmpl r)\<rparr>"

definition attach_model_name :: "string \<Rightarrow> request_record list \<Rightarrow> request_record list" where
  "attach_model_name model = map (map_chat (\<lambda>c. c\<lparr>cc_model := Some model\<rparr>))"

text \<open>\<open>gap k\<close> is the \<open>k\<close>-th exponentially distributed number; \<open>rnd\<close> rounds to a float.\<close>

fun attach_timestamps ::
    "(rat \<Rightarrow> rat) \<Rightarrow> (nat \<Rightarrow> rat) \<Rightarrow> nat \<Rightarrow> rat \<Rightarrow> request_record list \<Rightarrow> request_record list res" where
  "attach_timestamps rnd gap k t [] = Inr []"
| "attach_timestamps rnd gap k t (r # rs) =
     (if rr_timestamp r \<noteq> None then Inl AssertionError
      else bindR (attach_timestamps rnd gap (k + 1) (rnd (t + gap k)) rs) (\<lambda>rs'.
        Inr (r\<lparr>rr_timestamp := Some t\<rparr> # rs')))"

definition attach_execution_feature ::
    "json dict \<Rightarrow> request_record list \<Rightarrow> request_record list res" where
  "attach_execution_feature feature =
     mapR (\<lambda>r. case rr_metrics r of
                 None \<Rightarrow> Inl AssertionError
               | Some m \<Rightarrow> Inr (r\<lparr>rr_metrics := Some (m\<lparr>mt_exec_feature := Some feature\<rparr>)\<rparr>))"

definition attach_stream_flag :: "bool option \<Rightarrow> request_record list \<Rightarrow> request_record list" where
  "attach_stream_flag stream rs =
     (case stream of None \<Rightarrow> rs | Some b \<Rightarrow> map (map_chat (\<lambda>c. c\<lparr>cc_stream := b\<rparr>)) rs)"

definition attach_sampling_options ::
    "pyfloat \<Rightarrow> pyfloat \<Rightarrow> bool \<Rightarrow> request_record list \<Rightarrow> request_record list" where
  "attach_sampling_options temperature top_p no_eos =
     map (map_chat (\<lambda>c.
       let c = c\<lparr>cc_temperature := Some temperature, cc_top_p := Some top_p,
                 cc_frequency_penalty := Some (Fin 0), cc_presence_penalty := Some (Fin 0),
                 cc_tool_choice := Some (TCStr ''none'')\<rparr> in
       if no_eos
       then c\<lparr>cc_debug_config := Some (default_debug_config\<lparr>ignore_eos := True\<rparr>)\<rparr> else c))"

definition scale_timestamp :: "(rat \<Rightarrow> rat) \<Rightarrow> rat \<Rightarrow> request_record list \<Rightarrow> request_record list res" where
  "scale_timestamp rnd scale =
     mapR (\<lambda>r. case rr_timestamp r of
                 None \<Rightarrow> Inl (ValueError ''The timestamp has not been initialized.'')
               | Some t \<Rightarrow> Inr (r\<lparr>rr_timestamp := Some (rnd (t * scale))\<rparr>))"

text \<open>
  The metric analyzer drops the failed records and those with no token after the first chunk;
  \<open>tokens\<close> is the length of the encoding.
\<close>

definition analyze_record ::
    "(rat \<Rightarrow> rat) \<Rightarrow> (string \<Rightarrow> nat) \<Rightarrow> request_record \<Rightarrow> request_record option res" where
  "analyze_record rnd tokens r =
     (case rr_metrics r of
        None \<Rightarrow> Inl AttributeError
      | Some m \<Rightarrow>
          if \<not> mt_success m then (if rr_error_msg r = None then Inl AssertionError else Inr None)
          else
            (case rr_output_str r of
               None \<Rightarrow> Inl TypeError
             | Some out \<Rightarrow>
                 (let n = int (tokens out); f = int (tokens (rr_first_chunk_output_str r)) in
                  if n \<le> f then Inr None
                  else
                    (case mt_input_tokens m of
                       None \<Rightarrow> Inl TypeError
                     | Some k \<Rightarrow>
                         if \<not> k > 0 then Inl AssertionError
                         else
                           (let e2e = mt_end_to_end_latency_s m;
                                ttft = (case mt_time_to_first_token_s m of None \<Rightarrow> 0 | Some t \<Rightarrow> t) in
                            Inr (Some (r\<lparr>rr_metrics := Some (m
                              \<lparr>mt_output_tokens := Some n,
                               mt_inter_token_latency_s := Some (rnd (e2e / of_int n)),
                               mt_time_to_first_token_s := Some ttft,
                               mt_time_per_output_token_s :=
                                 Some (rnd (rnd (e2e - ttft) / of_int (n - f)))\<rparr>)\<rparr>)))))))"

definition metric_analyzer ::
    "(rat \<Rightarrow> rat) \<Rightarrow> (string \<Rightarrow> nat) \<Rightarrow> request_record list \<Rightarrow> request_record list res" where
  "metric_analyzer rnd tokens rs =
     bindR (mapR (analyze_record rnd tokens) rs) (\<lambda>os. Inr (List.map_filter (\<lambda>x. x) os))"

section \<open>Warm-up\<close>

definition fake_prompt :: chat_completion_message where
  "fake_prompt =
     \<lparr>cm_content = Some (Text ''Please output arbitrary coherent sentences. Do not output eos token.''),
      cm_role = ''user'', cm_name = None, cm_tool_calls = None, cm_tool_call_id = None\<rparr>"

definition generate_fake_warmup_requests :: "int \<Rightarrow> request_record \<Rightarrow> request_record list" where
  "generate_fake_warmup_requests n example =
     replicate (nat n) (example\<lparr>rr_chat_cmpl :=
       (default_chat_request [fake_prompt])\<lparr>cc_model := Some '''', cc_max_tokens := Some 128\<rparr>\<rparr>)"

text \<open>
  The first request gets 128 output tokens, each further one token more than the one before;
  the sampling options of the first are left alone.
\<close>

definition process_warmup_requests :: "request_record list \<Rightarrow> request_record list" where
  "process_warmup_requests rs =
     map (\<lambda>(i, r). map_chat (\<lambda>c.
         let c = c\<lparr>cc_max_tokens := Some (128 + int i)\<rparr> in
         if i = 0 then c else c\<lparr>cc_temperature := Some (Fin 2), cc_top_p := Some (Fin 1)\<rparr>) r)
       (enumerate 0 rs)"

definition reset_timestamp :: "request_record \<Rightarrow> request_record" where
  "reset_timestamp r = r\<lparr>rr_timestamp := (if rr_timestamp r \<noteq> None then Some 0 else None)\<rparr>"

text \<open>The benchmark and the warm-up requests; \<open>IndexError\<close> for an example of no request.\<close>

definition split_warmup ::
    "int \<Rightarrow> int \<Rightarrow> bool \<Rightarrow> request_record list \<Rightarrow> (request_record list \<times> request_record list) res" where
  "split_warmup num_warmup num_bench fake rs =
     (if fake then
        if int (length rs) \<noteq> num_bench then Inl AssertionError
        else if rs = [] then Inl IndexError
        else Inr (rs, generate_fake_warmup_requests num_warmup (hd rs))
      else if int (length rs) \<noteq> num_warmup + num_bench then Inl AssertionError
      else Inr (slice_upto rs (- num_warmup), slice_from rs (- num_warmup)))"

text \<open>
  \<open>pipeline k\<close> is the \<open>k\<close>-th call of the executor, \<open>profiler\<close> the two calls of the profiler
  entry points (\<open>None\<close> when profiling is off).
\<close>

definition warmup_and_run ::
    "(nat \<Rightarrow> request_record list \<Rightarrow> request_record list res) \<Rightarrow> (bool \<times> bool) option \<Rightarrow> int \<Rightarrow> int \<Rightarrow> bool \<Rightarrow>
     request_record list \<Rightarrow> request_record list res" where
  "warmup_and_run pipeline profiler num_warmup num_bench fake rs =
     bindR (split_warmup num_warmup num_bench fake rs) (\<lambda>(bench, warm).
     bindR (pipeline 0 (process_warmup_requests (map reset_timestamp warm))) (\<lambda>_.
     bindR (assertR (case profiler of None \<Rightarrow> True | Some (a, _) \<Rightarrow> a) AssertionError) (\<lambda>_.
     bindR (pipeline 1 bench) (\<lambda>updated.
     bindR (assertR (case profiler of None \<Rightarrow> True | Some (_, b) \<Rightarrow> b) AssertionError) (\<lambda>_.
     Inr updated)))))"

fun sequential :: "('r \<Rightarrow> 'r res) list \<Rightarrow> 'r \<Rightarrow> 'r res" where
  "sequential [] r = Inr r"
| "sequential (p # ps) r = bindR (p r) (sequential ps)"

section \<open>Executors\<close>

definition partitions :: "nat \<Rightarrow> 'a list \<Rightarrow> 'a list list" where
  "partitions n xs = map (\<lambda>i. every n (drop i xs)) [0..<n]"

definition default_num_processes :: "int \<Rightarrow> int" where
  "default_num_processes k = min ((k + 31) div 32) 10"

definition concurrency_share :: "int \<Rightarrow> nat \<Rightarrow> nat \<Rightarrow> int" where
  "concurrency_share k n i = k div int n + (if int i < k mod int n then 1 else 0)"

text \<open>
  An executor hands every partition to a process and collects the results in the order
  \<open>order\<close> in which the processes complete. \<open>run i part k\<close> is the process of partition \<open>i\<close> with
  \<open>k\<close> concurrent requests.
\<close>

definition collect_results :: "(nat \<Rightarrow> 'b list res) \<Rightarrow> nat list \<Rightarrow> 'b list res" where
  "collect_results result order = bindR (mapR result order) (\<lambda>rss. Inr (concat rss))"

definition no_workers :: py_error where
  "no_workers = ValueError ''max_workers must be greater than 0''"

definition fixed_concurrent_executor ::
    "(nat \<Rightarrow> request_record list \<Rightarrow> int \<Rightarrow> 'b list res) \<Rightarrow> nat list \<Rightarrow> int option \<Rightarrow> int \<Rightarrow>
     request_record list \<Rightarrow> 'b list res" where
  "fixed_concurrent_executor run order num_processes num_concurrent rs =
     (let p = (case num_processes of None \<Rightarrow> default_num_processes num_concurrent | Some p \<Rightarrow> p);
          parts = partitions (nat p) rs in
      if p \<le> 0 then Inl no_workers
      else collect_results (\<lambda>i. run i (parts ! i) (concurrency_share num_concurrent (nat p) i)) order)"

definition fix_timestamp_executor ::
    "(nat \<Rightarrow> request_record list \<Rightarrow> rat \<Rightarrow> 'b list res) \<Rightarrow> nat list \<Rightarrow> int option \<Rightarrow> int \<Rightarrow>
     request_record list \<Rightarrow> 'b list res" where
  "fix_timestamp_executor run order num_processes num_requests rs =
     (let p = (case num_processes of None \<Rightarrow> default_num_processes num_requests | Some p \<Rightarrow> p) in
      if rs = [] \<or> (\<exists>r \<in> set rs. rr_timestamp r = None) then Inl AssertionError
      else
        let sorted = sort_key (\<lambda>r. the (rr_timestamp r)) rs;
            base = the (rr_timestamp (hd sorted));
            parts = partitions (nat p) sorted in
        if p \<le> 0 then Inl no_workers
        else collect_results (\<lambda>i. run i (parts ! i) base) order)"

text \<open>The loop time at which a record is launched.\<close>

definition launch_time :: "(rat \<Rightarrow> rat) \<Rightarrow> rat \<Rightarrow> rat \<Rightarrow> rat \<Rightarrow> rat \<Rightarrow> rat \<Rightarrow> rat" where
  "launch_time rnd t base_timestamp base_sys_time max_schedule_gap delta =
     rnd (rnd (rnd (t - base_timestamp) + rnd (base_sys_time + max_schedule_gap)) + delta)"

section \<open>One process with concurrent tasks\<close>

text \<open>
  \<open>_process_task\<close> of the fixed-concurrency executor: every task takes the next request, sends it
  and waits, until no request is left; between two \<open>await\<close>s a task runs without interruption.
  \<open>pt_updated\<close> is the array of the results, \<open>pt_history\<close> the chat history of each task.
\<close>

datatype task_status = Ready | Waiting nat request_record | Finished

record process_task =
  pt_sent :: nat
  pt_tasks :: "task_status list"
  pt_updated :: "request_record option list"
  pt_history :: "chat_completion_message list list"

definition process_task_init :: "request_record list \<Rightarrow> nat \<Rightarrow> process_task" where
  "process_task_init rs n =
     \<lparr>pt_sent = 0, pt_tasks = replicate n Ready, pt_updated = replicate (length rs) None,
      pt_history = replicate n []\<rparr>"

definition with_history ::
    "bool \<Rightarrow> chat_completion_message list \<Rightarrow> request_record \<Rightarrow> request_record" where
  "with_history multi_round h r =
     (if multi_round then map_chat (\<lambda>c. c\<lparr>cc_messages := h @ cc_messages c\<rparr>) r else r)"

definition reply_message :: "request_record \<Rightarrow> chat_completion_message" where
  "reply_message r =
     \<lparr>cm_content = (case rr_output_str r of None \<Rightarrow> None | Some s \<Rightarrow> Some (Text s)),
      cm_role = ''assistant'', cm_name = None, cm_tool_calls = None, cm_tool_call_id = None\<rparr>"

text \<open>\<open>endpoint q r\<close>: the server may answer the request \<open>q\<close> with the record \<open>r\<close>.\<close>

inductive task_step ::
    "(request_record \<Rightarrow> request_record \<Rightarrow> bool) \<Rightarrow> bool \<Rightarrow> request_record list \<Rightarrow> process_task \<Rightarrow>
     process_task \<Rightarrow> bool"
  for endpoint :: "request_record \<Rightarrow> request_record \<Rightarrow> bool" and multi_round :: bool
    and rs :: "request_record list" where
  send: "i < length (pt_tasks S) \<Longrightarrow> pt_tasks S ! i = Ready \<Longrightarrow> pt_sent S \<noteq> length rs \<Longrightarrow>
     task_step endpoint multi_round rs S
       (S\<lparr>pt_sent := pt_sent S + 1,
          pt_tasks := (pt_tasks S)[i := Waiting (pt_sent S)
            (with_history multi_round (pt_history S ! i) (rs ! pt_sent S))]\<rparr>)"
| stop: "i < length (pt_tasks S) \<Longrightarrow> pt_tasks S ! i = Ready \<Longrightarrow> pt_sent S = length rs \<Longrightarrow>
     task_step endpoint multi_round rs S (S\<lparr>pt_tasks := (pt_tasks S)[i := Finished]\<rparr>)"
| receive: "i < length (pt_tasks S) \<Longrightarrow> pt_tasks S ! i = Waiting k q \<Longrightarrow> endpoint q r \<Longrightarrow>
     task_step endpoint multi_round rs S
       (S\<lparr>pt_tasks := (pt_tasks S)[i := Ready],
          pt_updated := (pt_updated S)[k := Some r],
          pt_history := (if multi_round
            then (pt_history S)[i := cc_messages (rr_chat_cmpl r) @ [reply_message r]]
            else pt_history S)\<rparr>)"

inductive task_run ::
    "(request_record \<Rightarrow> request_record \<Rightarrow> bool) \<Rightarrow> bool \<Rightarrow> request_record list \<Rightarrow> process_task \<Rightarrow> nat \<Rightarrow>
     process_task \<Rightarrow> bool"
  for endpoint :: "request_record \<Rightarrow> request_record \<Rightarrow> bool" and multi_round :: bool
    and rs :: "request_record list" and S :: process_task where
  none: "task_run endpoint multi_round rs S 0 S"
| more: "task_run endpoint multi_round rs S n T \<Longrightarrow> task_step endpoint multi_round rs T U \<Longrightarrow>
     task_run endpoint multi_round rs S (Suc n) U"

section \<open>Pipelines\<close>

datatype executor =
    FixedConcurrentRequestExecutor "int option" int bool
  | FixTimestampExecutor "int option" rat int

datatype request_processor =
    LogMessage string
  | SampleRequests int bool
  | AttachModelName string
  | AttachRequestRateTimestamp rat
  | AttachExecutionFeature "json dict"
  | AttachStreamFlag "bool option"
  | AttachSamplingOptions pyfloat pyfloat bool
  | ScaleTimestamp rat
  | WarmupAndRun int int executor "string option" bool

record bench_args =
  ba_host :: string
  ba_port :: string
  ba_cuda_profile :: bool
  ba_num_concurrent_requests :: "int list option"
  ba_request_rate :: "rat list option"
  ba_replay_timestamp_scale :: "rat option"
  ba_num_warmup_requests :: "int option"
  ba_num_requests :: int
  ba_per_gpu_workload :: bool
  ba_num_gpus :: int
  ba_tokenizer :: string
  ba_stream :: "bool option"
  ba_temperature :: pyfloat
  ba_top_p :: pyfloat
  ba_ignore_eos :: bool
  ba_num_process_workers :: "int option"
  ba_multi_round :: bool
  ba_max_schedule_gap :: rat

text \<open>The messages of errors and logs are shortened where they print floats or repeat the options.\<close>

definition concurrent_pipeline ::
    "bench_args \<Rightarrow> string option \<Rightarrow> bool \<Rightarrow> int \<Rightarrow> request_processor list" where
  "concurrent_pipeline a url fake_warmup k =
     (let w = (case ba_num_warmup_requests a of Some w \<Rightarrow> w | None \<Rightarrow> k) in
      [LogMessage (''Fixing number of concurrent requests: '' @ int_str k),
       SampleRequests (ba_num_requests a + w) False,
       AttachModelName (ba_tokenizer a),
       AttachStreamFlag (ba_stream a),
       AttachSamplingOptions (ba_temperature a) (ba_top_p a) (ba_ignore_eos a),
       AttachExecutionFeature [(''num_concurrent_requests'', JInt k)],
       WarmupAndRun w (ba_num_requests a)
         (FixedConcurrentRequestExecutor (ba_num_process_workers a) k (ba_multi_round a)) url
         fake_warmup])"

definition rate_pipeline ::
    "bench_args \<Rightarrow> string option \<Rightarrow> bool \<Rightarrow> int \<Rightarrow> rat \<Rightarrow> request_processor list" where
  "rate_pipeline a url fake_warmup w rate =
     (let total = (if ba_per_gpu_workload a then ba_num_requests a * ba_num_gpus a
                   else ba_num_requests a) in
      [LogMessage ''Fixing request rate'',
       SampleRequests (if fake_warmup then total else total + w) False,
       AttachModelName (ba_tokenizer a),
       AttachRequestRateTimestamp
         (if ba_per_gpu_workload a then rate * of_int (ba_num_gpus a) else rate),
       AttachStreamFlag (ba_stream a),
       AttachSamplingOptions (ba_temperature a) (ba_top_p a) (ba_ignore_eos a),
       AttachExecutionFeature [(''request_rate'', JFloat (Fin rate))],
       WarmupAndRun w total
         (FixTimestampExecutor (ba_num_process_workers a) (ba_max_schedule_gap a) (ba_num_requests a))
         url fake_warmup])"

definition replay_pipeline ::
    "bench_args \<Rightarrow> string option \<Rightarrow> bool \<Rightarrow> int \<Rightarrow> request_processor list" where
  "replay_pipeline a url fake_warmup w =
     (let scale = (case ba_replay_timestamp_scale a of
                     Some s \<Rightarrow> if s = 0 then 1 else s | None \<Rightarrow> 1) in
      [LogMessage ''Dataset replay'',
       SampleRequests (if fake_warmup then ba_num_requests a else ba_num_requests a + w) True,
       AttachModelName (ba_tokenizer a),
       ScaleTimestamp scale,
       AttachStreamFlag (ba_stream a),
       AttachSamplingOptions (ba_temperature a) (ba_top_p a) (ba_ignore_eos a),
       AttachExecutionFeature [(''timestamp_scale'', JFloat (Fin scale))],
       WarmupAndRun w (ba_num_requests a)
         (FixTimestampExecutor (ba_num_process_workers a) (ba_max_schedule_gap a) (ba_num_requests a))
         url fake_warmup])"

definition create_pipelines ::
    "bench_args \<Rightarrow> bool \<Rightarrow> bool \<Rightarrow> request_processor list list res" where
  "create_pipelines a fake_warmup timestamp_available =
     (let url = (if ba_cuda_profile a then Some (''http://'' @ ba_host a @ '':'' @ ba_port a) else None) in
      case ba_num_concurrent_requests a of
        Some ks \<Rightarrow>
          if ba_request_rate a \<noteq> None
          then Inl (ValueError ''num_concurrent_requests and request_rate are both specified'')
          else if ba_replay_timestamp_scale a \<noteq> None
          then Inl (ValueError ''Dataset replay is unsupported with concurrent requests'')
          else Inr (map (concurrent_pipeline a url fake_warmup) ks)
      | None \<Rightarrow>
          (case ba_request_rate a of
             Some rates \<Rightarrow>
               (case ba_num_warmup_requests a of
                  None \<Rightarrow> Inl (ValueError ''Please specify the number of warmup requests'')
                | Some w \<Rightarrow>
                    if ba_replay_timestamp_scale a \<noteq> None
                    then Inl (ValueError ''Dataset replay is unsupported with request rates'')
                    else Inr (map (rate_pipeline a url fake_warmup w) rates))
           | None \<Rightarrow>
               if \<not> timestamp_available
               then Inl (ValueError ''The dataset does not have timestamps'')
               else if ba_per_gpu_workload a
               then Inl (ValueError ''Fixing per-GPU workload is not compatible with replay'')
               else
                 (case ba_num_warmup_requests a of
                    None \<Rightarrow> Inl (ValueError ''Please specify the number of warmup requests'')
                  | Some w \<Rightarrow> Inr [replay_pipeline a url fake_warmup w])))"

end
