(* ===== verification/Bench_Correct.thy ===== *)
theory Bench_Correct
  imports Bench "HOL-Library.Multiset"
begin

text \<open>
  Properties of the benchmark driver: what sampling selects, how the requests are split into
  warm-up and benchmark and over processes, and that the concurrent tasks of a process send
  every request exactly once.
\<close>

section \<open>Sampling\<close>

lemma slice_upto_nonneg [simp]: "0 \<le> k \<Longrightarrow> slice_upto xs k = take (nat k) xs"
  by (simp add: slice_upto_def slice_bound_def)

lemma number_records_length [simp]: "length (number_records rs) = length rs"
  by (simp add: number_records_def)

lemma number_records_nth:
  "i < length rs \<Longrightarrow> number_records rs ! i = (rs ! i)\<lparr>rr_request_id := Some (int i)\<rparr>"
  by (simp add: number_records_def nth_enumerate_eq)

text \<open>The samples after \<open>m\<close> further rounds of shuffling.\<close>

definition shuffled_rounds ::
    "(nat \<Rightarrow> request_record list \<Rightarrow> request_record list) \<Rightarrow> request_record list \<Rightarrow> nat \<Rightarrow> nat \<Rightarrow>
     request_record list" where
  "shuffled_rounds shuffle records k m = concat (map (\<lambda>j. shuffle j records) [k..<k + m])"

lemma shuffled_rounds_length:
  assumes "\<And>j. mset (shuffle j records) = mset records"
  shows "length (shuffled_rounds shuffle records k m) = m * length records"
proof -
  have "length (shuffle j records) = length records" for j using assms mset_eq_length by blast
  then show ?thesis by (induction m) (simp_all add: shuffled_rounds_def)
qed

lemma shuffled_rounds_mset:
  assumes "\<And>j. mset (shuffle j records) = mset records"
  shows "mset (shuffled_rounds shuffle records k m) = repeat_mset m (mset records)"
  using assms by (induction m) (simp_all add: shuffled_rounds_def)

lemma sample_loop_rounds:
  assumes "\<And>j. mset (shuffle j records) = mset records" "records \<noteq> []"
  shows "\<exists>m. sample_loop shuffle n records k samples =
       Some (samples @ shuffled_rounds shuffle records k m) \<and>
     (m = 0 \<or> int (length samples + (m - 1) * length records) < n) \<and>
     n \<le> int (length samples + m * length records)"
  using assms
proof (induction "nat (n - int (length samples))" arbitrary: k samples rule: less_induct)
  case less
  show ?case
  proof (cases "int (length samples) < n")
    case True
    let ?s = "samples @ shuffle k records"
    have len: "length (shuffle k records) = length records"
      using less.prems(1) mset_eq_length by blast
    have pos: "0 < length records" using less.prems(2) by simp
    have "nat (n - int (length ?s)) < nat (n - int (length samples))" using True len pos by simp
    then obtain m where m: "sample_loop shuffle n records (k + 1) ?s =
         Some (?s @ shuffled_rounds shuffle records (k + 1) m)"
      "m = 0 \<or> int (length ?s + (m - 1) * length records) < n"
      "n \<le> int (length ?s + m * length records)"
      using less.hyps [of ?s "k + 1"] less.prems by blast
    have "sample_loop shuffle n records k samples =
        Some (samples @ shuffled_rounds shuffle records k (Suc m))"
    proof -
      have "[k..<k + Suc m] = k # [k + 1..<k + 1 + m]" by (simp add: upt_conv_Cons del: upt_Suc)
      then have "shuffled_rounds shuffle records k (Suc m) =
          shuffle k records @ shuffled_rounds shuffle records (k + 1) m"
        by (simp only: shuffled_rounds_def list.map concat.simps)
      then show ?thesis using True m(1) by (simp add: sample_loop.simps [of shuffle n records k])
    qed
    moreover have "int (length samples + (Suc m - 1) * length records) < n"
    proof (cases m)
      case (Suc m')
      then have "int (length samples + length records + m' * length records) < n" using m(2) len by simp
      then show ?thesis unfolding Suc by (simp add: algebra_simps)
    qed (use True in simp)
    moreover have "n \<le> int (length samples + Suc m * length records)"
      using m(3) len by (simp add: algebra_simps)
    ultimately show ?thesis by blast
  next
    case False
    then show ?thesis
      by (intro exI [of _ 0])
         (simp add: sample_loop.simps [of shuffle n records k] shuffled_rounds_def)
  qed
qed

text \<open>A prefix of enough rounds has every record as often as the whole rounds in it, up to one more.\<close>

lemma taken_rounds_balanced:
  fixes k m and records :: "request_record list"
  defines "q \<equiv> k div length records"
  assumes "\<And>j rs. mset (shuffle j rs) = mset rs" "q \<le> m" "m \<le> Suc q"
  shows "q * count_list records r \<le> count_list (take k (shuffled_rounds shuffle records 0 m)) r \<and>
    count_list (take k (shuffled_rounds shuffle records 0 m)) r \<le> Suc q * count_list records r"
proof
  let ?all = "shuffled_rounds shuffle records 0 m"
  have count: "count_list xs r = count (mset xs) r" for xs :: "request_record list"
    by (induction xs) auto
  have "[0..<m] = [0..<q] @ [q..<m]"
    using assms(3) by (metis le_add_diff_inverse upt_add_eq_append zero_le)
  then have split: "?all = shuffled_rounds shuffle records 0 q @ shuffled_rounds shuffle records q (m - q)"
    using assms(3) by (simp add: shuffled_rounds_def)
  have "length (shuffled_rounds shuffle records 0 q) \<le> k"
    using shuffled_rounds_length [of shuffle records 0 q] assms(2) by (simp add: q_def)
  then have "take k ?all = shuffled_rounds shuffle records 0 q @
      take (k - length (shuffled_rounds shuffle records 0 q)) (shuffled_rounds shuffle records q (m - q))"
    unfolding split by (simp only: take_append take_all)
  then have "count_list (shuffled_rounds shuffle records 0 q) r \<le> count_list (take k ?all) r" by simp
  then show "q * count_list records r \<le> count_list (take k ?all) r"
    using shuffled_rounds_mset [of shuffle records 0 q] assms(2) by (simp add: count)
  have "count_list (take k ?all) r \<le> count_list ?all r"
    using append_take_drop_id [of k ?all] by (metis count_list_append le_add1)
  also have "\<dots> = m * count_list records r"
    using shuffled_rounds_mset [of shuffle records 0 m] assms(2) by (simp add: count)
  finally show "count_list (take k ?all) r \<le> Suc q * count_list records r"
    using assms(4) by (meson le_trans mult_le_mono1)
qed

text \<open>
  C29: sampling plain requests ends and is balanced. For a dataset that is not empty and any
  shuffling that permutes, the loop returns exactly the requested number of records, numbered
  from zero, and every record of the dataset is used \<open>q\<close> or \<open>q + 1\<close> times (for each of its
  occurrences), where \<open>q\<close> is the number of complete rounds.
\<close>

theorem sampling_balanced:
  assumes "\<And>j rs. mset (shuffle j rs) = mset rs" and "records \<noteq> []" and "0 \<le> n"
  shows "\<exists>samples. sample_plain shuffle n False records = Some (Inr (number_records samples)) \<and>
     int (length samples) = n \<and>
     (\<forall>i < length samples. rr_request_id (number_records samples ! i) = Some (int i)) \<and>
     (\<forall>r. nat n div length records * count_list records r \<le> count_list samples r \<and>
          count_list samples r \<le> Suc (nat n div length records) * count_list records r)"
proof -
  let ?len = "length records"
  obtain m where m: "sample_loop shuffle n records 0 [] = Some (shuffled_rounds shuffle records 0 m)"
    "m = 0 \<or> int ((m - 1) * ?len) < n" "n \<le> int (m * ?len)"
    using sample_loop_rounds [of shuffle records n 0 "[]"] assms(1,2) by auto
  let ?all = "shuffled_rounds shuffle records 0 m"
  let ?s = "take (nat n) ?all"
  have pos: "0 < ?len" using assms(2) by simp
  have len: "length ?s = nat n"
    using m(3) shuffled_rounds_length [of shuffle records 0 m] assms(1,3) by (simp add: nat_le_iff)
  define q where "q = nat n div ?len"
  have q: "q \<le> m" "m \<le> Suc q"
  proof -
    have "nat n \<le> m * ?len" using m(3) assms(3) by (simp add: nat_le_iff)
    then show "q \<le> m" unfolding q_def using pos div_le_mono [of "nat n" "m * ?len" ?len] by simp
    show "m \<le> Suc q"
    proof (cases m)
      case (Suc m')
      then have "m' * ?len \<le> nat n" using m(2) assms(3) by (simp add: le_nat_iff)
      then have "m' \<le> q" unfolding q_def using pos div_le_mono [of "m' * ?len" "nat n" ?len] by simp
      then show ?thesis using Suc by simp
    qed simp
  qed
  have "q * count_list records r \<le> count_list ?s r \<and> count_list ?s r \<le> Suc q * count_list records r" for r
    using taken_rounds_balanced [of shuffle "nat n" records m r] assms(1) q by (simp add: q_def)
  then show ?thesis using m(1) len assms(3) unfolding q_def
    by (intro exI [of _ ?s]) (simp add: sample_plain_def number_records_nth)
qed

definition demo_record :: "string \<Rightarrow> request_record" where
  "demo_record s =
     \<lparr>rr_request_id = None, rr_chat_cmpl = default_chat_request [], rr_output_str = Some s,
      rr_first_chunk_output_str = [], rr_timestamp = None, rr_metrics = None, rr_error_msg = None\<rparr>"

theorem sampling_balanced_witness:
  "\<exists>samples. sample_plain (\<lambda>_. rev) 5 False [demo_record ''a'', demo_record ''b''] =
       Some (Inr (number_records samples)) \<and>
     length samples = 5 \<and> 2 \<le> count_list samples (demo_record ''a'') \<and>
     count_list samples (demo_record ''a'') \<le> 3"
proof -
  let ?rs = "[demo_record ''a'', demo_record ''b'']"
  have ne: "demo_record ''b'' \<noteq> demo_record ''a''" by (simp add: demo_record_def)
  have n: "nat 5 div length ?rs = 2" by (simp add: numeral_2_eq_2 [symmetric])
  obtain samples where s: "sample_plain (\<lambda>_. rev) 5 False ?rs = Some (Inr (number_records samples))"
    "int (length samples) = 5"
    and c: "\<And>r. 2 * count_list ?rs r \<le> count_list samples r \<and> count_list samples r \<le> Suc 2 * count_list ?rs r"
    using sampling_balanced [of "\<lambda>_. rev" ?rs 5] unfolding n by auto
  show ?thesis using s c [of "demo_record ''a''"] ne by (intro exI [of _ samples]) simp
qed

section \<open>Partitions\<close>

lemma every_drop: "i < length xs \<Longrightarrow> every n (drop i xs) = xs ! i # every n (drop (i + Suc (n - 1)) xs)"
  by (simp add: Cons_nth_drop_Suc [symmetric] add.commute)

lemma every_length: "0 < n \<Longrightarrow> length (every n xs) = (length xs + n - 1) div n"
proof (induction n xs rule: every.induct)
  case (2 n x xs)
  show ?case
  proof (cases "length xs \<le> n - 1")
    case True
    then show ?thesis using 2 by (simp add: div_if)
  next
    case False
    then have "length (every n (drop (n - 1) xs)) = (length xs) div n" using 2 by simp
    moreover have "(length (x # xs) + n - 1) div n = Suc (length xs div n)" using 2(2) by simp
    ultimately show ?thesis by simp
  qed
qed simp

lemma partitions_mset:
  assumes "0 < n"
  shows "mset (concat (partitions n xs)) = mset xs"
proof (induction "length xs" arbitrary: xs rule: less_induct)
  case less
  show ?case
  proof (cases xs)
    case Nil
    then show ?thesis by (simp add: partitions_def)
  next
    case (Cons x ys)
    let ?f = "\<lambda>i. mset (every n (drop i xs))"
    have step: "?f i = mset (take 1 (drop i xs)) + mset (every n (drop i (drop n xs)))" for i
      using every_drop [of i xs n] assms
      by (cases "i < length xs") (simp_all add: take_Suc_conv_app_nth hd_drop_conv_nth take_Suc add.commute)
    have take: "(\<Sum>i\<leftarrow>[0..<k]. mset (take 1 (drop i xs))) = mset (take k xs)" for k
    proof (induction k)
      case (Suc k)
      then show ?case using take_add [of k 1 xs] by simp
    qed simp
    have all: "mset (concat (partitions n zs)) = (\<Sum>i\<leftarrow>[0..<n]. mset (every n (drop i zs)))" for zs :: "'a list"
      by (simp add: partitions_def mset_concat comp_def)
    have "mset (concat (partitions n xs)) =
        mset (take n xs) + mset (concat (partitions n (drop n xs)))"
      unfolding all step sum_list_addf take by simp
    also have "\<dots> = mset (take n xs) + mset (drop n xs)"
      using less.hyps [of "drop n xs"] assms Cons by simp
    finally show ?thesis by (metis append_take_drop_id mset_append)
  qed
qed

lemma shares_sum: "0 < n \<Longrightarrow> (\<Sum>i<n. concurrency_share k n i) = k"
proof -
  assume n: "0 < n"
  have "(\<Sum>i<n. if int i < k mod int n then 1 else 0 :: int) = int (card {i. i < n \<and> int i < k mod int n})"
    by (simp add: sum.If_cases Int_def lessThan_def)
  also have "{i. i < n \<and> int i < k mod int n} = {..<nat (k mod int n)}"
  proof -
    have "k mod int n < int n" using n by simp
    then show ?thesis by (auto simp: zless_nat_eq_int_zless)
  qed
  finally have "(\<Sum>i<n. concurrency_share k n i) = int n * (k div int n) + k mod int n"
    using n by (simp add: concurrency_share_def sum.distrib)
  then show ?thesis by simp
qed

text \<open>
  The work is spread over the processes without loss: the partitions together hold every
  request exactly once, their sizes differ by at most one, and the shares of the concurrent
  requests add up to the configured number and differ by at most one.
\<close>

theorem partitions_correct:
  assumes "0 < n"
  shows "length (partitions n rs) = n \<and> mset (concat (partitions n rs)) = mset rs \<and>
     (\<forall>i < n. length (partitions n rs ! i) \<in> {length rs div n, Suc (length rs div n)}) \<and>
     (\<Sum>i<n. concurrency_share k n i) = k \<and>
     (\<forall>i < n. concurrency_share k n i \<in> {k div int n, k div int n + 1})"
proof -
  have "length (partitions n rs ! i) \<in> {length rs div n, Suc (length rs div n)}" if i: "i < n" for i
  proof -
    have "length (partitions n rs ! i) = (length rs - i + n - 1) div n"
      using i assms every_length [of n "drop i rs"] by (simp add: partitions_def)
    moreover have "(length rs - i + n - 1) div n \<le> (length rs + n) div n"
      by (rule div_le_mono) simp
    moreover have "length rs div n \<le> (length rs - i + n - 1) div n"
      using i by (intro div_le_mono) linarith
    ultimately show ?thesis using assms by auto
  qed
  then show ?thesis using assms partitions_mset [OF assms] shares_sum [OF assms]
    by (auto simp: partitions_def concurrency_share_def)
qed

theorem partitions_correct_witness:
  "mset (concat (partitions 3 [1, 2, 3, 4, 5 :: nat])) = mset [1, 2, 3, 4, 5] \<and>
   (\<Sum>i<3. concurrency_share 10 3 i) = 10"
  using partitions_correct [of 3 "[1, 2, 3, 4, 5 :: nat]" 10] by simp

section \<open>Warm-up\<close>

text \<open>
  The split into warm-up and benchmark requests, for a positive number of warm-up requests:
  the benchmark runs on the first and the warm-up on the last records. With no warm-up
  requests the slices \<open>[:-0]\<close> and \<open>[-0:]\<close> swap the roles: all requests become warm-up requests
  and the benchmark runs on none.
\<close>

theorem warmup_split:
  assumes "int (length rs) = w + b" and "0 \<le> w" and "0 \<le> b"
  shows "split_warmup w b False rs =
     Inr (if w = 0 then ([], rs) else (take (nat b) rs, drop (nat b) rs))"
proof (cases "w = 0")
  case True
  then show ?thesis using assms by (simp add: split_warmup_def slice_upto_def slice_from_def slice_bound_def)
next
  case False
  then have "int (length rs) + - w = b" "- w < 0" using assms by auto
  then show ?thesis using assms False
    by (simp add: split_warmup_def slice_upto_def slice_from_def slice_bound_def)
qed

theorem warmup_split_witness:
  "split_warmup 1 1 False [demo_record ''a'', demo_record ''b''] =
     Inr ([demo_record ''a''], [demo_record ''b'']) \<and>
   split_warmup 0 2 False [demo_record ''a'', demo_record ''b''] =
     Inr ([], [demo_record ''a'', demo_record ''b''])"
  using warmup_split [of "[demo_record ''a'', demo_record ''b'']" 1 1]
    warmup_split [of "[demo_record ''a'', demo_record ''b'']" 0 2] by simp

text \<open>
  The pipelines fit together. In every pipeline \<open>create_pipelines\<close> builds, the number of
  sampled requests is the number \<open>WarmupAndRun\<close> expects, so that its length assertion holds,
  with one exception: with a fixed number of concurrent requests and a dataset that needs fake
  warm-up requests it fails unless there are no warm-up requests.
\<close>

theorem pipeline_counts:
  assumes "create_pipelines a fake ts = Inr ps" and "p \<in> set ps"
    and "SampleRequests n first \<in> set p" and "WarmupAndRun w b ex url f \<in> set p"
    and "int (length rs) = n"
  shows "split_warmup w b f rs = Inl AssertionError \<longleftrightarrow>
     ba_num_concurrent_requests a \<noteq> None \<and> fake \<and> w \<noteq> 0"
proof -
  have cases: "(\<exists>u k. ba_num_concurrent_requests a \<noteq> None \<and> p = concurrent_pipeline a u fake k) \<or>
      (\<exists>u v r. ba_num_concurrent_requests a = None \<and> p = rate_pipeline a u fake v r) \<or>
      (\<exists>u v. ba_num_concurrent_requests a = None \<and> p = replay_pipeline a u fake v)"
    using assms(1,2) unfolding create_pipelines_def Let_def
    by (clarsimp split: option.splits if_splits; blast)
  have split: "split_warmup w b f rs = Inl AssertionError \<longleftrightarrow>
      int (length rs) \<noteq> (if f then b else w + b)"
    by (simp add: split_warmup_def)
  from cases assms(3,4) have "f = fake \<and>
      (n = (if fake \<and> ba_num_concurrent_requests a = None then b else b + w))"
    by (elim disjE exE conjE)
       (auto simp: concurrent_pipeline_def rate_pipeline_def replay_pipeline_def Let_def split: if_splits)
  then show ?thesis unfolding split assms(5) by auto
qed

definition demo_args :: bench_args where
  "demo_args =
     \<lparr>ba_host = [], ba_port = [], ba_cuda_profile = False, ba_num_concurrent_requests = Some [4],
      ba_request_rate = None, ba_replay_timestamp_scale = None, ba_num_warmup_requests = Some 1,
      ba_num_requests = 1, ba_per_gpu_workload = False, ba_num_gpus = 1, ba_tokenizer = [],
      ba_stream = None, ba_temperature = Fin 1, ba_top_p = Fin 1, ba_ignore_eos = False,
      ba_num_process_workers = None, ba_multi_round = False, ba_max_schedule_gap = 0\<rparr>"

theorem pipeline_counts_witness:
  "\<exists>ps p ex. create_pipelines demo_args True True = Inr ps \<and> p \<in> set ps \<and>
     SampleRequests 2 False \<in> set p \<and> WarmupAndRun 1 1 ex None True \<in> set p \<and>
     split_warmup 1 1 True [demo_record ''a'', demo_record ''b''] = Inl AssertionError"
proof -
  obtain ps p ex where p: "create_pipelines demo_args True True = Inr ps" "p \<in> set ps"
     "SampleRequests 2 False \<in> set p" "WarmupAndRun 1 1 ex None True \<in> set p"
    by (simp add: create_pipelines_def demo_args_def concurrent_pipeline_def)
  then show ?thesis
    using pipeline_counts [OF p, of "[demo_record ''a'', demo_record ''b'']"]
    by (auto simp: demo_args_def)
qed

section \<open>Concurrent tasks\<close>

inductive_cases task_stepE: "task_step endpoint multi_round rs S T"

text \<open>
  The invariant: the indices below \<open>pt_sent\<close> are the ones with a result and the ones a task
  waits for, a task waits for at most one of them and no two for the same, and a task only
  finishes when all requests are sent.
\<close>

definition waiting_for :: "task_status \<Rightarrow> nat option" where
  "waiting_for t = (case t of Waiting k _ \<Rightarrow> Some k | _ \<Rightarrow> None)"

definition task_inv ::
    "(request_record \<Rightarrow> request_record \<Rightarrow> bool) \<Rightarrow> bool \<Rightarrow> request_record list \<Rightarrow> nat \<Rightarrow> process_task \<Rightarrow> bool" where
  "task_inv endpoint multi_round rs n S \<longleftrightarrow>
     pt_sent S \<le> length rs \<and> length (pt_tasks S) = n \<and> length (pt_updated S) = length rs \<and>
     (\<forall>i < n. pt_tasks S ! i = Finished \<longrightarrow> pt_sent S = length rs) \<and>
     (\<forall>i < n. \<forall>j < n. \<forall>k. waiting_for (pt_tasks S ! i) = Some k \<longrightarrow>
        waiting_for (pt_tasks S ! j) = Some k \<longrightarrow> i = j) \<and>
     (\<forall>i < n. \<forall>k q. pt_tasks S ! i = Waiting k q \<longrightarrow>
        k < pt_sent S \<and> pt_updated S ! k = None \<and> (\<exists>h. q = with_history multi_round h (rs ! k))) \<and>
     (\<forall>k < length rs. case pt_updated S ! k of
        Some r \<Rightarrow> k < pt_sent S \<and> (\<exists>h. endpoint (with_history multi_round h (rs ! k)) r)
      | None \<Rightarrow> k < pt_sent S \<longrightarrow> (\<exists>i < n. waiting_for (pt_tasks S ! i) = Some k))"

lemma task_inv_init: "task_inv endpoint multi_round rs n (process_task_init rs n)"
  by (simp add: task_inv_def process_task_init_def waiting_for_def)

lemma task_inv_send:
  assumes send: "T = S\<lparr>pt_sent := pt_sent S + 1,
      pt_tasks := (pt_tasks S)[i := Waiting (pt_sent S)
        (with_history multi_round (pt_history S ! i) (rs ! pt_sent S))]\<rparr>"
      "i < length (pt_tasks S)" "pt_tasks S ! i = Ready" "pt_sent S \<noteq> length rs"
    and inv: "task_inv endpoint multi_round rs n S"
  shows "task_inv endpoint multi_round rs n T"
proof -
  let ?k = "pt_sent S"
  have k: "?k < length rs" using send(4) inv by (auto simp: task_inv_def)
  have none: "pt_updated S ! ?k = None"
    using inv k by (auto simp: task_inv_def split: option.splits)
  have old: "\<And>j k'. j < n \<Longrightarrow> waiting_for (pt_tasks S ! j) = Some k' \<Longrightarrow> k' < ?k"
    using inv by (auto simp: task_inv_def waiting_for_def split: task_status.splits)
  have ready: "waiting_for (pt_tasks S ! i) = None" using send(3) by (simp add: waiting_for_def)
  show ?thesis unfolding task_inv_def
  proof (intro conjI allI impI)
    fix j j' k' assume *: "j < n" "j' < n" "waiting_for (pt_tasks T ! j) = Some k'"
      "waiting_for (pt_tasks T ! j') = Some k'"
    show "j = j'" using * send old inv
      by (auto simp: task_inv_def nth_list_update waiting_for_def split: if_splits dest: less_imp_neq)
  next
    fix k' assume k': "k' < length rs"
    show "case pt_updated T ! k' of
        Some r \<Rightarrow> k' < pt_sent T \<and> (\<exists>h. endpoint (with_history multi_round h (rs ! k')) r)
      | None \<Rightarrow> k' < pt_sent T \<longrightarrow> (\<exists>i < n. waiting_for (pt_tasks T ! i) = Some k')"
    proof (cases "k' = ?k")
      case True
      then show ?thesis using none send inv
        by (auto simp: task_inv_def waiting_for_def intro: exI [of _ i])
    next
      case False
      have "case pt_updated S ! k' of
          Some r \<Rightarrow> k' < ?k \<and> (\<exists>h. endpoint (with_history multi_round h (rs ! k')) r)
        | None \<Rightarrow> k' < ?k \<longrightarrow> (\<exists>i < n. waiting_for (pt_tasks S ! i) = Some k')"
        using inv k' unfolding task_inv_def by blast
      moreover have "waiting_for (pt_tasks T ! j) = Some k'"
        if "j < n" "waiting_for (pt_tasks S ! j) = Some k'" for j
        using that ready send inv by (cases "j = i") (auto simp: task_inv_def)
      ultimately show ?thesis using False send(1) by (auto split: option.splits)
    qed
  qed (use send k none inv in \<open>auto simp: task_inv_def nth_list_update split: if_splits\<close>)
qed

lemma task_inv_receive:
  assumes receive: "T = S\<lparr>pt_tasks := (pt_tasks S)[i := Ready],
      pt_updated := (pt_updated S)[k := Some r],
      pt_history := (if multi_round
        then (pt_history S)[i := cc_messages (rr_chat_cmpl r) @ [reply_message r]]
        else pt_history S)\<rparr>"
      "i < length (pt_tasks S)" "pt_tasks S ! i = Waiting k q" "endpoint q r"
    and inv: "task_inv endpoint multi_round rs n S"
  shows "task_inv endpoint multi_round rs n T"
proof -
  have i: "i < n" using receive(2) inv by (simp add: task_inv_def)
  have kq: "k < pt_sent S" "k < length rs" "\<exists>h. q = with_history multi_round h (rs ! k)"
    using receive(3) i inv unfolding task_inv_def by (auto dest: less_le_trans)
  have w: "waiting_for (pt_tasks S ! i) = Some k" using receive(3) by (simp add: waiting_for_def)
  have eq: "\<And>j. j < n \<Longrightarrow> waiting_for (pt_tasks S ! j) = Some k \<Longrightarrow> j = i"
    using inv i w unfolding task_inv_def by blast
  have wT: "waiting_for (pt_tasks T ! j) = (if j = i then None else waiting_for (pt_tasks S ! j))" for j
    using receive(1,2) by (simp add: waiting_for_def)
  have len: "length (pt_updated S) = length rs" "length (pt_tasks S) = n"
    using inv by (simp_all add: task_inv_def)
  show ?thesis unfolding task_inv_def
  proof (intro conjI allI impI)
    fix j k' q' assume *: "j < n" "pt_tasks T ! j = Waiting k' q'"
    then have j: "j \<noteq> i" "pt_tasks S ! j = Waiting k' q'"
      using receive(1,2) by (auto simp: nth_list_update split: if_splits)
    have "k' \<noteq> k" using eq [of j] j * by (auto simp: waiting_for_def)
    then have "k' < pt_sent T \<and> pt_updated T ! k' = None \<and> (\<exists>h. q' = with_history multi_round h (rs ! k'))"
      using * j receive(1) inv unfolding task_inv_def by auto
    then show "k' < pt_sent T" "pt_updated T ! k' = None" "\<exists>h. q' = with_history multi_round h (rs ! k')"
      by blast+
  next
    fix k' assume k': "k' < length rs"
    show "case pt_updated T ! k' of
        Some r \<Rightarrow> k' < pt_sent T \<and> (\<exists>h. endpoint (with_history multi_round h (rs ! k')) r)
      | None \<Rightarrow> k' < pt_sent T \<longrightarrow> (\<exists>i < n. waiting_for (pt_tasks T ! i) = Some k')"
    proof (cases "k' = k")
      case True
      then show ?thesis using receive(1,4) kq len by auto
    next
      case False
      have "case pt_updated S ! k' of
          Some r \<Rightarrow> k' < pt_sent S \<and> (\<exists>h. endpoint (with_history multi_round h (rs ! k')) r)
        | None \<Rightarrow> k' < pt_sent S \<longrightarrow> (\<exists>i < n. waiting_for (pt_tasks S ! i) = Some k')"
        using inv k' unfolding task_inv_def by blast
      moreover have "waiting_for (pt_tasks T ! j) = Some k'"
        if "waiting_for (pt_tasks S ! j) = Some k'" for j
        using that w False wT by auto
      ultimately show ?thesis using False receive(1) by (auto split: option.splits)
    qed
  next
    fix j j' k' assume "j < n" "j' < n" "waiting_for (pt_tasks T ! j) = Some k'"
      "waiting_for (pt_tasks T ! j') = Some k'"
    then show "j = j'" using inv unfolding wT task_inv_def by (auto split: if_splits)
  qed (use receive inv in \<open>auto simp: task_inv_def nth_list_update split: if_splits\<close>)
qed

lemma task_inv_step:
  assumes "task_step endpoint multi_round rs S T" "task_inv endpoint multi_round rs n S"
  shows "task_inv endpoint multi_round rs n T"
  using assms
proof (cases rule: task_step.cases)
  case (send i)
  show ?thesis by (rule task_inv_send [OF send assms(2)])
next
  case (stop i)
  have w: "waiting_for (pt_tasks T ! j) = waiting_for (pt_tasks S ! j)" for j
    using stop by (cases "j = i") (auto simp: waiting_for_def)
  have same: "pt_sent T = pt_sent S" "pt_updated T = pt_updated S" using stop by simp_all
  show ?thesis using assms(2) unfolding task_inv_def w same using stop(1-4)
    by (auto simp: nth_list_update split: if_splits)
next
  case (receive i k q r)
  show ?thesis by (rule task_inv_receive [OF receive assms(2)])
qed

text \<open>The number of steps is determined by the requests sent and the states of the tasks.\<close>

fun task_weight :: "task_status \<Rightarrow> int" where
  "task_weight Ready = 0"
| "task_weight (Waiting k q) = - 1"
| "task_weight Finished = 1"

lemma weight_update:
  "i < length ts \<Longrightarrow> sum_list (map task_weight (ts[i := t])) =
     sum_list (map task_weight ts) - task_weight (ts ! i) + task_weight t"
  by (induction ts arbitrary: i) (auto split: nat.splits)

lemma weight_bound: "sum_list (map task_weight ts) \<le> int (length ts)"
proof (induction ts)
  case (Cons t ts)
  then show ?case by (cases t) auto
qed simp

lemma no_task_run:
  "task_run endpoint multi_round rs (process_task_init rs 0) m S \<Longrightarrow> S = process_task_init rs 0"
  by (induction rule: task_run.induct) (auto elim!: task_stepE simp: process_task_init_def)

lemma task_run_inv:
  assumes "task_run endpoint multi_round rs (process_task_init rs n) m S"
  shows "task_inv endpoint multi_round rs n S \<and>
     int m = 2 * int (pt_sent S) + sum_list (map task_weight (pt_tasks S))"
  using assms
proof (induction rule: task_run.induct)
  case none
  have "sum_list (map task_weight (replicate n Ready)) = 0"
    by (simp add: sum_list_replicate)
  then show ?case by (simp add: task_inv_init) (simp add: process_task_init_def)
next
  case (more m T U)
  from more.hyps(2) more.IH have "int (Suc m) = 2 * int (pt_sent U) + sum_list (map task_weight (pt_tasks U))"
    by (cases rule: task_step.cases) (auto simp: weight_update)
  then show ?case using more task_inv_step by blast
qed

lemma task_progress:
  assumes "task_inv endpoint multi_round rs n S" "\<And>q. \<exists>r. endpoint q r" "t \<in> set (pt_tasks S)" "t \<noteq> Finished"
  shows "\<exists>T. task_step endpoint multi_round rs S T"
proof -
  obtain i where i: "i < length (pt_tasks S)" "pt_tasks S ! i = t"
    using assms(3) by (metis in_set_conv_nth)
  show ?thesis
  proof (cases t)
    case Ready
    then show ?thesis using i task_step.send [of i S rs] task_step.stop [of i S rs] by metis
  next
    case (Waiting k q)
    then show ?thesis using i assms(2) [of q] task_step.receive [of i S k q] by metis
  qed (use assms(4) in simp)
qed

text \<open>
  C28: the concurrent tasks of a process, in any interleaving. Every run ends after at most two
  steps per request and one per task; as long as the endpoint answers, a run whose tasks are
  not all finished can go on; and when all have finished and there was at least one task,
  every request has been answered exactly once, with an answer to that request (with the
  chat history in front in multi-round mode). With no task at all no request is sent and
  every entry of the result stays \<open>None\<close>.
\<close>

theorem concurrent_tasks_complete:
  assumes run: "task_run endpoint multi_round rs (process_task_init rs n) m S"
  shows "m \<le> 2 * length rs + n \<and>
     ((\<forall>q. \<exists>r. endpoint q r) \<longrightarrow> (\<exists>t \<in> set (pt_tasks S). t \<noteq> Finished) \<longrightarrow>
        (\<exists>T. task_step endpoint multi_round rs S T)) \<and>
     ((\<forall>t \<in> set (pt_tasks S). t = Finished) \<longrightarrow> 0 < n \<longrightarrow>
        length (pt_updated S) = length rs \<and>
        (\<forall>k < length rs. \<exists>r h. pt_updated S ! k = Some r \<and> endpoint (with_history multi_round h (rs ! k)) r)) \<and>
     (n = 0 \<longrightarrow> pt_updated S = replicate (length rs) None)"
proof -
  have inv: "task_inv endpoint multi_round rs n S"
    and m: "int m = 2 * int (pt_sent S) + sum_list (map task_weight (pt_tasks S))"
    using task_run_inv [OF run] by auto
  have len: "length (pt_tasks S) = n" "pt_sent S \<le> length rs" "length (pt_updated S) = length rs"
    using inv by (simp_all add: task_inv_def)
  have "m \<le> 2 * length rs + n" using m weight_bound [of "pt_tasks S"] len by linarith
  moreover have "\<exists>r h. pt_updated S ! k = Some r \<and> endpoint (with_history multi_round h (rs ! k)) r"
    if fin: "\<forall>t \<in> set (pt_tasks S). t = Finished" and n: "0 < n" and k: "k < length rs" for k
  proof -
    have all: "pt_tasks S ! i = Finished" if "i < n" for i using fin that len by simp
    then have "pt_sent S = length rs" using inv n unfolding task_inv_def by blast
    then show ?thesis using inv k all unfolding task_inv_def
      by (auto split: option.splits simp: waiting_for_def)
  qed
  moreover have "pt_updated S = replicate (length rs) None" if "n = 0"
    using no_task_run [of endpoint multi_round rs m S] run that by (simp add: process_task_init_def)
  ultimately show ?thesis using task_progress [OF inv] len(3) by blast
qed

theorem concurrent_tasks_complete_witness:
  "\<exists>S. task_run (\<lambda>q r. r = q) False [demo_record ''a''] (process_task_init [demo_record ''a''] 1) 3 S \<and>
     pt_tasks S = [Finished] \<and> (\<exists>r. pt_updated S ! 0 = Some r \<and> r = demo_record ''a'')"
proof -
  let ?rs = "[demo_record ''a'']"
  let ?S0 = "process_task_init ?rs 1"
  let ?S1 = "?S0\<lparr>pt_sent := 1, pt_tasks := [Waiting 0 (demo_record ''a'')]\<rparr>"
  let ?S2 = "?S1\<lparr>pt_tasks := [Ready], pt_updated := [Some (demo_record ''a'')]\<rparr>"
  let ?S3 = "?S2\<lparr>pt_tasks := [Finished]\<rparr>"
  let ?step = "task_step (\<lambda>q r. r = q) False ?rs"
  have "?step ?S0 ?S1"
    using task_step.send [of 0 ?S0 ?rs "\<lambda>q r. r = q" False]
    by (simp add: process_task_init_def with_history_def)
  moreover have "?step ?S1 ?S2"
    using task_step.receive [of 0 ?S1 0 "demo_record ''a''" "\<lambda>q r. r = q" "demo_record ''a''" False ?rs]
    by (simp add: process_task_init_def)
  moreover have "?step ?S2 ?S3"
    using task_step.stop [of 0 ?S2 ?rs "\<lambda>q r. r = q" False] by (simp add: process_task_init_def)
  ultimately have run: "task_run (\<lambda>q r. r = q) False ?rs ?S0 3 ?S3"
    unfolding numeral_3_eq_3 by (meson task_run.none task_run.more)
  have "\<exists>r h. pt_updated ?S3 ! 0 = Some r \<and> r = with_history False h (?rs ! 0)"
    using concurrent_tasks_complete [OF run] by simp
  then show ?thesis using run by (intro exI [of _ ?S3]) (auto simp: with_history_def)
qed

end
