(* ===== verification/Flags.thy ===== *)
theory Flags
  imports Engine_Config
begin

text \<open>
  Flag strings of the form \<open>key=value;key=value\<close>: the optimization flags and the overrides of
  model and engine configs (\<open>interface/compiler_flags.py\<close>, \<open>cli/serve.py\<close>), their parsing with
  \<open>argparse\<close>, the strings the just-in-time compiler passes to its compile command
  (\<open>interface/jit.py\<close>), and the application of overrides to a config (\<open>support/config.py\<close>).
\<close>

section \<open>Numbers in text\<close>

definition digit_value :: "char \<Rightarrow> nat" where
  "digit_value c = of_char c - 48"

definition is_digit :: "char \<Rightarrow> bool" where
  "is_digit c \<longleftrightarrow> 48 \<le> (of_char c :: nat) \<and> (of_char c :: nat) \<le> 57"

text \<open>Digits with single underscores between them; \<open>d\<close> tells whether the last one was a digit.\<close>

fun digits_value :: "nat \<Rightarrow> bool \<Rightarrow> string \<Rightarrow> nat option" where
  "digits_value acc d [] = (if d then Some acc else None)"
| "digits_value acc d (c # cs) =
     (if is_digit c then digits_value (acc * 10 + digit_value c) True cs
      else if c = CHR ''_'' \<and> d then digits_value acc False cs else None)"

text \<open>\<open>int(s)\<close>; \<open>None\<close> stands for its \<open>ValueError\<close>.\<close>

definition py_int :: "string \<Rightarrow> int option" where
  "py_int s =
     (case str_strip s of
        [] \<Rightarrow> None
      | c # cs \<Rightarrow>
          if c = CHR ''-'' then map_option (\<lambda>n. - int n) (digits_value 0 False cs)
          else if c = CHR ''+'' then map_option int (digits_value 0 False cs)
          else map_option int (digits_value 0 False (c # cs)))"

section \<open>Parsing override strings\<close>

text \<open>
  \<open>parser.parse_args([f"--{i}" for i in source.split(";") if i])\<close>: an item is an option with its
  value after the first \<open>=\<close>; an option may be abbreviated to a unique prefix (\<open>--help\<close> counts);
  later items replace earlier ones. Every error ends the process: an unknown or ambiguous
  option, a value its type refuses, and an item without a value.
\<close>

type_synonym option_types = "(string \<times> (string \<Rightarrow> json option)) list"

fun split_eq :: "string \<Rightarrow> (string \<times> string) option" where
  "split_eq [] = None"
| "split_eq (c # cs) =
     (if c = CHR ''='' then Some ([], cs)
      else case split_eq cs of None \<Rightarrow> None | Some (k, v) \<Rightarrow> Some (c # k, v))"

definition option_for :: "string list \<Rightarrow> string \<Rightarrow> string option" where
  "option_for names key =
     (if key \<in> set names then Some key
      else case filter (prefix key) names of [n] \<Rightarrow> Some n | _ \<Rightarrow> None)"

definition override_step :: "option_types \<Rightarrow> json dict \<Rightarrow> string \<Rightarrow> json dict res" where
  "override_step types d item =
     (case split_eq item of
        None \<Rightarrow> Inl SystemExit
      | Some (key, v) \<Rightarrow>
          (case option_for (map fst types @ [''help'']) key of
             None \<Rightarrow> Inl SystemExit
           | Some n \<Rightarrow>
               (case map_of types n of
                  None \<Rightarrow> Inl SystemExit
                | Some conv \<Rightarrow>
                    (case conv v of None \<Rightarrow> Inl SystemExit | Some j \<Rightarrow> Inr (dict_set d n j)))))"

definition parse_overrides :: "option_types \<Rightarrow> json dict \<Rightarrow> string \<Rightarrow> json dict res" where
  "parse_overrides types defaults source =
     foldR (override_step types) defaults (filter (\<lambda>i. i \<noteq> []) (str_split (CHR '';'') source))"

definition conv_int :: "string \<Rightarrow> json option" where
  "conv_int v = map_option JInt (py_int v)"

definition conv_str :: "string \<Rightarrow> json option" where
  "conv_str v = Some (JStr v)"

definition conv_boolean :: "string \<Rightarrow> json option" where
  "conv_boolean v =
     (if v = ''0'' then Some (JBool False) else if v = ''1'' then Some (JBool True) else None)"

definition conv_choice :: "string list \<Rightarrow> string \<Rightarrow> json option" where
  "conv_choice cs v = (if v \<in> set cs then Some (JStr v) else None)"

definition conv_truth :: "string \<Rightarrow> json option" where
  "conv_truth v = Some (JBool (str_lower v \<in> {''true'', ''1'', ''yes'', ''True''}))"

text \<open>\<open>f"{key}={value}"\<close>, joined by semicolons.\<close>

definition override_item :: "string \<times> string \<Rightarrow> string" where
  "override_item p = fst p @ ''='' @ snd p"

definition override_string :: "(string \<times> string) list \<Rightarrow> string" where
  "override_string kvs = str_join '';'' (map override_item kvs)"

section \<open>Optimization flags\<close>

datatype ipc_strategy = IPC_NONE | IPC_ONESHOT | IPC_TWOSHOT | IPC_AUTO

fun ipc_name :: "ipc_strategy \<Rightarrow> string" where
  "ipc_name IPC_NONE = ''NONE''"
| "ipc_name IPC_ONESHOT = ''ONESHOT''"
| "ipc_name IPC_TWOSHOT = ''TWOSHOT''"
| "ipc_name IPC_AUTO = ''AUTO''"

definition ipc_of_name :: "string \<Rightarrow> ipc_strategy res" where
  "ipc_of_name s =
     (if s = ''NONE'' then Inr IPC_NONE else if s = ''ONESHOT'' then Inr IPC_ONESHOT
      else if s = ''TWOSHOT'' then Inr IPC_TWOSHOT else if s = ''AUTO'' then Inr IPC_AUTO
      else Inl (KeyError s))"

record optimization_flags =
  of_flashinfer :: bool
  of_cublas_gemm :: bool
  of_faster_transformer :: bool
  of_cudagraph :: bool
  of_cutlass :: bool
  of_ipc_allreduce_strategy :: ipc_strategy

definition bit_str :: "bool \<Rightarrow> string" where
  "bit_str b = (if b then ''1'' else ''0'')"

definition optimization_flags_repr :: "optimization_flags \<Rightarrow> string" where
  "optimization_flags_repr f =
     override_string
       [(''flashinfer'', bit_str (of_flashinfer f)),
        (''cublas_gemm'', bit_str (of_cublas_gemm f)),
        (''faster_transformer'', bit_str (of_faster_transformer f)),
        (''cudagraph'', bit_str (of_cudagraph f)),
        (''cutlass'', bit_str (of_cutlass f)),
        (''ipc_allreduce_strategy'', ipc_name (of_ipc_allreduce_strategy f))]"

definition opt_flag_preset :: "optimization_flags dict" where
  "opt_flag_preset =
     [(''O0'', \<lparr>of_flashinfer = False, of_cublas_gemm = False, of_faster_transformer = False,
               of_cudagraph = False, of_cutlass = False, of_ipc_allreduce_strategy = IPC_NONE\<rparr>),
      (''O1'', \<lparr>of_flashinfer = False, of_cublas_gemm = True, of_faster_transformer = True,
               of_cudagraph = False, of_cutlass = True, of_ipc_allreduce_strategy = IPC_NONE\<rparr>),
      (''O2'', \<lparr>of_flashinfer = True, of_cublas_gemm = True, of_faster_transformer = False,
               of_cudagraph = True, of_cutlass = True, of_ipc_allreduce_strategy = IPC_NONE\<rparr>),
      (''O3'', \<lparr>of_flashinfer = True, of_cublas_gemm = True, of_faster_transformer = True,
               of_cudagraph = True, of_cutlass = True, of_ipc_allreduce_strategy = IPC_AUTO\<rparr>)]"

definition opt_flag_types :: option_types where
  "opt_flag_types =
     [(''flashinfer'', conv_boolean), (''cublas_gemm'', conv_boolean),
      (''faster_transformer'', conv_boolean), (''cudagraph'', conv_boolean),
      (''cutlass'', conv_boolean),
      (''ipc_allreduce_strategy'', conv_choice [''NONE'', ''ONESHOT'', ''TWOSHOT'', ''AUTO''])]"

definition opt_flag_defaults :: "json dict" where
  "opt_flag_defaults =
     [(''flashinfer'', JBool True), (''cublas_gemm'', JBool False),
      (''faster_transformer'', JBool False), (''cudagraph'', JBool False),
      (''cutlass'', JBool False), (''ipc_allreduce_strategy'', JStr ''NONE'')]"

definition flags_of_results :: "json dict \<Rightarrow> optimization_flags res" where
  "flags_of_results d =
     bindR (bindR (dict_item d ''flashinfer'') get_bool) (\<lambda>a.
     bindR (bindR (dict_item d ''cublas_gemm'') get_bool) (\<lambda>b.
     bindR (bindR (dict_item d ''faster_transformer'') get_bool) (\<lambda>c.
     bindR (bindR (dict_item d ''cudagraph'') get_bool) (\<lambda>e.
     bindR (bindR (dict_item d ''cutlass'') get_bool) (\<lambda>f.
     bindR (bindR (dict_item d ''ipc_allreduce_strategy'') get_str) (\<lambda>s.
     bindR (ipc_of_name s) (\<lambda>i.
     Inr \<lparr>of_flashinfer = a, of_cublas_gemm = b, of_faster_transformer = c, of_cudagraph = e,
          of_cutlass = f, of_ipc_allreduce_strategy = i\<rparr>)))))))"

text \<open>
  \<open>from_str\<close> hands out the preset object itself: the second component names the preset that
  shares its memory with the result.
\<close>

definition optimization_flags_from_str ::
    "optimization_flags dict \<Rightarrow> string \<Rightarrow> (optimization_flags \<times> string option) res" where
  "optimization_flags_from_str presets source =
     (case dict_get presets source of
        Some f \<Rightarrow> Inr (f, Some source)
      | None \<Rightarrow>
          bindR (parse_overrides opt_flag_types opt_flag_defaults source) (\<lambda>d.
          bindR (flags_of_results d) (\<lambda>f. Inr (f, None))))"

text \<open>\<open>update\<close> for a target kind with its CUDA architectures and a quantization name.\<close>

definition flags_update ::
    "string \<Rightarrow> int list \<Rightarrow> string \<Rightarrow> optimization_flags \<Rightarrow> optimization_flags" where
  "flags_update kind archs quantization f =
     f\<lparr>of_flashinfer := of_flashinfer f \<and> kind = ''cuda'' \<and> (\<forall>a \<in> set archs. \<not> a < 80),
       of_cublas_gemm :=
         kind \<in> {''cuda'', ''rocm''} \<and>
         (quantization \<in> {''q0f16'', ''q0bf16'', ''q0f32''} \<or> sublist ''e4m3'' quantization \<or>
          sublist ''e5m2'' quantization) \<and> of_cublas_gemm f,
       of_faster_transformer := kind = ''cuda'' \<and> of_faster_transformer f,
       of_cutlass := kind = ''cuda'' \<and> of_cutlass f,
       of_cudagraph := kind = ''cuda'' \<and> of_cudagraph f\<rparr>"

text \<open>The table of the presets after the update of a handed-out object.\<close>

definition presets_after_update ::
    "string \<Rightarrow> int list \<Rightarrow> string \<Rightarrow> optimization_flags \<times> string option \<Rightarrow> optimization_flags dict \<Rightarrow>
     optimization_flags dict" where
  "presets_after_update kind archs quantization obj presets =
     (case obj of
        (f, Some name) \<Rightarrow> dict_set presets name (flags_update kind archs quantization f)
      | (f, None) \<Rightarrow> presets)"

section \<open>Model config overrides\<close>

definition override_int_fields :: "string list" where
  "override_int_fields =
     [''context_window_size'', ''sliding_window_size'', ''prefill_chunk_size'',
      ''attention_sink_size'', ''max_batch_size'', ''tensor_parallel_shards'',
      ''pipeline_parallel_stages'']"

definition model_override_fields :: "string list" where
  "model_override_fields = override_int_fields @ [''disaggregation'']"

definition model_override_types :: option_types where
  "model_override_types =
     map (\<lambda>n. (n, conv_int)) override_int_fields @ [(''disaggregation'', conv_truth)]"

text \<open>A \<open>ModelConfigOverride\<close> is the dict of its fields, \<open>JNull\<close> for \<open>None\<close>.\<close>

definition model_config_override_from_str :: "string \<Rightarrow> json dict res" where
  "model_config_override_from_str source =
     parse_overrides model_override_types (map (\<lambda>n. (n, JNull)) model_override_fields) source"

text \<open>\<open>str(value)\<close> of an integer or a boolean.\<close>

definition value_str :: "json \<Rightarrow> string" where
  "value_str v =
     (case v of JInt i \<Rightarrow> int_str i | JBool b \<Rightarrow> (if b then ''True'' else ''False'') | _ \<Rightarrow> ''None'')"

definition jit_forbid_list :: "string list" where
  "jit_forbid_list = [''context_window_size'', ''sliding_window_size'', ''attention_sink_size'']"

text \<open>The fields that \<open>_get_overrides\<close> prints, with their values.\<close>

definition jit_fields :: "json dict \<Rightarrow> (string \<times> json) list" where
  "jit_fields overrides =
     concat (map (\<lambda>n. case dict_get overrides n of
         None \<Rightarrow> []
       | Some v \<Rightarrow>
           if v = JNull \<or> (n \<in> set jit_forbid_list \<and> v = JInt (- 1)) then [] else [(n, v)])
       model_override_fields)"

definition jit_overrides :: "json dict \<Rightarrow> string" where
  "jit_overrides overrides = override_string (map (\<lambda>(n, v). (n, value_str v)) (jit_fields overrides))"

definition jit_optimization_flags :: "optimization_flags dict \<Rightarrow> json dict \<Rightarrow> string res" where
  "jit_optimization_flags presets overrides =
     bindR (case dict_get overrides ''opt'' of
              None \<Rightarrow> Inr ''O2'' | Some JNull \<Rightarrow> Inr ''O2'' | Some v \<Rightarrow> get_str v) (\<lambda>opt.
     bindR (optimization_flags_from_str presets opt) (\<lambda>(f, _). Inr (optimization_flags_repr f)))"

section \<open>Configs\<close>

text \<open>
  A config of a class with the field names \<open>names\<close> is the dict of its fields and the dict of
  the extra entries (\<open>kwargs\<close>). \<open>ctor\<close> stands for the constructor of the dataclass: it
  fills in the defaults of the class.
\<close>

definition config_from_dict ::
    "string list \<Rightarrow> (json dict \<Rightarrow> json dict res) \<Rightarrow> json dict \<Rightarrow> (json dict \<times> json dict) res" where
  "config_from_dict names ctor source =
     bindR (ctor (filter (\<lambda>p. fst p \<in> set names) source)) (\<lambda>fields.
       Inr (fields, filter (\<lambda>p. fst p \<notin> set names) source))"

definition override_field :: "json dict \<Rightarrow> string \<times> json \<Rightarrow> json dict" where
  "override_field updated p =
     (if snd p = JNull \<or> dict_get updated (fst p) = None then updated
      else dict_set updated (fst p) (snd p))"

definition config_override_apply ::
    "string list \<Rightarrow> (json dict \<Rightarrow> json dict res) \<Rightarrow> json dict \<Rightarrow> json dict \<Rightarrow>
     (json dict \<times> json dict) res" where
  "config_override_apply names ctor overrides config =
     config_from_dict names ctor (foldl override_field config overrides)"

end
