(* ===== verification/Flags_Correct.thy ===== *)
theory Flags_Correct
  imports Flags
begin

text \<open>
  Properties of the flag strings: what is printed is parsed back, for the optimization flags
  and for the overrides the just-in-time compiler passes on; what \<open>update\<close> does to the shared
  presets; and which fields an override changes.
\<close>

section \<open>Printed integers\<close>

lemma digit_char: "n < 10 \<Longrightarrow> is_digit (char_of (48 + n)) \<and> digit_value (char_of (48 + n)) = n"
  by (simp add: is_digit_def digit_value_def of_char_of)

lemma nat_digits_digits: "list_all is_digit (nat_digits n) \<and> nat_digits n \<noteq> []"
proof (induction n rule: nat_digits.induct)
  case (1 n)
  then show ?case using digit_char [of "n mod 10"] digit_char [of n]
    by (subst nat_digits.simps, subst (2) nat_digits.simps) auto
qed

lemma nat_digits_value: "foldl (\<lambda>a c. a * 10 + digit_value c) 0 (nat_digits n) = n"
proof (induction n rule: nat_digits.induct)
  case (1 n)
  then show ?case using digit_char [of "n mod 10"] digit_char [of n]
    by (subst nat_digits.simps) auto
qed

lemma digits_value_digits:
  "list_all is_digit xs \<Longrightarrow> xs \<noteq> [] \<or> d \<Longrightarrow>
     digits_value acc d xs = Some (foldl (\<lambda>a c. a * 10 + digit_value c) acc xs)"
  by (induction xs arbitrary: acc d) auto

lemma digits_value_nat_digits: "digits_value 0 False (nat_digits n) = Some n"
  using digits_value_digits [of "nat_digits n" False 0] nat_digits_digits [of n] nat_digits_value [of n]
  by simp

lemma not_digit [simp]:
  "\<not> is_digit (CHR ''-'')" "\<not> is_digit (CHR '';'')" "\<not> is_digit (CHR ''='')" "\<not> is_digit (CHR ''+'')"
  by (simp_all add: is_digit_def)

lemma digit_not_space: "is_digit c \<Longrightarrow> \<not> is_space c"
  by (auto simp: is_digit_def is_space_def)

lemma strip_id: "s \<noteq> [] \<Longrightarrow> \<not> is_space (hd s) \<Longrightarrow> \<not> is_space (last s) \<Longrightarrow> str_strip s = s"
proof -
  assume s: "s \<noteq> []" "\<not> is_space (hd s)" "\<not> is_space (last s)"
  have "dropWhile is_space s = s" using s by (cases s) auto
  moreover have "dropWhile is_space (rev s) = rev s" using s by (cases s rule: rev_cases) auto
  ultimately show ?thesis by (simp add: str_strip_def)
qed

lemma int_str_chars: "c \<in> set (int_str i) \<Longrightarrow> is_digit c \<or> c = CHR ''-''"
  using nat_digits_digits [of "nat i"] nat_digits_digits [of "nat (- i)"]
  by (auto simp: int_str_def list_all_iff split: if_splits)

lemma int_str_strip: "str_strip (int_str i) = int_str i"
proof -
  have ne: "int_str i \<noteq> []" using nat_digits_digits by (auto simp: int_str_def)
  have "\<not> is_space c" if "c \<in> set (int_str i)" for c
    using int_str_chars [OF that] digit_not_space by (auto simp: is_space_def)
  then show ?thesis using ne by (intro strip_id) auto
qed

lemma py_int_str [simp]: "py_int (int_str i) = Some i"
proof (cases "i < 0")
  case True
  then have "int_str i = CHR ''-'' # nat_digits (nat (- i))" by (simp add: int_str_def)
  then show ?thesis using True int_str_strip [of i]
    by (simp add: py_int_def digits_value_nat_digits)
next
  case False
  then have i: "int_str i = nat_digits (nat i)" by (simp add: int_str_def)
  obtain c cs where c: "nat_digits (nat i) = c # cs" "is_digit c"
    using nat_digits_digits [of "nat i"] by (cases "nat_digits (nat i)") auto
  then have "c \<noteq> CHR ''-''" "c \<noteq> CHR ''+''" using not_digit by auto
  then show ?thesis using False int_str_strip [of i] digits_value_nat_digits [of "nat i"]
    unfolding i c(1) py_int_def by simp
qed

section \<open>Printed override strings\<close>

lemma split_absent: "c \<notin> set s \<Longrightarrow> str_split c s = [s]"
  by (induction s) auto

lemma split_append: "c \<notin> set s \<Longrightarrow> str_split c (s @ c # t) = s # str_split c t"
  by (induction s) auto

lemma split_join:
  "xs \<noteq> [] \<Longrightarrow> (\<And>x. x \<in> set xs \<Longrightarrow> c \<notin> set x) \<Longrightarrow> str_split c (str_join [c] xs) = xs"
  by (induction xs rule: induct_list012) (simp_all add: split_absent split_append)

lemma split_eq_item: "CHR ''='' \<notin> set k \<Longrightarrow> split_eq (k @ CHR ''='' # v) = Some (k, v)"
  by (induction k) auto

lemma override_step_item:
  assumes "map_of types n = Some conv" "conv v = Some j" "CHR ''='' \<notin> set n"
  shows "override_step types d (override_item (n, v)) = Inr (dict_set d n j)"
proof -
  have "n \<in> fst ` set types" using assms(1) by (metis map_of_eq_None_iff option.distinct(1))
  then show ?thesis using assms
    by (simp add: override_step_def override_item_def split_eq_item option_for_def)
qed

text \<open>An entry whose printed form is parsed back.\<close>

definition printable :: "option_types \<Rightarrow> string \<times> string \<times> json \<Rightarrow> bool" where
  "printable types p =
     (case p of (n, v, j) \<Rightarrow>
        n \<noteq> [] \<and> CHR ''='' \<notin> set n \<and> CHR '';'' \<notin> set n \<and> CHR '';'' \<notin> set v \<and>
        (case map_of types n of None \<Rightarrow> False | Some conv \<Rightarrow> conv v = Some j))"

lemma parse_printed:
  assumes "list_all (printable types) kvs"
  shows "parse_overrides types defaults (override_string (map (\<lambda>(n, v, j). (n, v)) kvs)) =
     Inr (foldl (\<lambda>d (n, v, j). dict_set d n j) defaults kvs)"
proof -
  let ?items = "map (\<lambda>(n, v, j). override_item (n, v)) kvs"
  have "CHR '';'' \<notin> set x \<and> x \<noteq> []" if "x \<in> set ?items" for x
    using that assms by (fastforce simp: override_item_def printable_def list_all_iff)
  then have items: "filter (\<lambda>i. i \<noteq> []) (str_split (CHR '';'') (str_join '';'' ?items)) = ?items"
    using split_join [of ?items "CHR '';''"] by (cases "kvs = []") (auto simp: filter_id_conv)
  have "foldR (override_step types) d ?items = Inr (foldl (\<lambda>d (n, v, j). dict_set d n j) d kvs)" for d
    using assms
  proof (induction kvs arbitrary: d)
    case (Cons p kvs)
    obtain n v j where p: "p = (n, v, j)" by (cases p)
    obtain conv where c: "map_of types n = Some conv" "conv v = Some j" "CHR ''='' \<notin> set n"
      using Cons.prems p by (auto simp: printable_def split: option.splits)
    have "foldR (override_step types) d' (map (\<lambda>(n, v, j). override_item (n, v)) kvs) =
        Inr (foldl (\<lambda>d (n, v, j). dict_set d n j) d' kvs)" for d'
      by (rule Cons.IH) (use Cons.prems in simp)
    then show ?case using override_step_item [OF c, of d] p by simp
  qed simp
  then show ?thesis using items
    by (simp add: parse_overrides_def override_string_def comp_def case_prod_unfold)
qed

lemma foldl_dict_set:
  "distinct (map fst kvs) \<Longrightarrow>
     dict_get (foldl (\<lambda>d (n, v, j). dict_set d n j) d kvs) k =
       (case map_of (map (\<lambda>(n, v, j). (n, j)) kvs) k of Some j \<Rightarrow> Some j | None \<Rightarrow> dict_get d k)"
proof (induction kvs arbitrary: d)
  case (Cons p kvs)
  obtain n v j where p: "p = (n, v, j)" by (cases p)
  have "map_of (map (\<lambda>(n, v, j). (n, j)) kvs) n = None"
    using Cons.prems p by (force simp: map_of_eq_None_iff)
  then show ?case using Cons p by (auto simp: dict_get_set split: option.splits)
qed simp

text \<open>
  The interface of an override class: option names that can be written in an override string,
  and a default for every option. A string that lists some options with values their types
  accept is parsed to these values and the defaults.
\<close>

definition converts :: "option_types \<Rightarrow> string \<times> string \<times> json \<Rightarrow> bool" where
  "converts types p =
     (case p of (n, v, j) \<Rightarrow>
        CHR '';'' \<notin> set v \<and> (case map_of types n of None \<Rightarrow> False | Some conv \<Rightarrow> conv v = Some j))"

locale override_format =
  fixes types :: option_types and defaults :: "json dict"
  assumes names: "n \<in> fst ` set types \<Longrightarrow> n \<noteq> [] \<and> CHR ''='' \<notin> set n \<and> CHR '';'' \<notin> set n"
    and total: "fst ` set defaults = fst ` set types"
begin

lemma converts_printable: "converts types p \<Longrightarrow> printable types p"
proof (cases p)
  case (fields n v j)
  assume p: "converts types p"
  then have "n \<in> fst ` set types"
    using fields by (auto simp: converts_def split: option.splits dest: map_of_SomeD intro: rev_image_eqI)
  then show ?thesis using p fields names by (simp add: converts_def printable_def)
qed

lemma parse_values:
  assumes "list_all (converts types) kvs" "distinct (map fst kvs)"
  shows "\<exists>r. parse_overrides types defaults (override_string (map (\<lambda>(n, v, j). (n, v)) kvs)) = Inr r \<and>
     (\<forall>k. dict_get r k = (case map_of (map (\<lambda>(n, v, j). (n, j)) kvs) k of
        Some j \<Rightarrow> Some j | None \<Rightarrow> dict_get defaults k)) \<and>
     (\<forall>n \<in> fst ` set types. dict_get r n \<noteq> None)"
proof -
  have "list_all (printable types) kvs"
    using assms(1) converts_printable by (auto simp: list_all_iff)
  note parsed = parse_printed [OF this, of defaults] foldl_dict_set [OF assms(2), of defaults]
  have dflt: "dict_get defaults n \<noteq> None" if "n \<in> fst ` set types" for n
    using that total dict_get_None_iff [of defaults n] by blast
  have "\<forall>n \<in> fst ` set types. dict_get (foldl (\<lambda>d (n, v, j). dict_set d n j) defaults kvs) n \<noteq> None"
  proof
    fix n
    assume "n \<in> fst ` set types"
    from dflt [OF this] show "dict_get (foldl (\<lambda>d (n, v, j). dict_set d n j) defaults kvs) n \<noteq> None"
      by (simp add: parsed(2) split: option.splits)
  qed
  then show ?thesis using parsed by blast
qed

end

section \<open>Optimization flags\<close>

interpretation opt_format: override_format opt_flag_types opt_flag_defaults
  by unfold_locales (auto simp: opt_flag_types_def opt_flag_defaults_def)

lemma conv_bit: "conv_boolean (bit_str b) = Some (JBool b)"
  by (simp add: conv_boolean_def bit_str_def)

text \<open>
  The optimization flags survive being printed and parsed: the string the just-in-time
  compiler passes to the compile command denotes the same flags, and it never names a preset.
\<close>

theorem optimization_flags_roundtrip:
  "optimization_flags_from_str opt_flag_preset (optimization_flags_repr f) = Inr (f, None)"
proof -
  let ?kvs = "[(''flashinfer'', bit_str (of_flashinfer f), JBool (of_flashinfer f)),
        (''cublas_gemm'', bit_str (of_cublas_gemm f), JBool (of_cublas_gemm f)),
        (''faster_transformer'', bit_str (of_faster_transformer f), JBool (of_faster_transformer f)),
        (''cudagraph'', bit_str (of_cudagraph f), JBool (of_cudagraph f)),
        (''cutlass'', bit_str (of_cutlass f), JBool (of_cutlass f)),
        (''ipc_allreduce_strategy'', ipc_name (of_ipc_allreduce_strategy f),
          JStr (ipc_name (of_ipc_allreduce_strategy f)))]"
  have ipc: "conv_choice [''NONE'', ''ONESHOT'', ''TWOSHOT'', ''AUTO''] (ipc_name i) = Some (JStr (ipc_name i))"
    "ipc_of_name (ipc_name i) = Inr i" "CHR '';'' \<notin> set (ipc_name i)" for i
    by (cases i; simp add: conv_choice_def ipc_of_name_def)+
  have bit: "CHR '';'' \<notin> set (bit_str b)" for b by (simp add: bit_str_def)
  have "list_all (converts opt_flag_types) ?kvs" "distinct (map fst ?kvs)"
    by (simp_all add: converts_def opt_flag_types_def conv_bit ipc bit)
  from opt_format.parse_values [OF this] obtain r where
    r: "parse_overrides opt_flag_types opt_flag_defaults (optimization_flags_repr f) = Inr r"
      "\<And>k. dict_get r k = (case map_of (map (\<lambda>(n, v, j). (n, j)) ?kvs) k of
        Some j \<Rightarrow> Some j | None \<Rightarrow> dict_get opt_flag_defaults k)"
    by (auto simp: optimization_flags_repr_def)
  have "dict_get opt_flag_preset (optimization_flags_repr f) = None"
    by (simp add: optimization_flags_repr_def override_string_def override_item_def opt_flag_preset_def)
  then show ?thesis
    by (simp add: optimization_flags_from_str_def r flags_of_results_def get_bool_def get_str_def dict_item_def ipc)
qed

text \<open>
  The presets are shared objects. Updating the flags of a preset for a target changes what
  \<open>from_str\<close> returns for that preset from then on; once a preset was updated for a target that is
  neither CUDA nor ROCm, no later update for any target enables one of its boolean flags again.
\<close>

theorem preset_shared_by_updates:
  assumes "optimization_flags_from_str presets name = Inr (f, Some name)"
  shows "optimization_flags_from_str (presets_after_update kind archs q (f, Some name) presets) name =
       Inr (flags_update kind archs q f, Some name) \<and>
     (kind \<notin> {''cuda'', ''rocm''} \<longrightarrow>
        flags_update kind' archs' q' (flags_update kind archs q f) =
        \<lparr>of_flashinfer = False, of_cublas_gemm = False, of_faster_transformer = False,
         of_cudagraph = False, of_cutlass = False,
         of_ipc_allreduce_strategy = of_ipc_allreduce_strategy f\<rparr>)"
proof -
  have "optimization_flags_from_str (presets_after_update kind archs q (f, Some name) presets) name =
       Inr (flags_update kind archs q f, Some name)"
    by (simp add: optimization_flags_from_str_def presets_after_update_def)
  then show ?thesis by (cases f) (simp add: flags_update_def)
qed

theorem preset_shared_by_updates_witness:
  "\<exists>f. optimization_flags_from_str opt_flag_preset ''O2'' = Inr (f, Some ''O2'') \<and> of_cutlass f \<and>
     (\<exists>g. optimization_flags_from_str
        (presets_after_update ''metal'' [] ''q4f16_1'' (f, Some ''O2'') opt_flag_preset) ''O2'' =
        Inr (g, Some ''O2'') \<and> \<not> of_cutlass g)"
proof -
  obtain f where f: "optimization_flags_from_str opt_flag_preset ''O2'' = Inr (f, Some ''O2'')" "of_cutlass f"
    by (simp add: optimization_flags_from_str_def opt_flag_preset_def dict_get_def)
  have "\<not> of_cutlass (flags_update ''metal'' [] ''q4f16_1'' f)" by (simp add: flags_update_def)
  then show ?thesis
    using f preset_shared_by_updates [OF f(1), of "''metal''" "[]" "''q4f16_1''"] by blast
qed

section \<open>Overrides of the just-in-time compiler\<close>

lemma map_of_concat_single:
  assumes "\<And>n. f n = [] \<or> (\<exists>v. f n = [(n, v)])"
  shows "map_of (concat (map f ns)) n = (if n \<in> set ns then map_of (f n) n else None)"
proof (induction ns)
  case (Cons m ns)
  show ?case using assms [of m] Cons by (cases "m = n") (auto split: if_splits option.splits)
qed simp

lemma concat_single_keys:
  assumes "\<And>n. f n = [] \<or> (\<exists>v. f n = [(n, v)])" "distinct ns"
  shows "distinct (map fst (concat (map f ns))) \<and> fst ` set (concat (map f ns)) \<subseteq> set ns"
  using assms(2)
proof (induction ns)
  case (Cons m ns)
  have own: "a = m" if "(m, b) \<in> set (f a)" for a b using assms(1) [of a] that by auto
  show ?case using Cons assms(1) [of m] by (auto dest: own)
qed simp

lemma int_fields_types: "n \<in> set override_int_fields \<Longrightarrow> map_of model_override_types n = Some conv_int"
  by (auto simp: override_int_fields_def model_override_types_def)

interpretation model_format: override_format model_override_types "map (\<lambda>n. (n, JNull)) model_override_fields"
  by unfold_locales (auto simp: model_override_types_def override_int_fields_def model_override_fields_def)

lemma conv_value_str:
  "conv_int (value_str (JInt i)) = Some (JInt i)" "conv_truth (value_str (JBool b)) = Some (JBool b)"
  "CHR '';'' \<notin> set (value_str (JInt i))" "CHR '';'' \<notin> set (value_str (JBool b))"
proof -
  have lower: "str_lower ''True'' = ''true''" "str_lower ''False'' = ''false''" by code_simp+
  show "conv_int (value_str (JInt i)) = Some (JInt i)" "conv_truth (value_str (JBool b)) = Some (JBool b)"
    "CHR '';'' \<notin> set (value_str (JInt i))" "CHR '';'' \<notin> set (value_str (JBool b))"
    using int_str_chars [of "CHR '';''" i] by (auto simp: value_str_def conv_int_def conv_truth_def lower)
qed

text \<open>The field \<open>n\<close> in the overrides the just-in-time compiler prints.\<close>

definition jit_field :: "json dict \<Rightarrow> string \<Rightarrow> (string \<times> json) list" where
  "jit_field d n = (case dict_get d n of None \<Rightarrow> [] | Some v \<Rightarrow>
      if v = JNull \<or> (n \<in> set jit_forbid_list \<and> v = JInt (- 1)) then [] else [(n, v)])"

lemma jit_fields_concat: "jit_fields d = concat (map (jit_field d) model_override_fields)"
  by (simp add: jit_fields_def jit_field_def [abs_def])

lemma jit_field_single: "jit_field d n = [] \<or> (\<exists>v. jit_field d n = [(n, v)])"
  by (simp add: jit_field_def split: option.splits)

lemma jit_field_keys:
  "distinct (map fst (jit_fields d))" "fst ` set (jit_fields d) \<subseteq> set model_override_fields"
proof -
  have "distinct model_override_fields" by (simp add: model_override_fields_def override_int_fields_def)
  from concat_single_keys [OF jit_field_single this]
  show "distinct (map fst (jit_fields d))" "fst ` set (jit_fields d) \<subseteq> set model_override_fields"
    by (simp_all add: jit_fields_concat)
qed

lemma jit_field_converts:
  assumes ints: "\<And>n v. n \<in> set override_int_fields \<Longrightarrow> dict_get d n = Some v \<Longrightarrow> v = JNull \<or> (\<exists>i. v = JInt i)"
    and flag: "\<And>v. dict_get d ''disaggregation'' = Some v \<Longrightarrow> v = JNull \<or> (\<exists>b. v = JBool b)"
    and nv: "(n, v) \<in> set (jit_fields d)"
  shows "converts model_override_types (n, value_str v, v)"
proof -
  have n: "n \<in> set model_override_fields" using jit_field_keys(2) [of d] nv by force
  have v: "dict_get d n = Some v" "v \<noteq> JNull"
    using nv by (auto simp: jit_fields_concat jit_field_def split: option.splits if_splits)
  show ?thesis
  proof (cases "n = ''disaggregation''")
    case True
    have "map_of model_override_types ''disaggregation'' = Some conv_truth"
      by (simp add: model_override_types_def override_int_fields_def)
    then show ?thesis using flag [of v] v True conv_value_str by (auto simp: converts_def)
  next
    case False
    then have int: "n \<in> set override_int_fields" using n by (simp add: model_override_fields_def)
    show ?thesis using ints [OF int v(1)] v conv_value_str int_fields_types [OF int] by (auto simp: converts_def)
  qed
qed

text \<open>
  The overrides the just-in-time compiler prints for its compile command are parsed there
  to the same values: every field that was set, except a window or sink size of \<open>-1\<close>, which is
  left out and stays unset.
\<close>

theorem jit_overrides_roundtrip:
  assumes ints: "\<And>n v. n \<in> set override_int_fields \<Longrightarrow> dict_get d n = Some v \<Longrightarrow> v = JNull \<or> (\<exists>i. v = JInt i)"
    and flag: "\<And>v. dict_get d ''disaggregation'' = Some v \<Longrightarrow> v = JNull \<or> (\<exists>b. v = JBool b)"
  shows "\<exists>r. model_config_override_from_str (jit_overrides d) = Inr r \<and>
     (\<forall>n \<in> set model_override_fields. dict_get r n = Some
        (case dict_get d n of None \<Rightarrow> JNull
         | Some v \<Rightarrow> if n \<in> set jit_forbid_list \<and> v = JInt (- 1) then JNull else v))"
proof -
  let ?kvs = "map (\<lambda>(n, v). (n, value_str v, v)) (jit_fields d)"
  have "list_all (converts model_override_types) ?kvs"
    using jit_field_converts [OF ints flag] by (auto simp: list_all_iff)
  moreover have "distinct (map fst ?kvs)"
    using jit_field_keys(1) [of d] by (simp add: comp_def case_prod_unfold)
  ultimately obtain r where r: "model_config_override_from_str (jit_overrides d) = Inr r"
    "\<And>k. dict_get r k = (case map_of (map (\<lambda>(n, v, j). (n, j)) ?kvs) k of
      Some j \<Rightarrow> Some j | None \<Rightarrow> dict_get (map (\<lambda>n. (n, JNull)) model_override_fields) k)"
    using model_format.parse_values [of ?kvs]
    by (auto simp: model_config_override_from_str_def jit_overrides_def comp_def case_prod_unfold)
  have "map_of (map (\<lambda>(n, v, j). (n, j)) ?kvs) n = map_of (jit_field d n) n"
    "dict_get (map (\<lambda>n. (n, JNull)) model_override_fields) n = Some JNull"
    if "n \<in> set model_override_fields" for n
    using map_of_concat_single [of "jit_field d", OF jit_field_single, of model_override_fields n] that
    by (simp_all add: jit_fields_concat comp_def case_prod_unfold dict_get_def map_of_map_restrict)
  then show ?thesis using r by (auto simp: jit_field_def split: option.splits if_splits)
qed

theorem jit_overrides_roundtrip_witness:
  "\<exists>r. model_config_override_from_str (jit_overrides [(''context_window_size'', JInt (- 1)),
       (''max_batch_size'', JInt 80), (''disaggregation'', JBool True)]) = Inr r \<and>
     dict_get r ''context_window_size'' = Some JNull \<and> dict_get r ''max_batch_size'' = Some (JInt 80) \<and>
     dict_get r ''disaggregation'' = Some (JBool True)"
proof -
  let ?d = "[(''context_window_size'', JInt (- 1)), (''max_batch_size'', JInt 80),
     (''disaggregation'', JBool True)]"
  have "\<exists>r. model_config_override_from_str (jit_overrides ?d) = Inr r \<and>
     (\<forall>n \<in> set model_override_fields. dict_get r n = Some
        (case dict_get ?d n of None \<Rightarrow> JNull
         | Some v \<Rightarrow> if n \<in> set jit_forbid_list \<and> v = JInt (- 1) then JNull else v))"
    by (rule jit_overrides_roundtrip)
       (auto simp: override_int_fields_def dict_get_def split: if_splits)
  then obtain r where r: "model_config_override_from_str (jit_overrides ?d) = Inr r"
    "\<And>n. n \<in> set model_override_fields \<Longrightarrow> dict_get r n = Some
        (case dict_get ?d n of None \<Rightarrow> JNull
         | Some v \<Rightarrow> if n \<in> set jit_forbid_list \<and> v = JInt (- 1) then JNull else v)" by blast
  have mem: "''context_window_size'' \<in> set model_override_fields" "''max_batch_size'' \<in> set model_override_fields"
    "''disaggregation'' \<in> set model_override_fields"
    by (simp_all add: model_override_fields_def override_int_fields_def)
  show ?thesis using r(1) r(2) [OF mem(1)] r(2) [OF mem(2)] r(2) [OF mem(3)]
    by (simp add: jit_forbid_list_def dict_get_def)
qed

section \<open>Applying overrides\<close>

lemma override_field_keys [simp]: "map fst (override_field d p) = map fst d"
  by (simp add: override_field_def dict_get_None_iff dict_set_present)

lemma foldl_override_keys [simp]: "map fst (foldl override_field d ps) = map fst d"
  by (induction ps arbitrary: d) simp_all

lemma foldl_override_get:
  "distinct (map fst ps) \<Longrightarrow> dict_get (foldl override_field d ps) n =
     (case (dict_get d n, map_of ps n) of
        (Some x, Some v) \<Rightarrow> Some (if v = JNull then x else v) | _ \<Rightarrow> dict_get d n)"
proof (induction ps arbitrary: d)
  case Nil
  then show ?case by (simp split: option.splits)
next
  case (Cons p ps)
  have none: "map_of ps (fst p) = None" using Cons.prems by (simp add: map_of_eq_None_iff)
  have "dict_get (override_field d p) n =
      (if n = fst p \<and> snd p \<noteq> JNull \<and> dict_get d n \<noteq> None then Some (snd p) else dict_get d n)"
    by (simp add: override_field_def)
  then show ?case using Cons none by (cases p) (auto split: option.splits if_splits)
qed

text \<open>
  Overriding a config. When the constructor of the config class takes over the fields it is
  given, the overridden config has the same fields; a field has the override's value where the
  override has one that is not \<open>None\<close> and its old value otherwise; override fields the config
  does not have are ignored; and the extra entries (\<open>kwargs\<close>) of the config are lost.
\<close>

theorem config_override_fields:
  assumes "\<And>d. map fst d = names \<Longrightarrow> ctor d = Inr d" and "map fst config = names"
    and "distinct (map fst overrides)"
  shows "\<exists>c. config_override_apply names ctor overrides config = Inr (c, []) \<and> map fst c = names \<and>
     (\<forall>n. dict_get c n =
       (case (dict_get config n, map_of overrides n) of
          (Some x, Some v) \<Rightarrow> Some (if v = JNull then x else v) | _ \<Rightarrow> dict_get config n))"
proof -
  let ?c = "foldl override_field config overrides"
  have keys: "map fst ?c = names" using assms(2) by simp
  then have "\<And>p. p \<in> set ?c \<Longrightarrow> fst p \<in> set names" by (metis image_eqI list.set_map)
  then have "filter (\<lambda>p. fst p \<in> set names) ?c = ?c" "filter (\<lambda>p. fst p \<notin> set names) ?c = []"
    by (simp_all add: filter_id_conv filter_empty_conv)
  then have "config_override_apply names ctor overrides config = Inr (?c, [])"
    using assms(1) [OF keys] by (simp add: config_override_apply_def config_from_dict_def)
  then show ?thesis using keys foldl_override_get [OF assms(3), of config] by blast
qed

theorem config_override_fields_witness:
  "\<exists>c. config_override_apply [''a'', ''b''] Inr [(''a'', JInt 7), (''b'', JNull), (''z'', JInt 1)]
       [(''a'', JInt 1), (''b'', JInt 2)] = Inr (c, []) \<and>
     dict_get c ''a'' = Some (JInt 7) \<and> dict_get c ''b'' = Some (JInt 2) \<and> dict_get c ''z'' = None"
proof -
  obtain c where c: "config_override_apply [''a'', ''b''] Inr [(''a'', JInt 7), (''b'', JNull), (''z'', JInt 1)]
       [(''a'', JInt 1), (''b'', JInt 2)] = Inr (c, [])"
    "\<And>n. dict_get c n = (case (dict_get [(''a'', JInt 1), (''b'', JInt 2)] n,
          map_of [(''a'', JInt 7), (''b'', JNull), (''z'', JInt 1)] n) of
          (Some x, Some v) \<Rightarrow> Some (if v = JNull then x else v)
        | _ \<Rightarrow> dict_get [(''a'', JInt 1), (''b'', JInt 2)] n)"
    using config_override_fields [of "[''a'', ''b'']" Inr "[(''a'', JInt 1), (''b'', JInt 2)]"
        "[(''a'', JInt 7), (''b'', JNull), (''z'', JInt 1)]"] by auto
  show ?thesis using c(1) by (intro exI [of _ c]) (simp add: c(2))
qed

end
