(* ===== verification/Launch.thy ===== *)
theory Launch
  imports Flags_Correct
begin

text \<open>
  Launching a server in a subprocess: the command line \<open>PopenServer\<close> builds
  (\<open>serve/server/popen_server.py\<close>), how the \<open>serve\<close> command reads it (\<open>cli/serve.py\<close>) and the
  engine config the server is started with (\<open>interface/serve.py\<close>); the wait for the server to
  become ready, with the accumulated binary floating-point time-out; and the termination of the
  subprocess.
\<close>

section \<open>The command line of PopenServer\<close>

record popen_server =
  ps_model :: string
  ps_model_lib :: "string option"
  ps_device :: string
  ps_mode :: string
  ps_enable_debug :: bool
  ps_engine_config :: engine_config
  ps_enable_tracing :: bool
  ps_host :: string
  ps_port :: int
  ps_proc :: bool
  ps_base_url :: string
  ps_openai_v1_base_url :: string

definition popen_server_init ::
    "string \<Rightarrow> string \<Rightarrow> string option \<Rightarrow> string \<Rightarrow> engine_config option \<Rightarrow> bool \<Rightarrow> bool \<Rightarrow> string \<Rightarrow> int \<Rightarrow>
     popen_server res" where
  "popen_server_init model device model_lib mode engine_config debug tracing host port =
     (let c = (case engine_config of None \<Rightarrow> default_engine_config | Some c \<Rightarrow> c) in
      bindR (check_engine_config model model_lib mode c) (\<lambda>_.
        Inr \<lparr>ps_model = model, ps_model_lib = model_lib, ps_device = device, ps_mode = mode,
             ps_enable_debug = debug, ps_engine_config = c, ps_enable_tracing = tracing,
             ps_host = host, ps_port = port, ps_proc = False, ps_base_url = [],
             ps_openai_v1_base_url = []\<rparr>))"

fun additional_model_arg :: "additional_model \<Rightarrow> string" where
  "additional_model_arg (AMStr m) = m"
| "additional_model_arg (AMPair m l) = m @ '','' @ l"

text \<open>The entries of \<open>--overrides\<close>; \<open>fstr\<close> is \<open>str\<close> of a float.\<close>

definition opt_entry :: "string \<Rightarrow> ('a \<Rightarrow> string) \<Rightarrow> 'a option \<Rightarrow> (string \<times> string) list" where
  "opt_entry k str v = (case v of None \<Rightarrow> [] | Some x \<Rightarrow> [(k, str x)])"

definition popen_overrides :: "(pyfloat \<Rightarrow> string) \<Rightarrow> engine_config \<Rightarrow> (string \<times> string) list" where
  "popen_overrides fstr c =
     opt_entry ''max_num_sequence'' int_str (ec_max_num_sequence c) @
     opt_entry ''max_total_seq_length'' int_str (ec_max_total_sequence_length c) @
     opt_entry ''prefill_chunk_size'' int_str (ec_prefill_chunk_size c) @
     opt_entry ''max_history_size'' int_str (ec_max_history_size c) @
     opt_entry ''gpu_memory_utilization'' fstr (ec_gpu_memory_utilization c) @
     [(''spec_draft_length'', int_str (ec_spec_draft_length c))] @
     opt_entry ''prefix_cache_max_num_recycling_seqs'' int_str
       (ec_prefix_cache_max_num_recycling_seqs c)"

text \<open>The arguments after \<open>python -m mlc_llm serve\<close>.\<close>

definition popen_argv :: "(pyfloat \<Rightarrow> string) \<Rightarrow> popen_server \<Rightarrow> string list" where
  "popen_argv fstr s =
     (let c = ps_engine_config s; kvs = popen_overrides fstr c in
      [ps_model s] @
      (case ps_model_lib s of None \<Rightarrow> [] | Some l \<Rightarrow> [''--model-lib'', l]) @
      [''--device'', ps_device s] @
      (if ps_enable_debug s then [''--enable-debug''] else []) @
      [''--mode'', ps_mode s] @
      (if ec_additional_models c = [] then []
       else ''--additional-models'' # map additional_model_arg (ec_additional_models c)) @
      [''--speculative-mode'', ec_speculative_mode c] @
      [''--prefix-cache-mode'', ec_prefix_cache_mode c] @
      (if kvs = [] then [] else [''--overrides'', override_string kvs]) @
      (if ps_enable_tracing s then [''--enable-tracing''] else []) @
      (if ps_enable_debug s then [''--enable-debug''] else []) @
      [''--host'', ps_host s] @
      [''--port'', int_str (ps_port s)])"

section \<open>Reading the command line\<close>

text \<open>
  \<open>parser.parse_args\<close> for options that are written in full and separate from their values, as
  above, and without the separator \<open>--\<close>: a flag takes no value, most options one,
  \<open>--additional-models\<close> any number up to the next option. An argument that starts with a dash
  is a value only if it is the dash alone, a negative number or contains a space; a missing
  value, an unknown option and a wrong number of positional arguments are errors.
\<close>

datatype arity = NoValue | OneValue | ManyValues

definition serve_options :: "(string \<times> arity) list" where
  "serve_options =
     [(''--device'', OneValue), (''--model-lib'', OneValue), (''--mode'', OneValue),
      (''--enable-debug'', NoValue), (''--additional-models'', ManyValues),
      (''--speculative-mode'', OneValue), (''--prefix-cache-mode'', OneValue),
      (''--prefill-mode'', OneValue), (''--overrides'', OneValue), (''--enable-tracing'', NoValue),
      (''--host'', OneValue), (''--port'', OneValue), (''--allow-credentials'', NoValue),
      (''--allow-origins'', OneValue), (''--allow-methods'', OneValue), (''--allow-headers'', OneValue)]"

fun negative_number :: "string \<Rightarrow> bool" where
  "negative_number [] = False"
| "negative_number (c # cs) =
     (c = CHR ''-'' \<and>
      (case dropWhile is_digit cs of
         [] \<Rightarrow> cs \<noteq> []
       | d # ds \<Rightarrow> d = CHR ''.'' \<and> ds \<noteq> [] \<and> list_all is_digit ds))"

definition is_value :: "string \<Rightarrow> bool" where
  "is_value a \<longleftrightarrow> \<not> prefix ''-'' a \<or> a = ''-'' \<or> negative_number a \<or> CHR '' '' \<in> set a"

text \<open>The result: every occurrence of an option with its values, and the positional arguments.\<close>

function parse_argv ::
    "(string \<times> arity) list \<Rightarrow> string list \<Rightarrow> ((string \<times> string list) list \<times> string list) res" where
  "parse_argv opts [] = Inr ([], [])"
| "parse_argv opts (a # as) =
     (case map_of opts a of
        Some NoValue \<Rightarrow> bindR (parse_argv opts as) (\<lambda>(os, ps). Inr ((a, []) # os, ps))
      | Some OneValue \<Rightarrow>
          (case as of
             [] \<Rightarrow> Inl SystemExit
           | v # as' \<Rightarrow>
               if is_value v then bindR (parse_argv opts as') (\<lambda>(os, ps). Inr ((a, [v]) # os, ps))
               else Inl SystemExit)
      | Some ManyValues \<Rightarrow>
          bindR (parse_argv opts (dropWhile is_value as)) (\<lambda>(os, ps).
            Inr ((a, takeWhile is_value as) # os, ps))
      | None \<Rightarrow>
          if is_value a then bindR (parse_argv opts as) (\<lambda>(os, ps). Inr (os, a # ps))
          else Inl SystemExit)"
  by pat_completeness auto

termination
  by (relation "measure (\<lambda>(_, as). length as)") (auto simp: le_imp_less_Suc length_dropWhile_le)

text \<open>The values of all occurrences of an option, and those of its last occurrence.\<close>

definition opt_values :: "(string \<times> string list) list \<Rightarrow> string \<Rightarrow> string list" where
  "opt_values os k = concat (map snd (filter (\<lambda>o'. fst o' = k) os))"

definition opt_value :: "(string \<times> string list) list \<Rightarrow> string \<Rightarrow> string list option" where
  "opt_value os k = map_of (rev os) k"

text \<open>The value of a typed option: each occurrence is converted, the last one counts.\<close>

definition typed_value :: "(string \<Rightarrow> 'a res) \<Rightarrow> 'a \<Rightarrow> string list \<Rightarrow> 'a res" where
  "typed_value conv dflt vs = bindR (mapR conv vs) (\<lambda>xs. Inr (if xs = [] then dflt else last xs))"

definition engine_override_types :: "(string \<Rightarrow> json option) \<Rightarrow> option_types" where
  "engine_override_types conv_float =
     [(''max_num_sequence'', conv_int), (''max_total_seq_length'', conv_int),
      (''prefill_chunk_size'', conv_int), (''max_history_size'', conv_int),
      (''gpu_memory_utilization'', conv_float), (''spec_draft_length'', conv_int),
      (''spec_tree_width'', conv_int), (''prefix_cache_mode'', conv_str),
      (''prefix_cache_max_num_recycling_seqs'', conv_int), (''prefill_mode'', conv_str),
      (''context_window_size'', conv_int), (''sliding_window_size'', conv_int),
      (''attention_sink_size'', conv_int), (''tensor_parallel_shards'', conv_int),
      (''pipeline_parallel_stages'', conv_int), (''opt'', conv_str)]"

definition engine_override_defaults :: "json dict" where
  "engine_override_defaults =
     [(''max_num_sequence'', JNull), (''max_total_seq_length'', JNull), (''prefill_chunk_size'', JNull),
      (''max_history_size'', JNull), (''gpu_memory_utilization'', JNull), (''spec_draft_length'', JNull),
      (''spec_tree_width'', JNull), (''prefix_cache_mode'', JStr ''radix''),
      (''prefix_cache_max_num_recycling_seqs'', JNull), (''prefill_mode'', JStr ''hybrid''),
      (''context_window_size'', JNull), (''sliding_window_size'', JNull),
      (''attention_sink_size'', JNull), (''tensor_parallel_shards'', JNull),
      (''pipeline_parallel_stages'', JNull), (''opt'', JNull)]"

definition engine_config_override_from_str :: "(string \<Rightarrow> json option) \<Rightarrow> string \<Rightarrow> json dict res" where
  "engine_config_override_from_str conv_float source =
     parse_overrides (engine_override_types conv_float) engine_override_defaults source"

text \<open>\<open>additional_model.split(",", maxsplit=1)\<close>.\<close>

definition split_model :: "string \<Rightarrow> json" where
  "split_model a =
     (let m = takeWhile (\<lambda>c. c \<noteq> CHR '','') a in
      if m = a then JStr a else JList [JStr m, JStr (drop (Suc (length m)) a)])"

definition choice :: "string list \<Rightarrow> string \<Rightarrow> string res" where
  "choice choices x = (if x \<in> set choices then Inr x else Inl SystemExit)"

definition int_arg :: "string \<Rightarrow> int res" where
  "int_arg x = (case py_int x of Some i \<Rightarrow> Inr i | None \<Rightarrow> Inl SystemExit)"

text \<open>
  The engine config \<open>serve\<close> constructs, as a JSON object of the fields it passes; \<open>get\<close> reads the
  parsed overrides.
\<close>

definition serve_engine_config ::
    "(string \<Rightarrow> json) \<Rightarrow> json list \<Rightarrow> string \<Rightarrow> string \<Rightarrow> string \<Rightarrow> json dict" where
  "serve_engine_config get models spec cache prefill =
     [(''additional_models'', JList models),
      (''tensor_parallel_shards'', get ''tensor_parallel_shards''),
      (''pipeline_parallel_stages'', get ''pipeline_parallel_stages''),
      (''opt'', get ''opt''),
      (''max_num_sequence'', get ''max_num_sequence''),
      (''max_total_sequence_length'', get ''max_total_seq_length''),
      (''max_single_sequence_length'', get ''context_window_size''),
      (''prefill_chunk_size'', get ''prefill_chunk_size''),
      (''sliding_window_size'', get ''sliding_window_size''),
      (''attention_sink_size'', get ''attention_sink_size''),
      (''max_history_size'', get ''max_history_size''),
      (''gpu_memory_utilization'', get ''gpu_memory_utilization''),
      (''speculative_mode'', JStr spec),
      (''spec_draft_length'', get ''spec_draft_length''),
      (''spec_tree_width'', get ''spec_tree_width''),
      (''prefix_cache_mode'', JStr cache),
      (''prefix_cache_max_num_recycling_seqs'', get ''prefix_cache_max_num_recycling_seqs''),
      (''prefill_mode'', JStr prefill)]"

definition override_value :: "json dict \<Rightarrow> string \<Rightarrow> json" where
  "override_value ov k = (case dict_get ov k of Some v \<Rightarrow> v | None \<Rightarrow> JNull)"

text \<open>
  \<open>main\<close> up to the construction of the engine: the arguments the engine and the web server get.
  \<open>conv_float\<close> is the conversion to a float, \<open>json_arg\<close> that of the three JSON options.
\<close>

record serve_args =
  sa_model :: string
  sa_device :: string
  sa_model_lib :: "string option"
  sa_mode :: string
  sa_enable_debug :: bool
  sa_engine_config :: "json dict"
  sa_enable_tracing :: bool
  sa_host :: string
  sa_port :: int

definition last_value :: "(string \<times> string list) list \<Rightarrow> string \<Rightarrow> string option" where
  "last_value os k = (let vs = opt_values os k in if vs = [] then None else Some (last vs))"

definition serve_main ::
    "(string \<Rightarrow> json option) \<Rightarrow> (string \<Rightarrow> json res) \<Rightarrow> string list \<Rightarrow> serve_args res" where
  "serve_main conv_float json_arg argv =
     bindR (parse_argv serve_options argv) (\<lambda>(os, ps).
     case ps of
       [model] \<Rightarrow>
         bindR (typed_value (choice [''local'', ''interactive'', ''server'']) ''local''
                  (opt_values os ''--mode'')) (\<lambda>mode.
         bindR (typed_value (choice [''disable'', ''small_draft'', ''eagle'', ''medusa'']) ''disable''
                  (opt_values os ''--speculative-mode'')) (\<lambda>spec.
         bindR (typed_value (choice [''disable'', ''radix'']) ''radix''
                  (opt_values os ''--prefix-cache-mode'')) (\<lambda>cache.
         bindR (typed_value (choice [''hybrid'', ''chunked'']) ''hybrid''
                  (opt_values os ''--prefill-mode'')) (\<lambda>prefill.
         bindR (typed_value (engine_config_override_from_str conv_float) engine_override_defaults
                  (opt_values os ''--overrides'')) (\<lambda>ov.
         bindR (typed_value int_arg 8000 (opt_values os ''--port'')) (\<lambda>port.
         bindR (mapR json_arg (opt_values os ''--allow-origins'' @ opt_values os ''--allow-methods'' @
                  opt_values os ''--allow-headers'')) (\<lambda>_.
         Inr \<lparr>sa_model = model,
              sa_device = (case last_value os ''--device'' of None \<Rightarrow> ''auto'' | Some d \<Rightarrow> d),
              sa_model_lib = last_value os ''--model-lib'',
              sa_mode = mode,
              sa_enable_debug = (opt_value os ''--enable-debug'' \<noteq> None),
              sa_engine_config = serve_engine_config (override_value ov)
                (map split_model (case opt_value os ''--additional-models'' of Some xs \<Rightarrow> xs | None \<Rightarrow> []))
                spec cache prefill,
              sa_enable_tracing = (opt_value os ''--enable-tracing'' \<noteq> None),
              sa_host = (case last_value os ''--host'' of None \<Rightarrow> ''127.0.0.1'' | Some h \<Rightarrow> h),
              sa_port = port\<rparr>)))))))
     | _ \<Rightarrow> Inl SystemExit)"

section \<open>Waiting for the server\<close>

text \<open>
  The time-out counter is a binary double that is incremented by \<open>0.1\<close>. Its values are written
  in units of \<open>2 ^ -56\<close>: \<open>0.1\<close> is \<open>7205759403792794\<close> of them. A sum is rounded to 53 significant
  bits, to even on a tie.
\<close>

fun excess_bits :: "nat \<Rightarrow> nat" where
  "excess_bits m = (if m < 9007199254740992 then 0 else Suc (excess_bits (m div 2)))"

declare excess_bits.simps [simp del]

definition round_double :: "nat \<Rightarrow> nat" where
  "round_double m =
     (let e = 2 ^ excess_bits m; q = m div e; r = m mod e in
      if 2 * r < e \<or> (2 * r = e \<and> even q) then q * e else (q + 1) * e)"

definition tenth :: nat where
  "tenth = 7205759403792794"

definition timeout_units :: nat where
  "timeout_units = 120 * 2 ^ 56"

definition add_tenth :: "nat \<Rightarrow> nat" where
  "add_tenth a = round_double (a + tenth)"

text \<open>
  The polling loop: \<open>ready k\<close> tells whether the \<open>k\<close>-th query succeeds with status 200. The result
  is whether the server answered, and the counter.
\<close>

partial_function (option) poll_loop :: "(nat \<Rightarrow> bool) \<Rightarrow> nat \<Rightarrow> nat \<Rightarrow> (bool \<times> nat) option" where
  "poll_loop ready k attempts =
     (if attempts < timeout_units then
        if ready k then Some (True, attempts) else poll_loop ready (k + 1) (add_tenth attempts)
      else Some (False, attempts))"

definition popen_terminate :: "popen_server \<Rightarrow> popen_server" where
  "popen_terminate s = s\<lparr>ps_proc := False\<rparr>"

interpretation popen_life: shutdown popen_terminate "\<lambda>s. \<not> ps_proc s"
  by unfold_locales (simp_all add: popen_terminate_def)

definition launch_failure :: "popen_server \<Rightarrow> py_error" where
  "launch_failure s = RuntimeError (''The server fails to launch. Please check if '' @ [CHR 0x22] @ ps_model s @
     [CHR 0x22] @ '' is a valid model compiled by MLC LLM.'')"

text \<open>\<open>exited\<close>: the subprocess has ended when it is polled after the loop.\<close>

definition popen_start :: "(nat \<Rightarrow> bool) \<Rightarrow> bool \<Rightarrow> popen_server \<Rightarrow> (popen_server \<times> unit res) option" where
  "popen_start ready exited s =
     (let base = ''http://'' @ ps_host s @ '':'' @ int_str (ps_port s);
          s = s\<lparr>ps_proc := True, ps_base_url := base, ps_openai_v1_base_url := base @ ''/v1''\<rparr> in
      case poll_loop ready 0 0 of
        None \<Rightarrow> None
      | Some (_, attempts) \<Rightarrow>
          Some (if exited then (s, Inl (launch_failure s))
                else if attempts = timeout_units
                then (popen_terminate s, Inl (RuntimeError ''The server fails to launch in 120 seconds.''))
                else (s, Inr ())))"

end
