(* ===== verification/Launch_Correct.thy ===== *)
theory Launch_Correct
  imports Launch
begin

text \<open>
  Properties of the launch: the wait for the server ends but its time-out is never noticed,
  and which fields of the engine config reach the server through the command line.
\<close>

section \<open>The time-out\<close>

text \<open>\<open>n\<close> more increments keep the counter below the time-out, and then it is above it.\<close>

fun steps_to_timeout :: "nat \<Rightarrow> nat \<Rightarrow> bool" where
  "steps_to_timeout 0 a = (timeout_units < a)"
| "steps_to_timeout (Suc n) a = (a < timeout_units \<and> steps_to_timeout n (add_tenth a))"

lemma excess_bits_range: "m < 2 ^ (53 + e) \<Longrightarrow> e = 0 \<or> 2 ^ (52 + e) \<le> m \<Longrightarrow> excess_bits m = e"
proof (induction e arbitrary: m)
  case 0
  then show ?case by (simp add: excess_bits.simps)
next
  case (Suc e)
  have pow: "(2 :: nat) ^ 53 \<le> 2 ^ (52 + Suc e)" by (rule power_increasing) auto
  then have "\<not> m < 9007199254740992" using Suc.prems(2) by auto
  moreover have "excess_bits (m div 2) = e"
  proof (rule Suc.IH)
    have "(2 :: nat) ^ (53 + Suc e) = 2 ^ (53 + e) * 2" "(2 :: nat) ^ (52 + Suc e) = 2 ^ (52 + e) * 2"
      by (simp_all only: add_Suc_right power_Suc2)
    then have "m < 2 ^ (53 + e) * 2" "2 ^ (52 + e) * 2 \<le> m" using Suc.prems by auto
    then show "m div 2 < 2 ^ (53 + e)" "e = 0 \<or> 2 ^ (52 + e) \<le> m div 2"
      by (auto simp: less_mult_imp_div_less)
  qed
  ultimately show ?case by (simp add: excess_bits.simps [of m])
qed

text \<open>
  While the sums have the same exponent and no tie occurs, the increment is the constant
  \<open>c\<close>, the multiple of \<open>2 ^ e\<close> next to \<open>0.1\<close>.
\<close>

lemma add_tenth_linear:
  assumes "a mod 2 ^ e = 0" "c mod 2 ^ e = 0" "c < tenth + 2 ^ e div 2" "tenth < c + 2 ^ e div 2"
    and "a + tenth < 2 ^ (53 + e)" "e = 0 \<or> 2 ^ (52 + e) \<le> a + tenth" "0 < e"
  shows "add_tenth a = a + c"
proof -
  let ?e = "2 ^ e :: nat"
  have eb: "excess_bits (a + tenth) = e" using assms(5,6) by (rule excess_bits_range)
  obtain i j where a: "a = i * ?e" and c: "c = j * ?e"
    using assms(1,2) by (metis mult.commute mod_0_imp_dvd dvdE)
  have half: "2 * (?e div 2) = ?e" using assms(7) by (cases e) auto
  show ?thesis
  proof (cases "tenth < c")
    case True
    then have j: "0 < j" using c by (cases j) auto
    obtain r where r: "tenth = (j - 1) * ?e + r" "r < ?e" "?e < 2 * r"
    proof
      have "c = (j - 1) * ?e + ?e" using c j by (cases j) auto
      then show "tenth = (j - 1) * ?e + (tenth - (j - 1) * ?e)" "tenth - (j - 1) * ?e < ?e"
        "?e < 2 * (tenth - (j - 1) * ?e)" using True assms(3) half by linarith+
    qed
    have sum: "a + tenth = (i + (j - 1)) * ?e + r" using a r(1) by (simp add: algebra_simps)
    have "(a + tenth) div ?e = i + (j - 1)" "(a + tenth) mod ?e = r"
      unfolding sum using r(2) by simp_all
    then have "add_tenth a = (i + (j - 1) + 1) * ?e"
      using r(3) eb by (simp add: add_tenth_def round_double_def Let_def)
    then show ?thesis using a c j by (cases j) (simp_all add: algebra_simps)
  next
    case False
    define r where "r = tenth - c"
    have r: "tenth = j * ?e + r" "2 * r < ?e" using False assms(4) half c by (auto simp: r_def)
    have sum: "a + tenth = (i + j) * ?e + r" using a r(1) by (simp add: algebra_simps)
    have "r < ?e" using r(2) by simp
    then have "(a + tenth) div ?e = i + j" "(a + tenth) mod ?e = r" unfolding sum by simp_all
    then have "add_tenth a = (i + j) * ?e"
      using r(2) eb by (simp add: add_tenth_def round_double_def Let_def)
    then show ?thesis using a c by (simp add: algebra_simps)
  qed
qed

lemma phase:
  assumes "steps_to_timeout m (a + n * c)"
    and "0 < e" "a mod 2 ^ e = 0" "c mod 2 ^ e = 0" "c < tenth + 2 ^ e div 2" "tenth < c + 2 ^ e div 2"
    and "2 ^ (52 + e) \<le> a + tenth" "a + n * c + tenth < c + 2 ^ (53 + e)" "a + n * c < c + timeout_units"
  shows "steps_to_timeout (n + m) a"
  using assms
proof (induction n arbitrary: a)
  case (Suc n)
  have "a \<le> a + n * c" by simp
  then have small: "a + tenth < 2 ^ (53 + e)" "a < timeout_units" using Suc.prems(8,9) by simp_all
  have inc: "add_tenth a = a + c"
    using Suc.prems small by (intro add_tenth_linear [of a e c]) auto
  have "steps_to_timeout (n + m) (a + c)"
    using Suc.prems by (intro Suc.IH) (auto simp: mod_add_eq [symmetric] algebra_simps)
  then show ?case using inc small(2) by simp
qed simp

lemma single_step:
  "a < timeout_units \<Longrightarrow> add_tenth a = b \<Longrightarrow> steps_to_timeout m b \<Longrightarrow> steps_to_timeout (1 + m) a"
  by simp

lemma add_tenth_eval:
  assumes "a + tenth < 2 ^ (53 + e)" "e = 0 \<or> 2 ^ (52 + e) \<le> a + tenth"
  shows "add_tenth a =
     (let q = (a + tenth) div 2 ^ e; r = (a + tenth) mod 2 ^ e in
      if 2 * r < 2 ^ e \<or> (2 * r = 2 ^ e \<and> even q) then q * 2 ^ e else (q + 1) * 2 ^ e)"
  using excess_bits_range [OF assms] by (simp add: add_tenth_def round_double_def Let_def)

lemmas unit_defs = tenth_def timeout_units_def

text \<open>
  The counter's history: sixteen phases with a constant increment. The last value before the
  end is below 120 seconds, the next one is about 120.1.
\<close>

lemma steps_1201: "steps_to_timeout 1201 0"
proof -
  have p: "steps_to_timeout 561 4611686018427433984"
    using phase [of 0 4611686018427433984 561 7205759403792384 10] by (simp add: unit_defs)
  have "add_tenth 4604480259023641088 = 4611686018427433984"
    using add_tenth_eval [of 4604480259023641088 10] by (simp add: unit_defs)
  then have p: "steps_to_timeout 562 4604480259023641088"
    using single_step [OF _ _ p, of 4604480259023641088] by (simp add: unit_defs)
  then have p: "steps_to_timeout 882 2298637249809914368"
    using phase [of 562 2298637249809914368 320 7205759403792896 9] by (simp add: unit_defs)
  then have p: "steps_to_timeout 1040 1160127264010636800"
    using phase [of 882 1160127264010636800 158 7205759403792896 8] by (simp add: unit_defs)
  have "add_tenth 1152921504606844032 = 1160127264010636800"
    using add_tenth_eval [of 1152921504606844032 8] by (simp add: unit_defs)
  then have p: "steps_to_timeout 1041 1152921504606844032"
    using single_step [OF _ _ p, of 1152921504606844032] by (simp add: unit_defs)
  then have p: "steps_to_timeout 1121 576460752303422592"
    using phase [of 1041 576460752303422592 80 7205759403792768 7] by (simp add: unit_defs)
  then have p: "steps_to_timeout 1162 281024616747919104"
    using phase [of 1121 281024616747919104 41 7205759403792768 6] by (simp add: unit_defs)
  then have p: "steps_to_timeout 1181 144115188075855904"
    using phase [of 1162 144115188075855904 19 7205759403792800 5] by (simp add: unit_defs)
  have "add_tenth 136909428672063120 = 144115188075855904"
    using add_tenth_eval [of 136909428672063120 5] by (simp add: unit_defs)
  then have p: "steps_to_timeout 1182 136909428672063120"
    using single_step [OF _ _ p, of 136909428672063120] by (simp add: unit_defs)
  then have p: "steps_to_timeout 1190 79263353441720720"
    using phase [of 1182 79263353441720720 8 7205759403792800 4] by (simp add: unit_defs)
  have "add_tenth 72057594037927928 = 79263353441720720"
    using add_tenth_eval [of 72057594037927928 4] by (simp add: unit_defs)
  then have p: "steps_to_timeout 1191 72057594037927928"
    using single_step [OF _ _ p, of 72057594037927928] by (simp add: unit_defs)
  then have p: "steps_to_timeout 1197 28823037615171176"
    using phase [of 1191 28823037615171176 6 7205759403792792 3] by (simp add: unit_defs)
  have "add_tenth 21617278211378384 = 28823037615171176" "add_tenth 14411518807585588 = 21617278211378384"
    "add_tenth 7205759403792794 = 14411518807585588" "add_tenth 0 = 7205759403792794"
    using add_tenth_eval [of 21617278211378384 2] add_tenth_eval [of 14411518807585588 2]
      add_tenth_eval [of 7205759403792794 1] add_tenth_eval [of 0 0]
    by (simp_all add: unit_defs)
  then have "steps_to_timeout (1 + (1 + (1 + (1 + 1197)))) 0"
    by (intro single_step [OF _ _ single_step [OF _ _ single_step [OF _ _ single_step [OF _ _ p]]]])
       (simp_all add: unit_defs)
  then show ?thesis by simp
qed

lemma poll_loop_steps:
  "steps_to_timeout n a \<Longrightarrow>
     \<exists>b. poll_loop ready k a = Some (\<exists>i < n. ready (k + i), b) \<and> b \<noteq> timeout_units"
proof (induction n arbitrary: a k)
  case 0
  then show ?case by (simp add: poll_loop.simps)
next
  case (Suc n)
  show ?case
  proof (cases "ready k")
    case True
    then have "\<exists>i < Suc n. ready (k + i)" by (intro exI [of _ 0]) simp
    then show ?thesis using True Suc.prems by (simp add: poll_loop.simps [of ready k])
  next
    case False
    have "(\<exists>i < Suc n. ready (k + i)) \<longleftrightarrow> (\<exists>i < n. ready (k + 1 + i))"
      using False by (simp add: Ex_less_Suc2)
    then show ?thesis using False Suc.IH [of "add_tenth a" "k + 1"] Suc.prems
      by (simp add: poll_loop.simps [of ready k])
  qed
qed

text \<open>
  C30: waiting for the server ends, after at most 1201 failed queries, but the time-out goes
  unnoticed: the counter is compared with \<open>==\<close> and, summed up in binary doubles, never
  equals 120. If the subprocess is still alive, \<open>start\<close> returns normally whether or not the
  server ever answered, and the subprocess is left running.
\<close>

theorem start_never_times_out:
  "\<exists>s'. popen_start ready exited s =
       Some (s', if exited then Inl (launch_failure s) else Inr ()) \<and> ps_proc s' \<and>
     (\<exists>b. poll_loop ready 0 0 = Some (\<exists>k < 1201. ready k, b) \<and> b \<noteq> timeout_units)"
proof -
  obtain b where b: "poll_loop ready 0 0 = Some (\<exists>k < 1201. ready k, b)" "b \<noteq> timeout_units"
    using poll_loop_steps [OF steps_1201, of ready 0] by auto
  then show ?thesis by (simp add: popen_start_def Let_def launch_failure_def)
qed

section \<open>The command line\<close>

definition plain_arg :: "string \<Rightarrow> bool" where
  "plain_arg a \<longleftrightarrow> \<not> prefix ''-'' a"

lemma plain_is_value: "plain_arg a \<Longrightarrow> is_value a"
  by (simp add: plain_arg_def is_value_def)

lemma plain_no_option: "plain_arg a \<Longrightarrow> map_of serve_options a = None"
  by (cases a) (simp_all add: plain_arg_def serve_options_def)

lemma int_is_value: "is_value (int_str i)"
proof -
  have ds: "dropWhile is_digit (nat_digits n) = []" "nat_digits n \<noteq> []" "\<not> prefix ''-'' (nat_digits n)" for n
    using nat_digits_digits [of n] by (auto simp: dropWhile_eq_Nil_conv list_all_iff prefix_def is_digit_def)
  show ?thesis by (cases "i < 0") (simp_all add: is_value_def int_str_def ds)
qed

text \<open>The parser on the pieces of a command line; \<open>add_parsed\<close> puts options in front.\<close>

definition add_parsed ::
    "(string \<times> string list) list \<Rightarrow> ((string \<times> string list) list \<times> string list) res \<Rightarrow>
     ((string \<times> string list) list \<times> string list) res" where
  "add_parsed os r = bindR r (\<lambda>(os', ps). Inr (os @ os', ps))"

lemma add_parsed_Inr [simp]: "add_parsed os (Inr (os', ps)) = Inr (os @ os', ps)"
  by (simp add: add_parsed_def)

lemma parse_flag:
  "map_of opts a = Some NoValue \<Longrightarrow> parse_argv opts (a # as) = add_parsed [(a, [])] (parse_argv opts as)"
  by (simp add: add_parsed_def)

lemma parse_one:
  "map_of opts a = Some OneValue \<Longrightarrow> is_value v \<Longrightarrow>
     parse_argv opts (a # v # as) = add_parsed [(a, [v])] (parse_argv opts as)"
  by (simp add: add_parsed_def)

lemma parse_many:
  assumes "map_of opts a = Some ManyValues" "list_all is_value vs" "\<not> is_value b"
  shows "parse_argv opts (a # vs @ b # as) = add_parsed [(a, vs)] (parse_argv opts (b # as))"
proof -
  have "takeWhile is_value (vs @ b # as) = vs" "dropWhile is_value (vs @ b # as) = b # as"
    using assms(2,3) by (auto simp: list_all_iff takeWhile_append dropWhile_append)
  then show ?thesis using assms(1) by (simp add: add_parsed_def)
qed

declare parse_argv.simps(2) [simp del]

lemma serve_option_kinds:
  "map_of serve_options ''--model-lib'' = Some OneValue" "map_of serve_options ''--device'' = Some OneValue"
  "map_of serve_options ''--mode'' = Some OneValue" "map_of serve_options ''--enable-debug'' = Some NoValue"
  "map_of serve_options ''--additional-models'' = Some ManyValues"
  "map_of serve_options ''--speculative-mode'' = Some OneValue"
  "map_of serve_options ''--prefix-cache-mode'' = Some OneValue"
  "map_of serve_options ''--overrides'' = Some OneValue" "map_of serve_options ''--enable-tracing'' = Some NoValue"
  "map_of serve_options ''--host'' = Some OneValue" "map_of serve_options ''--port'' = Some OneValue"
  by (simp_all add: serve_options_def)

lemma spec_no_value: "\<not> is_value ''--speculative-mode''"
  by code_simp

text \<open>The options the parser finds on the command line of \<open>PopenServer\<close>.\<close>

definition popen_options :: "(pyfloat \<Rightarrow> string) \<Rightarrow> popen_server \<Rightarrow> (string \<times> string list) list" where
  "popen_options fstr s =
     (let c = ps_engine_config s in
      (case ps_model_lib s of None \<Rightarrow> [] | Some l \<Rightarrow> [(''--model-lib'', [l])]) @
      [(''--device'', [ps_device s])] @
      (if ps_enable_debug s then [(''--enable-debug'', [])] else []) @
      [(''--mode'', [ps_mode s])] @
      (if ec_additional_models c = [] then []
       else [(''--additional-models'', map additional_model_arg (ec_additional_models c))]) @
      [(''--speculative-mode'', [ec_speculative_mode c]), (''--prefix-cache-mode'', [ec_prefix_cache_mode c]),
       (''--overrides'', [override_string (popen_overrides fstr c)])] @
      (if ps_enable_tracing s then [(''--enable-tracing'', [])] else []) @
      (if ps_enable_debug s then [(''--enable-debug'', [])] else []) @
      [(''--host'', [ps_host s]), (''--port'', [int_str (ps_port s)])])"

lemma popen_overrides_nonempty: "popen_overrides fstr c \<noteq> []"
  by (simp add: popen_overrides_def)

lemma override_string_plain: "kvs \<noteq> [] \<Longrightarrow> plain_arg (fst (hd kvs)) \<Longrightarrow> fst (hd kvs) \<noteq> [] \<Longrightarrow>
   plain_arg (override_string kvs)"
proof -
  assume kvs: "kvs \<noteq> []" "plain_arg (fst (hd kvs))" "fst (hd kvs) \<noteq> []"
  obtain k v kvs' where k: "kvs = (k, v) # kvs'" using kvs(1) by (cases kvs) auto
  obtain c k' where c: "k = c # k'" using kvs(3) k by (cases k) auto
  have "\<exists>rest. override_string kvs = k @ rest"
    unfolding k by (cases kvs') (auto simp: override_string_def override_item_def)
  then show ?thesis using kvs(2) k c by (auto simp: plain_arg_def)
qed

lemma popen_overrides_plain: "plain_arg (override_string (popen_overrides fstr c))"
proof (rule override_string_plain [OF popen_overrides_nonempty])
  have "plain_arg k \<and> k \<noteq> []" if "(k, v) \<in> set (popen_overrides fstr c)" for k v
    using that by (auto simp: popen_overrides_def opt_entry_def plain_arg_def split: option.splits)
  moreover have "hd (popen_overrides fstr c) \<in> set (popen_overrides fstr c)"
    using popen_overrides_nonempty by (rule hd_in_set)
  ultimately show "plain_arg (fst (hd (popen_overrides fstr c)))" "fst (hd (popen_overrides fstr c)) \<noteq> []"
    by (metis prod.collapse)+
qed

text \<open>The strings of a server are ordinary: none of them starts with a dash.\<close>

definition plain_server :: "popen_server \<Rightarrow> bool" where
  "plain_server s \<longleftrightarrow>
     list_all plain_arg ([ps_model s, ps_device s, ps_mode s, ps_host s,
        ec_speculative_mode (ps_engine_config s), ec_prefix_cache_mode (ps_engine_config s)] @
       (case ps_model_lib s of None \<Rightarrow> [] | Some l \<Rightarrow> [l]) @
       map additional_model_arg (ec_additional_models (ps_engine_config s)))"

lemma parse_popen_argv:
  assumes "plain_server s"
  shows "parse_argv serve_options (popen_argv fstr s) = Inr (popen_options fstr s, [ps_model s])"
proof -
  let ?c = "ps_engine_config s"
  have vals: "plain_arg (ps_model s)" "plain_arg (ps_device s)" "plain_arg (ps_mode s)" "plain_arg (ps_host s)"
    "plain_arg (ec_speculative_mode ?c)" "plain_arg (ec_prefix_cache_mode ?c)"
    "ps_model_lib s = Some l \<Longrightarrow> plain_arg l"
    "am \<in> set (ec_additional_models ?c) \<Longrightarrow> plain_arg (additional_model_arg am)" for l am
    using assms by (auto simp: plain_server_def list_all_iff)
  let ?t1 = "[''--host'', ps_host s, ''--port'', int_str (ps_port s)]"
  let ?t2 = "(if ps_enable_tracing s then [''--enable-tracing''] else []) @
      (if ps_enable_debug s then [''--enable-debug''] else []) @ ?t1"
  let ?t3 = "[''--speculative-mode'', ec_speculative_mode ?c, ''--prefix-cache-mode'', ec_prefix_cache_mode ?c,
      ''--overrides'', override_string (popen_overrides fstr ?c)] @ ?t2"
  let ?t4 = "(if ec_additional_models ?c = [] then []
       else ''--additional-models'' # map additional_model_arg (ec_additional_models ?c)) @ ?t3"
  let ?t5 = "(case ps_model_lib s of None \<Rightarrow> [] | Some l \<Rightarrow> [''--model-lib'', l]) @
      [''--device'', ps_device s] @ (if ps_enable_debug s then [''--enable-debug''] else []) @
      [''--mode'', ps_mode s] @ ?t4"
  note parse = parse_one parse_flag serve_option_kinds plain_is_value int_is_value
  have argv: "popen_argv fstr s = ps_model s # ?t5"
    using popen_overrides_nonempty by (simp add: popen_argv_def Let_def)
  have "parse_argv serve_options ?t2 = Inr
     ((if ps_enable_tracing s then [(''--enable-tracing'', [])] else []) @
      (if ps_enable_debug s then [(''--enable-debug'', [])] else []) @
      [(''--host'', [ps_host s]), (''--port'', [int_str (ps_port s)])], [])" (is "_ = Inr (?o2, [])")
    using vals by (simp add: parse)
  then have t3: "parse_argv serve_options ?t3 = Inr
     ([(''--speculative-mode'', [ec_speculative_mode ?c]), (''--prefix-cache-mode'', [ec_prefix_cache_mode ?c]),
       (''--overrides'', [override_string (popen_overrides fstr ?c)])] @ ?o2, [])" (is "_ = Inr (?o3, [])")
    using vals by (simp add: parse popen_overrides_plain)
  have "list_all is_value (map additional_model_arg (ec_additional_models ?c))"
    using vals by (auto simp: list_all_iff plain_is_value)
  then have t4: "parse_argv serve_options ?t4 = Inr
     ((if ec_additional_models ?c = [] then []
       else [(''--additional-models'', map additional_model_arg (ec_additional_models ?c))]) @ ?o3, [])"
    (is "_ = Inr (?o4, [])")
    using parse_many [OF serve_option_kinds(5) _ spec_no_value,
        of "map additional_model_arg (ec_additional_models ?c)" "tl ?t3"] t3
    by auto
  have "parse_argv serve_options ?t5 = Inr (popen_options fstr s, [])"
    using vals t4 unfolding popen_options_def Let_def
    by (cases "ps_model_lib s") (auto simp: parse)
  then show ?thesis unfolding argv using vals plain_no_option plain_is_value by (simp add: parse_argv.simps(2))
qed

text \<open>The overrides of the command line are parsed to the values of the config.\<close>

definition entries :: "(string \<times> (string \<times> json) option) list \<Rightarrow> (string \<times> string \<times> json) list" where
  "entries fs = concat (map (\<lambda>(k, v). case v of None \<Rightarrow> [] | Some w \<Rightarrow> [(k, w)]) fs)"

definition int_entry :: "int option \<Rightarrow> (string \<times> json) option" where
  "int_entry v = map_option (\<lambda>i. (int_str i, JInt i)) v"

definition popen_fields :: "(pyfloat \<Rightarrow> string) \<Rightarrow> engine_config \<Rightarrow> (string \<times> (string \<times> json) option) list" where
  "popen_fields fstr c =
     [(''max_num_sequence'', int_entry (ec_max_num_sequence c)),
      (''max_total_seq_length'', int_entry (ec_max_total_sequence_length c)),
      (''prefill_chunk_size'', int_entry (ec_prefill_chunk_size c)),
      (''max_history_size'', int_entry (ec_max_history_size c)),
      (''gpu_memory_utilization'', map_option (\<lambda>x. (fstr x, JFloat x)) (ec_gpu_memory_utilization c)),
      (''spec_draft_length'', int_entry (Some (ec_spec_draft_length c))),
      (''prefix_cache_max_num_recycling_seqs'', int_entry (ec_prefix_cache_max_num_recycling_seqs c))]"

lemma entries_simps [simp]:
  "entries [] = []"
  "entries ((k, v) # fs) = (case v of None \<Rightarrow> [] | Some w \<Rightarrow> [(k, w)]) @ entries fs"
  by (simp_all add: entries_def)

lemma entries_keys: "fst ` set (entries fs) \<subseteq> fst ` set fs"
  by (induction fs) (auto split: option.splits, force)

lemma entries_distinct: "distinct (map fst fs) \<Longrightarrow> distinct (map fst (entries fs))"
proof (induction fs)
  case (Cons f fs)
  obtain k v where f: "f = (k, v)" by (cases f)
  have "k \<notin> fst ` set (entries fs)" using Cons.prems entries_keys [of fs] by (auto simp only: f distinct.simps list.map fst_conv set_map)
  moreover have "distinct (map fst (entries fs))" using Cons by simp
  ultimately show ?case by (cases v) (simp_all add: f)
qed simp

lemma entries_other:
  "map_of fs k = None \<Longrightarrow> map_of (map (\<lambda>(n, v, j). (n, j)) (entries fs)) k = None"
  by (induction fs) (auto split: option.splits if_splits)

lemma entries_value:
  "distinct (map fst fs) \<Longrightarrow> map_of fs k = Some v \<Longrightarrow>
     map_of (map (\<lambda>(n, v, j). (n, j)) (entries fs)) k = map_option snd v"
proof (induction fs)
  case (Cons f fs)
  have none: "map_of (map (\<lambda>(n, v, j). (n, j)) (entries fs)) (fst f) = None"
    by (rule entries_other) (use Cons.prems(1) in \<open>simp add: map_of_eq_None_iff\<close>)
  show ?case using Cons none by (cases f) (auto split: option.splits if_splits)
qed simp

lemma popen_fields_distinct: "distinct (map fst (popen_fields fstr c))"
  by (simp add: popen_fields_def)

lemma printed_entry:
  "map (\<lambda>(n, v, j). (n, v)) (case map_option (\<lambda>x. (str x, js x)) v of None \<Rightarrow> [] | Some w \<Rightarrow> [(k, w)]) =
     opt_entry k str v"
  by (simp add: opt_entry_def split: option.splits)

lemma popen_fields_printed: "map (\<lambda>(n, v, j). (n, v)) (entries (popen_fields fstr c)) = popen_overrides fstr c"
  by (simp only: popen_fields_def int_entry_def entries_simps map_append printed_entry popen_overrides_def)
     (simp add: opt_entry_def)

lemma int_text_plain: "CHR '';'' \<notin> set (int_str i)"
  using int_str_chars [of "CHR '';''" i] by auto

interpretation engine_format: override_format "engine_override_types conv_float" engine_override_defaults
  for conv_float :: "string \<Rightarrow> json option"
  by unfold_locales (auto simp: engine_override_types_def engine_override_defaults_def)

lemma popen_fields_convert:
  assumes "\<And>x. ec_gpu_memory_utilization c = Some x \<Longrightarrow> conv_float (fstr x) = Some (JFloat x) \<and> CHR '';'' \<notin> set (fstr x)"
  shows "list_all (converts (engine_override_types conv_float)) (entries (popen_fields fstr c))"
proof -
  let ?p = "\<lambda>k v. list_all (converts (engine_override_types conv_float))
    (case v of None \<Rightarrow> [] | Some w \<Rightarrow> [(k, w)])"
  have int: "?p k (int_entry v)" if "map_of (engine_override_types conv_float) k = Some conv_int" for k v
    using that int_text_plain by (simp add: int_entry_def converts_def conv_int_def split: option.splits)
  have float: "?p ''gpu_memory_utilization'' (map_option (\<lambda>x. (fstr x, JFloat x)) (ec_gpu_memory_utilization c))"
    using assms by (simp add: converts_def engine_override_types_def split: option.splits)
  show ?thesis unfolding popen_fields_def entries_simps list_all_append
    by (intro conjI int float) (simp_all add: engine_override_types_def)
qed

lemma popen_overrides_parsed:
  assumes "\<And>x. ec_gpu_memory_utilization c = Some x \<Longrightarrow> conv_float (fstr x) = Some (JFloat x) \<and> CHR '';'' \<notin> set (fstr x)"
  shows "\<exists>ov. engine_config_override_from_str conv_float (override_string (popen_overrides fstr c)) = Inr ov \<and>
     (\<forall>k. dict_get ov k = (case map_of (map (\<lambda>(n, v, j). (n, j)) (entries (popen_fields fstr c))) k of
        Some j \<Rightarrow> Some j | None \<Rightarrow> dict_get engine_override_defaults k))"
  using engine_format.parse_values [OF popen_fields_convert [of c conv_float fstr]
      entries_distinct [OF popen_fields_distinct]] assms
  by (auto simp: engine_config_override_from_str_def popen_fields_printed)

text \<open>The fields that \<open>PopenServer\<close> passes on, and those it does not.\<close>

definition forwarded_fields :: "string list" where
  "forwarded_fields =
     [''additional_models'', ''max_num_sequence'', ''max_total_sequence_length'', ''prefill_chunk_size'',
      ''max_history_size'', ''gpu_memory_utilization'', ''speculative_mode'', ''spec_draft_length'',
      ''prefix_cache_mode'', ''prefix_cache_max_num_recycling_seqs'']"

definition dropped_fields :: "string list" where
  "dropped_fields =
     [''tensor_parallel_shards'', ''pipeline_parallel_stages'', ''opt'', ''max_single_sequence_length'',
      ''sliding_window_size'', ''attention_sink_size'', ''spec_tree_width'']"

fun plain_model :: "additional_model \<Rightarrow> bool" where
  "plain_model (AMStr m) = (CHR '','' \<notin> set m)"
| "plain_model (AMPair m l) = (CHR '','' \<notin> set m)"

lemma split_model_arg: "plain_model am \<Longrightarrow> split_model (additional_model_arg am) = additional_model_json am"
proof (cases am)
  case (AMPair m l)
  assume "plain_model am"
  then have "takeWhile (\<lambda>c. c \<noteq> CHR '','') (m @ CHR '','' # l) = m"
    using AMPair by (auto simp: takeWhile_append)
  then show ?thesis using AMPair by (simp add: split_model_def)
next
  case (AMStr m)
  assume "plain_model am"
  then have "takeWhile (\<lambda>c. c \<noteq> CHR '','') m = m" using AMStr by (auto simp: takeWhile_eq_all_conv)
  then show ?thesis using AMStr by (simp add: split_model_def)
qed

lemma popen_option_values:
  "opt_values (popen_options fstr s) ''--mode'' = [ps_mode s]"
  "opt_values (popen_options fstr s) ''--speculative-mode'' = [ec_speculative_mode (ps_engine_config s)]"
  "opt_values (popen_options fstr s) ''--prefix-cache-mode'' = [ec_prefix_cache_mode (ps_engine_config s)]"
  "opt_values (popen_options fstr s) ''--prefill-mode'' = []"
  "opt_values (popen_options fstr s) ''--overrides'' =
     [override_string (popen_overrides fstr (ps_engine_config s))]"
  "opt_values (popen_options fstr s) ''--port'' = [int_str (ps_port s)]"
  "opt_values (popen_options fstr s) ''--allow-origins'' = []"
  "opt_values (popen_options fstr s) ''--allow-methods'' = []"
  "opt_values (popen_options fstr s) ''--allow-headers'' = []"
  "opt_values (popen_options fstr s) ''--device'' = [ps_device s]"
  "opt_values (popen_options fstr s) ''--host'' = [ps_host s]"
  "opt_values (popen_options fstr s) ''--model-lib'' = (case ps_model_lib s of None \<Rightarrow> [] | Some l \<Rightarrow> [l])"
  by (simp_all add: opt_values_def popen_options_def Let_def split: option.splits)

lemma popen_option_last:
  "opt_value (popen_options fstr s) ''--additional-models'' =
     (if ec_additional_models (ps_engine_config s) = [] then None
      else Some (map additional_model_arg (ec_additional_models (ps_engine_config s))))"
  "opt_value (popen_options fstr s) ''--enable-debug'' = (if ps_enable_debug s then Some [] else None)"
  "opt_value (popen_options fstr s) ''--enable-tracing'' = (if ps_enable_tracing s then Some [] else None)"
  by (simp_all add: opt_value_def popen_options_def Let_def map_add_def split: option.splits)

lemma typed_value_simps [simp]:
  "typed_value conv dflt [] = Inr dflt"
  "typed_value conv dflt [x] = conv x"
  by (cases "conv x"; simp add: typed_value_def)+

text \<open>The parsed overrides, as the fields of the engine config's JSON object.\<close>

lemma popen_override_values:
  assumes "\<And>k. dict_get ov k = (case map_of (map (\<lambda>(n, v, j). (n, j)) (entries (popen_fields fstr c))) k of
        Some j \<Rightarrow> Some j | None \<Rightarrow> dict_get engine_override_defaults k)"
  shows "override_value ov ''max_num_sequence'' = opt_json JInt (ec_max_num_sequence c)"
    "override_value ov ''max_total_seq_length'' = opt_json JInt (ec_max_total_sequence_length c)"
    "override_value ov ''prefill_chunk_size'' = opt_json JInt (ec_prefill_chunk_size c)"
    "override_value ov ''max_history_size'' = opt_json JInt (ec_max_history_size c)"
    "override_value ov ''gpu_memory_utilization'' = opt_json JFloat (ec_gpu_memory_utilization c)"
    "override_value ov ''spec_draft_length'' = JInt (ec_spec_draft_length c)"
    "override_value ov ''prefix_cache_max_num_recycling_seqs'' =
       opt_json JInt (ec_prefix_cache_max_num_recycling_seqs c)"
    "k \<in> set [''tensor_parallel_shards'', ''pipeline_parallel_stages'', ''opt'', ''context_window_size'',
       ''sliding_window_size'', ''attention_sink_size'', ''spec_tree_width''] \<Longrightarrow> override_value ov k = JNull"
proof -
  have some: "override_value ov k = (case w of Some (_, j) \<Rightarrow> j | None \<Rightarrow> JNull)"
    if "map_of (popen_fields fstr c) k = Some w" "dict_get engine_override_defaults k = Some JNull" for k w
    using that entries_value [OF popen_fields_distinct that(1)]
    by (cases w) (auto simp: override_value_def assms)
  have int: "(case int_entry v of Some (_, j) \<Rightarrow> j | None \<Rightarrow> JNull) = opt_json JInt v" for v
    by (simp add: int_entry_def opt_json_def split: option.splits)
  have float: "(case map_option (\<lambda>x. (fstr x, JFloat x)) v of Some (_, j) \<Rightarrow> j | None \<Rightarrow> JNull) = opt_json JFloat v" for v
    by (simp add: opt_json_def split: option.splits)
  note fields = popen_fields_def engine_override_defaults_def
  show "override_value ov ''max_num_sequence'' = opt_json JInt (ec_max_num_sequence c)"
    using some [of "''max_num_sequence''", unfolded fields] int by simp
  show "override_value ov ''max_total_seq_length'' = opt_json JInt (ec_max_total_sequence_length c)"
    using some [of "''max_total_seq_length''", unfolded fields] int by simp
  show "override_value ov ''prefill_chunk_size'' = opt_json JInt (ec_prefill_chunk_size c)"
    using some [of "''prefill_chunk_size''", unfolded fields] int by simp
  show "override_value ov ''max_history_size'' = opt_json JInt (ec_max_history_size c)"
    using some [of "''max_history_size''", unfolded fields] int by simp
  show "override_value ov ''gpu_memory_utilization'' = opt_json JFloat (ec_gpu_memory_utilization c)"
    using some [of "''gpu_memory_utilization''", unfolded fields] float by simp
  show "override_value ov ''spec_draft_length'' = JInt (ec_spec_draft_length c)"
    using some [of "''spec_draft_length''", unfolded fields] by (simp add: int_entry_def)
  show "override_value ov ''prefix_cache_max_num_recycling_seqs'' =
       opt_json JInt (ec_prefix_cache_max_num_recycling_seqs c)"
    using some [of "''prefix_cache_max_num_recycling_seqs''", unfolded fields] int by simp
  show "k \<in> set [''tensor_parallel_shards'', ''pipeline_parallel_stages'', ''opt'', ''context_window_size'',
       ''sliding_window_size'', ''attention_sink_size'', ''spec_tree_width''] \<Longrightarrow> override_value ov k = JNull"
    using entries_other [of "popen_fields fstr c" k]
    by (auto simp: fields override_value_def assms simp del: entries_simps)
qed

text \<open>
  C31: what reaches the server of a \<open>PopenServer\<close>. For ordinary argument strings the command
  line it builds is accepted by the \<open>serve\<close> command; model, library, device, mode, debug and
  tracing flags, host and port arrive, and ten fields of the engine config arrive unchanged; seven
  others never arrive, whatever their values, and are unset in the server's config, and the prefill
  mode is always the default one.
\<close>

theorem launch_roundtrip:
  assumes plain: "plain_server s" and models: "list_all plain_model (ec_additional_models (ps_engine_config s))"
    and choices: "ps_mode s \<in> {''local'', ''interactive'', ''server''}"
      "ec_speculative_mode (ps_engine_config s) \<in> {''disable'', ''small_draft'', ''eagle'', ''medusa''}"
      "ec_prefix_cache_mode (ps_engine_config s) \<in> {''disable'', ''radix''}"
    and float: "\<And>x. ec_gpu_memory_utilization (ps_engine_config s) = Some x \<Longrightarrow>
      conv_float (fstr x) = Some (JFloat x) \<and> CHR '';'' \<notin> set (fstr x)"
  shows "\<exists>d. serve_main conv_float json_arg (popen_argv fstr s) =
       Inr \<lparr>sa_model = ps_model s, sa_device = ps_device s, sa_model_lib = ps_model_lib s, sa_mode = ps_mode s,
            sa_enable_debug = ps_enable_debug s, sa_engine_config = d, sa_enable_tracing = ps_enable_tracing s,
            sa_host = ps_host s, sa_port = ps_port s\<rparr> \<and>
     (\<forall>k \<in> set forwarded_fields. dict_get d k = dict_get (engine_config_asdict (ps_engine_config s)) k) \<and>
     (\<forall>k \<in> set dropped_fields. dict_get d k = Some JNull) \<and>
     dict_get d ''prefill_mode'' = Some (JStr ''hybrid'')"
proof -
  let ?c = "ps_engine_config s"
  obtain ov where ov: "engine_config_override_from_str conv_float (override_string (popen_overrides fstr ?c)) = Inr ov"
    and get: "\<And>k. dict_get ov k = (case map_of (map (\<lambda>(n, v, j). (n, j)) (entries (popen_fields fstr ?c))) k of
        Some j \<Rightarrow> Some j | None \<Rightarrow> dict_get engine_override_defaults k)"
    using popen_overrides_parsed [of ?c conv_float fstr] float by blast
  have am: "map split_model (case opt_value (popen_options fstr s) ''--additional-models'' of
       Some xs \<Rightarrow> xs | None \<Rightarrow> []) = map additional_model_json (ec_additional_models ?c)"
    using models by (auto simp: popen_option_last list_all_iff split_model_arg)
  have "choice [''local'', ''interactive'', ''server''] (ps_mode s) = Inr (ps_mode s)"
    "choice [''disable'', ''small_draft'', ''eagle'', ''medusa''] (ec_speculative_mode ?c) = Inr (ec_speculative_mode ?c)"
    "choice [''disable'', ''radix''] (ec_prefix_cache_mode ?c) = Inr (ec_prefix_cache_mode ?c)"
    using choices by (simp_all add: choice_def)
  then have main: "serve_main conv_float json_arg (popen_argv fstr s) =
       Inr \<lparr>sa_model = ps_model s, sa_device = ps_device s, sa_model_lib = ps_model_lib s, sa_mode = ps_mode s,
            sa_enable_debug = ps_enable_debug s, sa_engine_config =
              serve_engine_config (override_value ov) (map additional_model_json (ec_additional_models ?c))
                (ec_speculative_mode ?c) (ec_prefix_cache_mode ?c) ''hybrid'',
            sa_enable_tracing = ps_enable_tracing s, sa_host = ps_host s, sa_port = ps_port s\<rparr>"
    unfolding serve_main_def parse_popen_argv [OF plain]
    by (simp add: popen_option_values popen_option_last(2-3) am ov int_arg_def last_value_def split: option.splits)
  show ?thesis unfolding main
    by (simp add: serve_engine_config_def forwarded_fields_def dropped_fields_def engine_config_asdict_def
          popen_override_values [OF get])
qed

definition demo_server :: popen_server where
  "demo_server =
     \<lparr>ps_model = ''llama'', ps_model_lib = None, ps_device = ''cuda'', ps_mode = ''server'',
      ps_enable_debug = True,
      ps_engine_config = default_engine_config\<lparr>ec_additional_models := [AMPair ''draft'' ''lib.so''],
        ec_tensor_parallel_shards := Some 2, ec_max_num_sequence := Some 8\<rparr>,
      ps_enable_tracing = False, ps_host = ''0.0.0.0'', ps_port = 8000, ps_proc = False,
      ps_base_url = [], ps_openai_v1_base_url = []\<rparr>"

text \<open>Two tensor-parallel shards are asked for; the server's engine is configured without them.\<close>

theorem launch_roundtrip_witness:
  "\<exists>a. serve_main (\<lambda>_. None) (\<lambda>_. Inr JNull) (popen_argv (\<lambda>_. []) demo_server) = Inr a \<and>
     sa_model a = ''llama'' \<and> sa_port a = 8000 \<and>
     dict_get (sa_engine_config a) ''max_num_sequence'' = Some (JInt 8) \<and>
     dict_get (sa_engine_config a) ''additional_models'' = Some (JList [JList [JStr ''draft'', JStr ''lib.so'']]) \<and>
     dict_get (sa_engine_config a) ''tensor_parallel_shards'' = Some JNull"
  using launch_roundtrip [of demo_server "\<lambda>_. None" "\<lambda>_. []" "\<lambda>_. Inr JNull"]
  by (fastforce simp: demo_server_def plain_server_def plain_arg_def default_engine_config_def forwarded_fields_def
        dropped_fields_def engine_config_asdict_def opt_json_def)

end
