(* ===== verification/Sync_Engine.thy ===== *)
theory Sync_Engine
  imports Flags_Correct
begin

text \<open>
  \<open>serve/sync_engine.py\<close>: the engine that is stepped by its caller. \<open>generate\<close> registers a
  callback that detokenizes every generation of every prompt, adds the requests and steps the
  native engine until all generations have finished. What the native engine streams is an
  argument: \<open>steps k\<close> is the list of batches the \<open>k\<close>-th call of \<open>step\<close> passes to the callback.
  The first part is the model, the second its correctness.
\<close>

section \<open>The engine\<close>

datatype 'img sync_call =
    SyncInit "json dict"
  | SyncAddRequest string "'img data list" generation_config
  | SyncAbortRequest string
  | SyncReset

text \<open>The stream callback of the native engine: the one it was created with, or that of \<open>generate\<close>.\<close>

datatype stream_callback = OriginalCallback | GenerateCallback

record 'img sync_engine =
  sy_conv_template :: conversation
  sy_model_config_dicts :: "json dict list"
  sy_tracing :: bool
  sy_callback :: stream_callback
  sy_calls :: "'img sync_call list"

definition sync_native :: "'img sync_call \<Rightarrow> 'img sync_engine \<Rightarrow> 'img sync_engine" where
  "sync_native c e = e\<lparr>sy_calls := sy_calls e @ [c]\<rparr>"

text \<open>\<open>native_init\<close> is the call of \<open>init\<close>, \<open>make_tokenizer\<close> the tokenizer of the first model.\<close>

definition sync_engine_init ::
    "model_io \<Rightarrow> unit res \<Rightarrow> (json dict \<Rightarrow> unit res) \<Rightarrow> (string \<Rightarrow> unit res) \<Rightarrow> string \<Rightarrow> string option \<Rightarrow>
     string \<Rightarrow> engine_config option \<Rightarrow> bool \<Rightarrow> 'img sync_engine res" where
  "sync_engine_init io device_ok native_init make_tokenizer model model_lib mode engine_config tracing =
     (let c = (case engine_config of None \<Rightarrow> default_engine_config | Some c \<Rightarrow> c) in
      bindR (check_engine_config model model_lib mode c) (\<lambda>_.
      bindR device_ok (\<lambda>_.
      bindR (process_model_args io (parse_models model model_lib (ec_additional_models c)) c)
        (\<lambda>(args, paths, conv).
      bindR (mapR (read_model_config io) paths) (\<lambda>dicts.
      let d = engine_config_asdict (reload_config c args mode) in
      bindR (native_init d) (\<lambda>_.
      bindR (make_tokenizer (fst (hd args))) (\<lambda>_.
      Inr \<lparr>sy_conv_template = conv, sy_model_config_dicts = dicts, sy_tracing = tracing,
           sy_callback = OriginalCallback, sy_calls = [SyncInit d]\<rparr>)))))))"

definition sync_abort_request :: "string \<Rightarrow> 'img sync_engine \<Rightarrow> 'img sync_engine" where
  "sync_abort_request request_id e = sync_native (SyncAbortRequest request_id) e"

definition sync_reset :: "'img sync_engine \<Rightarrow> 'img sync_engine" where
  "sync_reset e = sync_native SyncReset e"

section \<open>The callback of generate\<close>

text \<open>The variables of one call of \<open>generate\<close> that its callback updates.\<close>

record 's generation =
  gn_num_finished :: int
  gn_texts :: "string list list"
  gn_logprobs :: "string list list option list"
  gn_streamers :: "'s list list"

definition generation_init :: "'s \<Rightarrow> generation_config list \<Rightarrow> 's generation" where
  "generation_init new_streamer cfgs =
     \<lparr>gn_num_finished = 0,
      gn_texts = map (\<lambda>c. replicate (nat (gc_n c)) []) cfgs,
      gn_logprobs = map (\<lambda>c. if gc_logprobs c then Some (replicate (nat (gc_n c)) []) else None) cfgs,
      gn_streamers = map (\<lambda>c. replicate (nat (gc_n c)) new_streamer) cfgs\<rparr>"

text \<open>The position of the index \<open>i\<close> in a list of length \<open>n\<close>; a negative one counts from the end.\<close>

definition py_index :: "nat \<Rightarrow> int \<Rightarrow> nat res" where
  "py_index n i =
     (if 0 \<le> i \<and> i < int n then Inr (nat i)
      else if - int n \<le> i \<and> i < 0 then Inr (nat (i + int n))
      else Inl IndexError)"

text \<open>One stream output, of generation \<open>i\<close> of request \<open>rid\<close>.\<close>

definition extend_logprobs ::
    "nat \<Rightarrow> nat \<Rightarrow> single_request_stream_output \<Rightarrow> 's generation \<Rightarrow> 's generation res" where
  "extend_logprobs rid i out g =
     (case gn_logprobs g ! rid of
        None \<Rightarrow> Inr g
      | Some lps \<Rightarrow>
          (case so_delta_logprob_json_strs out of
             None \<Rightarrow> Inl AssertionError
           | Some l \<Rightarrow> bindR (indexR lps i) (\<lambda>old.
               Inr (g\<lparr>gn_logprobs := (gn_logprobs g)[rid := Some (lps[i := old @ l])]\<rparr>))))"

definition stream_output_step ::
    "'s put_fn \<Rightarrow> 's finish_fn \<Rightarrow> nat \<Rightarrow> 's generation \<Rightarrow> nat \<times> single_request_stream_output \<Rightarrow>
     's generation res" where
  "stream_output_step put fin rid g x =
     (case x of (i, out) \<Rightarrow>
        bindR (extend_logprobs rid i out g) (\<lambda>g.
        case detokenize put fin (gn_streamers g ! rid ! i) out of
          (s, Inl e) \<Rightarrow> Inl e
        | (s, Inr t) \<Rightarrow> bindR (indexR (gn_texts g ! rid) i) (\<lambda>old.
            Inr (g\<lparr>gn_streamers := (gn_streamers g)[rid := (gn_streamers g ! rid)[i := s]],
                  gn_texts := (gn_texts g)[rid := (gn_texts g ! rid)[i := old @ t]],
                  gn_num_finished := gn_num_finished g + (if so_finish_reason out \<noteq> None then 1 else 0)\<rparr>))))"

definition delta_output_step ::
    "'s put_fn \<Rightarrow> 's finish_fn \<Rightarrow> generation_config list \<Rightarrow> 's generation \<Rightarrow> request_stream_output \<Rightarrow>
     's generation res" where
  "delta_output_step put fin cfgs g delta =
     bindR (unpack delta) (\<lambda>(request_id, outs).
     case py_int request_id of
       None \<Rightarrow> Inl (ValueError ''invalid literal for int() with base 10'')
     | Some k \<Rightarrow>
         bindR (py_index (length cfgs) k) (\<lambda>rid.
         if int (length outs) \<noteq> gc_n (cfgs ! rid) then Inl AssertionError
         else foldR (stream_output_step put fin rid) g
                (enumerate 0 (take (length (gn_streamers g ! rid)) outs))))"

definition generate_callback ::
    "'s put_fn \<Rightarrow> 's finish_fn \<Rightarrow> generation_config list \<Rightarrow> 's generation \<Rightarrow> request_stream_output list \<Rightarrow>
     's generation res" where
  "generate_callback put fin cfgs g deltas = foldR (delta_output_step put fin cfgs) g deltas"

section \<open>Generation\<close>

text \<open>
  \<open>prompts\<close>: a string, a list of token ids, or a list of prompts each of which is a string, a
  list of token ids or a list of data.
\<close>

datatype 'img sync_prompt = SPStr string | SPTokens "int list" | SPData "'img data list"

datatype 'img sync_prompts = OneStr string | OneTokens "int list" | ManyPrompts "'img sync_prompt list"

datatype sync_configs = SharedConfig generation_config | ConfigPerPrompt "generation_config list"

fun sync_prompt_list :: "'img sync_prompts \<Rightarrow> 'img sync_prompt list" where
  "sync_prompt_list (OneStr s) = [SPStr s]"
| "sync_prompt_list (OneTokens ids) = (if ids = [] then [] else [SPTokens ids])"
| "sync_prompt_list (ManyPrompts ps) = ps"

fun sync_config_list :: "nat \<Rightarrow> sync_configs \<Rightarrow> generation_config list" where
  "sync_config_list n (SharedConfig c) = replicate n c"
| "sync_config_list n (ConfigPerPrompt cs) = cs"

fun convert_to_data :: "'img sync_prompt \<Rightarrow> 'img data list res" where
  "convert_to_data (SPStr s) = Inr [TextData s]"
| "convert_to_data (SPTokens ids) = (if ids = [] then Inl IndexError else Inr [TokenData ids])"
| "convert_to_data (SPData ds) = (if ds = [] then Inl IndexError else Inr ds)"

fun add_requests ::
    "nat \<Rightarrow> ('img sync_prompt \<times> generation_config) list \<Rightarrow> 'img sync_engine \<Rightarrow> 'img sync_engine \<times> unit res" where
  "add_requests i [] e = (e, Inr ())"
| "add_requests i ((p, c) # pcs) e =
     (case convert_to_data p of
        Inl err \<Rightarrow> (e, Inl err)
      | Inr ds \<Rightarrow> add_requests (Suc i) pcs (sync_native (SyncAddRequest (int_str (int i)) ds c) e))"

text \<open>The stepping loop; \<open>None\<close> when it never ends.\<close>

partial_function (option) step_loop ::
    "'s put_fn \<Rightarrow> 's finish_fn \<Rightarrow> generation_config list \<Rightarrow> (nat \<Rightarrow> request_stream_output list list) \<Rightarrow> nat \<Rightarrow>
     's generation \<Rightarrow> 's generation res option" where
  "step_loop put fin cfgs steps k g =
     (if gn_num_finished g = sum_list (map gc_n cfgs) then Some (Inr g)
      else
        case foldR (generate_callback put fin cfgs) g (steps k) of
          Inl e \<Rightarrow> Some (Inl e)
        | Inr g' \<Rightarrow> step_loop put fin cfgs steps (k + 1) g')"

definition generate ::
    "'s put_fn \<Rightarrow> 's finish_fn \<Rightarrow> 's \<Rightarrow> (nat \<Rightarrow> request_stream_output list list) \<Rightarrow> 'img sync_prompts \<Rightarrow>
     sync_configs \<Rightarrow> 'img sync_engine \<Rightarrow>
     ('img sync_engine \<times> (string list list \<times> string list list option list) res) option" where
  "generate put fin new_streamer steps prompts config e =
     (let ps = sync_prompt_list prompts; cfgs = sync_config_list (length ps) config in
      if ps = [] then Some (e, Inr ([], []))
      else if length cfgs \<noteq> length ps then Some (e, Inl AssertionError)
      else
        (case add_requests 0 (zip ps cfgs) (e\<lparr>sy_callback := GenerateCallback\<rparr>) of
           (e', Inl err) \<Rightarrow> Some (e', Inl err)
         | (e', Inr _) \<Rightarrow>
             (case step_loop put fin cfgs steps 0 (generation_init new_streamer cfgs) of
                None \<Rightarrow> None
              | Some (Inl err) \<Rightarrow> Some (e', Inl err)
              | Some (Inr g) \<Rightarrow>
                  Some (e'\<lparr>sy_callback := sy_callback e\<rparr>, Inr (gn_texts g, gn_logprobs g)))))"

end
