(* ===== verification/Sync_Engine_Correct.thy ===== *)
theory Sync_Engine_Correct
  imports Sync_Engine
begin

text \<open>
  Correctness of \<open>generate\<close> of the sync engine: the texts and log probs it returns are those of
  the outputs the native engine streams for each generation, and it fails as soon as a usage
  output arrives for a request with several generations or with log probs.
\<close>

section \<open>What the native engine streams\<close>

definition delta_outs :: "request_stream_output \<Rightarrow> single_request_stream_output list" where
  "delta_outs d = (case unpack d of Inr (_, outs) \<Rightarrow> outs | Inl _ \<Rightarrow> [])"

text \<open>The outputs of generation \<open>i\<close> of request \<open>r\<close>, in order.\<close>

definition own_outputs ::
    "nat \<Rightarrow> nat \<Rightarrow> request_stream_output list \<Rightarrow> single_request_stream_output list" where
  "own_outputs r i ds =
     concat (map (\<lambda>d. if rso_request_id d = int_str (int r) \<and> i < length (delta_outs d)
                      then [delta_outs d ! i] else []) ds)"

definition is_finish :: "single_request_stream_output \<Rightarrow> bool" where
  "is_finish out \<longleftrightarrow> so_finish_reason out \<noteq> None"

definition finishes :: "request_stream_output list \<Rightarrow> nat" where
  "finishes ds = sum_list (map (\<lambda>d. length (filter is_finish (delta_outs d))) ds)"

text \<open>
  An output the callback can take: it belongs to one of the requests and has an entry per
  generation, with log probs where they were asked for; a usage output only for one
  generation without log probs.
\<close>

definition acceptable :: "generation_config list \<Rightarrow> request_stream_output \<Rightarrow> bool" where
  "acceptable cfgs d \<longleftrightarrow>
     (\<exists>r < length cfgs. rso_request_id d = int_str (int r) \<and>
        (case rso_request_final_usage_json_str d of
           None \<Rightarrow> 0 \<le> gc_n (cfgs ! r) \<and> rso_ok (nat (gc_n (cfgs ! r))) d \<and>
             (gc_logprobs (cfgs ! r) \<longrightarrow> rso_delta_logprob_json_strs d \<noteq> None)
         | Some _ \<Rightarrow> gc_n (cfgs ! r) = 1 \<and> \<not> gc_logprobs (cfgs ! r)))"

text \<open>All batches of the first \<open>k\<close> steps.\<close>

definition streamed :: "(nat \<Rightarrow> request_stream_output list list) \<Rightarrow> nat \<Rightarrow> request_stream_output list" where
  "streamed steps k = concat (concat (map steps [0..<k]))"

lemma streamed_simps [simp]:
  "streamed steps 0 = []" "streamed steps (Suc k) = streamed steps k @ concat (steps k)"
  by (simp_all add: streamed_def)

lemma own_outputs_simps [simp]:
  "own_outputs r i [] = []"
  "own_outputs r i (ds @ ds') = own_outputs r i ds @ own_outputs r i ds'"
  by (simp_all add: own_outputs_def)

lemma finishes_simps [simp]:
  "finishes [] = 0" "finishes (ds @ ds') = finishes ds + finishes ds'"
  "finishes (d # ds) = length (filter is_finish (delta_outs d)) + finishes ds"
  by (simp_all add: finishes_def)

lemma int_str_inject [simp]: "int_str i = int_str j \<longleftrightarrow> i = j"
  using py_int_str [of i] py_int_str [of j] by (metis option.inject)

lemma py_index_in_range [simp]: "r < n \<Longrightarrow> py_index n (int r) = Inr r"
  by (simp add: py_index_def)

section \<open>The state of the callback\<close>

definition log_probs_of :: "single_request_stream_output list \<Rightarrow> string list" where
  "log_probs_of outs = concat (map (\<lambda>out. case so_delta_logprob_json_strs out of Some l \<Rightarrow> l | None \<Rightarrow> []) outs)"

lemma log_probs_of_snoc [simp]:
  "log_probs_of (outs @ [out]) =
     log_probs_of outs @ (case so_delta_logprob_json_strs out of Some l \<Rightarrow> l | None \<Rightarrow> [])"
  by (simp add: log_probs_of_def)

text \<open>
  The state after the outputs \<open>h r i\<close> of every generation and \<open>m\<close> finish reasons. This is the
  abstraction: the streamer and the text of a generation are those of its own outputs.
\<close>

definition tracks ::
    "'s put_fn \<Rightarrow> 's finish_fn \<Rightarrow> 's \<Rightarrow> generation_config list \<Rightarrow>
     (nat \<Rightarrow> nat \<Rightarrow> single_request_stream_output list) \<Rightarrow> nat \<Rightarrow> 's generation \<Rightarrow> bool" where
  "tracks put fin new cfgs h m g \<longleftrightarrow>
     length (gn_texts g) = length cfgs \<and> length (gn_streamers g) = length cfgs \<and>
     length (gn_logprobs g) = length cfgs \<and> gn_num_finished g = int m \<and>
     (\<forall>r < length cfgs.
        length (gn_texts g ! r) = nat (gc_n (cfgs ! r)) \<and> length (gn_streamers g ! r) = nat (gc_n (cfgs ! r)) \<and>
        (\<forall>i < nat (gc_n (cfgs ! r)).
           detokenize_all put fin new (h r i) = (gn_streamers g ! r ! i, Inr (gn_texts g ! r ! i))) \<and>
        gn_logprobs g ! r =
          (if gc_logprobs (cfgs ! r) then Some (map (\<lambda>i. log_probs_of (h r i)) [0..<nat (gc_n (cfgs ! r))]) else None))"

lemma tracks_init: "tracks put fin new cfgs (\<lambda>_ _. []) 0 (generation_init new cfgs)"
  by (auto simp: tracks_def generation_init_def log_probs_of_def map_replicate_const)

lemma detokenize_snoc:
  assumes "detokenize_all put fin new outs = (s, Inr t)"
    and "detokenize_all put fin new (outs @ [out]) = (s', Inr t')"
  shows "\<exists>t1. detokenize put fin s out = (s', Inr t1) \<and> t' = t @ t1"
  using assms by (auto simp: detokenize_all_append then_text_def split: prod.splits sum.splits)

lemma detokenize_prefix:
  assumes "detokenize_all put fin new (outs @ outs') = (s, Inr t)"
  shows "\<exists>s t. detokenize_all put fin new outs = (s, Inr t)"
  using assms by (auto simp: detokenize_all_append then_text_def split: prod.splits sum.splits)

text \<open>One output of generation \<open>i\<close> extends the history of that generation.\<close>

lemma tracks_step:
  assumes t: "tracks put fin new cfgs h m g" and r: "rid < length cfgs" and i: "i < nat (gc_n (cfgs ! rid))"
    and detok: "detokenize_all put fin new (h rid i @ [out]) = (s', Inr t')"
    and lp: "gc_logprobs (cfgs ! rid) \<Longrightarrow> so_delta_logprob_json_strs out \<noteq> None"
  shows "\<exists>g'. stream_output_step put fin rid g (i, out) = Inr g' \<and>
     tracks put fin new cfgs (\<lambda>r j. if r = rid \<and> j = i then h r j @ [out] else h r j)
       (m + (if is_finish out then 1 else 0)) g'"
proof -
  let ?n = "nat (gc_n (cfgs ! rid))"
  let ?h = "\<lambda>r j. if r = rid \<and> j = i then h r j @ [out] else h r j"
  have old: "detokenize_all put fin new (h rid i) = (gn_streamers g ! rid ! i, Inr (gn_texts g ! rid ! i))"
    and len: "length (gn_texts g ! rid) = ?n" "length (gn_streamers g ! rid) = ?n"
    and lens: "length (gn_texts g) = length cfgs" "length (gn_streamers g) = length cfgs"
      "length (gn_logprobs g) = length cfgs"
    and lps: "gn_logprobs g ! rid =
      (if gc_logprobs (cfgs ! rid) then Some (map (\<lambda>i. log_probs_of (h rid i)) [0..<?n]) else None)"
    using t r i by (auto simp: tracks_def)
  obtain t1 where t1: "detokenize put fin (gn_streamers g ! rid ! i) out = (s', Inr t1)"
    "t' = gn_texts g ! rid ! i @ t1" using detokenize_snoc [OF old detok] by blast
  define lps' where "lps' = (if gc_logprobs (cfgs ! rid)
    then Some (map (\<lambda>j. log_probs_of (?h rid j)) [0..<?n]) else None)"
  have "extend_logprobs rid i out g = Inr (g\<lparr>gn_logprobs := (gn_logprobs g)[rid := lps']\<rparr>)"
  proof (cases "gc_logprobs (cfgs ! rid)")
    case True
    then obtain l where l: "so_delta_logprob_json_strs out = Some l" using lp by auto
    have "(map (\<lambda>i. log_probs_of (h rid i)) [0..<?n])[i := log_probs_of (h rid i) @ l] =
        map (\<lambda>j. log_probs_of (?h rid j)) [0..<?n]"
      using i l by (intro nth_equalityI) (auto simp: nth_list_update)
    then show ?thesis using True l lps i by (simp add: extend_logprobs_def lps'_def)
  next
    case False
    then have "(gn_logprobs g)[rid := lps'] = gn_logprobs g"
      using lps by (simp add: lps'_def) (metis list_update_id)
    then show ?thesis using False lps by (simp add: extend_logprobs_def)
  qed
  then show ?thesis using t1 len i
    by (intro exI conjI) (simp add: stream_output_step_def, use t r i detok t1 lens in
      \<open>auto simp: tracks_def lps'_def is_finish_def nth_list_update\<close>)
qed

lemma tracks_outputs:
  assumes "tracks put fin new cfgs h m g" "rid < length cfgs" "k + length outs \<le> nat (gc_n (cfgs ! rid))"
    and "\<And>j. j < length outs \<Longrightarrow> \<exists>s t. detokenize_all put fin new (h rid (k + j) @ [outs ! j]) = (s, Inr t)"
    and "\<And>out. out \<in> set outs \<Longrightarrow> gc_logprobs (cfgs ! rid) \<Longrightarrow> so_delta_logprob_json_strs out \<noteq> None"
  shows "\<exists>g'. foldR (stream_output_step put fin rid) g (enumerate k outs) = Inr g' \<and>
     tracks put fin new cfgs
       (\<lambda>r j. if r = rid \<and> k \<le> j \<and> j < k + length outs then h r j @ [outs ! (j - k)] else h r j)
       (m + length (filter is_finish outs)) g'"
  using assms
proof (induction outs arbitrary: k h m g)
  case Nil
  have "(\<lambda>r j. if r = rid \<and> k \<le> j \<and> j < k then h r j @ [[] ! (j - k)] else h r j) = h"
    by (auto simp: fun_eq_iff)
  then show ?case using Nil by simp
next
  case (Cons out outs)
  obtain s t where st: "detokenize_all put fin new (h rid k @ [out]) = (s, Inr t)"
    using Cons.prems(4) [of 0] by auto
  obtain g1 where g1: "stream_output_step put fin rid g (k, out) = Inr g1"
    "tracks put fin new cfgs (\<lambda>r j. if r = rid \<and> j = k then h r j @ [out] else h r j)
       (m + (if is_finish out then 1 else 0)) g1"
    using tracks_step [OF Cons.prems(1,2) _ st] Cons.prems(3,5) by auto
  have "\<exists>s t. detokenize_all put fin new ((if Suc k + j = k then h rid (Suc k + j) @ [out] else h rid (Suc k + j)) @
      [outs ! j]) = (s, Inr t)" if "j < length outs" for j
    using Cons.prems(4) [of "Suc j"] that by simp
  then obtain g' where g': "foldR (stream_output_step put fin rid) g1 (enumerate (Suc k) outs) = Inr g'"
    "tracks put fin new cfgs
       (\<lambda>r j. if r = rid \<and> Suc k \<le> j \<and> j < Suc k + length outs
              then (if r = rid \<and> j = k then h r j @ [out] else h r j) @ [outs ! (j - Suc k)]
              else (if r = rid \<and> j = k then h r j @ [out] else h r j))
       (m + (if is_finish out then 1 else 0) + length (filter is_finish outs)) g'"
    using Cons.IH [OF g1(2) Cons.prems(2), of "Suc k"] Cons.prems(3,5) by auto
  have "(\<lambda>r j. if r = rid \<and> Suc k \<le> j \<and> j < Suc k + length outs
              then (if r = rid \<and> j = k then h r j @ [out] else h r j) @ [outs ! (j - Suc k)]
              else (if r = rid \<and> j = k then h r j @ [out] else h r j)) =
      (\<lambda>r j. if r = rid \<and> k \<le> j \<and> j < k + length (out # outs) then h r j @ [(out # outs) ! (j - k)] else h r j)"
    by (auto simp: fun_eq_iff nth_Cons' not_less_eq_eq)
  then show ?case using g1(1) g' by (auto split: if_splits)
qed

lemma unpack_acceptable:
  assumes "acceptable cfgs d"
  obtains r outs where "r < length cfgs" "rso_request_id d = int_str (int r)"
    "unpack d = Inr (int_str (int r), outs)" "delta_outs d = outs" "int (length outs) = gc_n (cfgs ! r)"
    "\<forall>out \<in> set outs. gc_logprobs (cfgs ! r) \<longrightarrow> so_delta_logprob_json_strs out \<noteq> None"
proof -
  obtain r where r: "r < length cfgs" "rso_request_id d = int_str (int r)"
    "case rso_request_final_usage_json_str d of
           None \<Rightarrow> 0 \<le> gc_n (cfgs ! r) \<and> rso_ok (nat (gc_n (cfgs ! r))) d \<and>
             (gc_logprobs (cfgs ! r) \<longrightarrow> rso_delta_logprob_json_strs d \<noteq> None)
         | Some _ \<Rightarrow> gc_n (cfgs ! r) = 1 \<and> \<not> gc_logprobs (cfgs ! r)"
    using assms by (auto simp: acceptable_def)
  show thesis
  proof (cases "rso_request_final_usage_json_str d")
    case None
    then obtain outs where outs: "unpack d = Inr (rso_request_id d, outs)" "length outs = nat (gc_n (cfgs ! r))"
      "\<And>i. i < nat (gc_n (cfgs ! r)) \<Longrightarrow> so_delta_logprob_json_strs (outs ! i) =
         map_option (\<lambda>l. l ! i) (rso_delta_logprob_json_strs d)"
      using unpack_ok [of "nat (gc_n (cfgs ! r))" d] r(3) by auto
    have "so_delta_logprob_json_strs out \<noteq> None" if "out \<in> set outs" "gc_logprobs (cfgs ! r)" for out
      using that outs(2,3) r(3) None by (auto simp: in_set_conv_nth)
    then show thesis using that [of r outs] outs r None by (simp add: delta_outs_def)
  next
    case (Some u)
    then show thesis using that [of r "[\<lparr>so_delta_token_ids = [], so_delta_logprob_json_strs = None,
          so_finish_reason = None, so_request_final_usage_json_str = Some u, so_extra_prefix_string = []\<rparr>]"] r
      by (simp add: delta_outs_def unpack_def)
  qed
qed

lemma tracks_delta:
  assumes "tracks put fin new cfgs h m g" and ok: "acceptable cfgs d"
    and detok: "\<And>r i. \<exists>s t. detokenize_all put fin new (h r i @ own_outputs r i [d]) = (s, Inr t)"
  shows "\<exists>g'. delta_output_step put fin cfgs g d = Inr g' \<and>
     tracks put fin new cfgs (\<lambda>r i. h r i @ own_outputs r i [d]) (m + finishes [d]) g'"
proof -
  obtain r outs where d: "r < length cfgs" "rso_request_id d = int_str (int r)"
    "unpack d = Inr (int_str (int r), outs)" "delta_outs d = outs" "int (length outs) = gc_n (cfgs ! r)"
    "\<forall>out \<in> set outs. gc_logprobs (cfgs ! r) \<longrightarrow> so_delta_logprob_json_strs out \<noteq> None"
    using ok by (rule unpack_acceptable)
  have own: "own_outputs r' i [d] = (if r' = r \<and> i < length outs then [outs ! i] else [])" for r' i
    using d(2,4) by (auto simp: own_outputs_def)
  have len: "length (gn_streamers g ! r) = length outs" using assms(1) d(1,5) by (auto simp: tracks_def)
  have "\<exists>s t. detokenize_all put fin new (h r (0 + j) @ [outs ! j]) = (s, Inr t)" if "j < length outs" for j
    using detok [of r j] that by (simp add: own)
  moreover have "0 + length outs \<le> nat (gc_n (cfgs ! r))" using d(5) by simp
  ultimately obtain g' where g': "foldR (stream_output_step put fin r) g (enumerate 0 outs) = Inr g'"
    "tracks put fin new cfgs (\<lambda>r' j. if r' = r \<and> 0 \<le> j \<and> j < 0 + length outs then h r' j @ [outs ! (j - 0)] else h r' j)
       (m + length (filter is_finish outs)) g'"
    using tracks_outputs [OF assms(1) d(1), of 0 outs] d(6) by blast
  have "(\<lambda>r' j. if r' = r \<and> 0 \<le> j \<and> j < 0 + length outs then h r' j @ [outs ! (j - 0)] else h r' j) =
      (\<lambda>r i. h r i @ own_outputs r i [d])" by (auto simp: fun_eq_iff own)
  then show ?thesis using g' d len by (simp add: delta_output_step_def)
qed

lemma tracks_deltas:
  assumes "tracks put fin new cfgs h m g" and "list_all (acceptable cfgs) ds"
    and "\<And>r i. \<exists>s t. detokenize_all put fin new (h r i @ own_outputs r i ds) = (s, Inr t)"
  shows "\<exists>g'. foldR (delta_output_step put fin cfgs) g ds = Inr g' \<and>
     tracks put fin new cfgs (\<lambda>r i. h r i @ own_outputs r i ds) (m + finishes ds) g'"
  using assms
proof (induction ds arbitrary: h m g)
  case (Cons d ds)
  have own: "own_outputs r i (d # ds) = own_outputs r i [d] @ own_outputs r i ds" for r i
    using own_outputs_simps(2) [of r i "[d]" ds] by simp
  have "\<exists>s t. detokenize_all put fin new (h r i @ own_outputs r i [d]) = (s, Inr t)" for r i
    using Cons.prems(3) [of r i] detokenize_prefix by (metis append.assoc own)
  then obtain g1 where g1: "delta_output_step put fin cfgs g d = Inr g1"
    "tracks put fin new cfgs (\<lambda>r i. h r i @ own_outputs r i [d]) (m + finishes [d]) g1"
    using tracks_delta [OF Cons.prems(1), of d] Cons.prems(2) by auto
  then show ?case
    using Cons.IH [OF g1(2)] Cons.prems(2,3) by (auto simp: own add.assoc)
qed simp

lemma foldR_concat: "foldR (\<lambda>s xs. foldR f s xs) s xss = foldR f s (concat xss)"
  by (induction xss arbitrary: s) (auto simp: foldR_append bindR_def split: sum.splits)

lemma callbacks_concat:
  "foldR (generate_callback put fin cfgs) g batches = foldR (delta_output_step put fin cfgs) g (concat batches)"
  using foldR_concat by (simp add: generate_callback_def [abs_def])

section \<open>The loop\<close>

lemma streamed_more: "\<exists>ds. streamed steps (k + Suc n) = streamed steps k @ concat (steps k) @ ds"
proof (induction n)
  case (Suc n)
  then obtain ds where "streamed steps (k + Suc n) = streamed steps k @ concat (steps k) @ ds" by blast
  then have "streamed steps (k + Suc (Suc n)) = streamed steps k @ concat (steps k) @ ds @ concat (steps (k + Suc n))"
    using streamed_simps(2) [of steps "k + Suc n"] by (simp del: streamed_simps)
  then show ?case by blast
qed simp

lemma step_loop_tracks:
  assumes "tracks put fin new cfgs (\<lambda>r i. own_outputs r i (streamed steps k)) (finishes (streamed steps k)) g"
    and "list_all (acceptable cfgs) (streamed steps (k + n))"
    and "\<And>r i. \<exists>s t. detokenize_all put fin new (own_outputs r i (streamed steps (k + n))) = (s, Inr t)"
    and "\<And>j. k \<le> j \<Longrightarrow> j < k + n \<Longrightarrow> int (finishes (streamed steps j)) \<noteq> sum_list (map gc_n cfgs)"
    and "int (finishes (streamed steps (k + n))) = sum_list (map gc_n cfgs)"
  shows "\<exists>g'. step_loop put fin cfgs steps k g = Some (Inr g') \<and>
     tracks put fin new cfgs (\<lambda>r i. own_outputs r i (streamed steps (k + n))) (finishes (streamed steps (k + n))) g'"
  using assms
proof (induction n arbitrary: k g)
  case 0
  then have "gn_num_finished g = sum_list (map gc_n cfgs)" by (simp add: tracks_def)
  then show ?case using 0 by (simp add: step_loop.simps)
next
  case (Suc n)
  obtain ds where ds: "streamed steps (k + Suc n) = streamed steps k @ concat (steps k) @ ds"
    using streamed_more by blast
  have "\<exists>s t. detokenize_all put fin new (own_outputs r i (streamed steps k) @ own_outputs r i (concat (steps k))) = (s, Inr t)" for r i
    using Suc.prems(3) [of r i] detokenize_prefix unfolding ds by (metis append.assoc own_outputs_simps(2))
  then obtain g1 where g1: "foldR (delta_output_step put fin cfgs) g (concat (steps k)) = Inr g1"
    "tracks put fin new cfgs (\<lambda>r i. own_outputs r i (streamed steps k) @ own_outputs r i (concat (steps k)))
       (finishes (streamed steps k) + finishes (concat (steps k))) g1"
    using tracks_deltas [OF Suc.prems(1), of "concat (steps k)"] Suc.prems(2) unfolding ds by auto
  have "gn_num_finished g \<noteq> sum_list (map gc_n cfgs)"
    using Suc.prems(1,4) by (simp add: tracks_def)
  moreover have "\<exists>g'. step_loop put fin cfgs steps (k + 1) g1 = Some (Inr g') \<and>
     tracks put fin new cfgs (\<lambda>r i. own_outputs r i (streamed steps (Suc k + n))) (finishes (streamed steps (Suc k + n))) g'"
    using Suc.IH [of "Suc k" g1] g1(2) Suc.prems(2-5) by simp
  ultimately show ?case using g1(1) by (simp add: step_loop.simps [of put fin cfgs steps k] callbacks_concat)
qed

section \<open>The result of generate\<close>

lemma add_requests_all:
  assumes "\<And>p c. (p, c) \<in> set pcs \<Longrightarrow> convert_to_data p = Inr (to_data p)"
  shows "add_requests i pcs e = (e\<lparr>sy_calls := sy_calls e @
     map (\<lambda>(j, p, c). SyncAddRequest (int_str (int j)) (to_data p) c) (enumerate i pcs)\<rparr>, Inr ())"
  using assms
proof (induction pcs arbitrary: i e)
  case (Cons pc pcs)
  obtain p c where pc: "pc = (p, c)" by (cases pc)
  have "convert_to_data p = Inr (to_data p)" using Cons.prems [of p c] pc by simp
  moreover have "add_requests j pcs e' = (e'\<lparr>sy_calls := sy_calls e' @
      map (\<lambda>(j, p, c). SyncAddRequest (int_str (int j)) (to_data p) c) (enumerate j pcs)\<rparr>, Inr ())" for j e'
    by (rule Cons.IH) (use Cons.prems in auto)
  ultimately show ?case by (simp add: pc sync_native_def)
qed simp

text \<open>
  C7: the results of the sync engine's \<open>generate\<close>. If every output the native engine streams in
  the first \<open>K\<close> steps can be taken, all generations have finished after exactly \<open>K\<close> steps and no
  detokenization fails, then \<open>generate\<close> returns: one request per prompt was added in order, the
  text of every generation is the detokenization of its own outputs, whatever the outputs of
  other generations and requests in between, its log probs are the concatenation of those
  streamed for it, and the stream callback is the one the engine had before.
\<close>

theorem generate_whole:
  assumes args: "sync_prompt_list prompts = ps" "sync_config_list (length ps) config = cfgs"
    and ps: "ps \<noteq> []" "length cfgs = length ps"
      "\<And>p. p \<in> set ps \<Longrightarrow> convert_to_data p = Inr (to_data p)"
    and ok: "list_all (acceptable cfgs) (streamed steps K)"
    and detok: "\<And>r i. \<exists>s t. detokenize_all put fin new (own_outputs r i (streamed steps K)) = (s, Inr t)"
    and fins: "\<And>j. j < K \<Longrightarrow> int (finishes (streamed steps j)) \<noteq> sum_list (map gc_n cfgs)"
      "int (finishes (streamed steps K)) = sum_list (map gc_n cfgs)"
  shows "\<exists>e' texts lps. generate put fin new steps prompts config e = Some (e', Inr (texts, lps)) \<and>
     sy_callback e' = sy_callback e \<and>
     sy_calls e' = sy_calls e @
       map (\<lambda>(j, p, c). SyncAddRequest (int_str (int j)) (to_data p) c) (enumerate 0 (zip ps cfgs)) \<and>
     length texts = length ps \<and> length lps = length ps \<and>
     (\<forall>r < length ps. length (texts ! r) = nat (gc_n (cfgs ! r)) \<and>
        (\<forall>i < nat (gc_n (cfgs ! r)).
           snd (detokenize_all put fin new (own_outputs r i (streamed steps K))) = Inr (texts ! r ! i)) \<and>
        lps ! r = (if gc_logprobs (cfgs ! r)
          then Some (map (\<lambda>i. log_probs_of (own_outputs r i (streamed steps K))) [0..<nat (gc_n (cfgs ! r))])
          else None))"
proof -
  have added: "add_requests 0 (zip ps cfgs) (e\<lparr>sy_callback := GenerateCallback\<rparr>) =
      (e\<lparr>sy_callback := GenerateCallback, sy_calls := sy_calls e @
       map (\<lambda>(j, p, c). SyncAddRequest (int_str (int j)) (to_data p) c) (enumerate 0 (zip ps cfgs))\<rparr>, Inr ())"
    using ps(3) by (subst add_requests_all [where to_data = to_data]) (auto dest: set_zip_leftD)
  obtain g where g: "step_loop put fin cfgs steps 0 (generation_init new cfgs) = Some (Inr g)"
    "tracks put fin new cfgs (\<lambda>r i. own_outputs r i (streamed steps K)) (finishes (streamed steps K)) g"
    using step_loop_tracks [of put fin new cfgs steps 0 "generation_init new cfgs" K]
      tracks_init [of put fin new cfgs] ok detok fins by auto
  show ?thesis
    using added g ps(1,2) by (simp add: generate_def Let_def args tracks_def)
qed

section \<open>Usage outputs\<close>

text \<open>What the callback keeps whatever it is given: the shape of its lists and the count.\<close>

definition shaped :: "generation_config list \<Rightarrow> 's generation \<Rightarrow> bool" where
  "shaped cfgs g \<longleftrightarrow>
     length (gn_streamers g) = length cfgs \<and> length (gn_logprobs g) = length cfgs \<and>
     (\<forall>r < length cfgs. length (gn_streamers g ! r) = nat (gc_n (cfgs ! r)) \<and>
        (gn_logprobs g ! r = None \<longleftrightarrow> \<not> gc_logprobs (cfgs ! r)))"

lemma shaped_init: "shaped cfgs (generation_init new cfgs)"
  by (simp add: shaped_def generation_init_def)

lemma extend_logprobs_shaped:
  "extend_logprobs rid i out g = Inr g' \<Longrightarrow> shaped cfgs g \<Longrightarrow> rid < length cfgs \<Longrightarrow> shaped cfgs g' \<and> gn_num_finished g' = gn_num_finished g"
  by (fastforce simp: extend_logprobs_def shaped_def nth_list_update res_simps split: option.splits if_splits)

lemma stream_output_step_shaped:
  assumes "stream_output_step put fin rid g (i, out) = Inr g'" "shaped cfgs g" "rid < length cfgs"
  shows "shaped cfgs g' \<and> gn_num_finished g' = gn_num_finished g + (if is_finish out then 1 else 0)"
proof -
  obtain g1 where g1: "extend_logprobs rid i out g = Inr g1"
    using assms(1) by (auto simp: stream_output_step_def res_simps)
  then have "shaped cfgs g1" "gn_num_finished g1 = gn_num_finished g"
    using extend_logprobs_shaped [OF _ assms(2,3)] by auto
  then show ?thesis using assms(1,3) g1
    by (auto simp: stream_output_step_def is_finish_def shaped_def nth_list_update res_simps split: prod.splits sum.splits)
qed

lemma outputs_shaped:
  "foldR (stream_output_step put fin rid) g (enumerate k outs) = Inr g' \<Longrightarrow> shaped cfgs g \<Longrightarrow> rid < length cfgs \<Longrightarrow>
     shaped cfgs g' \<and> gn_num_finished g' = gn_num_finished g + int (length (filter is_finish outs))"
proof (induction outs arbitrary: k g)
  case (Cons out outs)
  then obtain g1 where g1: "stream_output_step put fin rid g (k, out) = Inr g1"
    "foldR (stream_output_step put fin rid) g1 (enumerate (Suc k) outs) = Inr g'" by (auto simp: res_simps)
  then show ?case using stream_output_step_shaped [OF g1(1) Cons.prems(2,3)] Cons.IH [OF g1(2)] Cons.prems(3) by auto
qed simp

lemma py_index_less: "py_index n k = Inr r \<Longrightarrow> r < n"
  by (auto simp: py_index_def split: if_splits)

lemma delta_shaped:
  assumes "delta_output_step put fin cfgs g d = Inr g'" "shaped cfgs g"
  shows "shaped cfgs g' \<and> gn_num_finished g' = gn_num_finished g + int (finishes [d])"
proof -
  obtain rid outs where d: "delta_outs d = outs" "rid < length cfgs" "int (length outs) = gc_n (cfgs ! rid)"
    "foldR (stream_output_step put fin rid) g (enumerate 0 (take (length (gn_streamers g ! rid)) outs)) = Inr g'"
    using assms(1)
    by (auto simp: delta_output_step_def delta_outs_def res_simps dest: py_index_less split: option.splits if_splits)
  have "length (gn_streamers g ! rid) = length outs" using assms(2) d(2,3) by (auto simp: shaped_def)
  then show ?thesis using outputs_shaped [OF d(4) assms(2) d(2)] d(1) by simp
qed

lemma deltas_shaped:
  "foldR (delta_output_step put fin cfgs) g ds = Inr g' \<Longrightarrow> shaped cfgs g \<Longrightarrow>
     shaped cfgs g' \<and> gn_num_finished g' = gn_num_finished g + int (finishes ds)"
proof (induction ds arbitrary: g)
  case (Cons d ds)
  then obtain g1 where g1: "delta_output_step put fin cfgs g d = Inr g1"
    "foldR (delta_output_step put fin cfgs) g1 ds = Inr g'" by (auto simp: res_simps)
  then show ?case using delta_shaped [OF g1(1) Cons.prems(2)] Cons.IH [OF g1(2)] by auto
qed simp

text \<open>A usage output has one entry and no log probs.\<close>

lemma usage_refused:
  assumes "rso_request_final_usage_json_str d \<noteq> None" "rso_request_id d = int_str (int r)" "r < length cfgs"
    and "gc_n (cfgs ! r) \<noteq> 1 \<or> gc_logprobs (cfgs ! r)" and "shaped cfgs g"
  shows "delta_output_step put fin cfgs g d = Inl AssertionError"
proof -
  obtain out where out: "unpack d = Inr (int_str (int r), [out])" "so_delta_logprob_json_strs out = None"
    using assms(1,2) by (auto simp: unpack_def)
  show ?thesis
  proof (cases "gc_n (cfgs ! r) = 1")
    case False
    then show ?thesis using out assms(3) by (simp add: delta_output_step_def)
  next
    case True
    then obtain lps where "gn_logprobs g ! r = Some lps" "length (gn_streamers g ! r) = 1"
      using assms(3-5) by (auto simp: shaped_def)
    then show ?thesis using True out assms(3)
      by (simp add: delta_output_step_def stream_output_step_def extend_logprobs_def)
  qed
qed

lemma usage_refused_in:
  assumes "d \<in> set ds" "shaped cfgs g"
    and "\<And>g. shaped cfgs g \<Longrightarrow> \<exists>err. delta_output_step put fin cfgs g d = Inl err"
  shows "\<exists>err. foldR (delta_output_step put fin cfgs) g ds = Inl err"
proof -
  obtain xs ys where ds: "ds = xs @ d # ys" using assms(1) by (meson split_list)
  show ?thesis
  proof (cases "foldR (delta_output_step put fin cfgs) g xs")
    case (Inr g1)
    then show ?thesis using deltas_shaped [OF Inr assms(2)] assms(3) [of g1] by (auto simp: ds foldR_append)
  qed (simp add: ds foldR_append)
qed

lemma step_loop_fails:
  assumes "shaped cfgs g" "gn_num_finished g = int (finishes (streamed steps k))"
    and "\<And>j. k \<le> j \<Longrightarrow> j \<le> k + n \<Longrightarrow> int (finishes (streamed steps j)) \<noteq> sum_list (map gc_n cfgs)"
    and "\<And>g. shaped cfgs g \<Longrightarrow> \<exists>err. foldR (delta_output_step put fin cfgs) g (concat (steps (k + n))) = Inl err"
  shows "\<exists>err. step_loop put fin cfgs steps k g = Some (Inl err)"
  using assms
proof (induction n arbitrary: k g)
  case 0
  then obtain err where "foldR (delta_output_step put fin cfgs) g (concat (steps k)) = Inl err" by auto
  then show ?case using 0 by (simp add: step_loop.simps [of put fin cfgs steps k] callbacks_concat)
next
  case (Suc n)
  show ?case
  proof (cases "foldR (delta_output_step put fin cfgs) g (concat (steps k))")
    case (Inr g1)
    then have "shaped cfgs g1" "gn_num_finished g1 = int (finishes (streamed steps (Suc k)))"
      using deltas_shaped [OF Inr Suc.prems(1)] Suc.prems(2) by auto
    then have "\<exists>err. step_loop put fin cfgs steps (Suc k) g1 = Some (Inl err)"
      using Suc.IH [of g1 "Suc k"] Suc.prems(3,4) by auto
    then show ?thesis using Inr Suc.prems(2,3)
      by (simp add: step_loop.simps [of put fin cfgs steps k] callbacks_concat)
  qed (use Suc.prems(2,3) in \<open>simp add: step_loop.simps [of put fin cfgs steps k] callbacks_concat\<close>)
qed

text \<open>
  Usage outputs break \<open>generate\<close>. When the native engine streams the usage of a request with
  more than one generation or with log probs before the loop has counted all finish reasons
  (it sends it in the batch of the request's last finish reason), \<open>generate\<close> raises, whatever
  else is streamed, and leaves its own callback registered in the engine.
\<close>

theorem generate_fails_on_usage:
  assumes args: "sync_prompt_list prompts = ps" "sync_config_list (length ps) config = cfgs"
    and ps: "ps \<noteq> []" "length cfgs = length ps"
      "\<And>p. p \<in> set ps \<Longrightarrow> convert_to_data p = Inr (to_data p)"
    and usage: "d \<in> set (concat (steps k))" "rso_request_final_usage_json_str d \<noteq> None"
      "rso_request_id d = int_str (int r)" "r < length cfgs" "gc_n (cfgs ! r) \<noteq> 1 \<or> gc_logprobs (cfgs ! r)"
    and fins: "\<And>j. j \<le> k \<Longrightarrow> int (finishes (streamed steps j)) \<noteq> sum_list (map gc_n cfgs)"
  shows "\<exists>e' err. generate put fin new steps prompts config e = Some (e', Inl err) \<and>
     sy_callback e' = GenerateCallback"
proof -
  have "\<exists>err. foldR (delta_output_step put fin cfgs) g (concat (steps (0 + k))) = Inl err" if "shaped cfgs g" for g
    by (rule usage_refused_in [OF _ that, of d]) (use usage(1) usage_refused [OF usage(2-5)] in auto)
  then obtain err where "step_loop put fin cfgs steps 0 (generation_init new cfgs) = Some (Inl err)"
    using step_loop_fails [OF shaped_init, of new cfgs steps 0 k put fin] fins
    by (auto simp: generation_init_def)
  moreover have "add_requests 0 (zip ps cfgs) (e\<lparr>sy_callback := GenerateCallback\<rparr>) =
      (e\<lparr>sy_callback := GenerateCallback, sy_calls := sy_calls e @
       map (\<lambda>(j, p, c). SyncAddRequest (int_str (int j)) (to_data p) c) (enumerate 0 (zip ps cfgs))\<rparr>, Inr ())"
    using ps(3) by (subst add_requests_all [where to_data = to_data]) (auto dest: set_zip_leftD)
  ultimately show ?thesis using ps(1,2) by (simp add: generate_def Let_def args)
qed

text \<open>One prompt; the token of the byte \<open>H\<close>, then that of \<open>i\<close> with the finish reason and the usage.\<close>

definition demo_cfg :: "int \<Rightarrow> generation_config" where
  "demo_cfg n =
     \<lparr>gc_n = n, gc_temperature = None, gc_top_p = None, gc_frequency_penalty = None,
      gc_presence_penalty = None, gc_repetition_penalty = None, gc_logprobs = False, gc_top_logprobs = 0,
      gc_logit_bias = None, gc_max_tokens = - 1, gc_seed = None, gc_stop_strs = None,
      gc_stop_token_ids = None, gc_response_format = None, gc_debug_config = None\<rparr>"

definition demo_output :: "int list list \<Rightarrow> string option list \<Rightarrow> request_stream_output" where
  "demo_output ids frs =
     \<lparr>rso_request_id = int_str 0, rso_delta_token_ids = ids, rso_delta_logprob_json_strs = None,
      rso_finish_reason = frs, rso_request_final_usage_json_str = None,
      rso_extra_prefix_string = map (\<lambda>_. []) ids\<rparr>"

definition demo_usage :: request_stream_output where
  "demo_usage = (demo_output [] [])\<lparr>rso_request_final_usage_json_str := Some ''usage''\<rparr>"

definition demo_steps :: "nat \<Rightarrow> request_stream_output list list" where
  "demo_steps k =
     (if k = 0 then [[demo_output [[72]] [None]]]
      else if k = 1 then [[demo_output [[105]] [Some ''stop''], demo_usage]] else [])"

definition demo_sync_engine :: "unit sync_engine" where
  "demo_sync_engine =
     \<lparr>sy_conv_template = chatml, sy_model_config_dicts = [], sy_tracing = False,
      sy_callback = OriginalCallback, sy_calls = []\<rparr>"

lemma demo_outs:
  "delta_outs (demo_output [[a]] [fr]) = [mk_delta [a] fr]"
  "delta_outs demo_usage = [(mk_delta [] None)\<lparr>so_request_final_usage_json_str := Some ''usage''\<rparr>]"
  by (simp_all add: delta_outs_def unpack_def demo_output_def demo_usage_def unpack_one_def mk_delta_def)

lemma demo_streamed:
  "streamed demo_steps 2 = [demo_output [[72]] [None], demo_output [[105]] [Some ''stop''], demo_usage]"
  by (simp add: streamed_def demo_steps_def upt_rec)

lemma demo_own:
  "own_outputs r i (streamed demo_steps 2) =
     (if r = 0 \<and> i = 0 then [mk_delta [72] None, mk_delta [105] (Some ''stop''),
        (mk_delta [] None)\<lparr>so_request_final_usage_json_str := Some ''usage''\<rparr>] else [])"
proof -
  have "int_str 0 = int_str (int r) \<longleftrightarrow> r = 0" by simp
  then show ?thesis unfolding demo_streamed own_outputs_def
    by (simp add: demo_outs) (simp add: demo_output_def demo_usage_def)
qed

lemma demo_detokenized:
  "snd (detokenize_all (streamer_put byte_decode) (streamer_finish byte_decode) streamer_init
     [mk_delta [72] None, mk_delta [105] (Some ''stop''),
      (mk_delta [] None)\<lparr>so_request_final_usage_json_str := Some ''usage''\<rparr>]) = Inr ''Hi''"
  by code_simp

lemma snd_eqD: "snd x = y \<Longrightarrow> \<exists>s. x = (s, y)"
  by (cases x) auto

lemma less_2_cases_nat: "j < 2 \<Longrightarrow> j = 0 \<or> j = (1 :: nat)"
  by auto

theorem generate_whole_witness:
  "\<exists>e'. generate (streamer_put byte_decode) (streamer_finish byte_decode) streamer_init demo_steps
     (OneStr ''hello'') (SharedConfig (demo_cfg 1)) demo_sync_engine = Some (e', Inr ([[''Hi'']], [None])) \<and>
     sy_callback e' = OriginalCallback"
proof -
  have "\<exists>s t. detokenize_all (streamer_put byte_decode) (streamer_finish byte_decode) streamer_init
      (own_outputs r i (streamed demo_steps 2)) = (s, Inr t)" for r i
    using snd_eqD [OF demo_detokenized] by (auto simp: demo_own simp del: detokenize_all.simps(2))
  moreover have "int (finishes (streamed demo_steps j)) \<noteq> sum_list (map gc_n [demo_cfg 1])" if "j < 2" for j
    using less_2_cases_nat [OF that]
    by (auto simp: demo_cfg_def demo_steps_def demo_outs streamed_def is_finish_def mk_delta_def)
  moreover have "int (finishes (streamed demo_steps 2)) = sum_list (map gc_n [demo_cfg 1])"
    by (simp add: demo_streamed demo_outs demo_cfg_def is_finish_def mk_delta_def)
  moreover have "list_all (acceptable [demo_cfg 1]) (streamed demo_steps 2)"
    by (simp add: demo_streamed acceptable_def demo_cfg_def demo_output_def demo_usage_def rso_ok_def)
  ultimately obtain e' texts lps where "generate (streamer_put byte_decode) (streamer_finish byte_decode)
      streamer_init demo_steps (OneStr ''hello'') (SharedConfig (demo_cfg 1)) demo_sync_engine = Some (e', Inr (texts, lps))"
    "sy_callback e' = OriginalCallback" "length texts = 1" "length (texts ! 0) = 1" "length lps = 1" "lps ! 0 = None"
    "snd (detokenize_all (streamer_put byte_decode) (streamer_finish byte_decode) streamer_init
       (own_outputs 0 0 (streamed demo_steps 2))) = Inr (texts ! 0 ! 0)"
    using generate_whole [of "OneStr ''hello''" "[SPStr ''hello'']" "SharedConfig (demo_cfg 1)" "[demo_cfg 1]"
        "\<lambda>_. [TextData ''hello'']" demo_steps 2 "streamer_put byte_decode" "streamer_finish byte_decode"
        streamer_init demo_sync_engine]
    by (auto simp: demo_cfg_def demo_sync_engine_def)
  moreover from this have "texts = [[''Hi'']]" "lps = [None]"
    using demo_detokenized by (auto simp: demo_own length_Suc_conv simp del: detokenize_all.simps(2))
  ultimately show ?thesis by auto
qed

text \<open>Two generations for one prompt: the usage output that follows their last tokens is refused.\<close>

theorem generate_fails_on_usage_witness:
  "\<exists>e' err. generate (streamer_put byte_decode) (streamer_finish byte_decode) streamer_init
       (\<lambda>_. [[demo_output [[72], [73]] [Some ''stop'', Some ''stop''], demo_usage]])
       (OneStr ''hello'') (SharedConfig (demo_cfg 2)) demo_sync_engine = Some (e', Inl err) \<and>
     sy_callback e' = GenerateCallback"
  using generate_fails_on_usage [of "OneStr ''hello''" "[SPStr ''hello'']" "SharedConfig (demo_cfg 2)" "[demo_cfg 2]"
      "\<lambda>_. [TextData ''hello'']" demo_usage "\<lambda>_. [[demo_output [[72], [73]] [Some ''stop'', Some ''stop''], demo_usage]]"
      0 0 "streamer_put byte_decode" "streamer_finish byte_decode" streamer_init demo_sync_engine]
  by (simp add: demo_cfg_def demo_usage_def demo_output_def)

end
