(* ===== verification/Json_Engine.thy ===== *)
theory Json_Engine
  imports Engine_Config
begin

text \<open>
  \<open>json_ffi/engine.py\<close>: the engine that talks JSON to the native library. The native stream
  callback puts JSON strings into the queue of the engine state; \<open>handle_chat_completion\<close> is a
  generator that replaces the queue, sends the request and yields the responses it reads.
  The generator is modelled by its suspended state and the operation that resumes it, so that
  several generators of one engine can be interleaved. \<open>loads\<close> is \<open>json.loads\<close> and \<open>validate\<close> the
  validation of a response object.
\<close>

section \<open>The engine state\<close>

datatype json_call =
    JsonStartLoop
  | JsonStartStreamBackLoop
  | JsonInit
  | JsonReload "json dict"
  | JsonChatCompletion string string
  | JsonAbort string
  | JsonExitLoop
  | JsonJoinLoop
  | JsonJoinStreamBackLoop
  | JsonReset
  | JsonUnload

record json_state =
  js_queue :: "string list"
  js_calls :: "json_call list"

definition json_native :: "json_call \<Rightarrow> json_state \<Rightarrow> json_state" where
  "json_native c st = st\<lparr>js_calls := js_calls st @ [c]\<rparr>"

definition json_request_stream_callback :: "string \<Rightarrow> json_state \<Rightarrow> json_state" where
  "json_request_stream_callback s st = st\<lparr>js_queue := js_queue st @ [s]\<rparr>"

section \<open>The generator\<close>

text \<open>
  A suspended generator: the rest of the response list it iterates over, and whether the chunk
  with the usage has arrived.
\<close>

record json_generator =
  jg_request_id :: string
  jg_include_usage :: bool
  jg_pending :: "json list"
  jg_last_chunk_arrived :: bool
  jg_end :: "gen_end option"

datatype json_event =
    Yields chat_completion_stream_response
  | Ends
  | Raises py_error
  | Waits

text \<open>The part before the loop, up to the first \<open>get\<close>.\<close>

definition json_handle_start ::
    "string \<Rightarrow> bool \<Rightarrow> string \<Rightarrow> json_state \<Rightarrow> json_generator \<times> json_state" where
  "json_handle_start request_json_str inc request_id st =
     (\<lparr>jg_request_id = request_id, jg_include_usage = inc, jg_pending = [],
       jg_last_chunk_arrived = False, jg_end = None\<rparr>,
      json_native (JsonChatCompletion request_json_str request_id) (st\<lparr>js_queue := []\<rparr>))"

text \<open>
  From one suspension to the next, on the pending responses, the flag and the queue: what
  happens, and the three of them afterwards.
\<close>

fun json_resume ::
    "(string \<Rightarrow> json res) \<Rightarrow> (json \<Rightarrow> chat_completion_stream_response res) \<Rightarrow> bool \<Rightarrow> json list \<Rightarrow> bool \<Rightarrow>
     string list \<Rightarrow> json_event \<times> json list \<times> bool \<times> string list" where
  "json_resume loads validate inc (r # rest) last_chunk q =
     (case validate r of
        Inl e \<Rightarrow> (Raises e, rest, last_chunk, q)
      | Inr resp \<Rightarrow>
          if csr_usage resp \<noteq> None then
            if inc then (Yields resp, [], True, q) else (Ends, [], True, q)
          else (Yields resp, rest, last_chunk, q))"
| "json_resume loads validate inc [] True q = (Ends, [], True, q)"
| "json_resume loads validate inc [] False [] = (Waits, [], False, [])"
| "json_resume loads validate inc [] False (s # q) =
     (case bindR (loads s) json_iter of
        Inl e \<Rightarrow> (Raises e, [], False, q)
      | Inr rs \<Rightarrow> json_resume loads validate inc rs False q)"

text \<open>Resuming a generator; an exception of the loop aborts the request.\<close>

definition json_next ::
    "(string \<Rightarrow> json res) \<Rightarrow> (json \<Rightarrow> chat_completion_stream_response res) \<Rightarrow> json_generator \<Rightarrow> json_state \<Rightarrow>
     json_event \<times> json_generator \<times> json_state" where
  "json_next loads validate g st =
     (case json_resume loads validate (jg_include_usage g) (jg_pending g) (jg_last_chunk_arrived g) (js_queue st) of
        (ev, pending, last_chunk, q) \<Rightarrow>
          let g = g\<lparr>jg_pending := pending, jg_last_chunk_arrived := last_chunk\<rparr>; st = st\<lparr>js_queue := q\<rparr> in
          case ev of
            Ends \<Rightarrow> (ev, g\<lparr>jg_end := Some Returned\<rparr>, st)
          | Raises e \<Rightarrow> (ev, g\<lparr>jg_end := Some (Raised e)\<rparr>, json_native (JsonAbort (jg_request_id g)) st)
          | _ \<Rightarrow> (ev, g, st))"

text \<open>Closing it: \<open>GeneratorExit\<close> is no \<open>Exception\<close>, so that nothing is aborted.\<close>

definition json_close :: "json_generator \<Rightarrow> json_state \<Rightarrow> json_generator \<times> json_state" where
  "json_close g st = (g\<lparr>jg_end := Some (Raised GeneratorExit)\<rparr>, st)"

text \<open>The request of \<open>Completions.create\<close>; \<open>dump\<close> is its JSON text.\<close>

definition json_create ::
    "string \<Rightarrow> (chat_completion_request \<Rightarrow> string) \<Rightarrow> string option \<Rightarrow> chat_completion_request \<Rightarrow> json_state \<Rightarrow>
     (json_generator \<times> json_state) res" where
  "json_create uuid dump request_id r st =
     (let id = (case request_id of None \<Rightarrow> ''chatcmpl-'' @ uuid | Some i \<Rightarrow> i) in
      if \<not> cc_stream r then Inl (ValueError ''JSONFFIEngine only support stream=True'')
      else bindR (validate_chat_request r) (\<lambda>r.
        Inr (json_handle_start (dump r) (usage_included (cc_stream_options r)) id st)))"

section \<open>Life cycle\<close>

text \<open>
  \<open>_terminated\<close> is set last, so that an object whose constructor could not start a thread does
  not have it.
\<close>

record json_background_loops =
  jb_terminated :: "bool option"

definition json_background_start ::
    "unit res \<Rightarrow> unit res \<Rightarrow> json_state \<Rightarrow> (json_background_loops \<times> json_state) \<times> unit res" where
  "json_background_start start_loop start_stream st =
     (let l = \<lparr>jb_terminated = None\<rparr> in
      case start_loop of
        Inl e \<Rightarrow> ((l, st), Inl e)
      | Inr _ \<Rightarrow>
          (let st = json_native JsonStartLoop st in
           case start_stream of
             Inl e \<Rightarrow> ((l, st), Inl e)
           | Inr _ \<Rightarrow>
               ((l\<lparr>jb_terminated := Some False\<rparr>, json_native JsonStartStreamBackLoop st), Inr ())))"

definition json_background_terminate ::
    "json_background_loops \<times> json_state \<Rightarrow> (json_background_loops \<times> json_state) \<times> unit res" where
  "json_background_terminate b =
     (case b of (l, st) \<Rightarrow>
       (case jb_terminated l of
          None \<Rightarrow> ((l, st), Inl AttributeError)
        | Some True \<Rightarrow> ((l, st), Inr ())
        | Some False \<Rightarrow>
            ((l\<lparr>jb_terminated := Some True\<rparr>,
              json_native JsonJoinStreamBackLoop (json_native JsonJoinLoop (json_native JsonExitLoop st))), Inr ())))"

text \<open>Once it was called, or when it is not able to, \<open>terminate\<close> stops nothing any more.\<close>

interpretation json_life: shutdown "\<lambda>b. fst (json_background_terminate b)"
    "\<lambda>b. jb_terminated (fst b) \<noteq> Some False"
  by unfold_locales (auto simp: json_background_terminate_def split: prod.splits option.splits bool.splits)

text \<open>
  A thread that cannot be started leaves the loops that run already: the deleter's \<open>terminate\<close>
  raises before it stops them.
\<close>

lemma json_failed_start_leaks:
  assumes "json_background_start (Inr ()) (Inl e) st = (b, r)"
  shows "r = Inl e \<and> snd (json_background_terminate b) = Inl AttributeError \<and>
     js_calls (snd (fst (json_background_terminate b))) = js_calls st @ [JsonStartLoop]"
  using assms by (auto simp: json_background_start_def json_background_terminate_def json_native_def)

text \<open>
  The constructor. \<open>native_init\<close> and \<open>native_reload\<close> are the calls of the native engine, \<open>start_loop\<close> and
  \<open>start_stream\<close> the starts of the two threads. The background loops are returned when they were
  constructed, also when a later call raises: their deleter terminates them.
\<close>

definition json_engine_init ::
    "model_io \<Rightarrow> unit res \<Rightarrow> (string \<Rightarrow> unit res) \<Rightarrow> unit res \<Rightarrow> unit res \<Rightarrow> unit res \<Rightarrow>
     (json dict \<Rightarrow> unit res) \<Rightarrow> string \<Rightarrow> string option \<Rightarrow> string \<Rightarrow> engine_config option \<Rightarrow>
     (json_background_loops option \<times> json_state) \<times> engine_config res" where
  "json_engine_init io device_ok make_tokenizer start_loop start_stream native_init native_reload model model_lib mode
      engine_config =
     (let c = (case engine_config of None \<Rightarrow> default_engine_config | Some c \<Rightarrow> c);
          st = \<lparr>js_queue = [], js_calls = []\<rparr> in
      case bindR (check_engine_config model model_lib mode c) (\<lambda>_.
           bindR device_ok (\<lambda>_.
           bindR (process_model_args io (parse_models model model_lib (ec_additional_models c)) c)
             (\<lambda>(args, paths, conv). bindR (make_tokenizer (fst (hd args))) (\<lambda>_. Inr args)))) of
        Inl e \<Rightarrow> ((None, st), Inl e)
      | Inr args \<Rightarrow>
          (case json_background_start start_loop start_stream st of
             ((loops, st), Inl e) \<Rightarrow> ((Some loops, st), Inl e)
           | ((loops, st), Inr _) \<Rightarrow>
             let c = reload_config c args mode; st = json_native JsonInit st in
             case native_init of
               Inl e \<Rightarrow> ((Some loops, st), Inl e)
             | Inr _ \<Rightarrow>
                 let st = json_native (JsonReload (engine_config_asdict c)) st in
                 case native_reload (engine_config_asdict c) of
                   Inl e \<Rightarrow> ((Some loops, st), Inl e)
                 | Inr _ \<Rightarrow> ((Some loops, st), Inr c)))"

section \<open>A single generator\<close>

text \<open>A generator that is resumed until it ends or waits, while nothing else runs.\<close>

lemma json_resume_decreases:
  "json_resume loads validate inc p l q = (Yields r, p', l', q') \<Longrightarrow>
     length q' < length q \<or> q' = q \<and> length p' + (if l' then 0 else 1) < length p + (if l then 0 else (1 :: nat))"
  by (induction loads validate inc p l q rule: json_resume.induct)
     (auto split: sum.splits if_splits)

function json_run ::
    "(string \<Rightarrow> json res) \<Rightarrow> (json \<Rightarrow> chat_completion_stream_response res) \<Rightarrow> bool \<Rightarrow> json list \<Rightarrow> bool \<Rightarrow>
     string list \<Rightarrow> chat_completion_stream_response gen" where
  "json_run loads validate inc p l q =
     (case json_resume loads validate inc p l q of
        (Yields r, p', l', q') \<Rightarrow>
          (case json_run loads validate inc p' l' q' of (rs, e) \<Rightarrow> (r # rs, e))
      | (Ends, _) \<Rightarrow> ([], Returned)
      | (Raises e, _) \<Rightarrow> ([], Raised e)
      | (Waits, _) \<Rightarrow> ([], Blocked))"
  by pat_completeness auto

termination
  by (relation "measures [\<lambda>(_, _, _, p, l, q). length q, \<lambda>(_, _, _, p, l, q). length p + (if l then 0 else 1)]")
     (auto dest!: sym [THEN json_resume_decreases] json_resume_decreases)

declare json_run.simps [simp del]

definition usage_free :: "chat_completion_stream_response \<Rightarrow> bool" where
  "usage_free r \<longleftrightarrow> csr_usage r = None"

definition delivered :: "bool \<Rightarrow> chat_completion_stream_response list \<Rightarrow> chat_completion_stream_response gen" where
  "delivered inc rs =
     (case dropWhile usage_free rs of
        [] \<Rightarrow> (rs, Blocked)
      | u # _ \<Rightarrow> (takeWhile usage_free rs @ (if inc then [u] else []), Returned))"

lemma delivered_simps:
  "delivered inc [] = ([], Blocked)"
  "\<not> usage_free r \<Longrightarrow> delivered inc (r # rs) = (if inc then [r] else [], Returned)"
  "usage_free r \<Longrightarrow> delivered inc (r # rs) = (case delivered inc rs of (xs, e) \<Rightarrow> (r # xs, e))"
  by (auto simp: delivered_def split: list.splits) (metis dropWhile_eq_Nil_conv list.distinct(1))

lemma json_run_ended: "json_run loads validate inc [] True q = ([], Returned)"
  by (simp add: json_run.simps)

lemma json_run_pending:
  assumes "validate r = Inr resp"
  shows "json_run loads validate inc (r # p) False q =
     (if usage_free resp then (case json_run loads validate inc p False q of (xs, e) \<Rightarrow> (resp # xs, e))
      else (if inc then [resp] else [], Returned))"
  using assms by (auto simp: json_run.simps [of loads validate inc "r # p"] usage_free_def json_run_ended)

lemma json_run_get:
  assumes "loads s = Inr (JList js)"
  shows "json_run loads validate inc [] False (s # q) = json_run loads validate inc js False q"
proof -
  have "json_resume loads validate inc [] False (s # q) = json_resume loads validate inc js False q"
    using assms by (simp add: json_iter_def)
  then show ?thesis by (simp only: json_run.simps [of loads validate inc _ False])
qed

text \<open>The strings in the queue denote lists of responses.\<close>

definition denotes ::
    "(string \<Rightarrow> json res) \<Rightarrow> (json \<Rightarrow> chat_completion_stream_response res) \<Rightarrow> string \<Rightarrow>
     chat_completion_stream_response list \<Rightarrow> bool" where
  "denotes loads validate s rs \<longleftrightarrow> (\<exists>js. loads s = Inr (JList js) \<and> mapR validate js = Inr rs)"

lemma json_run_list:
  assumes "json_run loads validate inc [] False q = delivered inc rs'" and "mapR validate js = Inr rs"
  shows "json_run loads validate inc js False q = delivered inc (rs @ rs')"
  using assms(2)
proof (induction js arbitrary: rs)
  case (Cons j js)
  then obtain r rs1 where "validate j = Inr r" "mapR validate js = Inr rs1" "rs = r # rs1" by (auto simp: res_simps)
  then show ?case using Cons.IH [of rs1] by (auto simp: json_run_pending delivered_simps)
qed (simp add: assms(1))

lemma json_run_queue:
  "list_all2 (denotes loads validate) q rss \<Longrightarrow>
     json_run loads validate inc [] False q = delivered inc (concat rss)"
proof (induction rule: list_all2_induct)
  case (Cons s q rs rss)
  then obtain js where "loads s = Inr (JList js)" "mapR validate js = Inr rs" by (auto simp: denotes_def)
  then show ?case using json_run_list [OF Cons.IH] by (simp add: json_run_get)
qed (simp add: json_run.simps delivered_simps)

text \<open>
  C19: the stream of the JSON engine does not depend on how the native library groups the
  responses into callback strings: a generator that runs alone yields the responses before the
  first one with a usage, in order, then that one if the client asked for it, and returns;
  what follows in the same string is dropped. Without a usage response it yields all
  responses and waits.
\<close>

theorem json_stream_whole:
  assumes "list_all2 (denotes loads validate) q rss"
  shows "json_run loads validate inc [] False q =
     (if list_all (\<lambda>r. csr_usage r = None) (concat rss) then (concat rss, Blocked)
      else (takeWhile (\<lambda>r. csr_usage r = None) (concat rss) @
              (if inc then [the (find (\<lambda>r. csr_usage r \<noteq> None) (concat rss))] else []), Returned))"
proof -
  have spec: "delivered inc rs =
     (if list_all (\<lambda>r. csr_usage r = None) rs then (rs, Blocked)
      else (takeWhile (\<lambda>r. csr_usage r = None) rs @
              (if inc then [the (find (\<lambda>r. csr_usage r \<noteq> None) rs)] else []), Returned))" for rs
  proof (induction rs)
    case (Cons r rs)
    then show ?case
      by (cases "usage_free r") (auto simp: delivered_simps usage_free_def split: if_splits)
  qed (simp add: delivered_simps)
  show ?thesis by (simp add: json_run_queue [OF assms] spec)
qed

definition demo_response :: "string \<Rightarrow> completion_usage option \<Rightarrow> chat_completion_stream_response" where
  "demo_response i u = \<lparr>csr_id = i, csr_choices = [], csr_model = None, csr_usage = u\<rparr>"

definition demo_usage_of :: completion_usage where
  "demo_usage_of = \<lparr>prompt_tokens = 1, completion_tokens = 2, total_tokens = 3, usage_extra = None\<rparr>"

definition demo_loads :: "string \<Rightarrow> json res" where
  "demo_loads s = Inr (JList (map (\<lambda>c. JStr [c]) s))"

text \<open>The string \<open>u\<close> stands for the response with the usage.\<close>

definition demo_validate :: "json \<Rightarrow> chat_completion_stream_response res" where
  "demo_validate j = (case j of JStr s \<Rightarrow> Inr (demo_response s (if s = ''u'' then Some demo_usage_of else None)) | _ \<Rightarrow> Inl TypeError)"

theorem json_stream_whole_witness:
  "json_run demo_loads demo_validate True [] False [''ab'', [], ''cux''] =
     ([demo_response ''a'' None, demo_response ''b'' None, demo_response ''c'' None,
       demo_response ''u'' (Some demo_usage_of)], Returned)"
proof -
  have "list_all2 (denotes demo_loads demo_validate) [''ab'', [], ''cux'']
     [[demo_response ''a'' None, demo_response ''b'' None], [],
      [demo_response ''c'' None, demo_response ''u'' (Some demo_usage_of), demo_response ''x'' None]]"
    by (simp add: denotes_def demo_loads_def demo_validate_def)
  from json_stream_whole [OF this, of True] show ?thesis by (simp add: demo_response_def)
qed

section \<open>Two generators\<close>

text \<open>
  A second request takes over the queue of the first. Starting it discards whatever
  was queued for the first generator, and since both then read the same queue, the first one
  to be resumed takes what the library sends: when that is the second request's last chunk,
  the first generator ends with it and the second one waits.
\<close>

theorem json_second_request_takes_over:
  assumes start: "json_handle_start req inc2 id2 st = (g2, st2)"
    and g1: "jg_pending g1 = []" "\<not> jg_last_chunk_arrived g1" "jg_include_usage g1"
    and chunk: "loads s = Inr (JList [j])" "validate j = Inr resp" "csr_usage resp \<noteq> None"
  shows "js_queue st2 = [] \<and>
     (\<exists>g1' g1'' st3 st4. json_next loads validate g1 (json_request_stream_callback s st2) = (Yields resp, g1', st3) \<and>
        json_next loads validate g1' st3 = (Ends, g1'', st4) \<and> jg_end g1'' = Some Returned \<and>
        (\<exists>g2'. json_next loads validate g2 st4 = (Waits, g2', st4) \<and> jg_end g2' = None))"
  using assms
  by (auto simp: json_handle_start_def json_next_def json_request_stream_callback_def json_native_def json_iter_def Let_def)

theorem json_second_request_takes_over_witness:
  "\<exists>g1 g2 st st2 g1' st3.
     json_handle_start ''first'' True ''r1'' \<lparr>js_queue = [], js_calls = []\<rparr> = (g1, st) \<and>
     json_handle_start ''second'' True ''r2'' (json_request_stream_callback ''lost'' st) = (g2, st2) \<and>
     js_queue st2 = [] \<and>
     json_next demo_loads demo_validate g1 (json_request_stream_callback ''u'' st2) =
       (Yields (demo_response ''u'' (Some demo_usage_of)), g1', st3)"
proof -
  obtain g1 st where 1: "json_handle_start ''first'' True ''r1'' \<lparr>js_queue = [], js_calls = []\<rparr> = (g1, st)"
    by fastforce
  obtain g2 st2 where 2: "json_handle_start ''second'' True ''r2'' (json_request_stream_callback ''lost'' st) = (g2, st2)"
    by fastforce
  have g1: "jg_pending g1 = []" "\<not> jg_last_chunk_arrived g1" "jg_include_usage g1"
    using 1 by (auto simp: json_handle_start_def)
  have chunk: "demo_loads ''u'' = Inr (JList [JStr ''u''])"
    "demo_validate (JStr ''u'') = Inr (demo_response ''u'' (Some demo_usage_of))"
    "csr_usage (demo_response ''u'' (Some demo_usage_of)) \<noteq> None"
    by (simp_all add: demo_loads_def demo_validate_def demo_response_def)
  show ?thesis 
    using json_second_request_takes_over [OF 2 g1, of demo_loads "''u''" "JStr ''u''" demo_validate] chunk 1 2 by blast
qed

end
