(* ===== verification/Tensor.thy ===== *)
theory Tensor
  imports Prelude "HOL-Library.Word"
begin

text \<open>
  Tensors and tensor expressions, as the quantization and sharding code of the compiler uses
  them: a tensor is a shape with a function on index lists, \<open>te.compute\<close> builds one from its
  element function, and \<open>idx[:axis] + (e,) + idx[axis + 1:]\<close> is the list update \<open>idx[axis := e]\<close>.
  A data type name such as \<open>"int4"\<close> is represented by the type code and the bit width that
  \<open>tvm.DataType\<close> reads from it. The second half is the packing of small integers into machine
  words, with its inverse.
\<close>

unbundle bit_operations_syntax

section \<open>Data types\<close>

datatype type_code = DT_INT | DT_UINT | DT_FLOAT | DT_BFLOAT | DT_Float8E4M3FN | DT_Float8E5M2

datatype dtype = DataType (dt_code: type_code) (dt_bits: nat)

abbreviation "float16 \<equiv> DataType DT_FLOAT 16"
abbreviation "float32 \<equiv> DataType DT_FLOAT 32"
abbreviation "bfloat16 \<equiv> DataType DT_BFLOAT 16"
abbreviation "uint32 \<equiv> DataType DT_UINT 32"

section \<open>Tensors\<close>

record 'a tensor =
  tn_shape :: "nat list"
  tn_at :: "nat list \<Rightarrow> 'a"

definition te_compute :: "nat list \<Rightarrow> (nat list \<Rightarrow> 'a) \<Rightarrow> 'a tensor" where
  "te_compute shape fcompute = \<lparr>tn_shape = shape, tn_at = fcompute\<rparr>"

text \<open>The indices of a shape.\<close>

definition in_shape :: "nat list \<Rightarrow> nat list \<Rightarrow> bool" where
  "in_shape shape idx \<longleftrightarrow> list_all2 (<) idx shape"

definition ceildiv :: "nat \<Rightarrow> nat \<Rightarrow> nat" where
  "ceildiv a b = (a + b - 1) div b"

text \<open>\<open>axis if axis >= 0 else len(shape) + axis\<close>\<close>

definition norm_axis :: "int \<Rightarrow> nat \<Rightarrow> nat" where
  "norm_axis axis n = nat (if 0 \<le> axis then axis else int n + axis)"

text \<open>\<open>topi.transpose\<close> without an order reverses the dimensions.\<close>

definition te_transpose :: "'a tensor \<Rightarrow> 'a tensor" where
  "te_transpose t = te_compute (rev (tn_shape t)) (\<lambda>idx. tn_at t (rev idx))"

lemma te_compute_simps [simp]:
  "tn_shape (te_compute s f) = s" "tn_at (te_compute s f) = f"
  by (simp_all add: te_compute_def)

lemma te_transpose_simps [simp]:
  "tn_shape (te_transpose t) = rev (tn_shape t)"
  "tn_at (te_transpose t) idx = tn_at t (rev idx)"
  by (simp_all add: te_transpose_def)

lemma te_transpose_transpose [simp]: "te_transpose (te_transpose t) = t"
  by (cases t) (simp add: te_transpose_def te_compute_def)

lemma in_shapeD:
  assumes "in_shape shape idx"
  shows "length idx = length shape"
    and "axis < length shape \<Longrightarrow> idx ! axis < shape ! axis"
  using assms by (auto simp: in_shape_def list_all2_conv_all_nth)

lemma in_shape_update:
  assumes "in_shape shape idx" "axis < length shape" "e < d"
  shows "in_shape (shape[axis := d]) (idx[axis := e])"
  using assms by (auto simp: in_shape_def list_all2_conv_all_nth nth_list_update)

lemma ceildiv_pos_bounds:
  assumes "0 < b"
  shows "a \<le> ceildiv a b * b" and "i < a \<Longrightarrow> i div b < ceildiv a b" and "g < ceildiv a b \<Longrightarrow> g * b < a"
proof -
  have "a + b - 1 < ((a + b - 1) div b) * b + b"
    using dividend_less_div_times [OF assms, of "a + b - 1"] by (simp add: ac_simps)
  then show le: "a \<le> ceildiv a b * b"
    by (simp add: ceildiv_def)
  show "i div b < ceildiv a b" if "i < a"
    using le that by (meson assms div_less_iff_less_mult less_le_trans)
  show "g * b < a" if "g < ceildiv a b"
  proof -
    have "(g + 1) * b \<le> ceildiv a b * b"
      using that by (intro mult_right_mono) auto
    also have "\<dots> \<le> a + b - 1"
      unfolding ceildiv_def by (rule div_times_less_eq_dividend)
    finally have "g * b + b \<le> a + b - 1"
      by simp
    with assms show ?thesis
      by linarith
  qed
qed

section \<open>Packing integers into words\<close>

text \<open>
  \<open>pack_weight\<close> of \<open>quantization/utils.py\<close>: the elements \<open>n\<close> to a word along \<open>axis\<close>, missing
  elements zero; \<open>bits\<close> is the width of the weight dtype and the sum is that of the storage
  dtype. \<open>out_shape\<close> is the shape of the result, or \<open>None\<close>.
\<close>

definition pack_weight ::
    "'w::len word tensor \<Rightarrow> int \<Rightarrow> nat \<Rightarrow> nat \<Rightarrow> nat list option \<Rightarrow> 'w word tensor" where
  "pack_weight weight axis0 n bits out_shape =
     (let shape = tn_shape weight; axis = norm_axis axis0 (length shape); k = shape ! axis in
      te_compute (case out_shape of None \<Rightarrow> shape[axis := ceildiv k n] | Some s \<Rightarrow> s)
        (\<lambda>idx. sum_list (map (\<lambda>r.
           if idx ! axis * n + r < k
           then push_bit (r * bits) (tn_at weight (idx[axis := idx ! axis * n + r])) else 0) [0..<n])))"

text \<open>The bit position of element \<open>j\<close> of a word: in order, or interleaved as AWQ stores it.\<close>

definition elem_shift :: "bool \<Rightarrow> nat \<Rightarrow> nat \<Rightarrow> nat" where
  "elem_shift ft_reorder bits j =
     (if ft_reorder then (j mod 2 * 4 + j div 2) * bits else j * bits)"

text \<open>
  \<open>convert_uint_to_float\<close> with the output shape given, as all its callers do; \<open>rnd\<close> is the
  conversion to the model dtype.
\<close>

definition convert_uint_to_float ::
    "(rat \<Rightarrow> rat) \<Rightarrow> 'w::len word tensor \<Rightarrow> nat \<Rightarrow> nat \<Rightarrow> int \<Rightarrow> nat list \<Rightarrow> bool \<Rightarrow> rat tensor" where
  "convert_uint_to_float rnd weight bits n axis0 out_shape ft_reorder =
     (let axis = norm_axis axis0 (length out_shape) in
      te_compute out_shape
        (\<lambda>idx. rnd (of_nat (unat
           (drop_bit (elem_shift ft_reorder bits (idx ! axis mod n))
              (tn_at weight (idx[axis := idx ! axis div n])) AND mask bits)))))"

section \<open>Unpacking what was packed\<close>

lemma digit_sum_less:
  fixes v :: "nat \<Rightarrow> nat"
  assumes "\<And>r. r < n \<Longrightarrow> v r < B"
  shows "(\<Sum>r<n. v r * B ^ r) < B ^ n"
  using assms
proof (induction n)
  case (Suc n)
  have "(\<Sum>r<Suc n. v r * B ^ r) < B ^ n + v n * B ^ n"
    using Suc by simp
  also have "\<dots> = (1 + v n) * B ^ n"
    by simp
  also have "\<dots> \<le> B * B ^ n"
    using Suc.prems [of n] by (intro mult_right_mono) auto
  finally show ?case
    by simp
qed simp

lemma digit_sum_nth:
  fixes v :: "nat \<Rightarrow> nat"
  assumes "\<And>r. r < n \<Longrightarrow> v r < B" "i < n"
  shows "(\<Sum>r<n. v r * B ^ r) div B ^ i mod B = v i"
proof -
  have B: "0 < B"
    using assms(1) [OF assms(2)] by simp
  have "{..<n} = {..<i} \<union> {i} \<union> {Suc i..<n}"
    using assms(2) by auto
  then have "(\<Sum>r<n. v r * B ^ r) = (\<Sum>r\<in>{..<i} \<union> {i} \<union> {Suc i..<n}. v r * B ^ r)"
    by simp
  also have "\<dots> = (\<Sum>r<i. v r * B ^ r) + v i * B ^ i + (\<Sum>r\<in>{Suc i..<n}. v r * B ^ r)"
    by (subst sum.union_disjoint; auto)+
  also have "(\<Sum>r\<in>{Suc i..<n}. v r * B ^ r) = (\<Sum>r\<in>{Suc i..<n}. v r * B ^ (r - Suc i)) * B * B ^ i"
    unfolding sum_distrib_right
    by (intro sum.cong) (auto simp: mult.assoc power_add [symmetric] simp flip: power_Suc)
  finally have "(\<Sum>r<n. v r * B ^ r) =
      (\<Sum>r<i. v r * B ^ r) + (v i + (\<Sum>r\<in>{Suc i..<n}. v r * B ^ (r - Suc i)) * B) * B ^ i"
    by (simp add: algebra_simps)
  moreover have "(\<Sum>r<i. v r * B ^ r) < B ^ i"
    using assms by (intro digit_sum_less) auto
  ultimately show ?thesis
    using B assms by simp
qed

lemma unat_extract: "unat (drop_bit k (w :: 'w::len word) AND mask b) = unat w div 2 ^ k mod 2 ^ b"
  unfolding take_bit_eq_mask [symmetric] unsigned_take_bit_eq unat_drop_bit_eq
  by (simp add: drop_bit_eq_div take_bit_eq_mod)

lemma unat_pack:
  fixes v :: "nat \<Rightarrow> 'w::len word"
  assumes "\<And>r. r < n \<Longrightarrow> unat (v r) < 2 ^ bits" "n * bits \<le> LENGTH('w)"
  shows "unat (sum_list (map (\<lambda>r. push_bit (r * bits) (v r)) [0..<n])) =
    (\<Sum>r<n. unat (v r) * (2 ^ bits) ^ r)"
proof -
  let ?s = "\<Sum>r<n. unat (v r) * (2 ^ bits) ^ r"
  have "sum_list (map (\<lambda>r. push_bit (r * bits) (v r)) [0..<n]) = (\<Sum>r<n. push_bit (r * bits) (v r))"
    by (simp add: sum_list_distinct_conv_sum_set atLeast0LessThan)
  also have "\<dots> = (\<Sum>r<n. word_of_nat (unat (v r) * (2 ^ bits) ^ r))"
    by (intro sum.cong) (auto simp: push_bit_eq_mult power_mult [symmetric] mult.commute)
  also have "\<dots> = word_of_nat ?s"
    by simp
  finally have w: "sum_list (map (\<lambda>r. push_bit (r * bits) (v r)) [0..<n]) = word_of_nat ?s" .
  have "?s < (2 ^ bits) ^ n"
    using assms(1) by (rule digit_sum_less)
  moreover have "(2 ^ bits) ^ n \<le> (2::nat) ^ LENGTH('w)"
    using assms(2) by (simp add: power_mult [symmetric] mult.commute)
  ultimately have "?s mod 2 ^ LENGTH('w) = ?s"
    by (intro mod_less) linarith
  then show ?thesis
    using w by (simp only: unat_of_nat)
qed

text \<open>The element of a word that was packed from elements that fit their width.\<close>

lemma unpack_packed:
  fixes v :: "nat \<Rightarrow> 'w::len word"
  assumes "\<And>r. r < n \<Longrightarrow> unat (v r) < 2 ^ bits" "n * bits \<le> LENGTH('w)" "i < n"
  shows "drop_bit (i * bits) (sum_list (map (\<lambda>r. push_bit (r * bits) (v r)) [0..<n])) AND mask bits = v i"
proof -
  have "unat (drop_bit (i * bits) (sum_list (map (\<lambda>r. push_bit (r * bits) (v r)) [0..<n])) AND mask bits)
      = (\<Sum>r<n. unat (v r) * (2 ^ bits) ^ r) div (2 ^ bits) ^ i mod 2 ^ bits"
    unfolding unat_extract
    by (subst unat_pack) (use assms in \<open>auto simp: power_mult [symmetric] mult.commute\<close>)
  also have "\<dots> = unat (v i)"
    using assms by (intro digit_sum_nth) auto
  finally show ?thesis
    by (rule unsigned_word_eqI)
qed

lemma pack_weight_simps:
  assumes "axis = norm_axis axis0 (length (tn_shape w))"
  shows "tn_shape (pack_weight w axis0 n bits (Some s)) = s"
    and "tn_shape (pack_weight w axis0 n bits None) = (tn_shape w)[axis := ceildiv (tn_shape w ! axis) n]"
    and "tn_at (pack_weight w axis0 n bits os) idx = sum_list (map (\<lambda>r. push_bit (r * bits)
      (if idx ! axis * n + r < tn_shape w ! axis
       then tn_at w (idx[axis := idx ! axis * n + r]) else 0)) [0..<n])"
  using assms by (auto simp: pack_weight_def Let_def intro!: arg_cong [where f = sum_list])

text \<open>
  Elements survive packing and unpacking along an axis if they and the other elements of their
  word fit their width.
\<close>

lemma convert_pack_roundtrip:
  fixes w :: "'w::len word tensor"
  assumes "norm_axis axis0 (length out_shape) = axis" "norm_axis axis1 (length (tn_shape w)) = axis"
    and "axis < length (tn_shape w)" "in_shape (tn_shape w) idx" "0 < n" "n * bits \<le> LENGTH('w)"
    and fit: "\<And>i. i < tn_shape w ! axis \<Longrightarrow> i div n = idx ! axis div n \<Longrightarrow> unat (tn_at w (idx[axis := i])) < 2 ^ bits"
  shows "tn_at (convert_uint_to_float rnd (pack_weight w axis1 n bits os) bits n axis0 out_shape False) idx
    = rnd (of_nat (unat (tn_at w idx)))"
proof -
  define k where "k = tn_shape w ! axis"
  define j where "j = idx ! axis div n"
  define v where "v r = (if j * n + r < k then tn_at w (idx[axis := j * n + r]) else 0)" for r
  have len: "length idx = length (tn_shape w)" and lt: "idx ! axis < k"
    using in_shapeD [OF assms(4)] assms(3) by (auto simp: k_def)
  have "unat (v r) < 2 ^ bits" if "r < n" for r
    using fit [of "j * n + r"] that by (auto simp: v_def k_def j_def)
  then have "drop_bit (idx ! axis mod n * bits)
      (sum_list (map (\<lambda>r. push_bit (r * bits) (v r)) [0..<n])) AND mask bits = v (idx ! axis mod n)"
    using assms by (intro unpack_packed) auto
  moreover have "v (idx ! axis mod n) = tn_at w idx"
    using lt by (simp add: v_def j_def)
  moreover have "tn_at (pack_weight w axis1 n bits os) (idx[axis := j]) =
      sum_list (map (\<lambda>r. push_bit (r * bits) (v r)) [0..<n])"
    unfolding pack_weight_simps(3) [OF assms(2) [symmetric]] v_def k_def
    using assms(3) len by (simp cong: if_cong)
  ultimately show ?thesis
    by (simp add: convert_uint_to_float_def Let_def assms(1) elem_shift_def flip: j_def)
qed

end
