(* ===== verification/Sharding.thy ===== *)
theory Sharding
  imports Tensor
begin

text \<open>
  Tensor parallel sharding (\<open>support/tensor_parallel.py\<close>): a parameter with a shard strategy is
  cut along one dimension, which may consist of segments that are cut one by one. \<open>gen_tir\<close> is
  the tensor program that computes all shards, written with the reshape, transpose and
  concatenate operations of \<open>topi\<close>. The lemmas show which element of the whole tensor each
  element of a shard is, and that every element is in exactly one shard.
\<close>

section \<open>Parameters and strategies\<close>

text \<open>A dimension of a parameter: a number, or a variable of a dynamic shape.\<close>

datatype extent = DInt nat | DVar string

record shard_single_dim =
  sd_name :: string
  sd_dim :: nat
  sd_segs :: "nat list option"

record param =
  pm_shape :: "extent list"
  pm_dtype :: dtype
  pm_shard :: "shard_single_dim option"

definition Parameter :: "extent list \<Rightarrow> dtype \<Rightarrow> param" where
  "Parameter shape dt = \<lparr>pm_shape = shape, pm_dtype = dt, pm_shard = None\<rparr>"

section \<open>Shape operations\<close>

text \<open>Row-major positions, as \<open>topi.reshape\<close> keeps them.\<close>

fun flat_index :: "nat list \<Rightarrow> nat list \<Rightarrow> nat" where
  "flat_index (d # ds) (i # is) = i * prod_list ds + flat_index ds is"
| "flat_index ds is = 0"

fun unflat_index :: "nat list \<Rightarrow> nat \<Rightarrow> nat list" where
  "unflat_index [] n = []"
| "unflat_index (d # ds) n = n div prod_list ds # unflat_index ds (n mod prod_list ds)"

definition te_reshape :: "'a tensor \<Rightarrow> nat list \<Rightarrow> 'a tensor" where
  "te_reshape t shape =
     te_compute shape (\<lambda>idx. tn_at t (unflat_index (tn_shape t) (flat_index shape idx)))"

definition position :: "nat list \<Rightarrow> nat \<Rightarrow> nat" where
  "position xs x = length (takeWhile (\<lambda>y. y \<noteq> x) xs)"

text \<open>\<open>topi.transpose\<close>: dimension \<open>i\<close> of the result is dimension \<open>axes[i]\<close> of the tensor.\<close>

definition te_permute :: "'a tensor \<Rightarrow> nat list \<Rightarrow> 'a tensor" where
  "te_permute t axes =
     te_compute (map ((!) (tn_shape t)) axes)
       (\<lambda>idx. tn_at t (map (\<lambda>d. idx ! position axes d) [0..<length axes]))"

fun concat_at :: "'a tensor list \<Rightarrow> nat \<Rightarrow> nat list \<Rightarrow> 'a" where
  "concat_at (t # ts) axis idx =
     (if ts = [] \<or> idx ! axis < tn_shape t ! axis then tn_at t idx
      else concat_at ts axis (idx[axis := idx ! axis - tn_shape t ! axis]))"

definition te_concatenate :: "'a tensor list \<Rightarrow> nat \<Rightarrow> 'a tensor" where
  "te_concatenate ts axis =
     te_compute ((tn_shape (hd ts))[axis := sum_list (map (\<lambda>t. tn_shape t ! axis) ts)])
       (concat_at ts axis)"

section \<open>ShardSingleDim\<close>

definition compute_in_shape :: "shard_single_dim \<Rightarrow> nat \<Rightarrow> nat list \<Rightarrow> nat list" where
  "compute_in_shape s shards shape =
     take (sd_dim s) shape @ [shape ! sd_dim s * shards] @ drop (Suc (sd_dim s)) shape"

record shard_info =
  si_func_name :: string
  si_in_shape :: "nat list"
  si_out_shape :: "nat list"
  si_out_dtype :: dtype

definition gen_shard_info :: "shard_single_dim \<Rightarrow> nat \<Rightarrow> nat list \<Rightarrow> dtype \<Rightarrow> shard_info" where
  "gen_shard_info s shards shape dt =
     \<lparr>si_func_name = sd_name s, si_in_shape = compute_in_shape s shards shape,
      si_out_shape = shards # shape, si_out_dtype = dt\<rparr>"

text \<open>\<open>self.segs or [shape[self.dim]]\<close>: an empty list of segments counts as none.\<close>

definition segments :: "shard_single_dim \<Rightarrow> nat list \<Rightarrow> nat list" where
  "segments s shape = (case sd_segs s of Some (l # ls) \<Rightarrow> l # ls | _ \<Rightarrow> [shape ! sd_dim s])"

text \<open>The shards of one segment, with the shard number as the first dimension.\<close>

definition shard_segment ::
    "nat list \<Rightarrow> nat \<Rightarrow> nat \<Rightarrow> 'a tensor \<Rightarrow> nat \<Rightarrow> nat \<Rightarrow> 'a tensor" where
  "shard_segment shape ax shards w offset sub_seg =
     te_permute
       (te_reshape
         (te_compute (take ax shape @ [sub_seg * shards] @ drop (Suc ax) shape)
           (\<lambda>idx. tn_at w (idx[ax := idx ! ax + offset])))
         (take ax shape @ [shards, sub_seg] @ drop (Suc ax) shape))
       ([ax] @ [0..<ax] @ [Suc ax..<length shape + 1])"

fun shard_segments ::
    "nat list \<Rightarrow> nat \<Rightarrow> nat \<Rightarrow> 'a tensor \<Rightarrow> nat \<Rightarrow> nat list \<Rightarrow> 'a tensor list" where
  "shard_segments shape ax shards w offset [] = []"
| "shard_segments shape ax shards w offset (sub_seg # segs) =
     shard_segment shape ax shards w offset sub_seg #
     shard_segments shape ax shards w (offset + sub_seg * shards) segs"

definition gen_tir ::
    "shard_single_dim \<Rightarrow> nat \<Rightarrow> nat list \<Rightarrow> 'a tensor \<Rightarrow> 'a tensor res" where
  "gen_tir s shards shape w =
     (let segs = segments s shape in
      if sum_list segs \<noteq> shape ! sd_dim s then Inl AssertionError
      else Inr (te_concatenate (shard_segments shape (sd_dim s) shards w 0 segs) (1 + sd_dim s)))"

text \<open>
  \<open>_create_shard_func\<close> of \<open>support/preshard.py\<close>: the shards are split along the first dimension,
  which is then dropped.
\<close>

definition shard_func ::
    "shard_single_dim \<Rightarrow> nat \<Rightarrow> nat list \<Rightarrow> 'a tensor \<Rightarrow> 'a tensor list res" where
  "shard_func s shards shape w =
     bindR (gen_tir s shards shape w) (\<lambda>sw.
       Inr (map (\<lambda>i. te_compute (tl (tn_shape sw)) (\<lambda>idx. tn_at sw (i # idx))) [0..<shards]))"

section \<open>Positions\<close>

lemma flat_index_append:
  "length xs = length is \<Longrightarrow>
    flat_index (xs @ ys) (is @ js) = flat_index xs is * prod_list ys + flat_index ys js"
proof (induction xs "is" rule: flat_index.induct)
  case (1 d ds i "is")
  then show ?case
    by (simp add: algebra_simps)
qed auto

lemma flat_index_less: "in_shape ds is \<Longrightarrow> flat_index ds is < prod_list ds"
proof (induction ds "is" rule: flat_index.induct)
  case (1 d ds i "is")
  then have "flat_index ds is < prod_list ds" "i < d"
    by (auto simp: in_shape_def)
  then have "flat_index (d # ds) (i # is) < (i + 1) * prod_list ds"
    by simp
  also have "\<dots> \<le> d * prod_list ds"
    using \<open>i < d\<close> by (intro mult_right_mono) auto
  finally show ?case
    by simp
qed (auto simp: in_shape_def)

lemma unflat_flat: "in_shape ds is \<Longrightarrow> unflat_index ds (flat_index ds is) = is"
proof (induction ds "is" rule: flat_index.induct)
  case (1 d ds i "is")
  then have "in_shape ds is" "i < d"
    by (auto simp: in_shape_def)
  with 1 flat_index_less [of ds "is"] show ?case
    by simp
qed (auto simp: in_shape_def)

text \<open>Splitting a dimension in two does not move the elements.\<close>

lemma flat_index_split:
  assumes "length xs = length is"
  shows "flat_index (xs @ [a, b] @ ys) (is @ [i, j] @ js) = flat_index (xs @ [b * a] @ ys) (is @ [i * b + j] @ js)"
  using assms by (simp add: flat_index_append algebra_simps)

section \<open>Which element a shard holds\<close>

lemma takeWhile_upt: "a \<le> d \<Longrightarrow> d < b \<Longrightarrow> takeWhile (\<lambda>y. y \<noteq> d) [a..<b] = [a..<d]"
  by (induction "b - a" arbitrary: a) (auto simp: upt_conv_Cons)

lemma position_axes:
  assumes "d < m"
  shows "position (ax # [0..<ax] @ [Suc ax..<m]) d = (if d = ax then 0 else if d < ax then Suc d else d)"
proof -
  have "takeWhile (\<lambda>y. y \<noteq> d) ([0..<ax] @ [Suc ax..<m]) = [0..<ax] @ takeWhile (\<lambda>y. y \<noteq> d) [Suc ax..<m]"
    if "ax < d" using that by (intro takeWhile_append2) auto
  moreover have "takeWhile (\<lambda>y. y \<noteq> d) ([0..<ax] @ [Suc ax..<m]) = takeWhile (\<lambda>y. y \<noteq> d) [0..<ax]"
    if "d < ax" using that by (intro takeWhile_append1) auto
  ultimately show ?thesis
    using assms by (auto simp: position_def takeWhile_upt)
qed

lemma permuted_index:
  assumes "length idx = n" "ax < n"
  shows "map (\<lambda>d. (s # idx) ! position (ax # [0..<ax] @ [Suc ax..<Suc n]) d) [0..<Suc n]
    = take ax idx @ [s, idx ! ax] @ drop (Suc ax) idx" (is "?l = ?r")
proof (rule nth_equalityI)
  show "length ?l = length ?r"
    using assms by (simp del: upt_Suc)
  show "?l ! d = ?r ! d" if "d < length ?l" for d
  proof -
    have "d < Suc n"
      using that by (simp del: upt_Suc)
    then have "?l ! d = (s # idx) ! (if d = ax then 0 else if d < ax then Suc d else d)"
      by (simp add: position_axes del: upt_Suc)
    also have "\<dots> = ?r ! d"
      using assms \<open>d < Suc n\<close>
      by (cases "d = Suc ax") (auto simp: nth_append nth_Cons' Suc_diff_le intro!: arg_cong [where f = "(!) idx"])
    finally show ?thesis .
  qed
qed

lemma upd_split: "ax < length xs \<Longrightarrow> take ax xs @ [e] @ drop (Suc ax) xs = xs[ax := e]"
  by (simp add: upd_conv_take_nth_drop)

lemma in_shape_split:
  assumes "in_shape (shape[ax := sub]) idx" "ax < length shape" "s < shards"
  shows "in_shape (shape[ax := sub * shards]) (idx[ax := s * sub + idx ! ax])"
proof -
  have "idx ! ax < sub"
    using in_shapeD(2) [OF assms(1), of ax] assms(2) by simp
  then have "s * sub + idx ! ax < (s + 1) * sub"
    by simp
  also have "\<dots> \<le> shards * sub"
    using assms(3) by (intro mult_right_mono) auto
  finally show ?thesis
    using in_shape_update [OF assms(1), of ax "s * sub + idx ! ax" "sub * shards"] assms(2)
    by (simp add: mult.commute)
qed

lemma shard_segment_at:
  assumes "in_shape (shape[ax := sub]) idx" "ax < length shape" "s < shards"
  shows "tn_at (shard_segment shape ax shards w offset sub) (s # idx) =
    tn_at w (idx[ax := offset + s * sub + idx ! ax])"
proof -
  have len: "length idx = length shape"
    using in_shapeD(1) [OF assms(1)] by simp
  let ?i = "take ax idx @ [s, idx ! ax] @ drop (Suc ax) idx"
  have "flat_index (take ax shape @ [shards, sub] @ drop (Suc ax) shape) ?i =
      flat_index (shape[ax := sub * shards]) (idx[ax := s * sub + idx ! ax])"
    using assms(2) len by (subst flat_index_split) (simp_all add: upd_conv_take_nth_drop)
  then have "unflat_index (shape[ax := sub * shards])
      (flat_index (take ax shape @ [shards, sub] @ drop (Suc ax) shape) ?i) = idx[ax := s * sub + idx ! ax]"
    using unflat_flat [OF in_shape_split [OF assms]] by simp
  moreover note permuted_index [OF len assms(2), of s]
  ultimately show ?thesis
    using assms(2) len upd_split [OF assms(2)]
    by (simp add: shard_segment_def te_permute_def te_reshape_def add.commute add.left_commute
        del: upt_Suc)
qed

lemma shard_segment_shape:
  assumes "ax < length shape"
  shows "tn_shape (shard_segment shape ax shards w offset sub) = shards # shape[ax := sub]"
proof -
  have "map ((!) (take ax shape @ [shards, sub] @ drop (Suc ax) shape)) ([0..<ax] @ [Suc ax..<length shape + 1])
      = shape[ax := sub]" (is "?l = ?r")
  proof (rule nth_equalityI)
    show "length ?l = length ?r"
      using assms by simp
    show "?l ! d = ?r ! d" if "d < length ?l" for d
      using that assms by (auto simp: nth_append nth_Cons' nth_list_update Suc_diff_le simp del: upt_Suc)
  qed
  then show ?thesis
    using assms by (simp add: shard_segment_def te_permute_def te_reshape_def nth_append del: upt_Suc)
qed

text \<open>
  The position along the sharded dimension of element \<open>p\<close> of shard \<open>s\<close>: within its segment the
  shards follow each other.
\<close>

fun shard_pos :: "nat list \<Rightarrow> nat \<Rightarrow> nat \<Rightarrow> nat \<Rightarrow> nat" where
  "shard_pos [] shards s p = 0"
| "shard_pos (l # ls) shards s p =
     (if p < l then s * l + p else l * shards + shard_pos ls shards s (p - l))"

lemma shard_segments_at:
  assumes "in_shape (shape[ax := sum_list segs]) idx" "ax < length shape" "s < shards"
  shows "concat_at (shard_segments shape ax shards w offset segs) (1 + ax) (s # idx) =
    tn_at w (idx[ax := offset + shard_pos segs shards s (idx ! ax)])"
  using assms
proof (induction segs arbitrary: idx offset)
  case Nil
  then show ?case
    using in_shapeD(2) [OF Nil(1), of ax] by simp
next
  case (Cons l ls)
  have len: "length idx = length shape"
    using in_shapeD(1) [OF Cons.prems(1)] by simp
  have p: "idx ! ax < l + sum_list ls"
    using in_shapeD(2) [OF Cons.prems(1), of ax] assms(2) by simp
  have sh: "tn_shape (shard_segment shape ax shards w offset l) ! Suc ax = l"
    using assms(2) by (simp add: shard_segment_shape)
  show ?case
  proof (cases "idx ! ax < l")
    case True
    then have "in_shape (shape[ax := l]) idx"
      using in_shape_update [OF Cons.prems(1), of ax "idx ! ax" l] assms(2) by simp
    with True sh show ?thesis
      by (simp add: shard_segment_at assms add.assoc)
  next
    case False
    then have ls: "ls \<noteq> []"
      using p by auto
    then have "shard_segments shape ax shards w (offset + l * shards) ls \<noteq> []"
      by (cases ls) auto
    moreover have "in_shape (shape[ax := sum_list ls]) (idx[ax := idx ! ax - l])"
      using in_shape_update [OF Cons.prems(1), of ax "idx ! ax - l" "sum_list ls"] assms(2) p False
      by simp
    ultimately show ?thesis
      using False sh Cons.IH [of "idx[ax := idx ! ax - l]" "offset + l * shards"] assms len
      by (simp add: add.assoc)
  qed
qed

lemma shard_pos_less:
  assumes "s < shards" "p < sum_list ls"
  shows "shard_pos ls shards s p < sum_list ls * shards"
  using assms
proof (induction ls arbitrary: p)
  case (Cons l ls)
  show ?case
  proof (cases "p < l")
    case True
    then have "s * l + p < (s + 1) * l"
      by simp
    also have "\<dots> \<le> shards * l"
      using Cons.prems(1) by (intro mult_right_mono) auto
    finally show ?thesis
      using True by (simp add: algebra_simps)
  next
    case False
    then show ?thesis
      using Cons.IH [of "p - l"] Cons.prems by (simp add: algebra_simps)
  qed
qed simp

text \<open>Where the element at a position goes: its shard and its position there.\<close>

fun shard_of :: "nat list \<Rightarrow> nat \<Rightarrow> nat \<Rightarrow> nat \<times> nat" where
  "shard_of [] shards q = (0, 0)"
| "shard_of (l # ls) shards q =
     (if q < l * shards then (q div l, q mod l)
      else (let (s, p) = shard_of ls shards (q - l * shards) in (s, l + p)))"

lemma shard_of_pos:
  assumes "s < shards" "p < sum_list ls"
  shows "shard_of ls shards (shard_pos ls shards s p) = (s, p)"
  using assms
proof (induction ls arbitrary: p)
  case (Cons l ls)
  show ?case
  proof (cases "p < l")
    case True
    then show ?thesis
      using shard_pos_less [of s shards p "[l]"] Cons.prems by auto
  next
    case False
    then show ?thesis
      using Cons.IH [of "p - l"] Cons.prems by simp
  qed
qed simp

lemma shard_pos_of:
  assumes "q < sum_list ls * shards"
  shows "fst (shard_of ls shards q) < shards \<and> snd (shard_of ls shards q) < sum_list ls \<and>
    shard_pos ls shards (fst (shard_of ls shards q)) (snd (shard_of ls shards q)) = q"
  using assms
proof (induction ls arbitrary: q)
  case (Cons l ls)
  show ?case
  proof (cases "q < l * shards")
    case True
    then have "0 < l"
      by (cases l) auto
    with True show ?thesis
      by (auto simp: less_mult_imp_div_less mult.commute trans_less_add1)
  next
    case False
    then show ?thesis
      using Cons.IH [of "q - l * shards"] Cons.prems by (auto simp: split_beta algebra_simps)
  qed
qed simp

lemma shard_pos_bij:
  "bij_betw (\<lambda>(s, p). shard_pos ls shards s p) ({..<shards} \<times> {..<sum_list ls}) {..<sum_list ls * shards}"
proof (rule bij_betw_byWitness [where f' = "shard_of ls shards"])
  show "shard_of ls shards ` {..<sum_list ls * shards} \<subseteq> {..<shards} \<times> {..<sum_list ls}"
    using shard_pos_of by (simp add: image_subset_iff mem_Times_iff)
qed (auto simp: shard_of_pos shard_pos_of shard_pos_less split_beta)

lemma shard_index_bij:
  assumes "d < length shape" "shape ! d = sum_list ls"
  shows "bij_betw (\<lambda>(i, idx). idx[d := shard_pos ls shards i (idx ! d)])
    ({..<shards} \<times> Collect (in_shape shape)) (Collect (in_shape (shape[d := sum_list ls * shards])))"
    (is "bij_betw ?f ?A ?B")
proof (rule bij_betw_byWitness)
  let ?g = "\<lambda>idx. (fst (shard_of ls shards (idx ! d)), idx[d := snd (shard_of ls shards (idx ! d))])"
  have A: "length idx = length shape" "idx ! d < sum_list ls" if "in_shape shape idx" for idx
    using in_shapeD [OF that] assms by metis+
  have B: "length idx = length shape" "idx ! d < sum_list ls * shards"
    if "in_shape (shape[d := sum_list ls * shards]) idx" for idx
    using in_shapeD(1) [OF that] in_shapeD(2) [OF that, of d] assms by simp_all
  show "\<forall>x\<in>?A. ?g (?f x) = x"
    using A assms by (auto simp: shard_of_pos)
  show "\<forall>y\<in>?B. ?f (?g y) = y"
    using B assms by (auto simp: shard_pos_of)
  show "?f ` ?A \<subseteq> ?B"
    using A assms by (auto intro!: in_shape_update shard_pos_less)
  have "in_shape shape (idx[d := snd (shard_of ls shards (idx ! d))])"
    if "in_shape (shape[d := sum_list ls * shards]) idx" for idx
    using in_shape_update [OF that, of d "snd (shard_of ls shards (idx ! d))" "shape ! d"]
      B(2) [OF that] shard_pos_of assms by (metis list_update_id list_update_overwrite length_list_update)
  then show "?g ` ?B \<subseteq> ?A"
    using B shard_pos_of by auto
qed

lemma segments_not_empty [simp]: "segments s shape \<noteq> []"
  by (auto simp: segments_def split: option.splits list.splits)

lemma shard_func_result:
  assumes "sd_dim s < length shape" "sum_list (segments s shape) = shape ! sd_dim s"
  shows "\<exists>ts. shard_func s shards shape w = Inr ts \<and> length ts = shards \<and>
    (\<forall>i < shards. tn_shape (ts ! i) = shape \<and>
      (\<forall>idx. in_shape shape idx \<longrightarrow>
        tn_at (ts ! i) idx = tn_at w (idx[sd_dim s := shard_pos (segments s shape) shards i (idx ! sd_dim s)])))"
proof -
  let ?d = "sd_dim s" and ?ls = "segments s shape"
  let ?ws = "shard_segments shape ?d shards w 0 ?ls"
  have sum: "map (\<lambda>t. tn_shape t ! Suc ?d) (shard_segments shape ?d shards w off ls) = ls" for ls off
    by (induction ls arbitrary: off) (simp_all add: shard_segment_shape assms(1))
  obtain l ls where ls: "?ls = l # ls"
    using segments_not_empty [of s shape] by (cases ?ls) auto
  then have hd: "tn_shape (hd ?ws) = shards # shape[?d := l]"
    by (simp add: shard_segment_shape assms(1))
  then have "tn_shape (te_concatenate ?ws (1 + ?d)) = shards # shape"
    using sum [of 0 ?ls] assms(2) by (simp add: te_concatenate_def)
  moreover have "tn_at (te_concatenate ?ws (1 + ?d)) (i # idx) = tn_at w (idx[?d := shard_pos ?ls shards i (idx ! ?d)])"
    if "in_shape shape idx" "i < shards" for i idx
    using shard_segments_at [of shape ?d ?ls idx i shards w 0] that assms
    by (simp add: te_concatenate_def)
  ultimately show ?thesis
    using assms by (simp add: shard_func_def gen_tir_def)
qed

text \<open>
  C12: Sharding a weight succeeds exactly when the segments of the strategy add up to the sharded
  dimension of a shard (otherwise it raises \<open>AssertionError\<close>). The shards then have the shape of the
  parameter, and together they hold every element of the whole weight exactly once: the
  positions of the elements of all shards are a bijection onto the indices of the whole weight.
\<close>

theorem shards_partition_weight:
  assumes "sd_dim s < length shape"
  shows "if sum_list (segments s shape) = shape ! sd_dim s
    then \<exists>ts f. shard_func s shards shape w = Inr ts \<and> length ts = shards \<and>
      bij_betw f ({..<shards} \<times> Collect (in_shape shape)) (Collect (in_shape (compute_in_shape s shards shape))) \<and>
      (\<forall>i < shards. tn_shape (ts ! i) = shape \<and>
        (\<forall>idx. in_shape shape idx \<longrightarrow> tn_at (ts ! i) idx = tn_at w (f (i, idx))))
    else shard_func s shards shape w = Inl AssertionError"
proof (cases "sum_list (segments s shape) = shape ! sd_dim s")
  case True
  let ?f = "\<lambda>(i, idx). idx[sd_dim s := shard_pos (segments s shape) shards i (idx ! sd_dim s)]"
  have "compute_in_shape s shards shape = shape[sd_dim s := sum_list (segments s shape) * shards]"
    using True assms by (simp add: compute_in_shape_def upd_conv_take_nth_drop)
  then have "bij_betw ?f ({..<shards} \<times> Collect (in_shape shape)) (Collect (in_shape (compute_in_shape s shards shape)))"
    using shard_index_bij [OF assms True [symmetric], of shards] by simp
  with shard_func_result [OF assms True, of shards w] True show ?thesis
    by (auto intro!: exI [of _ ?f])
next
  case False
  then show ?thesis
    by (simp add: shard_func_def gen_tir_def)
qed

theorem shards_partition_weight_witness:
  "\<exists>ts f. shard_func \<lparr>sd_name = ''qkv'', sd_dim = 0, sd_segs = Some [2, 1]\<rparr> 2 [3, 2] (te_compute [6, 2] id) = Inr ts \<and>
    length ts = 2 \<and>
    bij_betw f ({..<2} \<times> Collect (in_shape [3, 2]))
      (Collect (in_shape (compute_in_shape \<lparr>sd_name = ''qkv'', sd_dim = 0, sd_segs = Some [2, 1]\<rparr> 2 [3, 2]))) \<and>
    (\<forall>i < 2. tn_shape (ts ! i) = [3, 2] \<and>
      (\<forall>idx. in_shape [3, 2] idx \<longrightarrow> tn_at (ts ! i) idx = tn_at (te_compute [6, 2] id) (f (i, idx))))"
  using shards_partition_weight [of "\<lparr>sd_name = ''qkv'', sd_dim = 0, sd_segs = Some [2, 1]\<rparr>" "[3, 2]" 2 "te_compute [6, 2] id"]
  by (simp add: segments_def)

end
