(* ===== verification/Quantization.thy ===== *)
theory Quantization
  imports Sharding
begin

text \<open>
  The quantization algorithms of \<open>quantization/\<close>: the configs with the checks of their
  \<open>__post_init__\<close>, the tensor programs that quantize and dequantize a weight, the layers that
  replace the float layers of a model with their parameters, and the visitor that replaces them
  and records in a \<open>QuantizeMapping\<close> how the weights of the model become those of the quantized
  one. The arithmetic of the model dtype is an argument: a record with its rounding, the
  \<open>tir.round\<close> to an integer, its least value, and the integer a cast of NaN produces.
\<close>

section \<open>Utilities\<close>

definition is_final_fc :: "string \<Rightarrow> bool" where
  "is_final_fc name \<longleftrightarrow> name \<in> set [''head'', ''lm_head'', ''lm_head.linear'', ''embed_out'']"

text \<open>
  Layers of a model. \<open>out_features\<close> is a number, or the name of a variable; \<open>weight\<close> of a
  \<open>Linear\<close> has shape \<open>(out_features, in_features)\<close>, that of an \<open>Embedding\<close> \<open>(num, dim)\<close>.
\<close>

record nn_linear =
  nl_in :: nat
  nl_out :: extent
  nl_bias :: "param option"
  nl_out_dtype :: "dtype option"
  nl_shard :: "shard_single_dim option"

record mixtral_experts =
  mx_num :: nat
  mx_in :: nat
  mx_out :: nat
  mx_shard :: "shard_single_dim option"

datatype nn_layer =
    Linear nn_linear
  | Embedding extent nat
  | Experts mixtral_experts
  | OtherLayer

record nn_node =
  nn_layer :: nn_layer
  nn_no_quantization :: bool

definition is_moe_gate :: "string \<Rightarrow> nn_linear \<Rightarrow> bool" where
  "is_moe_gate name node \<longleftrightarrow>
     suffix ''gate'' name \<and> (case nl_out node of DInt n \<Rightarrow> n \<le> 256 | DVar _ \<Rightarrow> False)"

definition apply_sharding :: "shard_single_dim \<Rightarrow> string \<Rightarrow> param \<Rightarrow> param" where
  "apply_sharding shard name weight =
     weight\<lparr>pm_shard := Some \<lparr>sd_name = name, sd_dim = sd_dim shard, sd_segs = sd_segs shard\<rparr>\<rparr>"

section \<open>Arithmetic of the model dtype\<close>

record float_model =
  fm_rnd :: "rat \<Rightarrow> rat"
  fm_round :: "rat \<Rightarrow> int"
  fm_min_value :: rat
  fm_nan_cast :: "nat list \<Rightarrow> int"

text \<open>Division of finite values, with the special values of IEEE 754.\<close>

definition fdiv :: "float_model \<Rightarrow> rat \<Rightarrow> rat \<Rightarrow> pyfloat" where
  "fdiv fm a b =
     (if b \<noteq> 0 then Fin (fm_rnd fm (a / b)) else if a = 0 then NaN else if 0 < a then PInf else NInf)"

fun fadd :: "float_model \<Rightarrow> pyfloat \<Rightarrow> rat \<Rightarrow> pyfloat" where
  "fadd fm (Fin a) b = Fin (fm_rnd fm (a + b))"
| "fadd fm x b = x"

fun fround :: "float_model \<Rightarrow> pyfloat \<Rightarrow> pyfloat" where
  "fround fm (Fin a) = Fin (of_int (fm_round fm a))"
| "fround fm x = x"

text \<open>\<open>tir.min(tir.max(x, lo), hi)\<close>\<close>

fun fclamp :: "rat \<Rightarrow> rat \<Rightarrow> pyfloat \<Rightarrow> pyfloat" where
  "fclamp lo hi (Fin a) = Fin (min (max a lo) hi)"
| "fclamp lo hi PInf = Fin hi"
| "fclamp lo hi NInf = Fin lo"
| "fclamp lo hi NaN = NaN"

text \<open>
  The cast of an element to the storage dtype; what it makes of NaN depends on the target, so
  the model lets it be any integer, also one for each element.
\<close>

fun fcast :: "float_model \<Rightarrow> nat list \<Rightarrow> pyfloat \<Rightarrow> 'w::len word" where
  "fcast fm idx (Fin a) = word_of_int \<lfloor>a\<rfloor>"
| "fcast fm idx x = word_of_int (fm_nan_cast fm idx)"

section \<open>Group quantization\<close>

record group_quantize =
  gq_name :: string
  gq_kind :: string
  gq_group_size :: nat
  gq_quantize_dtype :: dtype
  gq_storage_dtype :: dtype
  gq_model_dtype :: dtype
  gq_linear_weight_layout :: string
  gq_quantize_embedding :: bool
  gq_quantize_final_fc :: bool
  gq_num_elem_per_storage :: nat
  gq_num_storage_per_group :: nat
  gq_max_int_value :: nat
  gq_tensor_parallel_shards :: nat
  gq_linear_quant_axis :: int

definition group_post_init :: "group_quantize \<Rightarrow> group_quantize res" where
  "group_post_init c =
     (let q = gq_quantize_dtype c; s = gq_storage_dtype c; m = gq_model_dtype c in
      if gq_kind c \<noteq> ''group-quant'' then Inl AssertionError
      else if dt_code q \<noteq> DT_INT then Inl AssertionError
      else if dt_code s \<noteq> DT_UINT then Inl AssertionError
      else if dt_code m \<notin> {DT_FLOAT, DT_BFLOAT} then Inl AssertionError
      else if dt_bits s < dt_bits q
      then Inl (ValueError ''Storage unit should be greater or equal to quantized element'')
      else
        let n = dt_bits s div dt_bits q in
        if gq_group_size c mod n \<noteq> 0
        then Inl (ValueError ''Group size should be divisible by numbers of elements per storage'')
        else Inr (c\<lparr>gq_num_elem_per_storage := n, gq_num_storage_per_group := gq_group_size c div n,
          gq_max_int_value := 2 ^ (dt_bits q - 1) - 1,
          gq_linear_quant_axis := (if gq_linear_weight_layout c = ''KN'' then 0 else 1)\<rparr>))"

text \<open>The constructor with the fields \<open>__post_init__\<close> computes at their defaults.\<close>

definition GroupQuantize ::
    "string \<Rightarrow> string \<Rightarrow> nat \<Rightarrow> dtype \<Rightarrow> dtype \<Rightarrow> dtype \<Rightarrow> string \<Rightarrow> bool \<Rightarrow> bool \<Rightarrow> group_quantize res" where
  "GroupQuantize name kind group_size qd sd md layout qe qf =
     group_post_init \<lparr>gq_name = name, gq_kind = kind, gq_group_size = group_size,
       gq_quantize_dtype = qd, gq_storage_dtype = sd, gq_model_dtype = md,
       gq_linear_weight_layout = layout, gq_quantize_embedding = qe, gq_quantize_final_fc = qf,
       gq_num_elem_per_storage = 0, gq_num_storage_per_group = 0, gq_max_int_value = 0,
       gq_tensor_parallel_shards = 0, gq_linear_quant_axis = 0\<rparr>"

text \<open>
  The scale of a group: its largest absolute value (of the elements inside the tensor) divided
  by the largest integer. The weight has the model dtype, so \<open>astype\<close> does not change it.
\<close>

definition group_max_abs ::
    "float_model \<Rightarrow> group_quantize \<Rightarrow> rat tensor \<Rightarrow> nat \<Rightarrow> nat list \<Rightarrow> rat" where
  "group_max_abs fm c weight axis idx =
     fold max (map (\<lambda>r.
        if idx ! axis * gq_group_size c + r < tn_shape weight ! axis
        then \<bar>tn_at weight (idx[axis := idx ! axis * gq_group_size c + r])\<bar> else fm_min_value fm)
      [0..<gq_group_size c]) (fm_min_value fm)"

definition group_scale :: "float_model \<Rightarrow> group_quantize \<Rightarrow> rat tensor \<Rightarrow> nat \<Rightarrow> rat tensor" where
  "group_scale fm c weight axis =
     te_compute ((tn_shape weight)[axis := ceildiv (tn_shape weight ! axis) (gq_group_size c)])
       (\<lambda>idx. fm_rnd fm (group_max_abs fm c weight axis idx / of_nat (gq_max_int_value c)))"

definition group_scaled_weight ::
    "float_model \<Rightarrow> group_quantize \<Rightarrow> rat tensor \<Rightarrow> nat \<Rightarrow> rat tensor \<Rightarrow> 32 word tensor" where
  "group_scaled_weight fm c weight axis scale =
     te_compute (tn_shape weight)
       (\<lambda>idx. fcast fm idx (fclamp 0 (of_nat (gq_max_int_value c) * 2)
         (fround fm (fadd fm
           (fdiv fm (tn_at weight idx) (tn_at scale (idx[axis := idx ! axis div gq_group_size c])))
           (of_nat (gq_max_int_value c))))))"

definition group_quantize_weight ::
    "float_model \<Rightarrow> group_quantize \<Rightarrow> rat tensor \<Rightarrow> int \<Rightarrow> bool \<Rightarrow> (32 word tensor \<times> rat tensor) res" where
  "group_quantize_weight fm c weight axis0 output_transpose =
     (let shape = tn_shape weight; axis = norm_axis axis0 (length shape);
          num_group = ceildiv (shape ! axis) (gq_group_size c);
          scale = group_scale fm c weight axis;
          scaled = group_scaled_weight fm c weight axis scale;
          quantized = pack_weight scaled (int axis) (gq_num_elem_per_storage c) (dt_bits (gq_quantize_dtype c))
            (Some (shape[axis := gq_num_storage_per_group c * num_group])) in
      if output_transpose then
        if length (tn_shape quantized) \<noteq> 2 \<or> length (tn_shape scale) \<noteq> 2
        then Inl (ValueError ''Does not support transpose output quantized weight with ndim != 2'')
        else Inr (te_transpose quantized, te_transpose scale)
      else Inr (quantized, scale))"

definition group_dequantize ::
    "float_model \<Rightarrow> group_quantize \<Rightarrow> 32 word tensor \<Rightarrow> rat tensor \<Rightarrow> int \<Rightarrow> nat list \<Rightarrow> rat tensor" where
  "group_dequantize fm c weight scale axis0 out_shape =
     (let float_weight = convert_uint_to_float (fm_rnd fm) weight (dt_bits (gq_quantize_dtype c))
            (gq_num_elem_per_storage c) axis0 out_shape False;
          axis = norm_axis axis0 (length out_shape) in
      te_compute out_shape
        (\<lambda>idx. fm_rnd fm (fm_rnd fm (tn_at float_weight idx - of_nat (gq_max_int_value c)) *
           tn_at scale (idx[axis := idx ! axis div gq_group_size c]))))"

text \<open>
  The weight \<open>forward\<close> of a group quantized linear layer multiplies with: input features first.
\<close>

definition group_forward_weight ::
    "float_model \<Rightarrow> group_quantize \<Rightarrow> nat \<Rightarrow> nat \<Rightarrow> 32 word tensor \<Rightarrow> rat tensor \<Rightarrow> rat tensor" where
  "group_forward_weight fm c in_features out_features weight scale =
     (let w = group_dequantize fm c weight scale (gq_linear_quant_axis c)
            (if gq_linear_weight_layout c = ''NK'' then [out_features, in_features]
             else [in_features, out_features]) in
      if gq_linear_weight_layout c = ''NK'' then te_transpose w else w)"

text \<open>
  \<open>quantize_weight\<close>: the tensor program is built and compiled once for a key and kept in
  \<open>_quantize_func_cache\<close>. Building it raises the error of \<open>_quantize\<close>; compiling it fails on an
  unknown device (\<open>compile_quantize_func\<close>). Only then is the entry stored.
\<close>

type_synonym quantize_key = "nat list \<times> dtype \<times> string \<times> nat \<times> bool"
type_synonym quantize_cache = "(quantize_key \<times> (rat tensor \<Rightarrow> (32 word tensor \<times> rat tensor) res)) list"

definition compile_quantize_func :: "string \<Rightarrow> unit res" where
  "compile_quantize_func device_type =
     assertR (device_type \<in> set [''cuda'', ''rocm'', ''metal'', ''vulkan'', ''opencl''] \<or> device_type = ''cpu'')
       NotImplementedError"

definition quantize_weight_cached ::
    "float_model \<Rightarrow> group_quantize \<Rightarrow> string \<Rightarrow> dtype \<Rightarrow> rat tensor \<Rightarrow> int \<Rightarrow> bool \<Rightarrow> quantize_cache \<Rightarrow>
     quantize_cache \<times> (32 word tensor \<times> rat tensor) res" where
  "quantize_weight_cached fm c device_type dt weight axis0 output_transpose cache =
     (let axis = norm_axis axis0 (length (tn_shape weight));
          key = (tn_shape weight, dt, device_type, axis, output_transpose);
          func = (\<lambda>w. group_quantize_weight fm c w (int axis) output_transpose) in
      case dict_get cache key of
        Some f \<Rightarrow> (cache, f weight)
      | None \<Rightarrow>
          (case bindR (func weight) (\<lambda>_. compile_quantize_func device_type) of
             Inl e \<Rightarrow> (cache, Inl e)
           | Inr _ \<Rightarrow> (dict_set cache key func, func weight)))"

section \<open>Group quantized layers\<close>

text \<open>The parameters of a layer, by attribute name.\<close>

type_synonym layer_params = "(string \<times> param) list"

definition bias_param :: "dtype \<Rightarrow> nn_linear \<Rightarrow> layer_params" where
  "bias_param model_dtype src =
     (case nl_bias src of
        None \<Rightarrow> []
      | Some b \<Rightarrow> [(''bias'',
          (Parameter [nl_out src] (case nl_out_dtype src of None \<Rightarrow> model_dtype | Some d \<Rightarrow> d))
          \<lparr>pm_shard := pm_shard b\<rparr>)])"

definition shard_param :: "shard_single_dim option \<Rightarrow> string \<Rightarrow> param \<Rightarrow> param" where
  "shard_param shard suffix_name p =
     (case shard of None \<Rightarrow> p | Some s \<Rightarrow> apply_sharding s (sd_name s @ suffix_name) p)"

definition group_linear :: "nn_linear \<Rightarrow> group_quantize \<Rightarrow> layer_params res" where
  "group_linear src c =
     (let inf = nl_in src; num_group = ceildiv inf (gq_group_size c);
          shards = gq_tensor_parallel_shards c; st = gq_num_storage_per_group c * num_group in
      if shards > 1 \<and> inf * shards div gq_group_size c mod shards \<noteq> 0
      then Inl (ValueError ''The groups cannot be evenly distributed'')
      else
        let (qw, qs) =
          (if gq_linear_weight_layout c = ''KN''
           then (Parameter [DInt st, nl_out src] (gq_storage_dtype c),
                 Parameter [DInt num_group, nl_out src] (gq_model_dtype c))
           else (Parameter [nl_out src, DInt st] (gq_storage_dtype c),
                 Parameter [nl_out src, DInt num_group] (gq_model_dtype c))) in
        Inr ([(''q_weight'', shard_param (nl_shard src) ''_q_weight'' qw),
              (''q_scale'', shard_param (nl_shard src) ''_q_scale'' qs)] @
             bias_param (gq_model_dtype c) src))"

definition group_embedding :: "extent \<Rightarrow> nat \<Rightarrow> group_quantize \<Rightarrow> layer_params" where
  "group_embedding num d c =
     (let num_group = ceildiv d (gq_group_size c) in
      [(''q_weight'', Parameter [num, DInt (gq_num_storage_per_group c * num_group)] (gq_storage_dtype c)),
       (''q_scale'', Parameter [num, DInt num_group] (gq_model_dtype c))])"

definition group_experts :: "mixtral_experts \<Rightarrow> group_quantize \<Rightarrow> layer_params res" where
  "group_experts src c =
     (let num_group = ceildiv (mx_in src) (gq_group_size c) in
      if gq_linear_weight_layout c = ''KN'' then Inl NotImplementedError
      else Inr
        [(''q_weight'', shard_param (mx_shard src) ''_q_weight''
           (Parameter [DInt (mx_num src), DInt (mx_out src), DInt (gq_num_storage_per_group c * num_group)]
              (gq_storage_dtype c))),
         (''q_scale'', shard_param (mx_shard src) ''_q_scale''
           (Parameter [DInt (mx_num src), DInt (mx_out src), DInt num_group] (gq_model_dtype c)))])"

section \<open>FasterTransformer quantization\<close>

record ft_quantize =
  ft_name :: string
  ft_kind :: string
  ft_quantize_dtype :: dtype
  ft_storage_dtype :: dtype
  ft_model_dtype :: dtype
  ft_group_size :: "nat option"
  ft_num_elem_per_storage :: nat
  ft_max_int_value :: nat

definition ft_post_init :: "ft_quantize \<Rightarrow> ft_quantize res" where
  "ft_post_init c =
     (let q = ft_quantize_dtype c; s = ft_storage_dtype c in
      if ft_kind c \<noteq> ''ft-quant'' then Inl AssertionError
      else if q \<notin> {DataType DT_INT 4, DataType DT_INT 8} then Inl AssertionError
      else if dt_code s \<noteq> DT_INT then Inl AssertionError
      else if ft_model_dtype c \<noteq> float16 then Inl AssertionError
      else if ft_group_size c \<notin> {None, Some 64, Some 128} then Inl AssertionError
      else if dt_bits s < dt_bits q
      then Inl (ValueError ''Storage unit should be greater or equal to quantized element'')
      else Inr (c\<lparr>ft_num_elem_per_storage := dt_bits s div dt_bits q,
                  ft_max_int_value := 2 ^ (dt_bits q - 1) - 1\<rparr>))"

definition fallback_group_quantize :: "ft_quantize \<Rightarrow> group_quantize res" where
  "fallback_group_quantize c =
     GroupQuantize (ft_name c) ''group-quant'' 32 (ft_quantize_dtype c) uint32 (ft_model_dtype c) ''NK'' True True"

text \<open>\<open>k if not self.group_size else self.group_size\<close>\<close>

definition cur_group_size :: "ft_quantize \<Rightarrow> nat \<Rightarrow> nat" where
  "cur_group_size c k = (case ft_group_size c of None \<Rightarrow> k | Some g \<Rightarrow> if g = 0 then k else g)"

definition ft_max_abs :: "float_model \<Rightarrow> nat \<Rightarrow> nat \<Rightarrow> rat tensor \<Rightarrow> nat \<Rightarrow> nat \<Rightarrow> rat" where
  "ft_max_abs fm g k weight j i =
     fold max (map (\<lambda>r. if j * g + r < k then \<bar>tn_at weight [i, j * g + r]\<bar> else fm_min_value fm) [0..<g])
       (fm_min_value fm)"

definition ft_scaled :: "float_model \<Rightarrow> ft_quantize \<Rightarrow> nat \<Rightarrow> rat tensor \<Rightarrow> rat tensor \<Rightarrow> nat \<Rightarrow> nat \<Rightarrow> 8 word" where
  "ft_scaled fm c g weight scale i j =
     fcast fm [i, j]
       (fclamp (- of_nat (ft_max_int_value c) - 1) (of_nat (ft_max_int_value c))
         (fround fm (fdiv fm (tn_at weight [i, j]) (tn_at scale [j div g, i]))))
     AND mask (dt_bits (ft_quantize_dtype c))"

definition ft_quantize_program ::
    "float_model \<Rightarrow> ft_quantize \<Rightarrow> rat tensor \<Rightarrow> (8 word tensor \<times> rat tensor) res" where
  "ft_quantize_program fm c weight =
     (case tn_shape weight of
        [n, k] \<Rightarrow>
          let g = cur_group_size c k; ne = ft_num_elem_per_storage c;
              scale = te_compute [ceildiv k g, n] (\<lambda>idx.
                fm_rnd fm (ft_max_abs fm g k weight (idx ! 0) (idx ! 1) / of_nat (ft_max_int_value c)));
              quantized = te_compute [k, ceildiv n ne] (\<lambda>idx.
                sum_list (map (\<lambda>r.
                  if idx ! 1 * ne + r < n
                  then push_bit (r * dt_bits (ft_quantize_dtype c)) (ft_scaled fm c g weight scale (idx ! 1 * ne + r) (idx ! 0))
                  else 0) [0..<ne])) in
          Inr (quantized, scale)
      | _ \<Rightarrow> Inl AssertionError)"

definition ft_linear :: "nn_linear \<Rightarrow> nat \<Rightarrow> ft_quantize \<Rightarrow> layer_params" where
  "ft_linear src n c =
     (let g = cur_group_size c (nl_in src) in
      [(''q_weight'', Parameter [DInt (nl_in src), DInt (ceildiv n (ft_num_elem_per_storage c))] (ft_storage_dtype c)),
       (''q_scale'', Parameter [DInt (ceildiv (nl_in src) g), DInt n] (ft_model_dtype c))] @
      bias_param (ft_model_dtype c) src)"

section \<open>AWQ\<close>

definition make_divisible :: "nat \<Rightarrow> nat \<Rightarrow> nat" where
  "make_divisible c divisor = (c + divisor - 1) div divisor"

definition calculate_zeros_width :: "nat \<Rightarrow> nat \<Rightarrow> nat \<Rightarrow> nat res" where
  "calculate_zeros_width in_features group_size pack_num =
     (let finish = (\<lambda>m. Inr (make_divisible (make_divisible (in_features div group_size) pack_num) m * m)) in
      if 128 \<le> group_size then finish 1
      else if group_size = 64 then finish 2
      else if group_size = 32 then finish 4
      else Inl NotImplementedError)"

record awq_quantize =
  aq_name :: string
  aq_kind :: string
  aq_group_size :: nat
  aq_quantize_dtype :: dtype
  aq_storage_dtype :: dtype
  aq_model_dtype :: dtype
  aq_num_elem_per_storage :: nat
  aq_num_storage_per_group :: nat
  aq_max_int_value :: nat

definition awq_post_init :: "awq_quantize \<Rightarrow> awq_quantize res" where
  "awq_post_init c =
     (let q = aq_quantize_dtype c; s = aq_storage_dtype c in
      if aq_kind c \<noteq> ''awq'' then Inl AssertionError
      else if dt_code q \<noteq> DT_INT then Inl AssertionError
      else if dt_code s \<noteq> DT_UINT then Inl AssertionError
      else if dt_code (aq_model_dtype c) \<noteq> DT_FLOAT then Inl AssertionError
      else if dt_bits s < dt_bits q
      then Inl (ValueError ''Storage unit should be greater or equal to quantized element'')
      else
        let n = dt_bits s div dt_bits q in
        if aq_group_size c mod n \<noteq> 0
        then Inl (ValueError ''Group size should be divisible by numbers of elements per storage'')
        else Inr (c\<lparr>aq_num_elem_per_storage := n, aq_num_storage_per_group := aq_group_size c div n,
          aq_max_int_value := 2 ^ (dt_bits q - 1) - 1\<rparr>))"

text \<open>
  \<open>_dequantize\<close> of the stored weight, zero points and scales, all with the output features last;
  the result has them first. The output shape is given, as \<open>forward\<close> does.
\<close>

definition awq_dequantize ::
    "(rat \<Rightarrow> rat) \<Rightarrow> awq_quantize \<Rightarrow> 32 word tensor \<Rightarrow> 32 word tensor \<Rightarrow> rat tensor \<Rightarrow> nat list \<Rightarrow> rat tensor" where
  "awq_dequantize rnd c weight zeros scale0 out_shape =
     (let n = aq_num_elem_per_storage c; bits = dt_bits (aq_quantize_dtype c);
          unpack = (\<lambda>t. te_transpose (convert_uint_to_float rnd t bits n (-1)
            [tn_shape t ! 0, tn_shape t ! 1 * n] True));
          float_weight = unpack weight; float_zeros = unpack zeros; scale = te_transpose scale0 in
      te_compute out_shape (\<lambda>idx.
        rnd (rnd (tn_at float_weight [idx ! 0, idx ! 1] -
                  tn_at float_zeros [idx ! 0, idx ! 1 div aq_group_size c]) *
             tn_at scale [idx ! 0, idx ! 1 div aq_group_size c])))"

definition awq_linear :: "nn_linear \<Rightarrow> nat \<Rightarrow> awq_quantize \<Rightarrow> layer_params" where
  "awq_linear src n c =
     (let ne = aq_num_elem_per_storage c; g = aq_group_size c in
      [(''qweight'', Parameter [DInt (nl_in src), DInt (n div ne)] (aq_storage_dtype c)),
       (''qzeros'', Parameter [DInt (nl_in src div g), DInt (n div ne)] (aq_storage_dtype c)),
       (''scales'', Parameter [DInt (nl_in src div g), DInt n] (aq_model_dtype c))] @
      map (\<lambda>(a, p). (a, p\<lparr>pm_shard := None\<rparr>)) (bias_param (aq_model_dtype c) src))"

section \<open>Per-tensor and block-scale quantization\<close>

record per_tensor_quantize =
  pt_name :: string
  pt_kind :: string
  pt_activation_dtype :: dtype
  pt_weight_dtype :: dtype
  pt_storage_dtype :: dtype
  pt_model_dtype :: dtype
  pt_quantize_embedding :: bool
  pt_quantize_final_fc :: bool
  pt_quantize_linear :: bool
  pt_num_elem_per_storage :: nat
  pt_max_int_value :: nat
  pt_use_scale :: bool
  pt_calibration_mode :: string
  pt_tensor_parallel_shards :: nat

text \<open>\<open>max_value\<close> is \<open>tir.max_value\<close>, the largest number of a data type.\<close>

definition per_tensor_post_init :: "(dtype \<Rightarrow> nat) \<Rightarrow> per_tensor_quantize \<Rightarrow> per_tensor_quantize res" where
  "per_tensor_post_init max_value c =
     (if pt_kind c \<noteq> ''per-tensor-quant'' then Inl AssertionError
      else Inr (c\<lparr>pt_num_elem_per_storage := dt_bits (pt_storage_dtype c) div dt_bits (pt_weight_dtype c),
                  pt_max_int_value := max_value (pt_weight_dtype c)\<rparr>))"

text \<open>The scale parameters of a per-tensor quantized layer.\<close>

definition per_tensor_scales :: "bool \<Rightarrow> per_tensor_quantize \<Rightarrow> layer_params" where
  "per_tensor_scales calibrated c =
     (if pt_use_scale c then
        (''q_scale'', Parameter [DInt 1] float32) #
        (if calibrated \<and> pt_calibration_mode c = ''inference''
         then [(''q_calibration_scale'', Parameter [DInt 1] float32)] else [])
      else [])"

definition per_tensor_linear :: "nn_linear \<Rightarrow> per_tensor_quantize \<Rightarrow> layer_params" where
  "per_tensor_linear src c =
     (''q_weight'', shard_param (nl_shard src) ''_q_weight''
        (Parameter [nl_out src, DInt (ceildiv (nl_in src) (pt_num_elem_per_storage c))] (pt_storage_dtype c))) #
     per_tensor_scales True c @ bias_param (pt_model_dtype c) src"

definition per_tensor_embedding :: "extent \<Rightarrow> nat \<Rightarrow> per_tensor_quantize \<Rightarrow> layer_params" where
  "per_tensor_embedding num d c =
     (''q_weight'', Parameter [num, DInt (ceildiv d (pt_num_elem_per_storage c))] (pt_storage_dtype c)) #
     per_tensor_scales False c"

definition per_tensor_experts :: "mixtral_experts \<Rightarrow> per_tensor_quantize \<Rightarrow> layer_params res" where
  "per_tensor_experts src c =
     (if dt_code (pt_weight_dtype c) \<in> {DT_Float8E4M3FN, DT_Float8E5M2} then
        Inr ((''q_weight'', shard_param (mx_shard src) ''_q_weight''
          (Parameter [DInt (mx_num src), DInt (mx_out src), DInt (ceildiv (mx_in src) (pt_num_elem_per_storage c))]
             (pt_storage_dtype c))) # per_tensor_scales True c)
      else Inl NotImplementedError)"

record block_scale_quantize =
  bs_name :: string
  bs_kind :: string
  bs_weight_dtype :: dtype
  bs_model_dtype :: dtype
  bs_quantize_linear :: bool
  bs_weight_block_size :: "(nat \<times> nat) option"

definition block_scale_post_init :: "block_scale_quantize \<Rightarrow> block_scale_quantize res" where
  "block_scale_post_init c =
     (if bs_kind c \<noteq> ''block-scale-quant'' then Inl AssertionError
      else if dt_code (bs_weight_dtype c) \<notin> {DT_Float8E4M3FN, DT_Float8E5M2} then Inl AssertionError
      else if dt_code (bs_model_dtype c) \<notin> {DT_FLOAT, DT_BFLOAT} then Inl AssertionError
      else Inr c)"

text \<open>The constructor's defaults for everything but the name.\<close>

definition block_scale_default :: "string \<Rightarrow> block_scale_quantize" where
  "block_scale_default name =
     \<lparr>bs_name = name, bs_kind = ''block-scale'', bs_weight_dtype = DataType DT_Float8E4M3FN 8,
      bs_model_dtype = bfloat16, bs_quantize_linear = True, bs_weight_block_size = None\<rparr>"

record no_quantize =
  nq_name :: string
  nq_kind :: string
  nq_model_dtype :: dtype

definition no_post_init :: "no_quantize \<Rightarrow> no_quantize res" where
  "no_post_init c = (if nq_kind c \<noteq> ''no-quant'' then Inl AssertionError else Inr c)"

end
