(* ===== verification/Quantize_Model.thy ===== *)
theory Quantize_Model
  imports Quantization
begin

text \<open>
  The quantization of a model: the visitors of \<open>quantize_model\<close> of every algorithm, the
  \<open>QuantizeMapping\<close> they fill (\<open>loader/mapping.py\<close>), the functions it holds, and the registry of
  \<open>quantization/quantization.py\<close>. \<open>nn.Mutator\<close> decides which layers are visited; a run of the visitor
  is over the list of visited layers with their names.
\<close>

section \<open>QuantizeMapping\<close>

text \<open>
  The functions of a mapping: \<open>quantize_weight\<close> of a config (for group quantization with
  \<open>output_transpose\<close> bound), or such a function with a calibration scale appended to its results.
\<close>

datatype quant_func =
    GroupFunc group_quantize bool
  | FTFunc ft_quantize
  | PerTensorFunc per_tensor_quantize
  | CalibrationFunc quant_func

record quantize_mapping =
  qm_param_map :: "string list dict"
  qm_map_func :: "quant_func dict"

definition empty_mapping :: quantize_mapping where
  "empty_mapping = \<lparr>qm_param_map = [], qm_map_func = []\<rparr>"

definition set_params :: "string \<Rightarrow> string list \<Rightarrow> quantize_mapping \<Rightarrow> quantize_mapping" where
  "set_params w names qm = qm\<lparr>qm_param_map := dict_set (qm_param_map qm) w names\<rparr>"

definition set_func :: "string \<Rightarrow> quant_func \<Rightarrow> quantize_mapping \<Rightarrow> quantize_mapping" where
  "set_func w f qm = qm\<lparr>qm_map_func := dict_set (qm_map_func qm) w f\<rparr>"

text \<open>What the visitor returns: the node itself, a new layer, or \<open>self.visit\<close> of the node.\<close>

datatype visited = Unchanged | Replaced layer_params | Descend

type_synonym visit = "quantize_mapping \<times> visited"

definition weight_of :: "string \<Rightarrow> string" where
  "weight_of name = name @ ''.weight''"

definition q_names :: "string \<Rightarrow> string list" where
  "q_names name = [name @ ''.q_weight'', name @ ''.q_scale'']"

section \<open>The visitors\<close>

definition group_visit_module ::
    "group_quantize \<Rightarrow> string \<Rightarrow> nn_node \<Rightarrow> quantize_mapping \<Rightarrow> visit res" where
  "group_visit_module c name node qm =
     (let w = weight_of name;
          entry = (\<lambda>tr. set_func w (GroupFunc c tr) (set_params w (q_names name) qm)) in
      if nn_no_quantization node then Inr (qm, Unchanged)
      else case nn_layer node of
        Linear l \<Rightarrow>
          if (\<not> is_final_fc name \<or> gq_quantize_final_fc c) \<and> \<not> is_moe_gate name l
          then bindR (group_linear l c) (\<lambda>ps. Inr (entry (gq_linear_weight_layout c = ''KN''), Replaced ps))
          else Inr (qm, Descend)
      | Embedding num d \<Rightarrow>
          if gq_quantize_embedding c then Inr (entry False, Replaced (group_embedding num d c))
          else Inr (qm, Descend)
      | Experts e \<Rightarrow> bindR (group_experts e c) (\<lambda>ps. Inr (entry False, Replaced ps))
      | OtherLayer \<Rightarrow> Inr (qm, Descend))"

text \<open>
  \<open>node.out_features % m != 0\<close>; a dynamic \<open>out_features\<close> is a string, and \<open>%\<close> on it formats the
  string, which raises \<open>TypeError\<close>.
\<close>

definition not_multiple :: "extent \<Rightarrow> nat \<Rightarrow> bool res" where
  "not_multiple out m = (case out of DInt n \<Rightarrow> Inr (n mod m \<noteq> 0) | DVar _ \<Rightarrow> Inl TypeError)"

definition ft_falls_back :: "ft_quantize \<Rightarrow> string \<Rightarrow> nn_linear \<Rightarrow> bool res" where
  "ft_falls_back c name l =
     (if is_final_fc name \<or> nl_out_dtype l = Some float32 then Inr True
      else if ft_quantize_dtype c = DataType DT_INT 4 then not_multiple (nl_out l) 8
      else if ft_quantize_dtype c = DataType DT_INT 8 then not_multiple (nl_out l) 4
      else Inr False)"

definition ft_visit_module ::
    "ft_quantize \<Rightarrow> string \<Rightarrow> nn_node \<Rightarrow> quantize_mapping \<Rightarrow> visit res" where
  "ft_visit_module c name node qm =
     (let w = weight_of name; qm1 = set_params w (q_names name) qm in
      case nn_layer node of
        Linear l \<Rightarrow>
          bindR (ft_falls_back c name l) (\<lambda>fb.
            if fb then
              bindR (fallback_group_quantize c) (\<lambda>g.
              bindR (group_linear l g) (\<lambda>ps. Inr (set_func w (GroupFunc g False) qm1, Replaced ps)))
            else if \<not> is_moe_gate name l then
              (case nl_out l of
                 DInt n \<Rightarrow> Inr (set_func w (FTFunc c) qm1, Replaced (ft_linear l n c))
               | DVar _ \<Rightarrow> Inl TypeError)
            else Inr (qm1, Descend))
      | Embedding num d \<Rightarrow>
          bindR (fallback_group_quantize c) (\<lambda>g.
            Inr (set_func w (GroupFunc g False) qm1, Replaced (group_embedding num d g)))
      | _ \<Rightarrow> Inr (qm, Descend))"

definition awq_visit_module ::
    "awq_quantize \<Rightarrow> string \<Rightarrow> nn_node \<Rightarrow> quantize_mapping \<Rightarrow> visit res" where
  "awq_visit_module c name node qm =
     (case nn_layer node of
        Linear l \<Rightarrow>
          if \<not> is_final_fc name \<and> \<not> is_moe_gate name l
          then (case nl_out l of DInt n \<Rightarrow> Inr (qm, Replaced (awq_linear l n c)) | DVar _ \<Rightarrow> Inl TypeError)
          else Inr (qm, Descend)
      | _ \<Rightarrow> Inr (qm, Descend))"

text \<open>
  A layer with a calibration scale gets its name and function extended; embeddings have none.
\<close>

definition add_calibration :: "string \<Rightarrow> layer_params \<Rightarrow> quantize_mapping \<Rightarrow> quantize_mapping" where
  "add_calibration name ps qm =
     (let w = weight_of name in
      if dict_get ps ''q_calibration_scale'' = None then qm
      else case (dict_get (qm_param_map qm) w, dict_get (qm_map_func qm) w) of
        (Some names, Some f) \<Rightarrow>
          set_func w (CalibrationFunc f) (set_params w (names @ [name @ ''.q_calibration_scale'']) qm)
      | _ \<Rightarrow> qm)"

definition per_tensor_visit_module ::
    "per_tensor_quantize \<Rightarrow> string \<Rightarrow> nn_node \<Rightarrow> quantize_mapping \<Rightarrow> visit res" where
  "per_tensor_visit_module c name node qm =
     (let w = weight_of name;
          names = (if pt_use_scale c then q_names name else [name @ ''.q_weight'']);
          qm1 = set_func w (PerTensorFunc c) (set_params w names qm);
          replace = (\<lambda>ps. Inr (add_calibration name ps qm1, Replaced ps)) in
      case nn_layer node of
        Linear l \<Rightarrow>
          if pt_quantize_linear c \<and> (\<not> is_final_fc name \<or> pt_quantize_final_fc c) \<and> \<not> is_moe_gate name l
          then replace (per_tensor_linear l c) else Inr (qm, Descend)
      | Embedding num d \<Rightarrow>
          if pt_quantize_embedding c then replace (per_tensor_embedding num d c) else Inr (qm, Descend)
      | Experts e \<Rightarrow> bindR (per_tensor_experts e c) replace
      | OtherLayer \<Rightarrow> Inr (qm, Descend))"

text \<open>\<open>quantize_model\<close>: the mapping, and the parameters of every layer that was replaced.\<close>

fun visit_all ::
    "(string \<Rightarrow> nn_node \<Rightarrow> quantize_mapping \<Rightarrow> visit res) \<Rightarrow> (string \<times> nn_node) list \<Rightarrow> quantize_mapping \<Rightarrow>
     (quantize_mapping \<times> (string \<times> visited) list) res" where
  "visit_all visit [] qm = Inr (qm, [])"
| "visit_all visit ((name, node) # nodes) qm =
     bindR (visit name node qm) (\<lambda>(qm1, v).
     bindR (visit_all visit nodes qm1) (\<lambda>(qm2, vs). Inr (qm2, (name, v) # vs)))"

section \<open>The functions of a mapping\<close>

text \<open>
  An array of the loader: shape, data type and values (an integer as the number it is). The
  environment holds the float model, the device, whether cutlass is there, its preprocessing of
  a weight, the cast to an 8-bit float (its bits) with and without a division, the
  least scale, and the contents of an uninitialized array.
\<close>

record ndarray =
  nd_shape :: "nat list"
  nd_dtype :: dtype
  nd_value :: "nat list \<Rightarrow> rat"

record quant_env =
  qe_fm :: float_model
  qe_device_type :: string
  qe_cutlass :: bool
  qe_preprocess :: "8 word tensor \<Rightarrow> nat list \<Rightarrow> 8 word"
  qe_fp8 :: "rat \<Rightarrow> nat"
  qe_fp8_div :: "rat \<Rightarrow> rat \<Rightarrow> nat"
  qe_empty :: "nat list \<Rightarrow> rat"

definition nd_words :: "dtype \<Rightarrow> 'w::len word tensor \<Rightarrow> ndarray" where
  "nd_words dt t = \<lparr>nd_shape = tn_shape t, nd_dtype = dt, nd_value = (\<lambda>idx. of_nat (unat (tn_at t idx)))\<rparr>"

definition nd_floats :: "dtype \<Rightarrow> rat tensor \<Rightarrow> ndarray" where
  "nd_floats dt t = \<lparr>nd_shape = tn_shape t, nd_dtype = dt, nd_value = tn_at t\<rparr>"

definition tensor_of :: "ndarray \<Rightarrow> rat tensor" where
  "tensor_of a = te_compute (nd_shape a) (nd_value a)"

definition group_func :: "quant_env \<Rightarrow> group_quantize \<Rightarrow> bool \<Rightarrow> ndarray \<Rightarrow> ndarray list res" where
  "group_func env c output_transpose weight =
     bindR (snd (quantize_weight_cached (qe_fm env) c (qe_device_type env) (nd_dtype weight)
       (tensor_of weight) (-1) output_transpose [])) (\<lambda>(q, s).
     Inr [nd_words (gq_storage_dtype c) q, nd_floats (gq_model_dtype c) s])"

definition ft_func :: "quant_env \<Rightarrow> ft_quantize \<Rightarrow> ndarray \<Rightarrow> ndarray list res" where
  "ft_func env c weight =
     (if \<not> qe_cutlass env then Inl AssertionError
      else if length (nd_shape weight) \<noteq> 2 then Inl AssertionError
      else if qe_device_type env \<noteq> ''cuda'' then Inl NotImplementedError
      else bindR (ft_quantize_program (qe_fm env) c (tensor_of weight)) (\<lambda>(q, s).
        Inr [nd_words (ft_storage_dtype c) (te_compute (tn_shape q) (qe_preprocess env q)),
             nd_floats (ft_model_dtype c) s]))"

text \<open>All indices of a shape.\<close>

definition all_indices :: "nat list \<Rightarrow> nat list list" where
  "all_indices shape = product_lists (map (\<lambda>d. [0..<d]) shape)"

definition per_tensor_scale :: "float_model \<Rightarrow> per_tensor_quantize \<Rightarrow> rat tensor \<Rightarrow> rat" where
  "per_tensor_scale fm c x =
     max (fm_rnd fm (fold max (map (\<lambda>idx. \<bar>tn_at x idx\<bar>) (all_indices (tn_shape x))) (fm_min_value fm) /
            of_nat (pt_max_int_value c)))
         (fm_rnd fm (1 / (of_nat (pt_max_int_value c) * 512)))"

definition compute_quantized_tensor :: "quant_env \<Rightarrow> per_tensor_quantize \<Rightarrow> rat tensor \<Rightarrow> rat \<Rightarrow> 32 word tensor" where
  "compute_quantized_tensor env c x scale =
     (let bits = (\<lambda>idx. if pt_use_scale c then qe_fp8_div env (tn_at x idx) scale else qe_fp8 env (tn_at x idx));
          scaled = te_compute (tn_shape x) (\<lambda>idx. word_of_nat (bits idx)) in
      if pt_weight_dtype c = pt_storage_dtype c then scaled
      else pack_weight scaled (-1) (pt_num_elem_per_storage c) (dt_bits (pt_weight_dtype c)) None)"

definition quantize_float8 :: "quant_env \<Rightarrow> per_tensor_quantize \<Rightarrow> rat tensor \<Rightarrow> ndarray list" where
  "quantize_float8 env c x =
     (let s = per_tensor_scale (qe_fm env) c x in
      nd_words (pt_storage_dtype c) (compute_quantized_tensor env c x s) #
      (if pt_use_scale c then [nd_floats float32 (te_compute [1] (\<lambda>_. s))] else []))"

definition per_tensor_func :: "quant_env \<Rightarrow> per_tensor_quantize \<Rightarrow> ndarray \<Rightarrow> ndarray list res" where
  "per_tensor_func env c weight =
     bindR (compile_quantize_func (qe_device_type env)) (\<lambda>_. Inr (quantize_float8 env c (tensor_of weight)))"

fun run_quant_func :: "quant_env \<Rightarrow> quant_func \<Rightarrow> ndarray \<Rightarrow> ndarray list res" where
  "run_quant_func env (GroupFunc c tr) weight = group_func env c tr weight"
| "run_quant_func env (FTFunc c) weight = ft_func env c weight"
| "run_quant_func env (PerTensorFunc c) weight = per_tensor_func env c weight"
| "run_quant_func env (CalibrationFunc f) weight =
     bindR (run_quant_func env f weight) (\<lambda>rs. Inr (rs @ [\<lparr>nd_shape = [1], nd_dtype = float32, nd_value = qe_empty env\<rparr>]))"

section \<open>The registry\<close>

datatype quantization =
    NoQ no_quantize
  | GroupQ group_quantize
  | AwqQ awq_quantize
  | FtQ ft_quantize
  | PerTensorQ per_tensor_quantize
  | BlockScaleQ block_scale_quantize

definition mapRes :: "('a \<Rightarrow> 'b) \<Rightarrow> 'a res \<Rightarrow> 'b res" where
  "mapRes f r = bindR r (\<lambda>x. Inr (f x))"

definition reg_no :: "string \<Rightarrow> dtype \<Rightarrow> string \<times> quantization res" where
  "reg_no name md = (name, mapRes NoQ (no_post_init \<lparr>nq_name = name, nq_kind = ''no-quant'', nq_model_dtype = md\<rparr>))"

definition reg_group ::
    "string \<Rightarrow> nat \<Rightarrow> nat \<Rightarrow> dtype \<Rightarrow> string \<Rightarrow> bool \<Rightarrow> bool \<Rightarrow> string \<times> quantization res" where
  "reg_group name group_size b md layout qe qf =
     (name, mapRes GroupQ (GroupQuantize name ''group-quant'' group_size (DataType DT_INT b) uint32 md layout qe qf))"

definition reg_per_tensor ::
    "(dtype \<Rightarrow> nat) \<Rightarrow> string \<Rightarrow> dtype \<Rightarrow> bool \<Rightarrow> string \<Rightarrow> string \<times> quantization res" where
  "reg_per_tensor max_value name fp8 use_scale mode =
     (name, mapRes PerTensorQ (per_tensor_post_init max_value
       \<lparr>pt_name = name, pt_kind = ''per-tensor-quant'', pt_activation_dtype = fp8, pt_weight_dtype = fp8,
        pt_storage_dtype = fp8, pt_model_dtype = float16, pt_quantize_embedding = False,
        pt_quantize_final_fc = False, pt_quantize_linear = True, pt_num_elem_per_storage = 0,
        pt_max_int_value = 0, pt_use_scale = use_scale, pt_calibration_mode = mode,
        pt_tensor_parallel_shards = 1\<rparr>))"

definition QUANTIZATION :: "(dtype \<Rightarrow> nat) \<Rightarrow> (string \<times> quantization res) list" where
  "QUANTIZATION max_value =
     [reg_no ''q0f16'' float16,
      reg_no ''q0bf16'' bfloat16,
      reg_no ''q0f32'' float32,
      reg_group ''q3f16_0'' 40 3 float16 ''KN'' True True,
      reg_group ''q3f16_1'' 40 3 float16 ''NK'' True True,
      reg_group ''q4f16_0'' 32 4 float16 ''KN'' True True,
      reg_group ''q4f16_1'' 32 4 float16 ''NK'' True True,
      reg_group ''q4bf16_0'' 32 4 bfloat16 ''KN'' True True,
      reg_group ''q4bf16_1'' 32 4 bfloat16 ''NK'' True True,
      reg_group ''q4f32_1'' 32 4 float32 ''NK'' True True,
      reg_group ''q4f16_2'' 32 4 float16 ''NK'' False False,
      (''q4f16_autoawq'', mapRes AwqQ (awq_post_init
        \<lparr>aq_name = ''q4f16_autoawq'', aq_kind = ''awq'', aq_group_size = 128, aq_quantize_dtype = DataType DT_INT 4,
         aq_storage_dtype = uint32, aq_model_dtype = float16, aq_num_elem_per_storage = 0,
         aq_num_storage_per_group = 0, aq_max_int_value = 0\<rparr>)),
      (''q4f16_ft'', mapRes FtQ (ft_post_init
        \<lparr>ft_name = ''q4f16_ft'', ft_kind = ''ft-quant'', ft_quantize_dtype = DataType DT_INT 4,
         ft_storage_dtype = DataType DT_INT 8, ft_model_dtype = float16, ft_group_size = None,
         ft_num_elem_per_storage = 0, ft_max_int_value = 0\<rparr>)),
      reg_per_tensor max_value ''e5m2_e5m2_f16'' (DataType DT_Float8E5M2 8) False ''inference'',
      reg_per_tensor max_value ''e4m3_e4m3_f16'' (DataType DT_Float8E4M3FN 8) True ''inference'',
      reg_per_tensor max_value ''e4m3_e4m3_f16_max_calibrate'' (DataType DT_Float8E4M3FN 8) True ''max'',
      (''fp8_e4m3fn_bf16_block_scale'', mapRes BlockScaleQ (block_scale_post_init
        ((block_scale_default ''fp8_e4m3fn_bf16_block_scale'')\<lparr>bs_kind := ''block-scale-quant''\<rparr>)))]"

fun quantization_name :: "quantization \<Rightarrow> string" where
  "quantization_name (NoQ c) = nq_name c"
| "quantization_name (GroupQ c) = gq_name c"
| "quantization_name (AwqQ c) = aq_name c"
| "quantization_name (FtQ c) = ft_name c"
| "quantization_name (PerTensorQ c) = pt_name c"
| "quantization_name (BlockScaleQ c) = bs_name c"

end
