(* ===== verification/Loader.thy ===== *)
theory Loader
  imports Quantize_Model
begin

text \<open>
  Loading and converting weights: the mapping of the parameters of a model to those of a weight
  file (\<open>loader/mapping.py\<close>), the loader that reads the files with a cache of the files in memory,
  quantizes and shards the parameters (\<open>loader/huggingface_loader.py\<close>, \<open>loader/utils.py\<close>,
  \<open>loader/stats.py\<close>), the pre-sharding of the parameters of a model (\<open>support/preshard.py\<close>), and
  the conversion that checks every parameter against the model (\<open>interface/convert_weight.py\<close>).
  The files are an argument. Memory is counted in bytes: the code counts gigabytes, by an exact
  division by a power of two. The iteration order of a Python set of files is taken to be that of
  the list it is built from.
\<close>

section \<open>ExternMapping\<close>

record extern_mapping =
  em_param_map :: "string list dict"
  em_map_func :: "(ndarray list \<Rightarrow> ndarray res) dict"
  em_unused_params :: "string list"

definition empty_extern :: extern_mapping where
  "empty_extern = \<lparr>em_param_map = [], em_map_func = [], em_unused_params = []\<rparr>"

definition add_mapping ::
    "string \<Rightarrow> string list \<Rightarrow> (ndarray list \<Rightarrow> ndarray res) \<Rightarrow> extern_mapping \<Rightarrow> extern_mapping" where
  "add_mapping map_from map_to func em =
     em\<lparr>em_param_map := dict_set (em_param_map em) map_from map_to,
        em_map_func := dict_set (em_map_func em) map_from func\<rparr>"

definition add_unused :: "string \<Rightarrow> extern_mapping \<Rightarrow> extern_mapping" where
  "add_unused name em = em\<lparr>em_unused_params := List.insert name (em_unused_params em)\<rparr>"

text \<open>
  \<open>check_parameter_usage\<close>: parameters that no one uses are only logged; a parameter that is not
  in the files is an error.
\<close>

definition unused_extern_names :: "extern_mapping \<Rightarrow> string list \<Rightarrow> string list" where
  "unused_extern_names em extern_weights =
     filter (\<lambda>n. n \<notin> set (concat (map snd (em_param_map em))) \<and> n \<notin> set (em_unused_params em)) extern_weights"

definition check_parameter_usage :: "extern_mapping \<Rightarrow> string list \<Rightarrow> unit res" where
  "check_parameter_usage em extern_weights =
     (if filter (\<lambda>n. n \<notin> set extern_weights) (concat (map snd (em_param_map em))) \<noteq> []
      then Inl (ValueError ''The following extern parameters do not exist in the weight files'')
      else Inr ())"

section \<open>Statistics\<close>

record stats =
  st_current :: int
  st_total :: int
  st_max :: int
  st_total_param_num :: nat

definition mem_add :: "nat \<Rightarrow> stats \<Rightarrow> stats" where
  "mem_add n s =
     (let cur = st_current s + int n in
      s\<lparr>st_current := cur, st_total := st_total s + int n, st_max := max (st_max s) cur\<rparr>)"

definition mem_rm :: "nat \<Rightarrow> stats \<Rightarrow> stats" where
  "mem_rm n s = s\<lparr>st_current := st_current s - int n\<rparr>"

section \<open>The loader\<close>

definition nd_size :: "ndarray \<Rightarrow> nat" where
  "nd_size a = prod_list (nd_shape a)"

definition nd_nbytes :: "ndarray \<Rightarrow> nat" where
  "nd_nbytes a = nd_size a * ((dt_bits (nd_dtype a) + 7) div 8)"

text \<open>
  The files: whether a path is one, its suffix, the arrays \<open>load_safetensor_shard\<close> or
  \<open>load_torch_shard\<close> yield for it, the \<open>weight_map\<close> of an index file and the path next to a path.
\<close>

record weight_files =
  wf_is_file :: "string \<Rightarrow> bool"
  wf_suffix :: "string \<Rightarrow> string"
  wf_arrays :: "string \<Rightarrow> (string \<times> ndarray) list res"
  wf_index :: "string \<Rightarrow> string dict res"
  wf_sibling :: "string \<Rightarrow> string \<Rightarrow> string"

record hf_loader =
  hl_stats :: stats
  hl_cached_files :: "(ndarray dict) dict"
  hl_torch_to_path :: "string dict"
  hl_extern :: extern_mapping
  hl_quantize :: "quantize_mapping option"

definition load_array :: "extern_mapping \<Rightarrow> ndarray dict \<times> stats \<Rightarrow> string \<times> ndarray \<Rightarrow> ndarray dict \<times> stats" where
  "load_array em acc x =
     (case (acc, x) of ((result, s), (name, p)) \<Rightarrow>
        let s1 = mem_add (nd_nbytes p) s in
        (dict_set result name p,
         if name \<in> set (em_unused_params em) then s1
         else s1\<lparr>st_total_param_num := st_total_param_num s1 + nd_size p\<rparr>))"

definition load_file :: "weight_files \<Rightarrow> string \<Rightarrow> hf_loader \<Rightarrow> hf_loader res" where
  "load_file files path ld =
     bindR (wf_arrays files path) (\<lambda>arrays.
       let (result, s) = foldl (load_array (hl_extern ld)) ([], hl_stats ld) arrays in
       Inr (ld\<lparr>hl_stats := s, hl_cached_files := dict_set (hl_cached_files ld) path result\<rparr>))"

definition unload_file :: "string \<Rightarrow> hf_loader \<Rightarrow> hf_loader res" where
  "unload_file path ld =
     bindR (dict_item (hl_cached_files ld) path) (\<lambda>arrays.
       Inr (ld\<lparr>hl_stats := foldl (\<lambda>s (_, p). mem_rm (nd_nbytes p) s) (hl_stats ld) arrays,
               hl_cached_files := dict_pop (hl_cached_files ld) path\<rparr>))"

definition hf_init ::
    "weight_files \<Rightarrow> string \<Rightarrow> extern_mapping \<Rightarrow> quantize_mapping option \<Rightarrow> hf_loader res" where
  "hf_init files path em qm =
     (let ld = \<lparr>hl_stats = \<lparr>st_current = 0, st_total = 0, st_max = 0, st_total_param_num = 0\<rparr>,
                hl_cached_files = [], hl_torch_to_path = [], hl_extern = em, hl_quantize = qm\<rparr>;
          check = (\<lambda>ld. bindR (check_parameter_usage em (map fst (hl_torch_to_path ld))) (\<lambda>_. Inr ld)) in
      if \<not> wf_is_file files path then Inl AssertionError
      else if wf_suffix files path \<in> set [''.bin'', ''.safetensors'', ''.pt''] then
        bindR (load_file files path ld) (\<lambda>ld.
        bindR (dict_item (hl_cached_files ld) path) (\<lambda>arrays.
          check (ld\<lparr>hl_torch_to_path := foldl (\<lambda>d (n, _). dict_set d n path) [] arrays\<rparr>)))
      else if wf_suffix files path = ''.json'' then
        bindR (wf_index files path) (\<lambda>weight_map.
          check (ld\<lparr>hl_torch_to_path := foldl (\<lambda>d (n, p). dict_set d n (wf_sibling files path p)) [] weight_map\<rparr>))
      else Inl (FileNotFoundError path))"

text \<open>\<open>defaultdict(list)\<close>: \<open>d[k].append(v)\<close>\<close>

definition dict_append :: "'v list dict \<Rightarrow> string \<Rightarrow> 'v \<Rightarrow> 'v list dict" where
  "dict_append d k v = dict_set d k ((case dict_get d k of None \<Rightarrow> [] | Some vs \<Rightarrow> vs) @ [v])"

definition default_get :: "'v list dict \<Rightarrow> string \<Rightarrow> 'v list" where
  "default_get d k = (case dict_get d k of None \<Rightarrow> [] | Some vs \<Rightarrow> vs)"

text \<open>The parameters in the order of their first torch parameter, file by file.\<close>

definition loading_order :: "extern_mapping \<Rightarrow> string dict \<Rightarrow> string list" where
  "loading_order em torch_to_path =
     (let path_to_torch = foldl (\<lambda>d (torch_name, path). dict_append d path torch_name) [] torch_to_path;
          torch_to_mlc = foldl (\<lambda>d (mlc_name, torch_names).
            foldl (\<lambda>d torch_name. dict_append d torch_name mlc_name) d torch_names) [] (em_param_map em) in
      foldl (\<lambda>order (_, torch_names).
        foldl (\<lambda>order torch_name.
          foldl (\<lambda>order mlc_name. if mlc_name \<in> set order then order else order @ [mlc_name])
            order (default_get torch_to_mlc torch_name)) order torch_names) [] path_to_torch)"

definition load_mlc_param :: "weight_files \<Rightarrow> string \<Rightarrow> hf_loader \<Rightarrow> (ndarray \<times> hf_loader) res" where
  "load_mlc_param files mlc_name ld =
     bindR (dict_item (em_param_map (hl_extern ld)) mlc_name) (\<lambda>torch_names.
     bindR (mapR (dict_item (hl_torch_to_path ld)) torch_names) (\<lambda>paths.
     let files_required = remdups paths;
         files_existing = map fst (hl_cached_files ld);
         files_to_load = filter (\<lambda>p. p \<notin> set files_existing) files_required;
         files_to_unload = filter (\<lambda>p. p \<notin> set files_required) files_existing in
     bindR (if files_to_load \<noteq> [] then foldR (\<lambda>ld p. unload_file p ld) ld files_to_unload else Inr ld) (\<lambda>ld.
     bindR (foldR (\<lambda>ld p. load_file files p ld) ld files_to_load) (\<lambda>ld.
     bindR (mapR (\<lambda>(i, path). bindR (dict_item (hl_cached_files ld) path) (\<lambda>arrays. dict_item arrays i))
       (zip torch_names paths)) (\<lambda>torch_params.
     bindR (dict_item (em_map_func (hl_extern ld)) mlc_name) (\<lambda>func.
     bindR (func torch_params) (\<lambda>param. Inr (param, ld))))))))"

definition load_or_quantize ::
    "quant_env \<Rightarrow> quantize_mapping option \<Rightarrow> string \<Rightarrow> ndarray \<Rightarrow> (string \<times> ndarray) list res" where
  "load_or_quantize env qm mlc_name param =
     (case qm of
        None \<Rightarrow> Inr [(mlc_name, param)]
      | Some m \<Rightarrow>
          (case dict_get (qm_param_map m) mlc_name of
             None \<Rightarrow> Inr [(mlc_name, param)]
           | Some names \<Rightarrow>
               bindR (dict_item (qm_map_func m) mlc_name) (\<lambda>f.
               bindR (run_quant_func env f param) (\<lambda>ps. Inr (zip names ps)))))"

section \<open>Pre-sharding\<close>

definition sharded_param_name :: "string \<Rightarrow> nat \<Rightarrow> string" where
  "sharded_param_name param_name worker_id = param_name @ ''_shard-'' @ nat_digits worker_id"

fun ints_of :: "extent list \<Rightarrow> nat list res" where
  "ints_of [] = Inr []"
| "ints_of (DInt n # es) = bindR (ints_of es) (\<lambda>ns. Inr (n # ns))"
| "ints_of (DVar v # es) = Inl TypeError"

text \<open>
  A compiled shard function: the strategy, the number of shards and the shape of a shard it was
  generated for. The virtual machine checks the shape of its argument.
\<close>

type_synonym shard_fn = "shard_single_dim \<times> nat \<times> nat list"

definition run_shard_fn :: "shard_fn \<Rightarrow> ndarray \<Rightarrow> ndarray list res" where
  "run_shard_fn f a =
     (case f of (s, shards, shape) \<Rightarrow>
        if nd_shape a \<noteq> compute_in_shape s shards shape then Inl (ForeignError ''shape mismatch'')
        else bindR (shard_func s shards shape (tensor_of a)) (\<lambda>ts. Inr (map (nd_floats (nd_dtype a)) ts)))"

definition create_shard_func :: "nat \<Rightarrow> shard_single_dim \<Rightarrow> param \<Rightarrow> shard_fn res" where
  "create_shard_func shards s p =
     bindR (ints_of (pm_shape p)) (\<lambda>shape.
       if sum_list (segments s shape) \<noteq> shape ! sd_dim s then Inl AssertionError
       else Inr (s, shards, shape))"

record preshard =
  pr_named :: "param dict"
  pr_names :: "string dict"
  pr_funcs :: "shard_fn dict"

definition preshard_param :: "nat \<Rightarrow> preshard \<Rightarrow> string \<times> param \<Rightarrow> preshard res" where
  "preshard_param shards st x =
     (case x of (name, p) \<Rightarrow>
        (case pm_shard p of
           None \<Rightarrow> Inr (st\<lparr>pr_named := dict_set (pr_named st) name p\<rparr>)
         | Some s \<Rightarrow>
             let st = st\<lparr>pr_named := foldl (\<lambda>d i. dict_set d (sharded_param_name name i) p) (pr_named st) [0..<shards],
                         pr_names := dict_set (pr_names st) name (sd_name s)\<rparr> in
             if dict_get (pr_funcs st) (sd_name s) \<noteq> None then Inr st
             else bindR (create_shard_func shards s p) (\<lambda>f.
               Inr (st\<lparr>pr_funcs := dict_set (pr_funcs st) (sd_name s) f\<rparr>))))"

text \<open>The new parameters, and the shard function of every sharded parameter by its name.\<close>

definition apply_preshard :: "param dict \<Rightarrow> nat \<Rightarrow> (param dict \<times> shard_fn dict) res" where
  "apply_preshard named_params shards =
     bindR (foldR (preshard_param shards) \<lparr>pr_named = [], pr_names = [], pr_funcs = []\<rparr> named_params) (\<lambda>st.
     bindR (mapR (\<lambda>(name, fn). bindR (dict_item (pr_funcs st) fn) (\<lambda>f. Inr (name, f))) (pr_names st)) (\<lambda>funcs.
     Inr (pr_named st, funcs)))"

section \<open>The generator of parameters\<close>

definition shard_outputs :: "shard_fn dict option \<Rightarrow> string \<times> ndarray \<Rightarrow> (string \<times> ndarray) list res" where
  "shard_outputs preshard_funcs x =
     (case x of (name, p) \<Rightarrow>
        (case preshard_funcs of
           None \<Rightarrow> Inr [(name, p)]
         | Some fs \<Rightarrow>
             (case dict_get fs name of
                None \<Rightarrow> Inr [(name, p)]
              | Some f \<Rightarrow>
                  bindR (run_shard_fn f p) (\<lambda>ps.
                    Inr (map (\<lambda>(i, q). (sharded_param_name name i, q)) (enumerate 0 ps))))))"

fun yield_all :: "('a \<Rightarrow> 'b list res) \<Rightarrow> 'a list \<Rightarrow> 'b gen" where
  "yield_all f [] = ([], Returned)"
| "yield_all f (x # xs) =
     (case f x of
        Inl e \<Rightarrow> ([], Raised e)
      | Inr ys \<Rightarrow> let (zs, e) = yield_all f xs in (ys @ zs, e))"

fun load_loop ::
    "weight_files \<Rightarrow> quant_env \<Rightarrow> shard_fn dict option \<Rightarrow> string list \<Rightarrow> hf_loader \<Rightarrow>
     (string \<times> ndarray) gen \<times> hf_loader" where
  "load_loop files env preshard_funcs [] ld = (([], Returned), ld)"
| "load_loop files env preshard_funcs (n # ns) ld =
     (case load_mlc_param files n ld of
        Inl e \<Rightarrow> (([], Raised e), ld)
      | Inr (param, ld) \<Rightarrow>
          (case load_or_quantize env (hl_quantize ld) n param of
             Inl e \<Rightarrow> (([], Raised e), ld)
           | Inr qs \<Rightarrow>
               (case yield_all (shard_outputs preshard_funcs) qs of
                  (ys, Returned) \<Rightarrow>
                    let ((zs, e), ld) = load_loop files env preshard_funcs ns ld in ((ys @ zs, e), ld)
                | (ys, e) \<Rightarrow> ((ys, e), ld))))"

definition hf_load ::
    "weight_files \<Rightarrow> quant_env \<Rightarrow> shard_fn dict option \<Rightarrow> hf_loader \<Rightarrow> (string \<times> ndarray) gen \<times> hf_loader" where
  "hf_load files env preshard_funcs ld =
     (case load_loop files env preshard_funcs (loading_order (hl_extern ld) (hl_torch_to_path ld)) ld of
        ((ys, Returned), ld) \<Rightarrow>
          (case foldR (\<lambda>ld p. unload_file p ld) ld (map fst (hl_cached_files ld)) of
             Inl e \<Rightarrow> ((ys, Raised e), ld)
           | Inr ld \<Rightarrow> ((ys, Returned), ld))
      | r \<Rightarrow> r)"

section \<open>Conversion\<close>

fun check_shape :: "nat list \<Rightarrow> extent list \<Rightarrow> bool" where
  "check_shape [] [] = True"
| "check_shape (a # as) (DInt e # es) = (a = e \<and> check_shape as es)"
| "check_shape (a # as) (DVar v # es) = check_shape as es"
| "check_shape as es = False"

record conversion =
  cv_named_params :: "param dict"
  cv_param_names :: "string list"
  cv_total_bytes :: nat
  cv_dumped :: "(string \<times> ndarray) list"
  cv_metadata :: "(nat \<times> nat \<times> rat) option"

text \<open>\<open>_check_param\<close> and the bookkeeping of \<open>_param_generator\<close> for one parameter.\<close>

definition check_param :: "conversion \<Rightarrow> string \<times> ndarray \<Rightarrow> conversion res" where
  "check_param cv x =
     (case x of (name, a) \<Rightarrow>
        (case dict_get (cv_named_params cv) name of
           None \<Rightarrow> Inl (ValueError (''Parameter not found in model: '' @ name))
         | Some p \<Rightarrow>
             if name \<in> set (cv_param_names cv)
             then Inl (ValueError (''Duplication: Parameter '' @ name @ '' already computed''))
             else if \<not> check_shape (nd_shape a) (pm_shape p)
             then Inl (ValueError (''Parameter '' @ name @ '' has a wrong shape''))
             else if nd_dtype a \<noteq> pm_dtype p
             then Inl (ValueError (''Parameter '' @ name @ '' has a wrong dtype''))
             else Inr (cv\<lparr>cv_named_params := dict_pop (cv_named_params cv) name,
                          cv_param_names := List.insert name (cv_param_names cv),
                          cv_total_bytes := cv_total_bytes cv + nd_nbytes a,
                          cv_dumped := cv_dumped cv @ [(name, a)]\<rparr>)))"

text \<open>
  \<open>_metadata_callback\<close>: \<open>ParamSize\<close>, \<open>ParamBytes\<close> and \<open>BitsPerParam\<close>. The writer of the weights calls it
  after the last parameter; \<open>total_params\<close> is the number of elements the loader has read.
\<close>

definition metadata_callback :: "nat \<Rightarrow> conversion \<Rightarrow> conversion res" where
  "metadata_callback total_params cv =
     (if total_params = 0 then Inl (ForeignError ''ZeroDivisionError'')
      else Inr (cv\<lparr>cv_metadata := Some (length (cv_param_names cv), cv_total_bytes cv,
        of_nat (cv_total_bytes cv) * 8 / of_nat total_params)\<rparr>))"

definition convert_params :: "param dict \<Rightarrow> nat \<Rightarrow> (string \<times> ndarray) gen \<Rightarrow> conversion res" where
  "convert_params named_params total_params g =
     bindR (foldR check_param \<lparr>cv_named_params = named_params, cv_param_names = [], cv_total_bytes = 0,
         cv_dumped = [], cv_metadata = None\<rparr> (fst g)) (\<lambda>cv.
     case snd g of
       Returned \<Rightarrow>
         bindR (metadata_callback total_params cv) (\<lambda>cv.
           if cv_named_params cv \<noteq> []
           then Inl (ValueError (''Parameter not found in source: '' @ str_join '', '' (map fst (cv_named_params cv))))
           else Inr cv)
     | Raised e \<Rightarrow> Inl e
     | Blocked \<Rightarrow> Inr cv)"

text \<open>
  \<open>_convert_args\<close>: \<open>shards\<close> is the \<open>tensor_parallel_shards\<close> of the model config, if it has that field;
  \<open>build\<close> makes the quantized model for a number of shards, \<open>extern_of\<close> its mapping to the weights.
\<close>

record convert_args =
  ca_kind :: string
  ca_shards :: "nat option"
  ca_preshard_num :: "nat option"
  ca_build :: "nat option \<Rightarrow> (param dict \<times> quantize_mapping) res"
  ca_extern :: "nat option \<Rightarrow> extern_mapping"
  ca_source :: string

definition convert_weights :: "weight_files \<Rightarrow> quant_env \<Rightarrow> convert_args \<Rightarrow> conversion res" where
  "convert_weights files env args =
     (if ca_kind args = ''ft-quant'' \<and> (case ca_shards args of Some n \<Rightarrow> 1 < n | None \<Rightarrow> False)
      then Inl NotImplementedError
      else
        let shards = (case ca_preshard_num args of Some n \<Rightarrow> Some n | None \<Rightarrow> ca_shards args) in
        bindR (ca_build args shards) (\<lambda>(named_params, qm).
        bindR (case ca_preshard_num args of
                 Some n \<Rightarrow> bindR (apply_preshard named_params n) (\<lambda>(np, fs). Inr (np, Some fs))
               | None \<Rightarrow> Inr (named_params, None)) (\<lambda>(named_params, preshard_funcs).
        bindR (hf_init files (ca_source args) (ca_extern args shards) (Some qm)) (\<lambda>ld.
        let (g, ld) = hf_load files env preshard_funcs ld in
        convert_params named_params (st_total_param_num (hl_stats ld)) g))))"

end
