(* ===== verification/Quantization_Correct.thy ===== *)
theory Quantization_Correct
  imports Quantize_Model
begin

text \<open>
  Properties of the quantization algorithms: the error of group quantization, also for groups
  whose scale is zero; the shapes and data types of what they produce; and which weights the
  mapping of a quantized model covers.
\<close>

section \<open>Rounding\<close>

text \<open>
  What the quantizer needs of the model dtype: rounding is off by at most a fraction \<open>u\<close> of the
  value plus \<open>e\<close> (half of the least positive number) below \<open>2 ^ 15\<close>, exact on small integers and
  keeps non-negative numbers so; \<open>tir.round\<close> is off by at most a half.
\<close>

definition rounding_ok :: "float_model \<Rightarrow> rat \<Rightarrow> rat \<Rightarrow> bool" where
  "rounding_ok fm u e \<longleftrightarrow>
     0 \<le> u \<and> u \<le> 1 / 3 \<and> 0 \<le> e \<and> e \<le> 1 \<and> fm_min_value fm \<le> 0 \<and>
     (\<forall>x. \<bar>x\<bar> \<le> 32768 \<longrightarrow> \<bar>fm_rnd fm x - x\<bar> \<le> u * \<bar>x\<bar> + e) \<and>
     (\<forall>i. \<bar>i\<bar> \<le> 256 \<longrightarrow> fm_rnd fm (of_int i) = of_int i) \<and>
     (\<forall>x. 0 \<le> x \<longrightarrow> fm_rnd fm x = 0 \<or> 2 * e \<le> fm_rnd fm x) \<and>
     (\<forall>x. 0 \<le> x \<longrightarrow> 0 \<le> fm_rnd fm x) \<and>
     (\<forall>x. \<bar>of_int (fm_round fm x) - x\<bar> \<le> 1 / 2)"

lemma rounding_okD:
  assumes "rounding_ok fm u e"
  shows "0 \<le> u" "u \<le> 1 / 3" "0 \<le> e" "e \<le> 1" "fm_min_value fm \<le> 0"
    and "\<bar>x\<bar> \<le> 32768 \<Longrightarrow> \<bar>fm_rnd fm x - x\<bar> \<le> u * \<bar>x\<bar> + e"
    and "\<bar>i\<bar> \<le> 256 \<Longrightarrow> fm_rnd fm (of_int i) = of_int i"
    and "0 \<le> x \<Longrightarrow> fm_rnd fm x = 0 \<or> 2 * e \<le> fm_rnd fm x"
    and "0 \<le> x \<Longrightarrow> 0 \<le> fm_rnd fm x"
    and "\<bar>of_int (fm_round fm x) - x\<bar> \<le> 1 / 2"
  using assms unfolding rounding_ok_def by blast+

lemma rnd_zero: "rounding_ok fm u e \<Longrightarrow> fm_rnd fm 0 = 0"
  using rounding_okD(7) [of fm u e 0] by simp

text \<open>The scale of a group with largest absolute value \<open>A\<close>.\<close>

lemma scale_bounds:
  assumes r: "rounding_ok fm u e" and A: "0 \<le> A" "A \<le> 16384" and m: "1 \<le> m" "m \<le> (127 :: rat)"
    and s: "s = fm_rnd fm (A / m)"
  shows "0 \<le> s" and "\<bar>s * m - A\<bar> \<le> u * A + e * m" and "s \<noteq> 0 \<Longrightarrow> A \<le> 9 / 4 * m * s"
proof -
  have q: "0 \<le> A / m" "A / m \<le> 16384"
    using A m by (auto simp: field_simps intro: order_trans)
  show s0: "0 \<le> s"
    using rounding_okD(9) [OF r q(1)] s by simp
  have "\<bar>s - A / m\<bar> \<le> u * (A / m) + e"
    using rounding_okD(6) [OF r, of "A / m"] q s A m by simp
  then have "\<bar>s - A / m\<bar> * m \<le> (u * (A / m) + e) * m"
    using m by (intro mult_right_mono) auto
  also have "\<bar>s - A / m\<bar> * m = \<bar>s * m - A\<bar>"
  proof -
    have "(s - A / m) * m = s * m - A"
      using m by (simp add: field_simps)
    then show ?thesis
      using m by (metis abs_mult abs_of_nonneg order_trans zero_le_one)
  qed
  also have "(u * (A / m) + e) * m = u * A + e * m"
    using m by (simp add: field_simps)
  finally show d: "\<bar>s * m - A\<bar> \<le> u * A + e * m" .
  assume "s \<noteq> 0"
  then have "e * m \<le> s / 2 * m"
    using rounding_okD(8) [OF r q(1)] s m by (intro mult_right_mono) auto
  moreover have "u * A \<le> 1 / 3 * A"
    using rounding_okD(2) [OF r] A by (intro mult_right_mono) auto
  ultimately show "A \<le> 9 / 4 * m * s"
    using d by (simp add: abs_le_iff field_simps)
qed

text \<open>The integer of one element, and its distance from the exact quotient.\<close>

definition code_of :: "float_model \<Rightarrow> rat \<Rightarrow> rat \<Rightarrow> rat \<Rightarrow> rat" where
  "code_of fm m w s = min (max (of_int (fm_round fm (fm_rnd fm (fm_rnd fm (w / s) + m)))) 0) (m * 2)"

lemma clamp_close:
  fixes a t :: rat
  assumes "\<bar>a - t\<bar> \<le> d" "0 \<le> m" "\<bar>t - m\<bar> - m \<le> v" "0 \<le> v"
  shows "\<bar>min (max a 0) (m * 2) - t\<bar> \<le> d + v"
  using assms by (auto simp: min_def max_def abs_le_iff abs_if split: if_splits)

lemma err_times:
  fixes d :: rat
  assumes "\<bar>d\<bar> \<le> u * z + e" "z * s \<le> Z" "0 \<le> u" "0 < s"
  shows "\<bar>d\<bar> * s \<le> u * Z + e * s"
proof -
  have "\<bar>d\<bar> * s \<le> (u * z + e) * s"
    using assms by (intro mult_right_mono) auto
  also have "\<dots> = u * (z * s) + e * s"
    by (simp add: algebra_simps)
  also have "\<dots> \<le> u * Z + e * s"
    using mult_left_mono [OF assms(2,3)] by simp
  finally show ?thesis .
qed

lemma code_of_close:
  assumes r: "rounding_ok fm u e" and m: "1 \<le> m" "m \<le> (127 :: rat)"
    and w: "\<bar>w\<bar> \<le> A" and s: "0 < s" and A: "A \<le> 9 / 4 * m * s" and v: "0 \<le> v" "A \<le> s * m + v"
  shows "\<bar>(code_of fm m w s - m) * s - w\<bar> \<le> s / 2 + (u * A + e * s) + (u * (A + u * A + e * s + m * s) + e * s) + v"
proof -
  define x where "x = w / s"
  have u: "0 \<le> u" "u \<le> 1 / 3" and e: "0 \<le> e" "e \<le> 1"
    using rounding_okD(1-4) [OF r] by auto
  have xs: "\<bar>x\<bar> * s \<le> A"
    using s w by (simp add: x_def abs_div field_simps)
  have x: "\<bar>x\<bar> \<le> 9 / 4 * m"
  proof -
    have "\<bar>x\<bar> * s \<le> 9 / 4 * m * s"
      using xs A by linarith
    then show ?thesis
      using s by (simp add: mult_le_cancel_right)
  qed
  define e1 where "e1 = fm_rnd fm x - x"
  define e2 where "e2 = fm_rnd fm (fm_rnd fm x + m) - (fm_rnd fm x + m)"
  have e1: "\<bar>e1\<bar> \<le> u * \<bar>x\<bar> + e"
    using rounding_okD(6) [OF r, of x] x m by (simp add: e1_def)
  moreover have "u * \<bar>x\<bar> \<le> 1 / 3 * \<bar>x\<bar>"
    using u by (intro mult_right_mono) auto
  ultimately have y: "\<bar>fm_rnd fm x + m\<bar> \<le> \<bar>x\<bar> + (u * \<bar>x\<bar> + e) + m" "\<bar>fm_rnd fm x + m\<bar> \<le> 32768"
    using x m e by (auto simp: e1_def)
  have e2: "\<bar>e2\<bar> \<le> u * (\<bar>x\<bar> + (u * \<bar>x\<bar> + e) + m) + e"
    using rounding_okD(6) [OF r y(2)] mult_left_mono [OF y(1) u(1)] unfolding e2_def by linarith
  let ?a = "of_int (fm_round fm (fm_rnd fm (fm_rnd fm x + m))) :: rat"
  have "\<bar>?a - (x + m)\<bar> \<le> 1 / 2 + \<bar>e1\<bar> + \<bar>e2\<bar>"
    using rounding_okD(10) [OF r, of "fm_rnd fm (fm_rnd fm x + m)"] unfolding e1_def e2_def by linarith
  moreover have "\<bar>x\<bar> - m \<le> v / s"
    using xs v s by (simp add: field_simps)
  ultimately have "\<bar>code_of fm m w s - (x + m)\<bar> \<le> 1 / 2 + \<bar>e1\<bar> + \<bar>e2\<bar> + v / s"
    unfolding code_of_def x_def [symmetric] using m v s by (intro clamp_close) auto
  then have "\<bar>code_of fm m w s - (x + m)\<bar> * s \<le> (1 / 2 + \<bar>e1\<bar> + \<bar>e2\<bar> + v / s) * s"
    using s by (intro mult_right_mono) auto
  moreover have "(code_of fm m w s - (x + m)) * s = (code_of fm m w s - m) * s - w"
    using s by (simp add: x_def field_simps)
  then have "\<bar>code_of fm m w s - (x + m)\<bar> * s = \<bar>(code_of fm m w s - m) * s - w\<bar>"
    using s by (metis abs_mult abs_of_pos)
  moreover have "\<bar>e1\<bar> * s \<le> u * A + e * s"
    using e1 xs u(1) s by (rule err_times)
  moreover have "\<bar>e2\<bar> * s \<le> u * (A + u * A + e * s + m * s) + e * s"
  proof (rule err_times [OF e2 _ u(1) s])
    show "(\<bar>x\<bar> + (u * \<bar>x\<bar> + e) + m) * s \<le> A + u * A + e * s + m * s"
      using xs mult_left_mono [OF xs u(1)] by (simp add: algebra_simps)
  qed
  ultimately show ?thesis
    using s by (simp add: distrib_right)
qed

definition group_bound :: "rat \<Rightarrow> rat \<Rightarrow> rat \<Rightarrow> rat \<Rightarrow> rat \<Rightarrow> rat" where
  "group_bound u e m A s = s / 2 + 6 * u * A + (3 * s + 2 * m + 1) * e"

lemma code_of_range:
  "1 \<le> m \<Longrightarrow> 0 \<le> code_of fm m w s \<and> code_of fm m w s \<le> m * 2"
  by (auto simp: code_of_def)

lemma restored_close:
  assumes r: "rounding_ok fm u e" and m: "1 \<le> m" "m \<le> 127"
    and w: "\<bar>w\<bar> \<le> A" and A: "A \<le> 16384" and s: "s = fm_rnd fm (A / m)" "s \<noteq> 0"
  shows "\<bar>fm_rnd fm ((code_of fm m w s - m) * s) - w\<bar> \<le> group_bound u e m A s"
proof -
  have u: "0 \<le> u" "u \<le> 1 / 3" and e: "0 \<le> e" "e \<le> 1" and A0: "0 \<le> A"
    using rounding_okD(1-4) [OF r] w by auto
  note sc = scale_bounds [OF r A0 A m s(1)]
  define p where "p = (code_of fm m w s - m) * s"
  have s0: "0 < s"
    using sc(1) s(2) by simp
  have "u * A \<le> 1 / 3 * A"
    using u A0 by (intro mult_right_mono) auto
  moreover have "e * m \<le> m"
    using e m by (simp add: mult_left_le_one_le)
  ultimately have sm: "s * m \<le> A + u * A + e * m" "s * m \<le> 32768"
    using sc(2) A m unfolding abs_le_iff by linarith+
  have close: "\<bar>p - w\<bar> \<le> s / 2 + (u * A + e * s) + (u * (A + u * A + e * s + m * s) + e * s) + (u * A + e * m)"
    unfolding p_def using sc u e m A0 s
    by (intro code_of_close [OF r m w s0 sc(3)]) (auto simp: abs_le_iff)
  have "\<bar>code_of fm m w s - m\<bar> \<le> m"
    using code_of_range [OF m(1), of fm w s] by (simp add: abs_le_iff)
  then have p: "\<bar>p\<bar> \<le> s * m"
    using s0 by (simp add: p_def abs_mult mult.commute mult_left_mono)
  then have "\<bar>fm_rnd fm p - p\<bar> \<le> u * \<bar>p\<bar> + e"
    using rounding_okD(6) [OF r, of p] sm(2) by simp
  also have "u * \<bar>p\<bar> \<le> u * (s * m)"
    using p u by (intro mult_left_mono) auto
  finally have "\<bar>fm_rnd fm p - w\<bar> \<le> s / 2 + 3 * (u * A) + u * (u * A) + 2 * (e * s) + u * (e * s) + 2 * (u * (s * m)) + e * m + e"
    using close by (simp add: algebra_simps)
  moreover have "u * (s * m) \<le> u * A + u * (u * A) + u * (e * m)"
    using mult_left_mono [OF sm(1) u(1)] by (simp add: algebra_simps)
  moreover have "u * z \<le> 1 / 3 * z" if "0 \<le> z" for z
    using u that by (intro mult_right_mono) auto
  then have "u * (u * A) \<le> 1 / 3 * (u * A)" "u * (e * m) \<le> 1 / 3 * (e * m)" "u * (e * s) \<le> 1 / 3 * (e * s)"
    using u A0 e m s0 by simp_all
  moreover have "0 \<le> u * A" "0 \<le> e * m" "0 \<le> e * s"
    using u A0 e m s0 by simp_all
  ultimately show ?thesis
    unfolding p_def group_bound_def by (simp add: algebra_simps)
qed

lemma zero_scale_close:
  assumes r: "rounding_ok fm u e" and m: "1 \<le> m" "m \<le> 127"
    and w: "\<bar>w\<bar> \<le> A" and A: "A \<le> 16384" and s: "fm_rnd fm (A / m) = 0"
  shows "\<bar>0 - w\<bar> \<le> group_bound u e m A 0"
proof -
  have "0 \<le> u" "0 \<le> e" "0 \<le> A"
    using rounding_okD(1,3) [OF r] w by auto
  then have "0 \<le> u * A" "0 \<le> e * m"
    using m by simp_all
  then show ?thesis
    using scale_bounds(2) [OF r \<open>0 \<le> A\<close> A m s [symmetric]] w \<open>0 \<le> e\<close>
    by (simp add: group_bound_def algebra_simps)
qed

section \<open>Groups\<close>

text \<open>What \<open>__post_init__\<close> establishes for the data types of the configs.\<close>

definition group_ok :: "group_quantize \<Rightarrow> bool" where
  "group_ok c \<longleftrightarrow>
     0 < gq_group_size c \<and> gq_storage_dtype c = uint32 \<and>
     2 \<le> dt_bits (gq_quantize_dtype c) \<and> dt_bits (gq_quantize_dtype c) \<le> 8 \<and>
     0 < gq_num_elem_per_storage c \<and>
     gq_num_elem_per_storage c * dt_bits (gq_quantize_dtype c) \<le> 32 \<and>
     gq_group_size c = gq_num_elem_per_storage c * gq_num_storage_per_group c \<and>
     gq_max_int_value c = 2 ^ (dt_bits (gq_quantize_dtype c) - 1) - 1 \<and>
     gq_linear_quant_axis c = (if gq_linear_weight_layout c = ''KN'' then 0 else 1)"

lemma GroupQuantize_ok:
  assumes "GroupQuantize name kind gs (DataType code b) uint32 md layout qe qf = Inr c" "2 \<le> b" "b \<le> 8" "0 < gs"
  shows "group_ok c"
  using assms
  by (auto simp: GroupQuantize_def group_post_init_def group_ok_def Let_def div_greater_zero_iff
      split: if_splits)

lemma group_ok_max_int:
  assumes "group_ok c"
  shows "1 \<le> gq_max_int_value c" "gq_max_int_value c \<le> 127"
    "gq_max_int_value c * 2 < 2 ^ dt_bits (gq_quantize_dtype c)"
proof -
  obtain b where b: "dt_bits (gq_quantize_dtype c) = Suc b" "1 \<le> b" "b \<le> 7"
    using assms by (cases "dt_bits (gq_quantize_dtype c)") (auto simp: group_ok_def)
  then have "(2::nat) ^ 1 \<le> 2 ^ b" "(2::nat) ^ b \<le> 2 ^ 7"
    by (intro power_increasing; simp)+
  then show "1 \<le> gq_max_int_value c" "gq_max_int_value c \<le> 127"
    "gq_max_int_value c * 2 < 2 ^ dt_bits (gq_quantize_dtype c)"
    using assms b by (auto simp: group_ok_def)
qed

lemma fold_max_ge: "x \<in> insert a (set xs) \<Longrightarrow> x \<le> fold max xs (a :: 'a :: linorder)"
  by (simp add: Max_ge flip: Max.set_eq_fold)

lemma fold_max_le: "(\<forall>x \<in> insert a (set xs). x \<le> b) \<Longrightarrow> fold max xs (a :: 'a :: linorder) \<le> b"
  by (simp flip: Max.set_eq_fold)

lemma group_max_abs_ge:
  assumes "0 < gq_group_size c" "axis < length idx" "idx ! axis < tn_shape w ! axis"
  shows "\<bar>tn_at w idx\<bar> \<le> group_max_abs fm c w axis (idx[axis := idx ! axis div gq_group_size c])"
proof -
  let ?g = "gq_group_size c"
  let ?i = "idx[axis := idx ! axis div ?g]"
  define f where "f = (\<lambda>r. if ?i ! axis * ?g + r < tn_shape w ! axis
      then \<bar>tn_at w (?i[axis := ?i ! axis * ?g + r])\<bar> else fm_min_value fm)"
  have eq: "f (idx ! axis mod ?g) = \<bar>tn_at w idx\<bar>"
    using assms by (simp add: f_def)
  have "f (idx ! axis mod ?g) \<le> fold max (map f [0..<?g]) (fm_min_value fm)"
    using assms(1) by (intro fold_max_ge) simp
  then show ?thesis
    unfolding eq unfolding group_max_abs_def f_def .
qed

lemma group_max_abs_le:
  assumes "in_shape (tn_shape w) idx" "axis < length (tn_shape w)" "fm_min_value fm \<le> b"
    and "\<And>idx. in_shape (tn_shape w) idx \<Longrightarrow> \<bar>tn_at w idx\<bar> \<le> b"
  shows "group_max_abs fm c w axis (idx[axis := g]) \<le> b"
proof -
  have "in_shape (tn_shape w) (idx[axis := i])" if "i < tn_shape w ! axis" for i
    using in_shape_update [OF assms(1,2) that] by simp
  then show ?thesis
    unfolding group_max_abs_def using assms in_shapeD(1) [OF assms(1)] by (intro fold_max_le) auto
qed

lemma scaled_weight_code:
  assumes "tn_at s (idx[axis := idx ! axis div gq_group_size c]) \<noteq> 0"
  shows "tn_at (group_scaled_weight fm c w axis s) idx =
    word_of_int \<lfloor>code_of fm (of_nat (gq_max_int_value c)) (tn_at w idx)
      (tn_at s (idx[axis := idx ! axis div gq_group_size c]))\<rfloor>"
  using assms by (simp add: group_scaled_weight_def fdiv_def code_of_def)

lemma code_of_integer:
  "of_int \<lfloor>code_of fm (of_nat m) w s\<rfloor> = code_of fm (of_nat m) w s"
proof -
  have "code_of fm (of_nat m) w s \<in> \<int>"
    by (auto simp: code_of_def min_def max_def)
  then show ?thesis
    by (rule of_int_floor)
qed

lemma unat_code:
  assumes "group_ok c"
  shows "unat (word_of_int \<lfloor>code_of fm (of_nat (gq_max_int_value c)) w s\<rfloor> :: 32 word) =
      nat \<lfloor>code_of fm (of_nat (gq_max_int_value c)) w s\<rfloor>"
    and "unat (word_of_int \<lfloor>code_of fm (of_nat (gq_max_int_value c)) w s\<rfloor> :: 32 word) < 2 ^ dt_bits (gq_quantize_dtype c)"
proof -
  let ?k = "\<lfloor>code_of fm (of_nat (gq_max_int_value c)) w s\<rfloor>"
  note m = group_ok_max_int [OF assms]
  have "0 \<le> code_of fm (of_nat (gq_max_int_value c)) w s"
      "code_of fm (of_nat (gq_max_int_value c)) w s \<le> of_nat (gq_max_int_value c) * 2"
    using code_of_range [of "of_nat (gq_max_int_value c)" fm w s] m(1) by auto
  then have k: "0 \<le> ?k" "?k \<le> int (gq_max_int_value c) * 2"
    by (auto simp: floor_le_iff le_floor_iff)
  have "?k \<le> 254"
    using k m(2) by linarith
  also have "(254 :: int) < 2 ^ 32"
    by simp
  finally have "take_bit 32 ?k = ?k"
    using k by (intro take_bit_int_eq_self)
  then show u: "unat (word_of_int ?k :: 32 word) = nat ?k"
    by (simp add: unat_eq_nat_uint uint_word_of_int_eq)
  show "unat (word_of_int ?k :: 32 word) < 2 ^ dt_bits (gq_quantize_dtype c)"
    unfolding u using k m(3) by linarith
qed

lemma rnd_code:
  fixes w s :: rat
  assumes c: "group_ok c" and r: "rounding_ok fm u e"
  defines "code \<equiv> code_of fm (of_nat (gq_max_int_value c)) w s"
  shows "fm_rnd fm (of_nat (nat \<lfloor>code\<rfloor>)) = code"
    and "fm_rnd fm (code - of_nat (gq_max_int_value c)) = code - of_nat (gq_max_int_value c)"
proof -
  have k: "of_int \<lfloor>code\<rfloor> = code" "0 \<le> code" "code \<le> of_nat (gq_max_int_value c) * 2"
    using code_of_integer [of fm "gq_max_int_value c" w s] group_ok_max_int(1) [OF c]
      code_of_range [of "of_nat (gq_max_int_value c)" fm w s] by (auto simp: code_def)
  then have k': "0 \<le> \<lfloor>code\<rfloor>" "\<lfloor>code\<rfloor> \<le> int (gq_max_int_value c) * 2"
    by (auto simp: floor_le_iff le_floor_iff)
  show "fm_rnd fm (of_nat (nat \<lfloor>code\<rfloor>)) = code"
  proof -
    have "\<bar>\<lfloor>code\<rfloor>\<bar> \<le> 256"
      using k' group_ok_max_int(2) [OF c] by linarith
    from rounding_okD(7) [OF r this] k' show ?thesis
      by (simp only: of_nat_nat k(1))
  qed
  have "fm_rnd fm (of_int (\<lfloor>code\<rfloor> - int (gq_max_int_value c))) = of_int (\<lfloor>code\<rfloor> - int (gq_max_int_value c))"
    using k' group_ok_max_int(2) [OF c] by (intro rounding_okD(7) [OF r]) linarith
  then show "fm_rnd fm (code - of_nat (gq_max_int_value c)) = code - of_nat (gq_max_int_value c)"
    using k(1) by simp
qed

lemma div_group:
  assumes "group_ok c" "i div gq_num_elem_per_storage c = j div gq_num_elem_per_storage c"
  shows "i div gq_group_size c = j div gq_group_size c"
  using assms by (simp add: group_ok_def div_mult2_eq)

text \<open>The quantized weight and the scales of a weight, before the output is transposed.\<close>

lemma group_quantize_weight_eq:
  assumes "axis = norm_axis axis0 (length (tn_shape w))" "axis < length (tn_shape w)"
  shows "group_quantize_weight fm c w axis0 False =
    Inr (pack_weight (group_scaled_weight fm c w axis (group_scale fm c w axis)) (int axis)
          (gq_num_elem_per_storage c) (dt_bits (gq_quantize_dtype c))
          (Some ((tn_shape w)[axis := gq_num_storage_per_group c * ceildiv (tn_shape w ! axis) (gq_group_size c)])),
        group_scale fm c w axis)"
  using assms by (simp add: group_quantize_weight_def Let_def)

lemma norm_axis_int [simp]: "norm_axis (int n) k = n"
  by (simp add: norm_axis_def)

lemma group_quantize_weight_norm:
  "group_quantize_weight fm c w (int (norm_axis axis0 (length (tn_shape w)))) t = group_quantize_weight fm c w axis0 t"
  by (simp add: group_quantize_weight_def Let_def)

lemma pack_weight_shape [simp]: "tn_shape (pack_weight w axis0 n bits (Some s)) = s"
  by (simp add: pack_weight_def Let_def)

lemma group_scale_shape [simp]:
  "tn_shape (group_scale fm c w axis) = (tn_shape w)[axis := ceildiv (tn_shape w ! axis) (gq_group_size c)]"
  by (simp add: group_scale_def)

lemma group_quantize_weight_transposed:
  assumes "length (tn_shape w) = 2" "group_quantize_weight fm c w axis0 False = Inr (q, s)"
  shows "group_quantize_weight fm c w axis0 True = Inr (te_transpose q, te_transpose s)"
  using assms by (auto simp: group_quantize_weight_def Let_def)

text \<open>
  What dequantization restores: the element's integer times the scale; if the scale is zero,
  zero, whatever the cast of NaN has left in the word.
\<close>

lemma group_dequantize_at:
  assumes c: "group_ok c" and r: "rounding_ok fm u e" and ax: "axis < length (tn_shape w)"
    and idx: "in_shape (tn_shape w) idx"
    and s: "s = tn_at (group_scale fm c w axis) (idx[axis := idx ! axis div gq_group_size c])"
    and q: "group_quantize_weight fm c w (int axis) False = Inr (qw, qs)"
    and ax0: "norm_axis axis0 (length (tn_shape w)) = axis"
  shows "tn_at (group_dequantize fm c qw qs axis0 (tn_shape w)) idx =
    (if s = 0 then 0
     else fm_rnd fm ((code_of fm (of_nat (gq_max_int_value c)) (tn_at w idx) s - of_nat (gq_max_int_value c)) * s))"
proof -
  let ?m = "gq_max_int_value c" and ?sw = "group_scaled_weight fm c w axis (group_scale fm c w axis)"
  let ?code = "code_of fm (of_nat ?m) (tn_at w idx) s"
  let ?fw = "\<lambda>qw. tn_at (convert_uint_to_float (fm_rnd fm) qw (dt_bits (gq_quantize_dtype c))
      (gq_num_elem_per_storage c) axis0 (tn_shape w) False) idx"
  note qw = group_quantize_weight_eq [OF norm_axis_int [symmetric] ax, of fm c, unfolded q, simplified]
  have len: "length idx = length (tn_shape w)"
    using in_shapeD(1) [OF idx] .
  have deq: "tn_at (group_dequantize fm c qw qs axis0 (tn_shape w)) idx =
      fm_rnd fm (fm_rnd fm (?fw qw - of_nat ?m) * s)"
    using qw s ax0 by (simp add: group_dequantize_def Let_def)
  show ?thesis
  proof (cases "s = 0")
    case True
    then show ?thesis
      unfolding deq by (simp add: rnd_zero [OF r])
  next
    case False
    have fit: "unat (tn_at ?sw (idx[axis := i])) < 2 ^ dt_bits (gq_quantize_dtype c)"
      if "i div gq_num_elem_per_storage c = idx ! axis div gq_num_elem_per_storage c" for i
    proof -
      have "tn_at (group_scale fm c w axis) ((idx[axis := i])[axis := (idx[axis := i]) ! axis div gq_group_size c]) = s"
        using div_group [OF c that] len ax by (simp add: s)
      then show ?thesis
        using scaled_weight_code [of "group_scale fm c w axis" "idx[axis := i]" axis c fm w] False unat_code(2) [OF c]
        by simp
    qed
    have "?fw qw = fm_rnd fm (of_nat (unat (tn_at ?sw idx)))"
      unfolding qw [THEN conjunct1] using c fit ax idx ax0
      by (intro convert_pack_roundtrip) (auto simp: norm_axis_def group_scaled_weight_def group_ok_def)
    also have "unat (tn_at ?sw idx) = nat \<lfloor>?code\<rfloor>"
      using scaled_weight_code [of "group_scale fm c w axis" idx axis c fm w] False unat_code(1) [OF c]
      by (simp add: s)
    also have "fm_rnd fm (of_nat (nat \<lfloor>?code\<rfloor>)) = ?code"
      using rnd_code(1) [OF c r] .
    finally show ?thesis
      unfolding deq using False rnd_code(2) [OF c r] by simp
  qed
qed

text \<open>Quantized and restored along any axis of a weight of any rank.\<close>

lemma group_dequantize_close:
  assumes c: "group_ok c" and r: "rounding_ok fm u e" and ax: "axis < length (tn_shape w)"
    and idx: "in_shape (tn_shape w) idx"
    and w: "\<And>idx. in_shape (tn_shape w) idx \<Longrightarrow> \<bar>tn_at w idx\<bar> \<le> 16384"
    and q: "group_quantize_weight fm c w (int axis) False = Inr (qw, qs)"
    and ax0: "norm_axis axis0 (length (tn_shape w)) = axis"
    and A: "A = group_max_abs fm c w axis (idx[axis := idx ! axis div gq_group_size c])"
  shows "\<bar>tn_at (group_dequantize fm c qw qs axis0 (tn_shape w)) idx - tn_at w idx\<bar>
    \<le> group_bound u e (of_nat (gq_max_int_value c)) A (fm_rnd fm (A / of_nat (gq_max_int_value c)))"
proof -
  let ?m = "rat_of_nat (gq_max_int_value c)"
  define s where "s = fm_rnd fm (A / ?m)"
  have m: "1 \<le> ?m" "?m \<le> 127"
    using group_ok_max_int [OF c] by auto
  have le: "\<bar>tn_at w idx\<bar> \<le> A"
    unfolding A using c ax in_shapeD [OF idx] by (intro group_max_abs_ge) (auto simp: group_ok_def)
  have A': "A \<le> 16384"
    unfolding A using rounding_okD(5) [OF r] w by (intro group_max_abs_le [OF idx ax]) auto
  have s: "s = tn_at (group_scale fm c w axis) (idx[axis := idx ! axis div gq_group_size c])"
    by (simp add: s_def A group_scale_def)
  note at = group_dequantize_at [OF c r ax idx s q ax0]
  show ?thesis
  proof (cases "s = 0")
    case True
    then show ?thesis
      using at zero_scale_close [OF r m le A'] by (simp add: s_def)
  next
    case False
    then show ?thesis
      using at restored_close [OF r m le A' s_def] by (simp add: s_def)
  qed
qed

lemma group_dequantize_shape [simp]: "tn_shape (group_dequantize fm c q s axis0 sh) = sh"
  by (simp add: group_dequantize_def Let_def)

text \<open>The two layouts hold the same numbers.\<close>

lemma group_dequantize_transpose:
  "tn_at (group_dequantize fm c (te_transpose q) (te_transpose s) 0 [k, n]) [i, j] =
   tn_at (group_dequantize fm c q s 1 [n, k]) [j, i]"
  by (simp add: group_dequantize_def convert_uint_to_float_def Let_def norm_axis_def)

text \<open>
  C8: Group quantization of the weight of a linear layer, in either layout: the weight that
  \<open>forward\<close> multiplies with is the transposed weight, with an error of at most half the scale
  of the element's group, plus rounding errors that vanish with the precision of the model dtype.
  The bound also covers groups whose scale rounds to zero, where the quotients are infinite or NaN.
\<close>

theorem group_linear_weight_error:
  assumes "GroupQuantize name kind gs (DataType DT_INT b) uint32 md layout qe qf = Inr c"
    and "layout \<in> {''KN'', ''NK''}" "2 \<le> b" "b \<le> 8" "0 < gs"
    and r: "rounding_ok fm u e" and sh: "tn_shape w = [n, k]"
    and w: "\<forall>idx. in_shape [n, k] idx \<longrightarrow> \<bar>tn_at w idx\<bar> \<le> 16384" and ij: "j < n" "i < k"
  shows "\<exists>q s. group_quantize_weight fm c w (-1) (layout = ''KN'') = Inr (q, s) \<and>
    tn_shape (group_forward_weight fm c k n q s) = [k, n] \<and>
    \<bar>tn_at (group_forward_weight fm c k n q s) [i, j] - tn_at w [j, i]\<bar> \<le>
      group_bound u e (2 ^ (b - 1) - 1) (group_max_abs fm c w 1 [j, i div gs])
        (fm_rnd fm (group_max_abs fm c w 1 [j, i div gs] / (2 ^ (b - 1) - 1)))"
proof -
  have c: "group_ok c"
    using GroupQuantize_ok assms by blast
  have f: "gq_linear_weight_layout c = layout" "gq_group_size c = gs" "dt_bits (gq_quantize_dtype c) = b"
    using assms(1) by (auto simp: GroupQuantize_def group_post_init_def Let_def split: if_splits)
  have "1 \<le> (2 :: nat) ^ (b - 1)"
    by simp
  then have m: "rat_of_nat (gq_max_int_value c) = 2 ^ (b - 1) - 1"
    using c f by (simp add: group_ok_def of_nat_diff)
  have norm: "norm_axis (-1) 2 = 1" "norm_axis 1 2 = 1"
    by (simp_all add: norm_axis_def)
  obtain q s where q: "group_quantize_weight fm c w (int 1) False = Inr (q, s)"
    using group_quantize_weight_eq [of 1 "int 1" w fm c] sh norm by (auto simp: numeral_2_eq_2)
  have "group_quantize_weight fm c w (-1) False = Inr (q, s)"
    using q group_quantize_weight_norm [of fm c w "-1"] sh norm by (simp add: numeral_2_eq_2)
  then have q': "group_quantize_weight fm c w (-1) t = Inr (if t then (te_transpose q, te_transpose s) else (q, s))" for t
    using group_quantize_weight_transposed [of w fm c "-1" q s] sh by (cases t) auto
  have "in_shape (tn_shape w) [j, i]"
    using ij sh by (simp add: in_shape_def)
  then have err: "\<bar>tn_at (group_dequantize fm c q s 1 [n, k]) [j, i] - tn_at w [j, i]\<bar> \<le>
      group_bound u e (2 ^ (b - 1) - 1) (group_max_abs fm c w 1 [j, i div gs])
        (fm_rnd fm (group_max_abs fm c w 1 [j, i div gs] / (2 ^ (b - 1) - 1)))"
    using group_dequantize_close [OF c r _ _ _ q, of "[j, i]" 1] sh w f norm
    by (simp add: m numeral_2_eq_2)
  have "gq_linear_quant_axis c = (if layout = ''KN'' then 0 else 1)"
    using c f by (simp add: group_ok_def)
  with assms(2) err f(1) q' show ?thesis
    by (auto simp: group_forward_weight_def Let_def group_dequantize_transpose)
qed

text \<open>A fixed-point arithmetic that has the rounding properties.\<close>

definition fixed_fm :: float_model where
  "fixed_fm = \<lparr>fm_rnd = (\<lambda>x. of_int \<lfloor>x * 1024 + 1 / 2\<rfloor> / 1024), fm_round = (\<lambda>x. \<lfloor>x + 1 / 2\<rfloor>),
     fm_min_value = -65504, fm_nan_cast = (\<lambda>_. 7)\<rparr>"

lemma floor_half: "\<bar>of_int \<lfloor>x + 1 / 2\<rfloor> - x\<bar> \<le> (1 / 2 :: rat)"
  unfolding abs_le_iff by linarith

lemma fixed_fm_ok: "rounding_ok fixed_fm 0 (1 / 2048)"
proof -
  have "\<bar>of_int \<lfloor>x * 1024 + 1 / 2\<rfloor> / 1024 - x\<bar> \<le> (1 / 2048 :: rat)" for x
    using floor_half [of "x * 1024"] by (simp add: abs_le_iff field_simps)
  moreover have "\<lfloor>of_int i * 1024 + 1 / 2 :: rat\<rfloor> = i * 1024" for i
    by (rule floor_unique) simp_all
  moreover have "\<lfloor>x * 1024 + 1 / 2 :: rat\<rfloor> \<ge> 0" if "0 \<le> x" for x
    using that by simp
  moreover have "\<lfloor>x * 1024 + 1 / 2 :: rat\<rfloor> = 0 \<or> 1 \<le> \<lfloor>x * 1024 + 1 / 2 :: rat\<rfloor>" if "0 \<le> x" for x
    using calculation(3) [OF that] by linarith
  ultimately show ?thesis
    using floor_half by (auto simp: rounding_ok_def fixed_fm_def field_simps)
qed

theorem group_linear_weight_error_witness:
  "\<exists>c q s. GroupQuantize ''q4'' ''group-quant'' 8 (DataType DT_INT 4) uint32 float16 ''KN'' True True = Inr c \<and>
    group_quantize_weight fixed_fm c (te_compute [1, 2] (\<lambda>idx. if idx = [0, 0] then 3 / 2 else - 1 / 4)) (-1) True = Inr (q, s) \<and>
    \<bar>tn_at (group_forward_weight fixed_fm c 2 1 q s) [1, 0] - (- 1 / 4)\<bar> \<le> 1 / 4"
proof -
  obtain c where c: "GroupQuantize ''q4'' ''group-quant'' 8 (DataType DT_INT 4) uint32 float16 ''KN'' True True = Inr c"
      "gq_group_size c = 8"
    by (simp add: GroupQuantize_def group_post_init_def)
  let ?w = "te_compute [1, 2] (\<lambda>idx. if idx = [0, 0] then 3 / 2 else - 1 / 4 :: rat)"
  have A: "group_max_abs fixed_fm c ?w 1 [0, 1 div 8] = 3 / 2"
    using c(2) by (simp add: group_max_abs_def fixed_fm_def upt_rec)
  have "\<lfloor>(3079 / 14 :: rat)\<rfloor> = 219"
    by (rule floor_unique) simp_all
  then have s: "fm_rnd fixed_fm (3 / 2 / (2 ^ (4 - 1) - 1)) = 219 / 1024"
    by (simp add: fixed_fm_def)
  have "\<forall>idx. in_shape [1, 2] idx \<longrightarrow> \<bar>tn_at ?w idx\<bar> \<le> 16384"
    by simp
  from group_linear_weight_error [OF c(1) _ _ _ _ fixed_fm_ok _ this, of 0 1, unfolded A s] c(1)
  show ?thesis
    by (auto simp: group_bound_def intro: order_trans)
qed

section \<open>The registered configs\<close>

text \<open>The invariants of the configs: what the tensor programs and layers rely on.\<close>

fun config_ok :: "quantization \<Rightarrow> bool" where
  "config_ok (NoQ c) \<longleftrightarrow> dt_code (nq_model_dtype c) \<in> {DT_FLOAT, DT_BFLOAT}"
| "config_ok (GroupQ c) \<longleftrightarrow> group_ok c \<and> gq_linear_weight_layout c \<in> {''KN'', ''NK''}"
| "config_ok (AwqQ c) \<longleftrightarrow>
     aq_num_elem_per_storage c = 8 \<and> dt_bits (aq_quantize_dtype c) = 4 \<and> aq_storage_dtype c = uint32 \<and>
     aq_group_size c = aq_num_elem_per_storage c * aq_num_storage_per_group c"
| "config_ok (FtQ c) \<longleftrightarrow>
     dt_bits (ft_quantize_dtype c) * ft_num_elem_per_storage c = 8 \<and> ft_storage_dtype c = DataType DT_INT 8 \<and>
     ft_max_int_value c = 2 ^ (dt_bits (ft_quantize_dtype c) - 1) - 1"
| "config_ok (PerTensorQ c) \<longleftrightarrow>
     pt_num_elem_per_storage c = 1 \<and> pt_weight_dtype c = pt_storage_dtype c \<and>
     pt_calibration_mode c \<in> {''inference'', ''max''}"
| "config_ok (BlockScaleQ c) \<longleftrightarrow>
     dt_code (bs_weight_dtype c) \<in> {DT_Float8E4M3FN, DT_Float8E5M2} \<and> dt_code (bs_model_dtype c) \<in> {DT_FLOAT, DT_BFLOAT}"

lemma reg_group_ok:
  assumes "2 \<le> b" "b \<le> 8" "0 < gs" "gs mod (32 div b) = 0" "dt_code md \<in> {DT_FLOAT, DT_BFLOAT}" "layout \<in> {''KN'', ''NK''}"
  shows "\<exists>c. reg_group name gs b md layout qe qf = (name, Inr (GroupQ c)) \<and> gq_name c = name \<and> config_ok (GroupQ c)"
proof -
  obtain c where c: "GroupQuantize name ''group-quant'' gs (DataType DT_INT b) uint32 md layout qe qf = Inr c"
      "gq_name c = name" "gq_linear_weight_layout c = layout"
    using assms by (auto simp: GroupQuantize_def group_post_init_def Let_def)
  with GroupQuantize_ok [OF c(1)] assms show ?thesis
    by (auto simp: reg_group_def mapRes_def)
qed

text \<open>
  C37: Every config of the quantization registry passes the checks of its constructor, is
  registered under its own name, and has the invariants its tensor programs rely on; the names are
  distinct. A block-scale config with the constructor's default kind, on the other hand, is
  rejected by the constructor's own check.
\<close>

theorem registry_configs_ok:
  "distinct (map fst (QUANTIZATION max_value)) \<and>
   list_all (\<lambda>(name, r). \<exists>q. r = Inr q \<and> quantization_name q = name \<and> config_ok q) (QUANTIZATION max_value) \<and>
   block_scale_post_init (block_scale_default name) = Inl AssertionError"
proof (intro conjI)
  have n: "fst (reg_no a b) = a" "fst (reg_group a c d e f g h) = a" "fst (reg_per_tensor i a j k l) = a"
    for a b c d e f g h i j k l
    by (simp_all add: reg_no_def reg_group_def reg_per_tensor_def)
  show "distinct (map fst (QUANTIZATION max_value))"
    by (simp add: QUANTIZATION_def n)
  have g: "(\<lambda>(name, r). \<exists>q. r = Inr q \<and> quantization_name q = name \<and> config_ok q) (reg_group name gs b md layout qe qf)"
    if "2 \<le> b" "b \<le> 8" "0 < gs" "gs mod (32 div b) = 0" "dt_code md \<in> {DT_FLOAT, DT_BFLOAT}" "layout \<in> {''KN'', ''NK''}"
    for name gs b md layout qe qf
    using reg_group_ok [OF that, of name qe qf] by auto
  show "list_all (\<lambda>(name, r). \<exists>q. r = Inr q \<and> quantization_name q = name \<and> config_ok q) (QUANTIZATION max_value)"
    unfolding QUANTIZATION_def list.pred_inject
    by (intro conjI g)
      (simp_all add: reg_no_def reg_per_tensor_def mapRes_def no_post_init_def awq_post_init_def ft_post_init_def
        per_tensor_post_init_def block_scale_post_init_def block_scale_default_def)
  show "block_scale_post_init (block_scale_default name) = Inl AssertionError"
    by (simp add: block_scale_post_init_def block_scale_default_def)
qed

section \<open>AWQ\<close>

text \<open>
  The word in which AWQ stores eight 4-bit integers: the even elements in the low half, the odd
  ones in the high half.
\<close>

definition awq_word :: "(nat \<Rightarrow> 32 word) \<Rightarrow> 32 word" where
  "awq_word v = sum_list (map (\<lambda>r. push_bit (r * 4) (v ([0, 2, 4, 6, 1, 3, 5, 7] ! r))) [0..<8])"

definition awq_slot :: "nat \<Rightarrow> nat" where
  "awq_slot j = j mod 2 * 4 + j div 2"

lemma less_8_cases: "j < 8 \<Longrightarrow> j = 0 \<or> j = 1 \<or> j = 2 \<or> j = 3 \<or> j = 4 \<or> j = 5 \<or> j = 6 \<or> j = (7 :: nat)"
  by linarith

lemma awq_slot_less: "j < 8 \<Longrightarrow> awq_slot j < 8 \<and> [0, 2, 4, 6, 1, 3, 5, 7] ! awq_slot j = j"
  using less_8_cases [of j] by (auto simp: awq_slot_def)

lemma awq_unpack:
  assumes "\<And>r. r < 8 \<Longrightarrow> unat (v r) < 16" "j < 8"
  shows "drop_bit (elem_shift True 4 j) (awq_word v) AND mask 4 = v j"
proof -
  have "unat (v ([0, 2, 4, 6, 1, 3, 5, 7] ! r)) < 2 ^ 4" if "r < 8" for r
    using less_8_cases [OF that] assms(1) by auto
  from unpack_packed [of 8 "\<lambda>r. v ([0, 2, 4, 6, 1, 3, 5, 7] ! r)" 4 "awq_slot j", OF this] awq_slot_less [OF assms(2)]
  show ?thesis
    by (simp add: awq_word_def elem_shift_def awq_slot_def)
qed

text \<open>
  C34: AWQ dequantization of weights and zero points that are stored in the interleaved order of
  AWQ: the weight of output feature \<open>j\<close> and input feature \<open>i\<close> is the difference of its integer and
  the zero point of its group, times the scale of its group.
\<close>

theorem awq_dequantize_stored:
  assumes c: "awq_post_init c0 = Inr c" "aq_quantize_dtype c0 = DataType DT_INT 4" "aq_storage_dtype c0 = uint32"
    and w: "tn_shape weight = [k, m]" "\<forall>i b. tn_at weight [i, b] = awq_word (\<lambda>r. codes i (b * 8 + r))"
    and z: "tn_shape zeros = [g, m]" "\<forall>i b. tn_at zeros [i, b] = awq_word (\<lambda>r. zs i (b * 8 + r))"
    and fit: "\<forall>i j. unat (codes i j) < 16" "\<forall>i j. unat (zs i j) < 16"
  shows "tn_at (awq_dequantize rnd c weight zeros scale [m * 8, k]) [j, i] =
    rnd (rnd (rnd (of_nat (unat (codes i j))) - rnd (of_nat (unat (zs (i div aq_group_size c) j)))) *
      tn_at scale [i div aq_group_size c, j])"
proof -
  have c8: "aq_num_elem_per_storage c = 8" "dt_bits (aq_quantize_dtype c) = 4"
    using c by (auto simp: awq_post_init_def Let_def split: if_splits)
  have "norm_axis (-1) 2 = 1"
    by (simp add: norm_axis_def)
  have un: "drop_bit (elem_shift True 4 (j mod 8)) (awq_word (\<lambda>r. f (j div 8 * 8 + r))) AND mask 4 = f j"
    if "\<forall>j. unat (f j) < 16" for f
    using awq_unpack [of "\<lambda>r. f (j div 8 * 8 + r)" "j mod 8"] that by simp
  have cv: "tn_at (te_transpose (convert_uint_to_float rnd t 4 8 (-1) [tn_shape t ! 0, tn_shape t ! 1 * 8] True)) [j, i] =
      rnd (of_nat (unat (f i j)))"
    if "\<forall>i b. tn_at t [i, b] = awq_word (\<lambda>r. f i (b * 8 + r))" "\<forall>i j. unat (f i j) < 16" for t f i
    using that un [of "f i"] by (simp add: convert_uint_to_float_def Let_def norm_axis_def)
  show ?thesis
    using cv [OF w(2) fit(1), of i] cv [OF z(2) fit(2), of "i div aq_group_size c"]
    by (simp add: awq_dequantize_def Let_def c8)
qed

section \<open>FasterTransformer\<close>

lemma unat_low_bits: "b \<le> 8 \<Longrightarrow> unat ((word_of_int x :: 8 word) AND mask b) = nat (x mod 2 ^ b)"
  unfolding take_bit_eq_mask [symmetric] unat_eq_nat_uint unsigned_take_bit_eq uint_word_of_int_eq take_bit_take_bit
  by (simp add: min_absorb1 take_bit_eq_mod)

text \<open>The signed integer of one element.\<close>

definition ft_code :: "float_model \<Rightarrow> nat \<Rightarrow> rat \<Rightarrow> rat \<Rightarrow> int" where
  "ft_code fm m w s = min (max (fm_round fm (fm_rnd fm (w / s))) (- int m - 1)) (int m)"

lemma ft_scaled_code:
  assumes "tn_at scale [j div g, i] \<noteq> 0"
  shows "ft_scaled fm c g weight scale i j =
    word_of_int (ft_code fm (ft_max_int_value c) (tn_at weight [i, j]) (tn_at scale [j div g, i]))
      AND mask (dt_bits (ft_quantize_dtype c))"
proof -
  have "\<lfloor>min (max (of_int a) (- of_nat m - 1)) (of_nat m) :: rat\<rfloor> = min (max a (- int m - 1)) (int m)" for a m
  proof -
    have "min (max (of_int a) (- of_nat m - 1)) (of_nat m) = (of_int (min (max a (- int m - 1)) (int m)) :: rat)"
      by (auto simp: min_def max_def)
    then show ?thesis
      by simp
  qed
  with assms show ?thesis
    by (simp add: ft_scaled_def fdiv_def ft_code_def)
qed

text \<open>
  FasterTransformer quantization: the bits of element \<open>(i, j)\<close> of the weight are found in word
  \<open>i div ne\<close> of row \<open>j\<close>, as the two's complement of the rounded quotient by the scale of its group,
  clamped to the range of the quantized type.
\<close>

theorem ft_quantize_elements:
  assumes c: "ft_post_init c0 = Inr c" "ft_storage_dtype c0 = DataType DT_INT 8"
    and sh: "tn_shape weight = [n, k]" and ij: "i < n" "j < k"
    and q: "ft_quantize_program fm c weight = Inr (q, s)"
    and s0: "\<forall>r < n. tn_at s [j div cur_group_size c k, r] \<noteq> 0"
    and b_def: "b = dt_bits (ft_quantize_dtype c)" and ne_def: "ne = ft_num_elem_per_storage c"
    and x_def: "x = ft_code fm (2 ^ (b - 1) - 1) (tn_at weight [i, j]) (tn_at s [j div cur_group_size c k, i])"
  shows "unat (drop_bit (i mod ne * b) (tn_at q [j, i div ne]) AND mask b) = nat (x mod 2 ^ b) \<and>
    - (2 ^ (b - 1)) \<le> x \<and> x < 2 ^ (b - 1)"
proof -
  have ne: "0 < ne" "ne * b \<le> 8" and m: "ft_max_int_value c = 2 ^ (b - 1) - 1" and b: "b \<in> {4, 8}"
    using c by (auto simp: ft_post_init_def Let_def b_def ne_def split: if_splits)
  let ?g = "cur_group_size c k"
  define v where "v r = (if i div ne * ne + r < n then ft_scaled fm c ?g weight s (i div ne * ne + r) j else 0)" for r
  have at: "tn_at q [j, i div ne] = sum_list (map (\<lambda>r. push_bit (r * b) (v r)) [0..<ne])"
    using q sh by (auto simp: ft_quantize_program_def Let_def v_def ne_def b_def intro!: arg_cong [where f = sum_list])
  have fit: "unat (v r) < 2 ^ b" for r
    by (simp add: v_def ft_scaled_def b_def unsigned_take_bit_eq flip: take_bit_eq_mask)
  have "drop_bit (i mod ne * b) (tn_at q [j, i div ne]) AND mask b = v (i mod ne)"
    unfolding at using fit ne by (intro unpack_packed) auto
  also have "\<dots> = word_of_int x AND mask b"
    using ij s0 ft_scaled_code [of s j ?g i fm c weight] by (simp add: v_def x_def m b_def)
  finally have "unat (drop_bit (i mod ne * b) (tn_at q [j, i div ne]) AND mask b) = nat (x mod 2 ^ b)"
    using b by (auto simp: unat_low_bits)
  moreover have "- (2 ^ (b - 1)) \<le> x \<and> x < 2 ^ (b - 1)"
    by (auto simp: x_def ft_code_def min_def max_def)
  ultimately show ?thesis
    by blast
qed

theorem awq_dequantize_stored_witness:
  "\<exists>c. awq_post_init \<lparr>aq_name = ''a'', aq_kind = ''awq'', aq_group_size = 128, aq_quantize_dtype = DataType DT_INT 4,
      aq_storage_dtype = uint32, aq_model_dtype = float16, aq_num_elem_per_storage = 0, aq_num_storage_per_group = 0,
      aq_max_int_value = 0\<rparr> = Inr c \<and>
    tn_at (awq_dequantize id c (te_compute [4, 1] (\<lambda>_. awq_word (\<lambda>_. 9))) (te_compute [1, 1] (\<lambda>_. awq_word (\<lambda>_. 5)))
      (te_compute [1, 8] (\<lambda>_. 1 / 2)) [1 * 8, 4]) [3, 2] = 2"
proof -
  let ?c0 = "\<lparr>aq_name = ''a'', aq_kind = ''awq'', aq_group_size = 128, aq_quantize_dtype = DataType DT_INT 4,
    aq_storage_dtype = uint32, aq_model_dtype = float16, aq_num_elem_per_storage = 0, aq_num_storage_per_group = 0,
    aq_max_int_value = 0\<rparr>"
  obtain c where c: "awq_post_init ?c0 = Inr c"
    by (simp add: awq_post_init_def)
  have "tn_at (awq_dequantize id c (te_compute [4, 1] (\<lambda>_. awq_word (\<lambda>_. 9))) (te_compute [1, 1] (\<lambda>_. awq_word (\<lambda>_. 5)))
      (te_compute [1, 8] (\<lambda>_. 1 / 2)) [1 * 8, 4]) [3, 2] =
    id (id (id (of_nat (unat (9 :: 32 word))) - id (of_nat (unat (5 :: 32 word)))) * tn_at (te_compute [1, 8] (\<lambda>_. 1 / 2 :: rat)) [2 div aq_group_size c, 3])"
    by (rule awq_dequantize_stored [OF c, where codes = "\<lambda>_ _. 9" and zs = "\<lambda>_ _. 5" and g = 1]) simp_all
  with c show ?thesis
    by simp
qed

theorem ft_quantize_elements_witness:
  "\<exists>c q s. ft_post_init \<lparr>ft_name = ''f'', ft_kind = ''ft-quant'', ft_quantize_dtype = DataType DT_INT 4,
      ft_storage_dtype = DataType DT_INT 8, ft_model_dtype = float16, ft_group_size = None, ft_num_elem_per_storage = 0,
      ft_max_int_value = 0\<rparr> = Inr c \<and>
    ft_quantize_program fixed_fm c (te_compute [2, 1] (\<lambda>_. - 1)) = Inr (q, s) \<and>
    unat (drop_bit (1 mod 2 * 4) (tn_at q [0, 1 div 2]) AND mask 4) =
      nat (ft_code fixed_fm (2 ^ (4 - 1) - 1) (- 1) (tn_at s [0, 1]) mod 2 ^ 4)"
proof -
  let ?c0 = "\<lparr>ft_name = ''f'', ft_kind = ''ft-quant'', ft_quantize_dtype = DataType DT_INT 4,
    ft_storage_dtype = DataType DT_INT 8, ft_model_dtype = float16, ft_group_size = None, ft_num_elem_per_storage = 0,
    ft_max_int_value = 0\<rparr>" and ?w = "te_compute [2, 1] (\<lambda>_. - 1 :: rat)"
  obtain c where c: "ft_post_init ?c0 = Inr c" "dt_bits (ft_quantize_dtype c) = 4" "ft_num_elem_per_storage c = 2"
      "cur_group_size c (Suc 0) = 1" "ft_max_int_value c = 7"
    by (simp add: ft_post_init_def cur_group_size_def)
  have fl: "\<lfloor>2055 / 14 :: rat\<rfloor> = 146"
    by (rule floor_unique) simp_all
  obtain q s where q: "ft_quantize_program fixed_fm c ?w = Inr (q, s)" "\<forall>r < 2. tn_at s [0 div cur_group_size c 1, r] \<noteq> 0"
    by (simp add: ft_quantize_program_def Let_def c ft_max_abs_def fixed_fm_def fl)
  have "unat (drop_bit (1 mod 2 * 4) (tn_at q [0, 1 div 2]) AND mask 4) =
      nat (ft_code fixed_fm (2 ^ (4 - 1) - 1) (- 1) (tn_at s [0, 1]) mod 2 ^ 4) \<and>
      - (2 ^ (4 - 1)) \<le> ft_code fixed_fm (2 ^ (4 - 1) - 1) (- 1) (tn_at s [0, 1]) \<and>
      ft_code fixed_fm (2 ^ (4 - 1) - 1) (- 1) (tn_at s [0, 1]) < 2 ^ (4 - 1)"
    by (rule ft_quantize_elements [OF c(1) _ _ _ _ q(1), where n = 2 and k = 1]) (use c q(2) in simp_all)
  with c(1) q(1) show ?thesis
    by blast
qed

section \<open>The cache of compiled functions\<close>

text \<open>Every cached function is the tensor program of its key, compiled for a known device.\<close>

definition cache_coherent :: "float_model \<Rightarrow> group_quantize \<Rightarrow> quantize_cache \<Rightarrow> bool" where
  "cache_coherent fm c cache \<longleftrightarrow>
     (\<forall>(shape, dt, device_type, axis, tr) \<in> fst ` set cache.
        dict_get cache (shape, dt, device_type, axis, tr) = Some (\<lambda>w. group_quantize_weight fm c w (int axis) tr) \<and>
        compile_quantize_func device_type = Inr ())"

text \<open>
  The cache of compiled quantization functions is transparent: with a coherent cache,
  \<open>quantize_weight\<close> returns what building and compiling the function anew would return, errors
  included, and leaves a coherent cache.
\<close>

theorem quantize_cache_transparent:
  assumes "cache_coherent fm c cache"
  shows "snd (quantize_weight_cached fm c device_type dt weight axis tr cache) =
      bindR (group_quantize_weight fm c weight axis tr) (\<lambda>r. bindR (compile_quantize_func device_type) (\<lambda>_. Inr r)) \<and>
    cache_coherent fm c (fst (quantize_weight_cached fm c device_type dt weight axis tr cache))"
proof -
  let ?ax = "norm_axis axis (length (tn_shape weight))"
  let ?key = "(tn_shape weight, dt, device_type, ?ax, tr)"
  let ?f = "\<lambda>w. group_quantize_weight fm c w (int ?ax) tr"
  have norm: "?f weight = group_quantize_weight fm c weight axis tr"
    by (rule group_quantize_weight_norm)
  show ?thesis
  proof (cases "dict_get cache ?key")
    case (Some f)
    then have "?key \<in> fst ` set cache"
      using dict_get_None_iff [of cache ?key] by fastforce
    with assms have "dict_get cache ?key = Some ?f" "compile_quantize_func device_type = Inr ()"
      unfolding cache_coherent_def by blast+
    with assms norm show ?thesis
      by (simp add: quantize_weight_cached_def Let_def)
  next
    case None
    have "cache_coherent fm c (dict_set cache ?key ?f)" if "compile_quantize_func device_type = Inr ()"
      using assms that unfolding cache_coherent_def dict_keys_set by auto
    with assms None norm show ?thesis
      by (cases "group_quantize_weight fm c weight axis tr"; cases "compile_quantize_func device_type")
        (simp_all add: quantize_weight_cached_def Let_def)
  qed
qed

theorem quantize_cache_transparent_witness:
  "\<forall>c w. snd (quantize_weight_cached fixed_fm c ''webgpu'' float16 w (-1) True []) =
    bindR (group_quantize_weight fixed_fm c w (-1) True) (\<lambda>r. bindR (compile_quantize_func ''webgpu'') (\<lambda>_. Inr r))"
  using quantize_cache_transparent [of fixed_fm _ "[]"] by (simp add: cache_coherent_def)

end
