(* ===== verification/Loader_Correct.thy ===== *)
theory Loader_Correct
  imports Loader Quantization_Correct
begin

text \<open>
  Properties of weight loading: the loading order covers every parameter once; the file cache is
  transparent and accounts for the memory in use; a conversion succeeds exactly when the loaded
  parameters are those of the model; and the arrays that quantization produces are the
  parameters the quantized layers declare.
\<close>

section \<open>The loading order\<close>

lemma default_get_append:
  "default_get (dict_append d k v) k' = default_get d k' @ (if k' = k then [v] else [])"
  by (simp add: default_get_def dict_append_def split: option.splits)

lemma foldl_concat_map:
  "foldl (\<lambda>s x. foldl f s (g x)) s xs = foldl f s (concat (map g xs))"
  by (induction xs arbitrary: s) auto

lemma concat_map_concat_map:
  "concat (map g (concat (map h xs))) = concat (map (\<lambda>x. concat (map g (h x))) xs)"
  by (induction xs) auto

lemma torch_to_mlc_set:
  "set (default_get (foldl (\<lambda>d (m, ts). foldl (\<lambda>d t. dict_append d t m) d ts) d pm) t) =
   set (default_get d t) \<union> {m. \<exists>ts. (m, ts) \<in> set pm \<and> t \<in> set ts}"
proof (induction pm arbitrary: d)
  case (Cons x pm)
  obtain m ts where x: "x = (m, ts)"
    by (cases x)
  have "set (default_get (foldl (\<lambda>d t. dict_append d t m) d ts) t) =
      set (default_get d t) \<union> (if t \<in> set ts then {m} else {})" for d
    by (induction ts arbitrary: d) (auto simp: default_get_append)
  with Cons.IH x show ?case
    by auto
qed simp

lemma dict_append_values:
  "set (concat (map snd (dict_append d k v))) = insert v (set (concat (map snd d)))"
proof -
  have "set (concat (map snd (dict_set d k (vs @ [v])))) = insert v (set (concat (map snd d)))"
    if "dict_get d k = Some vs \<or> dict_get d k = None \<and> vs = []" for vs
    using that by (induction d) (auto split: if_splits simp del: set_concat)
  then show ?thesis
    by (auto simp: dict_append_def split: option.splits simp del: set_concat)
qed

lemma path_to_torch_set:
  "set (concat (map snd (foldl (\<lambda>d (t, p). dict_append d p t) d tp))) =
   set (concat (map snd d)) \<union> fst ` set tp"
proof (induction tp arbitrary: d)
  case (Cons x tp)
  then show ?case
    by (cases x) (simp del: set_concat add: dict_append_values)
qed simp

definition add_new :: "'a list \<Rightarrow> 'a \<Rightarrow> 'a list" where
  "add_new xs x = (if x \<in> set xs then xs else xs @ [x])"

lemma foldl_add_new:
  "set (foldl add_new xs ys) = set xs \<union> set ys"
  "distinct xs \<Longrightarrow> distinct (foldl add_new xs ys)"
  by (induction ys arbitrary: xs) (auto simp: add_new_def)

lemma loading_order_set:
  "set (loading_order em tp) = {m. \<exists>ts. (m, ts) \<in> set (em_param_map em) \<and> set ts \<inter> fst ` set tp \<noteq> {}}"
  "distinct (loading_order em tp)"
proof -
  let ?p = "foldl (\<lambda>d (t, p). dict_append d p t) [] tp"
  let ?m = "foldl (\<lambda>d (m, ts). foldl (\<lambda>d t. dict_append d t m) d ts) [] (em_param_map em)"
  have eq: "loading_order em tp = foldl add_new [] (concat (map (default_get ?m) (concat (map snd ?p))))"
    unfolding loading_order_def Let_def add_new_def [symmetric] foldl_concat_map split_def
    by (simp add: concat_map_concat_map)
  have "set (concat (map snd ?p)) = fst ` set tp"
    using path_to_torch_set [of "[]" tp] by simp
  moreover have "set (default_get ?m t) = {m. \<exists>ts. (m, ts) \<in> set (em_param_map em) \<and> t \<in> set ts}" for t
    using torch_to_mlc_set [of "[]" "em_param_map em" t] by (simp add: default_get_def)
  ultimately show "set (loading_order em tp) = {m. \<exists>ts. (m, ts) \<in> set (em_param_map em) \<and> set ts \<inter> fst ` set tp \<noteq> {}}"
    unfolding eq foldl_add_new set_concat set_map by auto
  show "distinct (loading_order em tp)"
    unfolding eq by (simp add: foldl_add_new)
qed

text \<open>
  The order in which a loader whose construction succeeded loads the parameters has every
  parameter that has a source exactly once; only a mapping to an empty list of source parameters
  is never loaded.
\<close>

theorem loading_order_complete:
  assumes "hf_init files path em qm = Inr ld" "dict_ok (em_param_map em)"
  shows "distinct (loading_order em (hl_torch_to_path ld)) \<and>
    (\<forall>m ts. dict_get (em_param_map em) m = Some ts \<longrightarrow>
      (m \<in> set (loading_order em (hl_torch_to_path ld)) \<longleftrightarrow> ts \<noteq> [])) \<and>
    (\<forall>m. dict_get (em_param_map em) m = None \<longrightarrow> m \<notin> set (loading_order em (hl_torch_to_path ld)))"
proof -
  have "check_parameter_usage em (map fst (hl_torch_to_path ld)) = Inr ()"
    using assms(1) by (auto simp: hf_init_def Let_def load_file_def split_beta split: if_splits simp: res_simps)
  then have used: "set ts \<subseteq> fst ` set (hl_torch_to_path ld)" if "(m, ts) \<in> set (em_param_map em)" for m ts
    using that by (fastforce simp: check_parameter_usage_def filter_empty_conv split: if_splits)
  have get: "(m, ts) \<in> set (em_param_map em) \<longleftrightarrow> dict_get (em_param_map em) m = Some ts" for m ts
    using assms(2) by (simp add: dict_get_def dict_ok_def)
  have "set ts \<inter> fst ` set (hl_torch_to_path ld) \<noteq> {} \<longleftrightarrow> ts \<noteq> []"
    if "dict_get (em_param_map em) m = Some ts" for m ts
    using used [of m ts] that get by (cases ts) auto
  then have "m \<in> set (loading_order em (hl_torch_to_path ld)) \<longleftrightarrow> (\<exists>ts. dict_get (em_param_map em) m = Some ts \<and> ts \<noteq> [])" for m
    unfolding loading_order_set(1) get by auto
  then show ?thesis
    using loading_order_set(2) by auto
qed

section \<open>The file cache\<close>

definition array_bytes :: "ndarray dict \<Rightarrow> int" where
  "array_bytes d = (\<Sum>(n, a) \<leftarrow> d. int (nd_nbytes a))"

definition cache_bytes :: "(ndarray dict) dict \<Rightarrow> int" where
  "cache_bytes c = (\<Sum>(p, d) \<leftarrow> c. array_bytes d)"

definition readable :: "weight_files \<Rightarrow> string \<Rightarrow> bool" where
  "readable files path \<longleftrightarrow> (\<exists>l. wf_arrays files path = Inr l \<and> distinct (map fst l))"

text \<open>
  The invariant of the cache: every cached file holds what the file holds, and the statistics
  count exactly the memory of the cached files.
\<close>

definition cache_inv :: "weight_files \<Rightarrow> hf_loader \<Rightarrow> bool" where
  "cache_inv files ld \<longleftrightarrow>
     dict_ok (hl_cached_files ld) \<and>
     (\<forall>(p, d) \<in> set (hl_cached_files ld). wf_arrays files p = Inr d \<and> distinct (map fst d)) \<and>
     st_current (hl_stats ld) = cache_bytes (hl_cached_files ld) \<and>
     st_current (hl_stats ld) \<le> st_max (hl_stats ld)"

definition same_maps :: "hf_loader \<Rightarrow> hf_loader \<Rightarrow> bool" where
  "same_maps ld ld' \<longleftrightarrow>
     hl_torch_to_path ld' = hl_torch_to_path ld \<and> hl_extern ld' = hl_extern ld \<and> hl_quantize ld' = hl_quantize ld"

lemma same_maps_refl [simp]: "same_maps ld ld"
  by (simp add: same_maps_def)

lemma same_maps_trans: "same_maps a b \<Longrightarrow> same_maps b c \<Longrightarrow> same_maps a c"
  by (simp add: same_maps_def)

lemma dict_set_new: "k \<notin> fst ` set d \<Longrightarrow> dict_set d k v = d @ [(k, v)]"
  by (induction d) auto

lemma array_bytes_Nil [simp]: "array_bytes [] = 0"
  and array_bytes_Cons [simp]: "array_bytes ((n, a) # d) = int (nd_nbytes a) + array_bytes d"
  by (simp_all add: array_bytes_def)

lemma array_bytes_nonneg: "0 \<le> array_bytes d"
  by (induction d) auto

lemma cache_bytes_simps [simp]:
  "cache_bytes [] = 0"
  "cache_bytes ((p, d) # c) = array_bytes d + cache_bytes c"
  "cache_bytes (c @ c') = cache_bytes c + cache_bytes c'"
  by (simp_all add: cache_bytes_def)

lemma cache_bytes_pop:
  "dict_ok c \<Longrightarrow> dict_get c p = Some d \<Longrightarrow> cache_bytes (dict_pop c p) = cache_bytes c - array_bytes d"
proof (induction c)
  case (Cons x c)
  obtain a b where x: "x = (a, b)"
    by (cases x)
  have "dict_pop c a = c" if "a \<notin> fst ` set c"
    using that by (auto simp: dict_pop_def filter_id_conv)
  with Cons x show ?case
    by (auto simp: dict_pop_def dict_ok_def split: if_splits)
qed simp

lemma load_arrays:
  assumes "distinct (map fst (d @ xs))"
  shows "\<exists>s'. foldl (load_array em) (d, s) xs = (d @ xs, s') \<and>
    st_current s' = st_current s + array_bytes xs \<and> (st_current s \<le> st_max s \<longrightarrow> st_current s' \<le> st_max s')"
  using assms
proof (induction xs arbitrary: d s)
  case (Cons x xs)
  obtain n a where x: "x = (n, a)"
    by (cases x)
  obtain s1 where s1: "load_array em (d, s) (n, a) = (d @ [(n, a)], s1)"
      "st_current s1 = st_current s + int (nd_nbytes a)" "st_current s1 \<le> st_max s1"
    using Cons.prems x by (auto simp: load_array_def mem_add_def Let_def dict_set_new)
  with Cons.IH [of "d @ [(n, a)]" s1] Cons.prems x show ?case
    by auto
qed simp

lemma load_file_inv:
  assumes "cache_inv files ld" "readable files p" "p \<notin> fst ` set (hl_cached_files ld)"
  shows "\<exists>ld' d. load_file files p ld = Inr ld' \<and> cache_inv files ld' \<and> same_maps ld ld' \<and>
    hl_cached_files ld' = hl_cached_files ld @ [(p, d)]"
proof -
  obtain l where l: "wf_arrays files p = Inr l" "distinct (map fst l)"
    using assms(2) by (auto simp: readable_def)
  obtain s' where "foldl (load_array (hl_extern ld)) ([], hl_stats ld) l = (l, s')"
      "st_current s' = st_current (hl_stats ld) + array_bytes l"
      "st_current (hl_stats ld) \<le> st_max (hl_stats ld) \<longrightarrow> st_current s' \<le> st_max s'"
    using load_arrays [of "[]" l "hl_extern ld" "hl_stats ld"] l(2) by auto
  with assms l show ?thesis
    by (auto simp: load_file_def cache_inv_def same_maps_def dict_set_new dict_ok_def)
qed

lemma unload_file_inv:
  assumes "cache_inv files ld" "p \<in> fst ` set (hl_cached_files ld)"
  shows "\<exists>ld'. unload_file p ld = Inr ld' \<and> cache_inv files ld' \<and> same_maps ld ld' \<and>
    hl_cached_files ld' = dict_pop (hl_cached_files ld) p"
proof -
  obtain d where d: "dict_get (hl_cached_files ld) p = Some d"
    using assms(2) dict_get_None_iff [of "hl_cached_files ld" p] by auto
  have "st_current (foldl (\<lambda>s (_, a). mem_rm (nd_nbytes a) s) s d) = st_current s - array_bytes d" for s
    by (induction d arbitrary: s) (auto simp: mem_rm_def)
  moreover have "st_max (foldl (\<lambda>s (_, a). mem_rm (nd_nbytes a) s) s d) = st_max s" for s
    by (induction d arbitrary: s) (auto simp: mem_rm_def)
  ultimately show ?thesis
    using assms(1) d cache_bytes_pop [of "hl_cached_files ld" p d] dict_ok_pop [of "hl_cached_files ld" p]
      array_bytes_nonneg [of d]
    by (auto simp: unload_file_def cache_inv_def same_maps_def dict_item_def dict_pop_def)
qed

lemma unload_many:
  assumes "cache_inv files ld" "distinct ps" "set ps \<subseteq> fst ` set (hl_cached_files ld)"
  shows "\<exists>ld'. foldR (\<lambda>ld p. unload_file p ld) ld ps = Inr ld' \<and> cache_inv files ld' \<and> same_maps ld ld' \<and>
    fst ` set (hl_cached_files ld') = fst ` set (hl_cached_files ld) - set ps"
  using assms
proof (induction ps arbitrary: ld)
  case (Cons p ps)
  obtain ld1 where ld1: "unload_file p ld = Inr ld1" "cache_inv files ld1" "same_maps ld ld1"
      "hl_cached_files ld1 = dict_pop (hl_cached_files ld) p"
    using unload_file_inv [OF Cons.prems(1), of p] Cons.prems by auto
  have keys: "fst ` set (hl_cached_files ld1) = fst ` set (hl_cached_files ld) - {p}"
    by (simp add: ld1(4) dict_keys_pop)
  then have "set ps \<subseteq> fst ` set (hl_cached_files ld1)"
    using Cons.prems by auto
  from Cons.IH [OF ld1(2) _ this] Cons.prems ld1 keys show ?case
    by (auto intro: same_maps_trans)
qed simp

lemma load_many:
  assumes "cache_inv files ld" "distinct ps" "set ps \<inter> fst ` set (hl_cached_files ld) = {}"
    and "\<And>p. p \<in> set ps \<Longrightarrow> readable files p"
  shows "\<exists>ld'. foldR (\<lambda>ld p. load_file files p ld) ld ps = Inr ld' \<and> cache_inv files ld' \<and> same_maps ld ld' \<and>
    fst ` set (hl_cached_files ld') = fst ` set (hl_cached_files ld) \<union> set ps"
  using assms
proof (induction ps arbitrary: ld)
  case (Cons p ps)
  obtain ld1 d where ld1: "load_file files p ld = Inr ld1" "cache_inv files ld1" "same_maps ld ld1"
      "hl_cached_files ld1 = hl_cached_files ld @ [(p, d)]"
    using load_file_inv [OF Cons.prems(1), of p] Cons.prems by auto
  with Cons.IH [of ld1] Cons.prems show ?case
    by (auto intro: same_maps_trans)
qed simp

text \<open>What a parameter is, read from the files without a cache.\<close>

definition torch_value :: "weight_files \<Rightarrow> string \<times> string \<Rightarrow> ndarray res" where
  "torch_value files x = bindR (wf_arrays files (snd x)) (\<lambda>arrays. dict_item arrays (fst x))"

definition mlc_value :: "weight_files \<Rightarrow> extern_mapping \<Rightarrow> string dict \<Rightarrow> string \<Rightarrow> ndarray res" where
  "mlc_value files em torch_to_path mlc_name =
     bindR (dict_item (em_param_map em) mlc_name) (\<lambda>torch_names.
     bindR (mapR (dict_item torch_to_path) torch_names) (\<lambda>paths.
     bindR (mapR (torch_value files) (zip torch_names paths)) (\<lambda>torch_params.
     bindR (dict_item (em_map_func em) mlc_name) (\<lambda>func. func torch_params))))"

lemma cached_value:
  assumes "cache_inv files ld" "p \<in> fst ` set (hl_cached_files ld)"
  shows "bindR (dict_item (hl_cached_files ld) p) (\<lambda>arrays. dict_item arrays i) = torch_value files (i, p)"
proof -
  obtain d where d: "dict_get (hl_cached_files ld) p = Some d"
    using assms(2) dict_get_None_iff [of "hl_cached_files ld" p] by auto
  then have "(p, d) \<in> set (hl_cached_files ld)"
    by (simp add: dict_get_def map_of_SomeD)
  then have "wf_arrays files p = Inr d"
    using assms(1) by (auto simp: cache_inv_def)
  with d show ?thesis
    by (simp add: torch_value_def dict_item_def)
qed

lemma mapR_cong_set: "(\<And>x. x \<in> set xs \<Longrightarrow> f x = g x) \<Longrightarrow> mapR f xs = mapR g xs"
  by (rule mapR_cong) auto

lemma files_in_memory:
  assumes "cache_inv files ld" "\<And>p. p \<in> set paths \<Longrightarrow> readable files p"
  defines "existing \<equiv> map fst (hl_cached_files ld)"
  defines "to_load \<equiv> filter (\<lambda>p. p \<notin> set existing) (remdups paths)"
  shows "\<exists>ld1 ld2. (if to_load \<noteq> [] then foldR (\<lambda>ld p. unload_file p ld) ld (filter (\<lambda>p. p \<notin> set (remdups paths)) existing)
      else Inr ld) = Inr ld1 \<and>
    foldR (\<lambda>ld p. load_file files p ld) ld1 to_load = Inr ld2 \<and>
    cache_inv files ld2 \<and> same_maps ld ld2 \<and> set paths \<subseteq> fst ` set (hl_cached_files ld2)"
proof -
  have "\<exists>ld1. (if to_load \<noteq> [] then foldR (\<lambda>ld p. unload_file p ld) ld (filter (\<lambda>p. p \<notin> set (remdups paths)) existing)
      else Inr ld) = Inr ld1 \<and> cache_inv files ld1 \<and> same_maps ld ld1 \<and>
      fst ` set (hl_cached_files ld1) \<subseteq> set existing \<and> set paths \<inter> set existing \<subseteq> fst ` set (hl_cached_files ld1)"
  proof (cases "to_load = []")
    case False
    have "distinct (filter (\<lambda>p. p \<notin> set (remdups paths)) existing)"
      using assms(1) by (simp add: existing_def cache_inv_def dict_ok_def)
    from unload_many [OF assms(1) this] False show ?thesis
      by (auto simp: existing_def)
  qed (use assms(1) in \<open>auto simp: existing_def\<close>)
  then obtain ld1 where ld1: "(if to_load \<noteq> [] then foldR (\<lambda>ld p. unload_file p ld) ld (filter (\<lambda>p. p \<notin> set (remdups paths)) existing)
      else Inr ld) = Inr ld1" "cache_inv files ld1" "same_maps ld ld1"
      "fst ` set (hl_cached_files ld1) \<subseteq> set existing" "set paths \<inter> set existing \<subseteq> fst ` set (hl_cached_files ld1)"
    by blast
  have dis: "distinct to_load" "set to_load \<inter> fst ` set (hl_cached_files ld1) = {}"
    using ld1(4) by (auto simp: to_load_def)
  have "readable files p" if "p \<in> set to_load" for p
    using that assms(2) by (auto simp: to_load_def)
  from load_many [OF ld1(2) dis this] obtain ld2 where ld2: "foldR (\<lambda>ld p. load_file files p ld) ld1 to_load = Inr ld2" "cache_inv files ld2"
      "same_maps ld1 ld2" "fst ` set (hl_cached_files ld2) = fst ` set (hl_cached_files ld1) \<union> set to_load"
    by blast
  have "set paths \<subseteq> (set paths \<inter> set existing) \<union> set to_load"
    by (auto simp: to_load_def)
  then have "set paths \<subseteq> fst ` set (hl_cached_files ld2)"
    using ld1(5) ld2(4) by blast
  with ld1(1) ld2(1,2) same_maps_trans [OF ld1(3) ld2(3)] show ?thesis
    by (intro exI [of _ ld1] exI [of _ ld2] conjI)
qed

text \<open>Reading a parameter through the cache.\<close>

lemma load_mlc_param_value:
  assumes "cache_inv files ld" "\<And>p. p \<in> snd ` set (hl_torch_to_path ld) \<Longrightarrow> readable files p"
  shows "case mlc_value files (hl_extern ld) (hl_torch_to_path ld) n of
      Inl e \<Rightarrow> load_mlc_param files n ld = Inl e
    | Inr v \<Rightarrow> \<exists>ld'. load_mlc_param files n ld = Inr (v, ld') \<and> cache_inv files ld' \<and> same_maps ld ld'"
proof (cases "dict_get (em_param_map (hl_extern ld)) n")
  case None
  then show ?thesis
    by (simp add: mlc_value_def load_mlc_param_def dict_item_def)
next
  case (Some ts)
  show ?thesis
  proof (cases "mapR (dict_item (hl_torch_to_path ld)) ts")
    case (Inl e)
    with Some show ?thesis
      by (simp add: mlc_value_def load_mlc_param_def dict_item_def)
  next
    case (Inr paths)
    have "p \<in> snd ` set (hl_torch_to_path ld)" if p: "p \<in> set paths" for p
    proof -
      obtain i where "i < length paths" "paths ! i = p"
        using p by (auto simp: in_set_conv_nth)
      then have "dict_get (hl_torch_to_path ld) (ts ! i) = Some p"
        using mapR_nth [OF Inr] mapR_length [OF Inr] by (auto simp: res_simps)
      then show ?thesis
        by (force simp: dict_get_def dest: map_of_SomeD)
    qed
    then obtain ld1 ld2 where ld: "(if filter (\<lambda>p. p \<notin> set (map fst (hl_cached_files ld))) (remdups paths) \<noteq> []
        then foldR (\<lambda>ld p. unload_file p ld) ld (filter (\<lambda>p. p \<notin> set (remdups paths)) (map fst (hl_cached_files ld)))
        else Inr ld) = Inr ld1"
        "foldR (\<lambda>ld p. load_file files p ld) ld1 (filter (\<lambda>p. p \<notin> set (map fst (hl_cached_files ld))) (remdups paths)) = Inr ld2"
        "cache_inv files ld2" "same_maps ld ld2" "set paths \<subseteq> fst ` set (hl_cached_files ld2)"
      using files_in_memory [OF assms(1), of paths] assms(2) by blast
    have "mapR (\<lambda>(i, path). bindR (dict_item (hl_cached_files ld2) path) (\<lambda>arrays. dict_item arrays i)) (zip ts paths)
        = mapR (torch_value files) (zip ts paths)"
      using ld(5) by (intro mapR_cong_set) (auto intro!: cached_value [OF ld(3)] dest!: set_zip_rightD)
    moreover have "hl_extern ld2 = hl_extern ld"
      using ld(4) by (simp add: same_maps_def)
    ultimately show ?thesis
      using Some Inr ld
      by (auto simp: mlc_value_def load_mlc_param_def dict_item_def Let_def bindR_def split: sum.splits option.splits)
  qed
qed

text \<open>The generator without a cache: every parameter is read from the files.\<close>

fun load_spec ::
    "(string \<Rightarrow> ndarray res) \<Rightarrow> quant_env \<Rightarrow> quantize_mapping option \<Rightarrow> shard_fn dict option \<Rightarrow> string list \<Rightarrow>
     (string \<times> ndarray) gen" where
  "load_spec value_of env qm preshard_funcs [] = ([], Returned)"
| "load_spec value_of env qm preshard_funcs (n # ns) =
     (case bindR (value_of n) (load_or_quantize env qm n) of
        Inl e \<Rightarrow> ([], Raised e)
      | Inr qs \<Rightarrow>
          (case yield_all (shard_outputs preshard_funcs) qs of
             (ys, Returned) \<Rightarrow> let (zs, e) = load_spec value_of env qm preshard_funcs ns in (ys @ zs, e)
           | (ys, e) \<Rightarrow> (ys, e)))"

lemma load_loop_spec:
  assumes "cache_inv files ld" "\<And>p. p \<in> snd ` set (hl_torch_to_path ld) \<Longrightarrow> readable files p"
  shows "fst (load_loop files env pf ns ld) =
      load_spec (mlc_value files (hl_extern ld) (hl_torch_to_path ld)) env (hl_quantize ld) pf ns \<and>
    cache_inv files (snd (load_loop files env pf ns ld))"
  using assms
proof (induction ns arbitrary: ld)
  case (Cons n ns)
  note v = load_mlc_param_value [OF Cons.prems, of n]
  show ?case
  proof (cases "mlc_value files (hl_extern ld) (hl_torch_to_path ld) n")
    case (Inl e)
    with v Cons.prems show ?thesis
      by simp
  next
    case (Inr p)
    then obtain ld' where ld': "load_mlc_param files n ld = Inr (p, ld')" "cache_inv files ld'"
        "hl_torch_to_path ld' = hl_torch_to_path ld" "hl_extern ld' = hl_extern ld" "hl_quantize ld' = hl_quantize ld"
      using v by (auto simp: same_maps_def)
    with Cons.IH [of ld'] Cons.prems(2) Inr show ?thesis
      by (auto simp: split_beta Let_def split: sum.splits prod.splits gen_end.splits)
  qed
qed simp

lemma hf_init_inv:
  assumes "hf_init files path em qm = Inr ld" "\<And>p. p \<in> snd ` set (hl_torch_to_path ld) \<Longrightarrow> readable files p"
    "readable files path"
  shows "cache_inv files ld \<and> hl_extern ld = em \<and> hl_quantize ld = qm"
proof -
  define ld0 where "ld0 = \<lparr>hl_stats = \<lparr>st_current = 0, st_total = 0, st_max = 0, st_total_param_num = 0\<rparr>,
    hl_cached_files = [], hl_torch_to_path = [], hl_extern = em, hl_quantize = qm\<rparr>"
  have 0: "cache_inv files ld0"
    by (simp add: cache_inv_def ld0_def dict_ok_def)
  obtain ld1 d where "load_file files path ld0 = Inr ld1" "cache_inv files ld1" "same_maps ld0 ld1"
    using load_file_inv [OF 0 assms(3)] by (auto simp: ld0_def)
  with 0 assms(1) show ?thesis
    by (auto simp: hf_init_def Let_def cache_inv_def same_maps_def ld0_def res_simps split: if_splits)
qed

text \<open>
  C9: The loader with its file cache refines the loader that reads every parameter from the
  files: when the files are readable it yields the same parameters in the same order and fails
  at the same point with the same error. After a complete run no file is cached and the
  statistics account for no memory.
\<close>

theorem hf_load_refines_spec:
  assumes "hf_init files path em qm = Inr ld" "readable files path"
    and "\<forall>p \<in> snd ` set (hl_torch_to_path ld). readable files p"
  shows "fst (hf_load files env pf ld) =
      load_spec (mlc_value files em (hl_torch_to_path ld)) env qm pf (loading_order em (hl_torch_to_path ld)) \<and>
    (snd (fst (hf_load files env pf ld)) = Returned \<longrightarrow>
      hl_cached_files (snd (hf_load files env pf ld)) = [] \<and>
      st_current (hl_stats (snd (hf_load files env pf ld))) = 0)"
proof -
  have inv: "cache_inv files ld" and em: "hl_extern ld = em" "hl_quantize ld = qm"
    using hf_init_inv [OF assms(1) _ assms(2)] assms(3) by auto
  obtain ys e ld' where l: "load_loop files env pf (loading_order em (hl_torch_to_path ld)) ld = ((ys, e), ld')"
    by (metis surj_pair)
  have spec: "(ys, e) = load_spec (mlc_value files em (hl_torch_to_path ld)) env qm pf (loading_order em (hl_torch_to_path ld))"
    and inv': "cache_inv files ld'"
    using load_loop_spec [OF inv, of env pf "loading_order em (hl_torch_to_path ld)"] assms(3) em l by auto
  obtain ld2 where ld2: "foldR (\<lambda>ld p. unload_file p ld) ld' (map fst (hl_cached_files ld')) = Inr ld2"
      "cache_inv files ld2" "hl_cached_files ld2 = []"
    using unload_many [OF inv', of "map fst (hl_cached_files ld')"] inv' by (auto simp: cache_inv_def dict_ok_def)
  have "hf_load files env pf ld = (if e = Returned then ((ys, e), ld2) else ((ys, e), ld'))"
    using l ld2(1) by (cases e) (simp_all add: hf_load_def em)
  with ld2 show ?thesis
    by (auto simp: cache_inv_def spec [symmetric])
qed

section \<open>Conversion\<close>

definition fits :: "ndarray \<Rightarrow> param \<Rightarrow> bool" where
  "fits a p \<longleftrightarrow> check_shape (nd_shape a) (pm_shape p) \<and> nd_dtype a = pm_dtype p"

text \<open>The names that were seen are gone from the parameters that are still expected.\<close>

definition conversion_inv :: "conversion \<Rightarrow> bool" where
  "conversion_inv cv \<longleftrightarrow> dict_ok (cv_named_params cv) \<and> (\<forall>n \<in> set (cv_param_names cv). dict_get (cv_named_params cv) n = None)"

lemma check_param_eq:
  assumes "conversion_inv cv"
  shows "check_param cv (n, a) =
    (case dict_get (cv_named_params cv) n of
       None \<Rightarrow> Inl (ValueError (''Parameter not found in model: '' @ n))
     | Some p \<Rightarrow>
         if \<not> check_shape (nd_shape a) (pm_shape p) then Inl (ValueError (''Parameter '' @ n @ '' has a wrong shape''))
         else if nd_dtype a \<noteq> pm_dtype p then Inl (ValueError (''Parameter '' @ n @ '' has a wrong dtype''))
         else Inr (cv\<lparr>cv_named_params := dict_pop (cv_named_params cv) n, cv_param_names := List.insert n (cv_param_names cv),
           cv_total_bytes := cv_total_bytes cv + nd_nbytes a, cv_dumped := cv_dumped cv @ [(n, a)]\<rparr>))"
proof -
  have "n \<notin> set (cv_param_names cv)" if "dict_get (cv_named_params cv) n = Some p" for p
    using assms that by (auto simp: conversion_inv_def)
  then show ?thesis
    by (auto simp: check_param_def split: option.splits)
qed

lemma check_param_inv:
  assumes "conversion_inv cv" "check_param cv (n, a) = Inr cv'"
  shows "conversion_inv cv' \<and> cv_named_params cv' = dict_pop (cv_named_params cv) n \<and> cv_dumped cv' = cv_dumped cv @ [(n, a)]"
  using assms unfolding check_param_eq [OF assms(1)]
  by (auto simp: conversion_inv_def dict_ok_pop split: option.splits if_splits)

lemma check_params_iff:
  assumes "conversion_inv cv"
  shows "(\<exists>cv'. foldR check_param cv ys = Inr cv') \<longleftrightarrow>
    distinct (map fst ys) \<and> (\<forall>(n, a) \<in> set ys. \<exists>p. dict_get (cv_named_params cv) n = Some p \<and> fits a p)"
  using assms
proof (induction ys arbitrary: cv)
  case (Cons y ys)
  obtain n a where y: "y = (n, a)"
    by (cases y)
  show ?case
  proof (cases "check_param cv (n, a)")
    case (Inl e)
    then have "\<not> (\<exists>p. dict_get (cv_named_params cv) n = Some p \<and> fits a p)"
      unfolding check_param_eq [OF Cons.prems] by (auto simp: fits_def split: option.splits if_splits)
    with Inl y show ?thesis
      by auto
  next
    case (Inr cv1)
    then have ok: "\<exists>p. dict_get (cv_named_params cv) n = Some p \<and> fits a p"
      unfolding check_param_eq [OF Cons.prems] by (auto simp: fits_def split: option.splits if_splits)
    have cv1: "conversion_inv cv1" "cv_named_params cv1 = dict_pop (cv_named_params cv) n"
      using check_param_inv [OF Cons.prems Inr] by auto
    have eq: "(\<forall>(n', a) \<in> set ys. \<exists>p. dict_get (cv_named_params cv1) n' = Some p \<and> fits a p) \<longleftrightarrow>
        n \<notin> fst ` set ys \<and> (\<forall>(n', a) \<in> set ys. \<exists>p. dict_get (cv_named_params cv) n' = Some p \<and> fits a p)"
      unfolding cv1(2) by (auto split: if_splits) (force, blast)
    have "(\<exists>cv'. foldR check_param cv (y # ys) = Inr cv') \<longleftrightarrow> distinct (map fst ys) \<and> n \<notin> fst ` set ys \<and>
        (\<forall>(n', a) \<in> set ys. \<exists>p. dict_get (cv_named_params cv) n' = Some p \<and> fits a p)"
      using Cons.IH [OF cv1(1)] Inr y unfolding eq by simp
    with ok y show ?thesis
      by auto
  qed
qed simp

lemma check_params_result:
  assumes "conversion_inv cv" "foldR check_param cv ys = Inr cv'"
  shows "cv_dumped cv' = cv_dumped cv @ ys \<and>
    fst ` set (cv_named_params cv') = fst ` set (cv_named_params cv) - fst ` set ys"
  using assms
proof (induction ys arbitrary: cv)
  case (Cons y ys)
  obtain n a where y: "y = (n, a)"
    by (cases y)
  obtain cv1 where cv1: "check_param cv (n, a) = Inr cv1" "foldR check_param cv1 ys = Inr cv'"
    using Cons.prems(2) y by (auto simp: res_simps)
  note inv = check_param_inv [OF Cons.prems(1) cv1(1)]
  then have "fst ` set (cv_named_params cv1) = fst ` set (cv_named_params cv) - {n}"
    by (simp add: dict_keys_pop)
  with Cons.IH [OF _ cv1(2)] inv y show ?case
    by auto
qed simp

lemma check_params_totals:
  assumes "conversion_inv cv" "foldR check_param cv ys = Inr cv'"
  shows "length (cv_param_names cv') = length (cv_param_names cv) + length ys \<and>
    cv_total_bytes cv' = cv_total_bytes cv + sum_list (map (nd_nbytes \<circ> snd) ys)"
  using assms
proof (induction ys arbitrary: cv)
  case (Cons y ys)
  obtain n a where y: "y = (n, a)"
    by (cases y)
  obtain cv1 where cv1: "check_param cv (n, a) = Inr cv1" "foldR check_param cv1 ys = Inr cv'"
    using Cons.prems(2) y by (auto simp: res_simps)
  have "length (cv_param_names cv1) = Suc (length (cv_param_names cv))" "cv_total_bytes cv1 = cv_total_bytes cv + nd_nbytes a"
    using cv1(1) by (auto simp: check_param_def split: option.splits if_splits)
  with Cons.IH [OF _ cv1(2)] check_param_inv [OF Cons.prems(1) cv1(1)] y show ?case
    by simp
qed simp

lemma known_names:
  assumes "\<forall>(n, a) \<in> set ys. \<exists>p. dict_get named_params n = Some p \<and> fits a p"
  shows "fst ` set ys \<subseteq> fst ` set named_params"
proof
  fix n
  assume "n \<in> fst ` set ys"
  with assms have "dict_get named_params n \<noteq> None"
    by auto
  then show "n \<in> fst ` set named_params"
    by (simp add: dict_get_None_iff)
qed

text \<open>The checks of the parameters, then the end of the loader: when a result comes out, and which.\<close>

lemma convert_params_result:
  assumes inv: "conversion_inv \<lparr>cv_named_params = named_params, cv_param_names = [], cv_total_bytes = 0,
      cv_dumped = [], cv_metadata = None\<rparr>" and e: "e \<noteq> Blocked"
    and run: "foldR check_param \<lparr>cv_named_params = named_params, cv_param_names = [], cv_total_bytes = 0,
      cv_dumped = [], cv_metadata = None\<rparr> ys = Inr cv"
  shows "convert_params named_params total_params (ys, e) = Inr cv' \<longleftrightarrow>
     e = Returned \<and> 0 < total_params \<and> fst ` set named_params \<subseteq> fst ` set ys \<and>
     cv' = cv\<lparr>cv_metadata := Some (length ys, sum_list (map (nd_nbytes \<circ> snd) ys),
          of_nat (sum_list (map (nd_nbytes \<circ> snd) ys)) * 8 / of_nat total_params)\<rparr>"
proof -
  have "cv_named_params cv = [] \<longleftrightarrow> fst ` set (cv_named_params cv) = {}"
    by simp
  also have "fst ` set (cv_named_params cv) = fst ` set named_params - fst ` set ys"
    using check_params_result [OF inv run] by simp
  finally have left: "cv_named_params cv = [] \<longleftrightarrow> fst ` set named_params \<subseteq> fst ` set ys"
    by (simp only: Diff_eq_empty_iff)
  show ?thesis
    using e run check_params_totals [OF inv run] unfolding left [symmetric]
    by (cases e) (auto simp: convert_params_def metadata_callback_def)
qed

text \<open>
  C13: A conversion succeeds, with whatever result, exactly when the loader returns and has read
  an element, has yielded every parameter of the model and nothing else, each once, and each with
  the shape and the data type of the model; and whenever it succeeds it has written exactly what was
  yielded, recorded the number of parameters, their bytes and the bits per element read, and left
  no parameter of the model unwritten. In every other case it raises.
\<close>

theorem convert_succeeds_iff:
  assumes "dict_ok named_params" "snd g \<noteq> Blocked"
  shows "((\<exists>cv. convert_params named_params total_params g = Inr cv) \<longleftrightarrow>
      snd g = Returned \<and> 0 < total_params \<and> distinct (map fst (fst g)) \<and> fst ` set (fst g) = fst ` set named_params \<and>
      (\<forall>(n, a) \<in> set (fst g). \<exists>p. dict_get named_params n = Some p \<and> fits a p)) \<and>
    (\<forall>cv. convert_params named_params total_params g = Inr cv \<longrightarrow>
      cv_dumped cv = fst g \<and> cv_named_params cv = [] \<and>
      cv_metadata cv = Some (length (fst g), sum_list (map (nd_nbytes \<circ> snd) (fst g)),
        of_nat (sum_list (map (nd_nbytes \<circ> snd) (fst g))) * 8 / of_nat total_params))"
proof -
  obtain ys e where g: "g = (ys, e)"
    by (cases g)
  let ?cv = "\<lparr>cv_named_params = named_params, cv_param_names = [], cv_total_bytes = 0, cv_dumped = [], cv_metadata = None\<rparr>"
  have inv: "conversion_inv ?cv"
    using assms(1) by (simp add: conversion_inv_def)
  have e: "e \<noteq> Blocked"
    using assms(2) g by simp
  show ?thesis
  proof (cases "foldR check_param ?cv ys")
    case (Inl er)
    then show ?thesis
      using check_params_iff [OF inv, of ys] g by (auto simp: convert_params_def)
  next
    case (Inr cv)
    define m where "m = (length ys, sum_list (map (nd_nbytes \<circ> snd) ys),
        rat_of_nat (sum_list (map (nd_nbytes \<circ> snd) ys)) * 8 / rat_of_nat total_params)"
    note result = convert_params_result [OF inv e Inr, of total_params, folded m_def]
    have all: "distinct (map fst ys)" "\<forall>(n, a) \<in> set ys. \<exists>p. dict_get named_params n = Some p \<and> fits a p"
      using check_params_iff [OF inv, of ys] Inr by auto
    have sub: "fst ` set ys \<subseteq> fst ` set named_params"
      using known_names [OF all(2)] .
    have dumped: "cv_dumped cv = ys"
      and left: "fst ` set (cv_named_params cv) = fst ` set named_params - fst ` set ys"
      using check_params_result [OF inv Inr] by simp_all
    have same: "fst ` set ys = fst ` set named_params \<longleftrightarrow> fst ` set named_params \<subseteq> fst ` set ys"
      using sub by blast
    show ?thesis
      unfolding g fst_conv snd_conv result m_def [symmetric] same
    proof (intro conjI allI impI; (elim conjE)?)
      fix cv'
      assume cv': "cv' = cv\<lparr>cv_metadata := Some m\<rparr>" and "fst ` set named_params \<subseteq> fst ` set ys"
      then have "fst ` set (cv_named_params cv) = {}"
        using left by (simp only: Diff_eq_empty_iff)
      then show "cv_named_params cv' = []"
        by (simp add: cv')
    qed (simp_all add: dumped all)
  qed
qed

text \<open>
  A parameter that is yielded a second time is reported as missing in the model: the check for
  duplicates comes after a check that the name is still expected, which a seen name never is.
\<close>

theorem duplicate_reported_as_missing:
  assumes "dict_ok named_params" "distinct (map fst ys)" "n \<in> fst ` set ys"
    and "\<forall>(n, a) \<in> set ys. \<exists>p. dict_get named_params n = Some p \<and> fits a p"
  shows "convert_params named_params total_params (ys @ (n, a) # zs, e) = Inl (ValueError (''Parameter not found in model: '' @ n))"
proof -
  let ?cv = "\<lparr>cv_named_params = named_params, cv_param_names = [], cv_total_bytes = 0, cv_dumped = [], cv_metadata = None\<rparr>"
  have inv: "conversion_inv ?cv"
    using assms(1) by (simp add: conversion_inv_def)
  obtain cv where cv: "foldR check_param ?cv ys = Inr cv"
    using check_params_iff [OF inv, of ys] assms by auto
  then have "dict_get (cv_named_params cv) n = None"
    using check_params_result [OF inv cv] assms(3) by (auto simp: dict_get_None_iff)
  then show ?thesis
    using cv by (simp add: convert_params_def foldR_append check_param_def)
qed

section \<open>Examples\<close>

definition example_array :: ndarray where
  "example_array = \<lparr>nd_shape = [2], nd_dtype = float16, nd_value = (\<lambda>_. 1)\<rparr>"

text \<open>One file with two parameters, of which one is used.\<close>

definition example_files :: weight_files where
  "example_files = \<lparr>wf_is_file = (\<lambda>p. p = ''w.bin''), wf_suffix = (\<lambda>_. ''.bin''),
     wf_arrays = (\<lambda>_. Inr [(''a'', example_array), (''b'', example_array)]), wf_index = (\<lambda>_. Inr []),
     wf_sibling = (\<lambda>_ p. p)\<rparr>"

definition example_extern :: extern_mapping where
  "example_extern = add_mapping ''m'' [''a''] (\<lambda>as. Inr (hd as)) empty_extern"

lemma example_init:
  "\<exists>ld. hf_init example_files ''w.bin'' example_extern None = Inr ld \<and> hl_torch_to_path ld = [(''a'', ''w.bin''), (''b'', ''w.bin'')]"
  by (simp add: hf_init_def example_files_def example_extern_def add_mapping_def empty_extern_def load_file_def
      load_array_def Let_def dict_item_def check_parameter_usage_def)

lemma example_readable: "readable example_files p"
  by (simp add: readable_def example_files_def)

theorem loading_order_complete_witness:
  "\<exists>ld. hf_init example_files ''w.bin'' example_extern None = Inr ld \<and>
    ''m'' \<in> set (loading_order example_extern (hl_torch_to_path ld)) \<and>
    ''b'' \<notin> set (loading_order example_extern (hl_torch_to_path ld))"
proof -
  obtain ld where ld: "hf_init example_files ''w.bin'' example_extern None = Inr ld"
    using example_init by blast
  have d: "em_param_map example_extern = [(''m'', [''a''])]"
    by (simp add: example_extern_def add_mapping_def empty_extern_def)
  from loading_order_complete [OF ld] ld show ?thesis
    by (simp add: d dict_ok_def)
qed

theorem hf_load_refines_spec_witness:
  "\<forall>env. \<exists>ld. hf_init example_files ''w.bin'' example_extern None = Inr ld \<and>
    fst (hf_load example_files env None ld) = ([(''m'', example_array)], Returned) \<and>
    hl_cached_files (snd (hf_load example_files env None ld)) = []"
proof
  fix env
  obtain ld where ld: "hf_init example_files ''w.bin'' example_extern None = Inr ld"
      "hl_torch_to_path ld = [(''a'', ''w.bin''), (''b'', ''w.bin'')]"
    using example_init by blast
  have d: "em_param_map example_extern = [(''m'', [''a''])]" "em_map_func example_extern = [(''m'', \<lambda>as. Inr (hd as))]"
    by (simp_all add: example_extern_def add_mapping_def empty_extern_def)
  have o: "loading_order example_extern (hl_torch_to_path ld) = [''m'']"
    by (simp add: ld(2) loading_order_def d dict_append_def default_get_def)
  have "mlc_value example_files example_extern (hl_torch_to_path ld) ''m'' = Inr example_array"
    by (simp add: mlc_value_def ld(2) d dict_item_def torch_value_def example_files_def)
  with hf_load_refines_spec [OF ld(1) example_readable, of env None] ld(1) show
    "\<exists>ld. hf_init example_files ''w.bin'' example_extern None = Inr ld \<and>
      fst (hf_load example_files env None ld) = ([(''m'', example_array)], Returned) \<and>
      hl_cached_files (snd (hf_load example_files env None ld)) = []"
    by (simp add: o example_readable load_or_quantize_def shard_outputs_def)
qed

theorem convert_succeeds_iff_witness:
  "\<exists>cv. convert_params [(''m'', Parameter [DVar ''n''] float16)] 2 ([(''m'', example_array)], Returned) = Inr cv \<and>
    cv_dumped cv = [(''m'', example_array)] \<and> cv_metadata cv = Some (1, 4, 16)"
proof -
  have "nd_nbytes example_array = 4"
    by (simp add: nd_nbytes_def nd_size_def example_array_def)
  moreover have "fits example_array (Parameter [DVar ''n''] float16)"
    by (simp add: fits_def Parameter_def example_array_def)
  ultimately show ?thesis
    using convert_succeeds_iff [of "[(''m'', Parameter [DVar ''n''] float16)]" "([(''m'', example_array)], Returned)" 2]
    by (auto simp: dict_ok_def)
qed

theorem duplicate_reported_as_missing_witness:
  "convert_params [(''m'', Parameter [DVar ''n''] float16)] 2 ([(''m'', example_array)] @ (''m'', example_array) # [], Returned) =
    Inl (ValueError (''Parameter not found in model: '' @ ''m''))"
  by (rule duplicate_reported_as_missing) (simp_all add: dict_ok_def fits_def Parameter_def example_array_def)

end
