(* ===== verification/Quantize_Fit.thy ===== *)
theory Quantize_Fit
  imports Loader_Correct
begin

text \<open>
  What a loader makes of the weights of a quantized model. The visitors of the algorithms share a
  contract, stated as locales: a layer that is replaced gets an entry in the mapping under which
  its weight becomes exactly the parameters of the new layer, with their shapes and data types;
  and a layer that is not replaced keeps its weight. The client's lemmas, on whole models, are
  proved once. FasterTransformer quantization has only the first part of the contract.
\<close>

section \<open>The contract\<close>

fun weight_shape :: "nn_layer \<Rightarrow> extent list" where
  "weight_shape (Linear l) = [nl_out l, DInt (nl_in l)]"
| "weight_shape (Embedding num d) = [num, DInt d]"
| "weight_shape (Experts e) = [DInt (mx_num e), DInt (mx_out e), DInt (mx_in e)]"
| "weight_shape OtherLayer = []"

text \<open>The parameters of a layer that come from its weight.\<close>

definition weight_params :: "layer_params \<Rightarrow> layer_params" where
  "weight_params ps = filter (\<lambda>(attr, _). attr \<noteq> ''bias'') ps"

definition outputs_fit :: "quant_env \<Rightarrow> quantize_mapping \<Rightarrow> string \<Rightarrow> layer_params \<Rightarrow> ndarray \<Rightarrow> bool" where
  "outputs_fit env qm name ps w \<longleftrightarrow>
     (\<exists>outs. load_or_quantize env (Some qm) (weight_of name) w = Inr outs \<and>
        list_all2 (\<lambda>(n, a) (attr, p). n = name @ ''.'' @ attr \<and> fits a p) outs (weight_params ps))"

definition same_entry :: "quantize_mapping \<Rightarrow> quantize_mapping \<Rightarrow> string \<Rightarrow> bool" where
  "same_entry qm qm' k \<longleftrightarrow>
     dict_get (qm_param_map qm') k = dict_get (qm_param_map qm) k \<and>
     dict_get (qm_map_func qm') k = dict_get (qm_map_func qm) k"

lemma same_entry_simps [simp]:
  "same_entry qm qm k"
  "k \<noteq> w \<Longrightarrow> same_entry qm (set_params w ns qm') k = same_entry qm qm' k"
  "k \<noteq> w \<Longrightarrow> same_entry qm (set_func w f qm') k = same_entry qm qm' k"
  by (simp_all add: same_entry_def set_params_def set_func_def)

lemma same_entry_trans: "same_entry a b k \<Longrightarrow> same_entry b c k \<Longrightarrow> same_entry a c k"
  by (simp add: same_entry_def)

lemma same_entry_load:
  "same_entry qm qm' k \<Longrightarrow> load_or_quantize env (Some qm') k w = load_or_quantize env (Some qm) k w"
  by (simp add: same_entry_def load_or_quantize_def dict_item_def split: option.splits)

lemma weight_of_inj [simp]: "weight_of a = weight_of b \<longleftrightarrow> a = b"
  by (simp add: weight_of_def)

lemma weight_of_mem [simp]: "weight_of n \<in> weight_of ` A \<longleftrightarrow> n \<in> A"
  by auto

locale layer_quantizer =
  fixes visit :: "string \<Rightarrow> nn_node \<Rightarrow> quantize_mapping \<Rightarrow> visit res"
    and ready :: "quant_env \<Rightarrow> bool"
  assumes visit_frame: "visit name node qm = Inr (qm', v) \<Longrightarrow> k \<noteq> weight_of name \<Longrightarrow> same_entry qm qm' k"
    and visit_replaced: "visit name node qm = Inr (qm', Replaced ps) \<Longrightarrow> ready env \<Longrightarrow>
      check_shape (nd_shape w) (weight_shape (nn_layer node)) \<Longrightarrow> outputs_fit env qm' name ps w"
begin

lemma visit_all_frame:
  "visit_all visit nodes qm = Inr (qm', vs) \<Longrightarrow> k \<notin> weight_of ` fst ` set nodes \<Longrightarrow> same_entry qm qm' k"
proof (induction nodes arbitrary: qm vs)
  case (Cons x nodes)
  then show ?case
    by (cases x) (auto simp: res_simps dest!: visit_frame Cons.IH intro: same_entry_trans)
qed simp

text \<open>Every replaced layer of a model finds its parameters in the weight of the old layer.\<close>

lemma visit_all_replaced:
  assumes "visit_all visit nodes qm = Inr (qm', vs)" "distinct (map fst nodes)" "ready env"
  shows "list_all2 (\<lambda>(name, node) (name', v). name' = name \<and> (\<forall>ps w. v = Replaced ps \<longrightarrow>
      check_shape (nd_shape w) (weight_shape (nn_layer node)) \<longrightarrow> outputs_fit env qm' name ps w)) nodes vs"
  using assms(1,2)
proof (induction nodes arbitrary: qm vs)
  case (Cons x nodes)
  obtain name node where x: "x = (name, node)"
    by (cases x)
  obtain qm1 v vs' where v: "visit name node qm = Inr (qm1, v)" "visit_all visit nodes qm1 = Inr (qm', vs')" "vs = (name, v) # vs'"
    using Cons.prems(1) x by (auto simp: res_simps)
  have "same_entry qm1 qm' (weight_of name)"
    using visit_all_frame [OF v(2)] Cons.prems(2) x by auto
  then have "outputs_fit env qm' name ps w"
    if "v = Replaced ps" "check_shape (nd_shape w) (weight_shape (nn_layer node))" for ps w
    using visit_replaced [OF v(1) [unfolded that(1)] assms(3) that(2)] by (simp add: outputs_fit_def same_entry_load)
  with Cons.IH [OF v(2)] Cons.prems(2) v(3) x show ?case
    by simp
qed simp

end

text \<open>A layer that is not replaced leaves the mapping alone.\<close>

locale clean_quantizer = layer_quantizer +
  assumes visit_kept: "visit name node qm = Inr (qm', v) \<Longrightarrow> \<nexists>ps. v = Replaced ps \<Longrightarrow> qm' = qm"
begin

lemma visit_all_kept:
  assumes "visit_all visit nodes qm = Inr (qm', vs)" "distinct (map fst nodes)"
    and "\<And>name. name \<in> fst ` set nodes \<Longrightarrow> dict_get (qm_param_map qm) (weight_of name) = None"
  shows "list_all2 (\<lambda>(name, node) (name', v). \<forall>w. (\<nexists>ps. v = Replaced ps) \<longrightarrow>
      load_or_quantize env (Some qm') (weight_of name) w = Inr [(weight_of name, w)]) nodes vs"
  using assms
proof (induction nodes arbitrary: qm vs)
  case (Cons x nodes)
  obtain name node where x: "x = (name, node)"
    by (cases x)
  obtain qm1 v vs' where v: "visit name node qm = Inr (qm1, v)" "visit_all visit nodes qm1 = Inr (qm', vs')" "vs = (name, v) # vs'"
    using Cons.prems(1) x by (auto simp: res_simps)
  have same: "same_entry qm1 qm' (weight_of name)"
    using visit_all_frame [OF v(2)] Cons.prems(2) x by auto
  have "load_or_quantize env (Some qm') (weight_of name) w = Inr [(weight_of name, w)]" if "\<nexists>ps. v = Replaced ps" for w
    using visit_kept [OF v(1) that] Cons.prems(3) [of name] x same_entry_load [OF same]
    by (simp add: load_or_quantize_def)
  moreover have "dict_get (qm_param_map qm1) (weight_of n) = None" if "n \<in> fst ` set nodes" for n
  proof -
    have "n \<noteq> name"
      using that Cons.prems(2) x by auto
    then have "same_entry qm qm1 (weight_of n)"
      using visit_frame [OF v(1), of "weight_of n"] by simp
    then show ?thesis
      using Cons.prems(3) [of n] that by (simp add: same_entry_def)
  qed
  ultimately show ?case
    using Cons.IH [OF v(2)] Cons.prems(2) x v(3) by simp
qed simp

lemma visit_all_fits:
  assumes "visit_all visit nodes empty_mapping = Inr (qm, vs)" "distinct (map fst nodes)" "ready env"
  shows "list_all2 (\<lambda>(name, node) (name', v). name' = name \<and>
    (case v of
       Replaced ps \<Rightarrow> \<forall>w. check_shape (nd_shape w) (weight_shape (nn_layer node)) \<longrightarrow> outputs_fit env qm name ps w
     | _ \<Rightarrow> \<forall>w. load_or_quantize env (Some qm) (weight_of name) w = Inr [(weight_of name, w)])) nodes vs"
proof -
  have "list_all2 (\<lambda>(name, node) (name', v). \<forall>w. (\<nexists>ps. v = Replaced ps) \<longrightarrow>
      load_or_quantize env (Some qm) (weight_of name) w = Inr [(weight_of name, w)]) nodes vs"
    using assms by (intro visit_all_kept) (auto simp: empty_mapping_def)
  with visit_all_replaced [OF assms] show ?thesis
    unfolding list_all2_conv_all_nth by (auto simp: split_beta split: visited.splits)
qed

end

section \<open>Shapes\<close>

lemma check_shapeE:
  assumes "check_shape s es"
  shows "length s = length es"
  using assms by (induction s es rule: check_shape.induct) auto

lemma check_shape_2: "check_shape s [e, DInt k] \<Longrightarrow> \<exists>n. s = [n, k] \<and> check_shape [n] [e]"
  by (cases s; cases "tl s"; cases e) (auto elim: check_shape.elims)

lemma check_shape_pair [simp]:
  "check_shape [n, m] [e, DInt m'] \<longleftrightarrow> check_shape [n] [e] \<and> m = m'"
  by (cases e) auto

lemma check_shape_3:
  "check_shape s [DInt a, DInt b, DInt c] \<longleftrightarrow> s = [a, b, c]"
  by (cases s; cases "tl s"; cases "tl (tl s)") (auto elim: check_shape.elims)

lemma fits_words [simp]: "fits (nd_words dt t) p \<longleftrightarrow> check_shape (tn_shape t) (pm_shape p) \<and> dt = pm_dtype p"
  and fits_floats [simp]: "fits (nd_floats dt x) p \<longleftrightarrow> check_shape (tn_shape x) (pm_shape p) \<and> dt = pm_dtype p"
  by (simp_all add: fits_def nd_words_def nd_floats_def)

lemma shard_param_simps [simp]:
  "pm_shape (shard_param s n p) = pm_shape p" "pm_dtype (shard_param s n p) = pm_dtype p"
  by (simp_all add: shard_param_def apply_sharding_def split: option.splits)

lemma Parameter_simps [simp]: "pm_shape (Parameter s d) = s" "pm_dtype (Parameter s d) = d"
  by (simp_all add: Parameter_def)

lemma weight_params_simps [simp]:
  "weight_params (bias_param d src) = []"
  "weight_params [] = []"
  "weight_params ((attr, p) # ps) = (if attr = ''bias'' then weight_params ps else (attr, p) # weight_params ps)"
  "weight_params (ps @ ps') = weight_params ps @ weight_params ps'"
  by (simp_all add: weight_params_def bias_param_def split: option.splits)

section \<open>Group quantization\<close>

definition group_ready :: "quant_env \<Rightarrow> bool" where
  "group_ready env \<longleftrightarrow> compile_quantize_func (qe_device_type env) = Inr ()"

text \<open>The shapes of the two arrays, in terms of the shape of the weight.\<close>

lemma group_quantize_shapes:
  assumes "tn_shape x = sh @ [k]" "tr \<longrightarrow> length sh = 1"
  shows "\<exists>q s. group_quantize_weight fm c x (int (length sh)) tr = Inr (q, s) \<and>
    tn_shape q = (if tr then rev else id) (sh @ [gq_num_storage_per_group c * ceildiv k (gq_group_size c)]) \<and>
    tn_shape s = (if tr then rev else id) (sh @ [ceildiv k (gq_group_size c)])"
proof (cases tr)
  case True
  then obtain n where "sh = [n]"
    using assms(2) by (auto simp: length_Suc_conv)
  with True assms(1) show ?thesis
    by (simp add: group_quantize_weight_def Let_def norm_axis_def)
qed (use assms in \<open>simp add: group_quantize_weight_def Let_def\<close>)

lemma group_func_shapes:
  assumes "group_ready env" "nd_shape w = sh @ [k]" "tr \<longrightarrow> length sh = 1"
  shows "\<exists>(q :: 32 word tensor) s. group_func env c tr w = Inr [nd_words (gq_storage_dtype c) q, nd_floats (gq_model_dtype c) s] \<and>
    tn_shape q = (if tr then rev else id) (sh @ [gq_num_storage_per_group c * ceildiv k (gq_group_size c)]) \<and>
    tn_shape s = (if tr then rev else id) (sh @ [ceildiv k (gq_group_size c)])"
proof -
  have "tn_shape (tensor_of w) = sh @ [k]"
    using assms(2) by (simp add: tensor_of_def)
  from group_quantize_shapes [OF this assms(3), where fm = "qe_fm env" and c = c] obtain q s where
    qs: "group_quantize_weight (qe_fm env) c (tensor_of w) (int (length sh)) tr = Inr (q, s)"
    "tn_shape q = (if tr then rev else id) (sh @ [gq_num_storage_per_group c * ceildiv k (gq_group_size c)])"
    "tn_shape s = (if tr then rev else id) (sh @ [ceildiv k (gq_group_size c)])"
    by blast
  have "norm_axis (-1) (length (tn_shape (tensor_of w))) = length sh"
    using assms(2) by (simp add: norm_axis_def tensor_of_def)
  with qs assms(1) have "group_func env c tr w = Inr [nd_words (gq_storage_dtype c) q, nd_floats (gq_model_dtype c) s]"
    by (simp add: group_func_def quantize_weight_cached_def group_ready_def Let_def)
  with qs(2,3) show ?thesis
    by blast
qed

lemma group_entry_fits:
  assumes "group_ready env" "nd_shape w = sh @ [k]" "tr \<longrightarrow> length sh = 1"
    and "dict_get (qm_param_map qm) (weight_of name) = Some (q_names name)"
    and "dict_get (qm_map_func qm) (weight_of name) = Some (GroupFunc c tr)"
    and "weight_params ps = [(''q_weight'', pw), (''q_scale'', psc)]"
    and "check_shape ((if tr then rev else id) (sh @ [gq_num_storage_per_group c * ceildiv k (gq_group_size c)])) (pm_shape pw)"
    and "check_shape ((if tr then rev else id) (sh @ [ceildiv k (gq_group_size c)])) (pm_shape psc)"
    and "pm_dtype pw = gq_storage_dtype c" "pm_dtype psc = gq_model_dtype c"
  shows "outputs_fit env qm name ps w"
  using group_func_shapes [OF assms(1-3), where c = c] assms(4-)
  by (auto simp: outputs_fit_def load_or_quantize_def dict_item_def q_names_def)

lemma set_entry_get [simp]:
  "dict_get (qm_param_map (set_func w f (set_params w ns qm))) w = Some ns"
  "dict_get (qm_map_func (set_func w f (set_params w ns qm))) w = Some f"
  by (simp_all add: set_func_def set_params_def)

lemma group_linear_fits:
  assumes "group_linear l c = Inr ps" "check_shape (nd_shape w) [nl_out l, DInt (nl_in l)]" "group_ready env"
    and "tr \<longleftrightarrow> gq_linear_weight_layout c = ''KN''"
  shows "outputs_fit env (set_func (weight_of name) (GroupFunc c tr) (set_params (weight_of name) (q_names name) qm)) name ps w"
proof -
  obtain n where n: "nd_shape w = [n] @ [nl_in l]" "check_shape [n] [nl_out l]"
    using check_shape_2 [OF assms(2)] by auto
  show ?thesis
  proof (cases tr)
    case True
    with assms n(2) show ?thesis
      by (intro group_entry_fits [OF assms(3) n(1), where tr = tr and c = c])
        (auto simp: group_linear_def Let_def split: if_splits)
  next
    case False
    with assms(1,4) obtain pw psc where "ps = (''q_weight'', pw) # (''q_scale'', psc) # bias_param (gq_model_dtype c) l"
        "pm_shape pw = [nl_out l, DInt (gq_num_storage_per_group c * ceildiv (nl_in l) (gq_group_size c))]"
        "pm_shape psc = [nl_out l, DInt (ceildiv (nl_in l) (gq_group_size c))]"
        "pm_dtype pw = gq_storage_dtype c" "pm_dtype psc = gq_model_dtype c"
      by (auto simp: group_linear_def Let_def split: if_splits)
    with False n(2) show ?thesis
      by (intro group_entry_fits [OF assms(3) n(1), where tr = tr and c = c]) auto
  qed
qed

lemma group_embedding_fits:
  assumes "check_shape (nd_shape w) [num, DInt d]" "group_ready env"
  shows "outputs_fit env (set_func (weight_of name) (GroupFunc c False) (set_params (weight_of name) (q_names name) qm))
    name (group_embedding num d c) w"
proof -
  obtain n where n: "nd_shape w = [n] @ [d]" "check_shape [n] [num]"
    using check_shape_2 [OF assms(1)] by auto
  show ?thesis
    using n(2)
    by (intro group_entry_fits [OF assms(2) n(1), where tr = False and c = c])
      (auto simp: group_embedding_def Let_def)
qed

lemma group_experts_fits:
  assumes "group_experts e c = Inr ps" "nd_shape w = [mx_num e, mx_out e, mx_in e]" "group_ready env"
  shows "outputs_fit env (set_func (weight_of name) (GroupFunc c False) (set_params (weight_of name) (q_names name) qm)) name ps w"
proof -
  have "nd_shape w = [mx_num e, mx_out e] @ [mx_in e]"
    using assms(2) by simp
  from group_entry_fits [OF assms(3) this, where tr = False and c = c] assms(1) show ?thesis
    by (auto simp: group_experts_def Let_def split: if_splits)
qed

interpretation group_quant: clean_quantizer "group_visit_module c" group_ready for c
proof unfold_locales
  fix name node qm qm' v k
  assume "group_visit_module c name node qm = Inr (qm', v)" "k \<noteq> weight_of name"
  then show "same_entry qm qm' k"
    by (auto simp: group_visit_module_def Let_def res_simps split: nn_layer.splits if_splits)
next
  fix name node qm qm' ps env and w :: ndarray
  assume "group_visit_module c name node qm = Inr (qm', Replaced ps)" "group_ready env"
    "check_shape (nd_shape w) (weight_shape (nn_layer node))"
  then show "outputs_fit env qm' name ps w"
    by (auto simp: group_visit_module_def Let_def res_simps check_shape_3 split: nn_layer.splits if_splits
        intro: group_linear_fits group_embedding_fits group_experts_fits)
next
  fix name node qm qm' v
  assume "group_visit_module c name node qm = Inr (qm', v)" "\<nexists>ps. v = Replaced ps"
  then show "qm' = qm"
    by (auto simp: group_visit_module_def Let_def res_simps split: nn_layer.splits if_splits)
qed

section \<open>FasterTransformer quantization\<close>

definition ft_ready :: "quant_env \<Rightarrow> bool" where
  "ft_ready env \<longleftrightarrow> qe_cutlass env \<and> qe_device_type env = ''cuda''"

lemma ft_ready_group: "ft_ready env \<Longrightarrow> group_ready env"
  by (simp add: ft_ready_def group_ready_def compile_quantize_func_def)

lemma ft_linear_fits:
  assumes "ft_ready env" "nd_shape w = [n, nl_in l]"
  shows "outputs_fit env (set_func (weight_of name) (FTFunc c) (set_params (weight_of name) (q_names name) qm))
    name (ft_linear l n c) w"
  using assms
  by (simp add: outputs_fit_def load_or_quantize_def dict_item_def q_names_def ft_func_def ft_ready_def
      ft_quantize_program_def tensor_of_def ft_linear_def Let_def)

lemma fallback_layout: "fallback_group_quantize c = Inr g \<Longrightarrow> gq_linear_weight_layout g \<noteq> ''KN''"
  by (auto simp: fallback_group_quantize_def GroupQuantize_def group_post_init_def Let_def split: if_splits)

interpretation ft_quant: layer_quantizer "ft_visit_module c" ft_ready for c
proof unfold_locales
  fix name node qm qm' v k
  assume "ft_visit_module c name node qm = Inr (qm', v)" "k \<noteq> weight_of name"
  then show "same_entry qm qm' k"
    by (auto simp: ft_visit_module_def Let_def res_simps split: nn_layer.splits if_splits extent.splits)
next
  fix name node qm qm' ps env and w :: ndarray
  assume v: "ft_visit_module c name node qm = Inr (qm', Replaced ps)" "ft_ready env"
    "check_shape (nd_shape w) (weight_shape (nn_layer node))"
  show "outputs_fit env qm' name ps w"
  proof (cases "nn_layer node")
    case (Linear l)
    with v(3) have sh: "check_shape (nd_shape w) [nl_out l, DInt (nl_in l)]"
      by simp
    have "nd_shape w = [n, nl_in l]" if "nl_out l = DInt n" for n
      using check_shape_2 [OF sh] that by auto
    with Linear v sh show ?thesis
      by (auto simp: ft_visit_module_def Let_def res_simps split: if_splits extent.splits
          intro: ft_linear_fits intro!: group_linear_fits dest: fallback_layout ft_ready_group)
  qed (use v in \<open>auto simp: ft_visit_module_def Let_def res_simps intro: group_embedding_fits ft_ready_group\<close>)
qed

section \<open>Per-tensor quantization\<close>

text \<open>The computed field is consistent, as \<open>__post_init__\<close> makes it.\<close>

definition per_tensor_ready :: "per_tensor_quantize \<Rightarrow> quant_env \<Rightarrow> bool" where
  "per_tensor_ready c env \<longleftrightarrow>
     group_ready env \<and> 0 < dt_bits (pt_weight_dtype c) \<and>
     pt_num_elem_per_storage c = dt_bits (pt_storage_dtype c) div dt_bits (pt_weight_dtype c)"

lemma ceildiv_1 [simp]: "ceildiv k 1 = k"
  by (simp add: ceildiv_def)

lemma compute_quantized_shape:
  assumes "per_tensor_ready c env" "tn_shape x = sh @ [k]"
  shows "tn_shape (compute_quantized_tensor env c x s) = sh @ [ceildiv k (pt_num_elem_per_storage c)]"
proof -
  have "norm_axis (-1) (Suc (length sh)) = length sh"
    by (simp add: norm_axis_def)
  with assms show ?thesis
    by (cases "pt_weight_dtype c = pt_storage_dtype c")
      (auto simp: compute_quantized_tensor_def Let_def per_tensor_ready_def pack_weight_def simp del: One_nat_def)
qed

text \<open>A layer with the parameters \<open>pw\<close>, the scales, and a bias.\<close>

lemma per_tensor_entry_fits:
  assumes "per_tensor_ready c env" "nd_shape w = sh @ [k]"
    and "weight_params ps = (''q_weight'', pw) # per_tensor_scales cal c"
    and "dict_get ps ''q_calibration_scale'' = dict_get (per_tensor_scales cal c) ''q_calibration_scale''"
    and "check_shape (sh @ [ceildiv k (pt_num_elem_per_storage c)]) (pm_shape pw)" "pm_dtype pw = pt_storage_dtype c"
  shows "outputs_fit env (add_calibration name ps
    (set_func (weight_of name) (PerTensorFunc c) (set_params (weight_of name)
      (if pt_use_scale c then q_names name else [name @ ''.q_weight'']) qm))) name ps w"
proof -
  have "tn_shape (compute_quantized_tensor env c (tensor_of w) s) = sh @ [ceildiv k (pt_num_elem_per_storage c)]" for s
    using assms(1,2) by (intro compute_quantized_shape) (auto simp: tensor_of_def)
  moreover have "compile_quantize_func (qe_device_type env) = Inr ()"
    using assms(1) by (simp add: per_tensor_ready_def group_ready_def)
  ultimately show ?thesis
    using assms(3-)
    by (auto simp: outputs_fit_def load_or_quantize_def dict_item_def q_names_def add_calibration_def Let_def
        per_tensor_func_def quantize_float8_def per_tensor_scales_def fits_def nd_words_def nd_floats_def
        set_func_def set_params_def split: if_splits)
qed

lemma per_tensor_bias_get [simp]:
  "dict_get (xs @ bias_param d l) ''q_calibration_scale'' = dict_get xs ''q_calibration_scale''"
  by (induction xs) (auto simp: bias_param_def split: option.splits)

lemma per_tensor_scales_params [simp]: "weight_params (per_tensor_scales cal c) = per_tensor_scales cal c"
  by (simp add: per_tensor_scales_def)

lemma per_tensor_visit_replaced:
  assumes "per_tensor_visit_module c name node qm = Inr (qm', Replaced ps)"
  shows "qm' = add_calibration name ps
      (set_func (weight_of name) (PerTensorFunc c) (set_params (weight_of name)
        (if pt_use_scale c then q_names name else [name @ ''.q_weight'']) qm))"
    and "case nn_layer node of Linear l \<Rightarrow> ps = per_tensor_linear l c | Embedding num d \<Rightarrow> ps = per_tensor_embedding num d c
      | Experts e \<Rightarrow> per_tensor_experts e c = Inr ps | OtherLayer \<Rightarrow> False"
  using assms by (auto simp: per_tensor_visit_module_def Let_def res_simps split: nn_layer.splits if_split_asm)

interpretation per_tensor_quant: clean_quantizer "per_tensor_visit_module c" "per_tensor_ready c" for c
proof unfold_locales
  fix name node qm qm' v k
  assume "per_tensor_visit_module c name node qm = Inr (qm', v)" "k \<noteq> weight_of name"
  then show "same_entry qm qm' k"
    by (auto simp: per_tensor_visit_module_def add_calibration_def Let_def res_simps
        split: nn_layer.splits if_splits option.splits)
next
  fix name node qm qm' ps env and w :: ndarray
  assume v: "per_tensor_visit_module c name node qm = Inr (qm', Replaced ps)" "per_tensor_ready c env"
    "check_shape (nd_shape w) (weight_shape (nn_layer node))"
  show "outputs_fit env qm' name ps w"
  proof (cases "nn_layer node")
    case (Linear l)
    with v(3) obtain n where "nd_shape w = [n] @ [nl_in l]" "check_shape [n] [nl_out l]"
      using check_shape_2 by fastforce
    with Linear v(2) per_tensor_visit_replaced(2) [OF v(1)] show ?thesis
      unfolding per_tensor_visit_replaced(1) [OF v(1)]
      by (intro per_tensor_entry_fits [where cal = True and sh = "[n]" and k = "nl_in l"])
        (auto simp: per_tensor_linear_def)
  next
    case (Embedding num d)
    with v(3) obtain n where "nd_shape w = [n] @ [d]" "check_shape [n] [num]"
      using check_shape_2 by fastforce
    with Embedding v(2) per_tensor_visit_replaced(2) [OF v(1)] show ?thesis
      unfolding per_tensor_visit_replaced(1) [OF v(1)]
      by (intro per_tensor_entry_fits [where cal = False and sh = "[n]" and k = d])
        (auto simp: per_tensor_embedding_def)
  next
    case (Experts e)
    with v(3) have "nd_shape w = [mx_num e, mx_out e] @ [mx_in e]"
      by (simp add: check_shape_3)
    with Experts v(2) per_tensor_visit_replaced(2) [OF v(1)] show ?thesis
      unfolding per_tensor_visit_replaced(1) [OF v(1)]
      by (intro per_tensor_entry_fits [where cal = True and sh = "[mx_num e, mx_out e]" and k = "mx_in e"])
        (auto simp: per_tensor_experts_def split: if_splits)
  qed (use per_tensor_visit_replaced(2) [OF v(1)] in simp)
next
  fix name node qm qm' v
  assume "per_tensor_visit_module c name node qm = Inr (qm', v)" "\<nexists>ps. v = Replaced ps"
  then show "qm' = qm"
    by (auto simp: per_tensor_visit_module_def Let_def res_simps split: nn_layer.splits if_splits)
qed

section \<open>Whole models\<close>

text \<open>
  C10: In a model quantized by group quantization, the weight of every layer that was replaced is
  loaded as exactly the quantized parameters of its new layer, in order, with their shapes and
  data types, for linear layers in either layout, embeddings and experts; the weight of every
  other layer is loaded unchanged.
\<close>

theorem group_model_weights_fit:
  assumes "visit_all (group_visit_module c) nodes empty_mapping = Inr (qm, vs)" "distinct (map fst nodes)"
    and "group_ready env"
  shows "list_all2 (\<lambda>(name, node) (name', v). name' = name \<and>
    (case v of
       Replaced ps \<Rightarrow> \<forall>w. check_shape (nd_shape w) (weight_shape (nn_layer node)) \<longrightarrow> outputs_fit env qm name ps w
     | _ \<Rightarrow> \<forall>w. load_or_quantize env (Some qm) (weight_of name) w = Inr [(weight_of name, w)])) nodes vs"
  using assms by (rule group_quant.visit_all_fits)

text \<open>
  The same for per-tensor quantization, where the parameters of a linear layer or of experts
  include the calibration scale if the config asks for one.
\<close>

theorem per_tensor_model_weights_fit:
  assumes "visit_all (per_tensor_visit_module c) nodes empty_mapping = Inr (qm, vs)" "distinct (map fst nodes)"
    and "per_tensor_ready c env"
  shows "list_all2 (\<lambda>(name, node) (name', v). name' = name \<and>
    (case v of
       Replaced ps \<Rightarrow> \<forall>w. check_shape (nd_shape w) (weight_shape (nn_layer node)) \<longrightarrow> outputs_fit env qm name ps w
     | _ \<Rightarrow> \<forall>w. load_or_quantize env (Some qm) (weight_of name) w = Inr [(weight_of name, w)])) nodes vs"
  using assms by (rule per_tensor_quant.visit_all_fits)

lemma visit_all_append:
  "visit_all visit (xs @ ys) qm =
   bindR (visit_all visit xs qm) (\<lambda>(qm1, vs). bindR (visit_all visit ys qm1) (\<lambda>(qm2, vs'). Inr (qm2, vs @ vs')))"
  by (induction xs arbitrary: qm) (auto simp: bindR_def split: sum.splits)

text \<open>
  C38: FasterTransformer quantization of a model with an expert gate that is not one of the layers
  falling back to group quantization: the visitor enters the gate's weight into the mapping but
  neither replaces the layer nor gives the weight a function, so that loading the weight raises
  \<open>KeyError\<close>.
\<close>

theorem ft_moe_gate_not_loadable:
  assumes "visit_all (ft_visit_module c) nodes empty_mapping = Inr (qm, vs)" "distinct (map fst nodes)"
    and "(name, node) \<in> set nodes" "nn_layer node = Linear l" "is_moe_gate name l" "ft_falls_back c name l = Inr False"
  shows "load_or_quantize env (Some qm) (weight_of name) w = Inl (KeyError (weight_of name))"
proof -
  obtain xs ys where n: "nodes = xs @ (name, node) # ys"
    using assms(3) by (auto simp: in_set_conv_decomp)
  obtain qm1 vs1 qm2 v vs2 where v: "visit_all (ft_visit_module c) xs empty_mapping = Inr (qm1, vs1)"
      "ft_visit_module c name node qm1 = Inr (qm2, v)" "visit_all (ft_visit_module c) ys qm2 = Inr (qm, vs2)"
    using assms(1) by (auto simp: n visit_all_append res_simps)
  have "same_entry empty_mapping qm1 (weight_of name)" "same_entry qm2 qm (weight_of name)"
    using ft_quant.visit_all_frame [OF v(1), of "weight_of name"] ft_quant.visit_all_frame [OF v(3), of "weight_of name"]
      assms(2) n by simp_all
  moreover have "qm2 = set_params (weight_of name) (q_names name) qm1"
    using v(2) assms(4-6) by (simp add: ft_visit_module_def Let_def)
  ultimately show ?thesis
    by (simp add: load_or_quantize_def same_entry_def dict_item_def empty_mapping_def set_params_def)
qed

section \<open>Examples\<close>

definition example_env :: quant_env where
  "example_env = \<lparr>qe_fm = fixed_fm, qe_device_type = ''cuda'', qe_cutlass = True, qe_preprocess = tn_at,
     qe_fp8 = (\<lambda>_. 0), qe_fp8_div = (\<lambda>_ _. 0), qe_empty = (\<lambda>_. 0)\<rparr>"

definition example_linear :: nn_node where
  "example_linear = \<lparr>nn_layer = Linear \<lparr>nl_in = 16, nl_out = DInt 8, nl_bias = None, nl_out_dtype = None, nl_shard = None\<rparr>,
     nn_no_quantization = False\<rparr>"

definition example_group :: group_quantize where
  "example_group = \<lparr>gq_name = ''q4'', gq_kind = ''group-quant'', gq_group_size = 8, gq_quantize_dtype = DataType DT_INT 4,
     gq_storage_dtype = uint32, gq_model_dtype = float16, gq_linear_weight_layout = ''KN'', gq_quantize_embedding = True,
     gq_quantize_final_fc = True, gq_num_elem_per_storage = 8, gq_num_storage_per_group = 1, gq_max_int_value = 7,
     gq_tensor_parallel_shards = 0, gq_linear_quant_axis = 0\<rparr>"

definition example_per_tensor :: per_tensor_quantize where
  "example_per_tensor = \<lparr>pt_name = ''e4'', pt_kind = ''per-tensor-quant'', pt_activation_dtype = DataType DT_Float8E4M3FN 8,
     pt_weight_dtype = DataType DT_Float8E4M3FN 8, pt_storage_dtype = uint32, pt_model_dtype = float16,
     pt_quantize_embedding = False, pt_quantize_final_fc = False, pt_quantize_linear = True, pt_num_elem_per_storage = 4,
     pt_max_int_value = 448, pt_use_scale = True, pt_calibration_mode = ''inference'', pt_tensor_parallel_shards = 1\<rparr>"

definition example_ft :: ft_quantize where
  "example_ft = \<lparr>ft_name = ''q4f16_ft'', ft_kind = ''ft-quant'', ft_quantize_dtype = DataType DT_INT 4,
     ft_storage_dtype = DataType DT_INT 8, ft_model_dtype = float16, ft_group_size = None, ft_num_elem_per_storage = 2,
     ft_max_int_value = 7\<rparr>"

lemmas example_defs =
  example_linear_def example_group_def example_per_tensor_def example_ft_def empty_mapping_def

lemma example_ready: "group_ready example_env" "per_tensor_ready example_per_tensor example_env" "ft_ready example_env"
  by (simp_all add: group_ready_def per_tensor_ready_def ft_ready_def example_env_def example_per_tensor_def
      compile_quantize_func_def)

theorem group_model_weights_fit_witness:
  "\<exists>qm ps. visit_all (group_visit_module example_group) [(''l'', example_linear)] empty_mapping = Inr (qm, [(''l'', Replaced ps)]) \<and>
    map fst ps = [''q_weight'', ''q_scale''] \<and>
    (\<forall>w. nd_shape w = [8, 16] \<longrightarrow> outputs_fit example_env qm ''l'' ps w)"
proof -
  obtain qm ps where v: "visit_all (group_visit_module example_group) [(''l'', example_linear)] empty_mapping = Inr (qm, [(''l'', Replaced ps)])"
      "map fst ps = [''q_weight'', ''q_scale'']"
    by (simp add: example_defs group_visit_module_def is_final_fc_def is_moe_gate_def suffix_Cons Let_def
        group_linear_def bias_param_def)
  from group_model_weights_fit [OF v(1) _ example_ready(1)] v show ?thesis
    by (auto simp: example_linear_def)
qed

theorem per_tensor_model_weights_fit_witness:
  "\<exists>qm ps. visit_all (per_tensor_visit_module example_per_tensor) [(''l'', example_linear)] empty_mapping = Inr (qm, [(''l'', Replaced ps)]) \<and>
    map fst ps = [''q_weight'', ''q_scale'', ''q_calibration_scale''] \<and>
    (\<forall>w. nd_shape w = [8, 16] \<longrightarrow> outputs_fit example_env qm ''l'' ps w)"
proof -
  obtain qm ps where v: "visit_all (per_tensor_visit_module example_per_tensor) [(''l'', example_linear)] empty_mapping = Inr (qm, [(''l'', Replaced ps)])"
      "map fst ps = [''q_weight'', ''q_scale'', ''q_calibration_scale'']"
    by (simp add: example_defs per_tensor_visit_module_def is_final_fc_def is_moe_gate_def suffix_Cons Let_def per_tensor_linear_def
        per_tensor_scales_def bias_param_def)
  from per_tensor_model_weights_fit [OF v(1) _ example_ready(2)] v show ?thesis
    by (auto simp: example_linear_def)
qed

theorem ft_moe_gate_not_loadable_witness:
  "\<exists>qm vs. visit_all (ft_visit_module example_ft) [(''gate'', example_linear)] empty_mapping = Inr (qm, vs) \<and>
    (\<forall>w. load_or_quantize example_env (Some qm) ''gate.weight'' w = Inl (KeyError ''gate.weight''))"
proof -
  let ?l = "\<lparr>nl_in = 16, nl_out = DInt 8, nl_bias = None, nl_out_dtype = None, nl_shard = None\<rparr>"
  have g: "nn_layer example_linear = Linear ?l" "is_moe_gate ''gate'' ?l" "ft_falls_back example_ft ''gate'' ?l = Inr False"
    by (simp_all add: example_defs is_moe_gate_def ft_falls_back_def is_final_fc_def not_multiple_def)
  then obtain qm vs where v: "visit_all (ft_visit_module example_ft) [(''gate'', example_linear)] empty_mapping = Inr (qm, vs)"
    by (simp add: ft_visit_module_def Let_def)
  from ft_moe_gate_not_loadable [OF v _ _ g] v show ?thesis
    by (auto simp: weight_of_def)
qed

end
