(* ===== verification/Preshard_Correct.thy ===== *)
theory Preshard_Correct
  imports Loader_Correct
begin

text \<open>
  Pre-sharding of quantized weights. The converter quantizes the whole weight and shards the
  result, while a worker of the sharded model computes with the quantization of its own shard.
  For a weight that is sharded by its output features, in the layout with the output features
  first, the two agree. In the other layout the shard strategy of the weight is copied to the
  transposed parameter unchanged, and sharding by segments fails.
\<close>

section \<open>Rows of a sharded weight\<close>

text \<open>\<open>x\<close> is \<open>w\<close> with its rows taken from the positions \<open>f\<close>.\<close>

definition rows_of :: "(nat \<Rightarrow> nat) \<Rightarrow> nat \<Rightarrow> nat \<Rightarrow> 'a tensor \<Rightarrow> 'a tensor \<Rightarrow> bool" where
  "rows_of f n k w x \<longleftrightarrow> tn_shape x = [n, k] \<and> (\<forall>r < n. \<forall>j < k. tn_at x [r, j] = tn_at w [f r, j])"

lemma in_shape_2: "in_shape [n, k] [r, j] \<longleftrightarrow> r < n \<and> j < k"
  by (simp add: in_shape_def)

lemma shard_rows:
  assumes "sd_dim s = 0" "sum_list (segments s [n, k]) = n" "i < shards" "shard_func s shards [n, k] w = Inr ts"
  shows "rows_of (shard_pos (segments s [n, k]) shards i) n k w (ts ! i)"
proof -
  have "tn_shape (ts ! i) = [n, k]"
    and "\<And>idx. in_shape [n, k] idx \<Longrightarrow> tn_at (ts ! i) idx = tn_at w (idx[0 := shard_pos (segments s [n, k]) shards i (idx ! 0)])"
    using shard_func_result [of s "[n, k]" shards w] assms by auto
  then show ?thesis
    by (auto simp: rows_of_def in_shape_2)
qed

lemma segments_same_rows: "sd_dim s = 0 \<Longrightarrow> segments s [n, k'] = segments s [n, k]"
  by (simp add: segments_def split: option.splits list.splits)

lemma shard_all_rows:
  assumes "sd_dim s = 0" "sum_list (segments s [n, k]) = n"
  shows "\<exists>ts. shard_func s shards [n, k] w = Inr ts \<and>
    (\<forall>i < shards. rows_of (shard_pos (segments s [n, k]) shards i) n k w (ts ! i))"
proof -
  obtain ts where "shard_func s shards [n, k] w = Inr ts"
    using shard_func_result [of s "[n, k]" shards w] assms by auto
  then show ?thesis
    using shard_rows [OF assms] by blast
qed

text \<open>The quantizer works row by row.\<close>

lemma group_max_abs_rows:
  assumes "rows_of f n k w x" "tn_shape w ! 1 = k" "r < n"
  shows "group_max_abs fm c x 1 [r, g] = group_max_abs fm c w 1 [f r, g]"
  using assms unfolding group_max_abs_def rows_of_def
  by (intro arg_cong [where f = "\<lambda>l. fold max l (fm_min_value fm)"]) auto

lemma group_scale_rows:
  assumes "rows_of f n k w x" "tn_shape w ! 1 = k" "r < n"
  shows "tn_at (group_scale fm c x 1) [r, g] = tn_at (group_scale fm c w 1) [f r, g]"
  using group_max_abs_rows [OF assms] by (simp add: group_scale_def)

lemma fcast_any:
  assumes "\<forall>idx idx'. fm_nan_cast fm idx = fm_nan_cast fm idx'"
  shows "fcast fm idx v = fcast fm idx' v"
  using assms by (cases v) (auto intro: arg_cong)

lemma scaled_weight_rows:
  assumes "rows_of f n k w x" "tn_shape w ! 1 = k" "r < n" "j < k"
    and "\<forall>idx idx'. fm_nan_cast fm idx = fm_nan_cast fm idx'"
  shows "tn_at (group_scaled_weight fm c x 1 (group_scale fm c x 1)) [r, j] =
    tn_at (group_scaled_weight fm c w 1 (group_scale fm c w 1)) [f r, j]"
  using group_scale_rows [OF assms(1-3)] assms fcast_any [OF assms(5), of "[r, j]" _ "[f r, j]"]
  by (simp add: group_scaled_weight_def rows_of_def)

lemma packed_rows:
  assumes "rows_of f n k w x" "tn_shape w ! 1 = k" "length (tn_shape w) = 2" "r < n"
    and "\<forall>idx idx'. fm_nan_cast fm idx = fm_nan_cast fm idx'"
  shows "tn_at (pack_weight (group_scaled_weight fm c x 1 (group_scale fm c x 1)) 1 ne b os) [r, p] =
    tn_at (pack_weight (group_scaled_weight fm c w 1 (group_scale fm c w 1)) 1 ne b os') [f r, p]"
proof -
  have ax: "1 = norm_axis 1 (length (tn_shape (group_scaled_weight fm c y 1 s)))" for y s
    by (simp add: norm_axis_def)
  have "tn_shape x ! 1 = k"
    using assms(1) by (simp add: rows_of_def)
  then show ?thesis
    unfolding pack_weight_simps(3) [OF ax]
    using assms(2) scaled_weight_rows [OF assms(1,2,4) _ assms(5)]
    by (intro arg_cong [where f = sum_list]) (auto simp: group_scaled_weight_def [of _ _ _ _ "group_scale _ _ _ _"])
qed

lemma quantize_2d:
  assumes "tn_shape w = [n, k]"
  shows "group_quantize_weight fm c w (-1) False =
    Inr (pack_weight (group_scaled_weight fm c w 1 (group_scale fm c w 1)) 1
          (gq_num_elem_per_storage c) (dt_bits (gq_quantize_dtype c))
          (Some [n, gq_num_storage_per_group c * ceildiv k (gq_group_size c)]),
        group_scale fm c w 1)"
  using group_quantize_weight_eq [of 1 "-1" w fm c] assms by (simp add: norm_axis_def)

text \<open>
  C11: Pre-sharding commutes with group quantization in the layout with the output features first:
  for a weight that is sharded by its output features (in segments or not), and when a cast to
  the model's type gives the same value for NaN everywhere, quantizing the whole weight and
  sharding the quantized weight and the scales gives every worker the quantization of its own shard
  of the weight.
\<close>

theorem preshard_commutes_with_quantization:
  fixes fm c
  assumes "sd_dim s = 0" "sum_list (segments s [n, k]) = n"
    and "tn_shape w = compute_in_shape s shards [n, k]"
    and nan: "\<forall>idx idx'. fm_nan_cast fm idx = fm_nan_cast fm idx'"
  shows "\<exists>ws q sc qs ss.
    shard_func s shards [n, k] w = Inr ws \<and> group_quantize_weight fm c w (-1) False = Inr (q, sc) \<and>
    shard_func s shards [n, gq_num_storage_per_group c * ceildiv k (gq_group_size c)] q = Inr qs \<and>
    shard_func s shards [n, ceildiv k (gq_group_size c)] sc = Inr ss \<and>
    (\<forall>i < shards. \<exists>q' sc'. group_quantize_weight fm c (ws ! i) (-1) False = Inr (q', sc') \<and>
      rows_of id n (gq_num_storage_per_group c * ceildiv k (gq_group_size c)) (qs ! i) q' \<and>
      rows_of id n (ceildiv k (gq_group_size c)) (ss ! i) sc')"
proof -
  let ?st = "gq_num_storage_per_group c * ceildiv k (gq_group_size c)" and ?ng = "ceildiv k (gq_group_size c)"
  let ?f = "shard_pos (segments s [n, k]) shards"
  have w: "tn_shape w = [n * shards, k]"
    using assms(1,3) by (simp add: compute_in_shape_def)
  have sum: "sum_list (segments s [n, k']) = n" for k'
    using assms(1,2) segments_same_rows [of s n k' k] by simp
  note q = quantize_2d [OF w, of fm c]
  obtain ws where ws: "shard_func s shards [n, k] w = Inr ws" "\<forall>i < shards. rows_of (?f i) n k w (ws ! i)"
    using shard_all_rows [OF assms(1,2)] by blast
  let ?q = "fst (projr (group_quantize_weight fm c w (-1) False))" and ?sc = "snd (projr (group_quantize_weight fm c w (-1) False))"
  obtain qs where qs: "shard_func s shards [n, ?st] ?q = Inr qs" "\<forall>i < shards. rows_of (?f i) n ?st ?q (qs ! i)"
    using shard_all_rows [OF assms(1) sum] segments_same_rows [OF assms(1), of n ?st k] by metis
  obtain ss where ss: "shard_func s shards [n, ?ng] ?sc = Inr ss" "\<forall>i < shards. rows_of (?f i) n ?ng ?sc (ss ! i)"
    using shard_all_rows [OF assms(1) sum] segments_same_rows [OF assms(1), of n ?ng k] by metis
  have "\<exists>q' sc'. group_quantize_weight fm c (ws ! i) (-1) False = Inr (q', sc') \<and>
      rows_of id n ?st (qs ! i) q' \<and> rows_of id n ?ng (ss ! i) sc'" if "i < shards" for i
  proof -
    have r: "rows_of (?f i) n k w (ws ! i)"
      using ws(2) that by blast
    then have "tn_shape (ws ! i) = [n, k]"
      by (simp add: rows_of_def)
    note q' = quantize_2d [OF this, of fm c]
    show ?thesis
      unfolding q'
      using qs(2) ss(2) that packed_rows [OF r _ _ _ nan, of _ c] group_scale_rows [OF r, of _ fm c] w r
      by (auto simp: rows_of_def q)
  qed
  with ws(1) qs(1) ss(1) show ?thesis
    by (intro exI [of _ ws] exI [of _ ?q] exI [of _ ?sc] exI [of _ qs] exI [of _ ss]) (simp add: q)
qed

theorem preshard_commutes_with_quantization_witness:
  "\<forall>c. \<exists>ws q sc qs ss.
    shard_func \<lparr>sd_name = ''w'', sd_dim = 0, sd_segs = Some [2, 1]\<rparr> 2 [3, 8] (te_compute [6, 8] (\<lambda>idx. of_nat (idx ! 0))) = Inr ws \<and>
    group_quantize_weight fixed_fm c (te_compute [6, 8] (\<lambda>idx. of_nat (idx ! 0))) (-1) False = Inr (q, sc) \<and>
    shard_func \<lparr>sd_name = ''w'', sd_dim = 0, sd_segs = Some [2, 1]\<rparr> 2
      [3, gq_num_storage_per_group c * ceildiv 8 (gq_group_size c)] q = Inr qs \<and>
    shard_func \<lparr>sd_name = ''w'', sd_dim = 0, sd_segs = Some [2, 1]\<rparr> 2 [3, ceildiv 8 (gq_group_size c)] sc = Inr ss \<and>
    (\<forall>i < 2. \<exists>q' sc'. group_quantize_weight fixed_fm c (ws ! i) (-1) False = Inr (q', sc') \<and>
      rows_of id 3 (gq_num_storage_per_group c * ceildiv 8 (gq_group_size c)) (qs ! i) q' \<and>
      rows_of id 3 (ceildiv 8 (gq_group_size c)) (ss ! i) sc')"
  by (rule allI, rule preshard_commutes_with_quantization) (simp_all add: segments_def compute_in_shape_def fixed_fm_def)

text \<open>
  C39: In the layout with the input features first, the shard strategy of a linear layer's weight
  (here: by segments of its output features, as for a fused projection) is copied to the
  transposed quantized weight with the same dimension. Sharding the weight itself works; sharding
  the quantized weight raises \<open>AssertionError\<close>, unless the two dimensions happen to be equal.
\<close>

theorem kn_layout_segments_not_shardable:
  assumes "group_linear l c = Inr ps" "gq_linear_weight_layout c = ''KN''" "nl_out l = DInt n"
    and "nl_shard l = Some s" "sd_dim s = 0" "sd_segs s = Some segs" "segs \<noteq> []" "sum_list segs = n"
    and "gq_num_storage_per_group c * ceildiv (nl_in l) (gq_group_size c) \<noteq> n"
    and "dict_get (pr_funcs st) (sd_name s @ ''_q_weight'') = None"
  shows "(\<exists>f. create_shard_func shards s (Parameter [DInt n, DInt (nl_in l)] (gq_model_dtype c)) = Inr f) \<and>
    (\<exists>p. dict_get ps ''q_weight'' = Some p \<and> preshard_param shards st (name, p) = Inl AssertionError)"
proof -
  have "segments s' sh = segs" if "sd_segs s' = Some segs" for s' sh
    using that assms(7) by (cases segs) (simp_all add: segments_def)
  with assms show ?thesis
    by (auto simp: create_shard_func_def Parameter_def group_linear_def Let_def shard_param_def apply_sharding_def
        preshard_param_def split: if_splits)
qed

theorem kn_layout_segments_not_shardable_witness:
  "\<exists>ps p. group_linear \<lparr>nl_in = 16, nl_out = DInt 6, nl_bias = None, nl_out_dtype = None,
      nl_shard = Some \<lparr>sd_name = ''qkv'', sd_dim = 0, sd_segs = Some [4, 1, 1]\<rparr>\<rparr>
      \<lparr>gq_name = ''q4'', gq_kind = ''group-quant'', gq_group_size = 8, gq_quantize_dtype = DataType DT_INT 4,
       gq_storage_dtype = uint32, gq_model_dtype = float16, gq_linear_weight_layout = ''KN'', gq_quantize_embedding = True,
       gq_quantize_final_fc = True, gq_num_elem_per_storage = 8, gq_num_storage_per_group = 1, gq_max_int_value = 7,
       gq_tensor_parallel_shards = 2, gq_linear_quant_axis = 0\<rparr> = Inr ps \<and>
    dict_get ps ''q_weight'' = Some p \<and>
    preshard_param 2 \<lparr>pr_named = [], pr_names = [], pr_funcs = []\<rparr> (''qkv.q_weight'', p) = Inl AssertionError"
proof -
  let ?s = "\<lparr>sd_name = ''qkv'', sd_dim = 0, sd_segs = Some [4, 1, 1]\<rparr>"
  let ?l = "\<lparr>nl_in = 16, nl_out = DInt 6, nl_bias = None, nl_out_dtype = None, nl_shard = Some ?s\<rparr>"
  let ?c = "\<lparr>gq_name = ''q4'', gq_kind = ''group-quant'', gq_group_size = 8, gq_quantize_dtype = DataType DT_INT 4,
       gq_storage_dtype = uint32, gq_model_dtype = float16, gq_linear_weight_layout = ''KN'', gq_quantize_embedding = True,
       gq_quantize_final_fc = True, gq_num_elem_per_storage = 8, gq_num_storage_per_group = 1, gq_max_int_value = 7,
       gq_tensor_parallel_shards = 2, gq_linear_quant_axis = 0\<rparr>"
  obtain ps where ps: "group_linear ?l ?c = Inr ps"
    by (simp add: group_linear_def Let_def)
  have "ceildiv 16 8 = 2"
    by (simp add: ceildiv_def)
  with kn_layout_segments_not_shardable [OF ps, of 6 ?s "[4, 1, 1]" "\<lparr>pr_named = [], pr_names = [], pr_funcs = []\<rparr>" 2 "''qkv.q_weight''"] ps
  show ?thesis
    by auto
qed

end
