(* ===== verification/Block_Scale.thy ===== *)
theory Block_Scale
  imports Quantization_Correct
begin

text \<open>
  Block-scale quantization (\<open>quantization/block_scale_quantization.py\<close>): the weights of a checkpoint are
  8-bit floats already, with one scale per block of a weight. The visitor gives the layers of a model
  the parameters of such a checkpoint; the activations are quantized at run time, in groups of a row,
  by \<open>rowwise_group_quant_fp8\<close>. The lemmas show when the scales of a sharded weight can be sharded with
  it, and the error of the quantization of activations.
\<close>

section \<open>Layers\<close>

type_synonym block_size = "nat \<times> nat"

definition zero_division :: py_error where
  "zero_division = ForeignError ''ZeroDivisionError''"

text \<open>\<open>weight_block_size[i]\<close>; negative indices count from the end.\<close>

definition block_at :: "block_size \<Rightarrow> int \<Rightarrow> nat res" where
  "block_at b i =
     (if i = 0 \<or> i = - 2 then Inr (fst b) else if i = 1 \<or> i = - 1 then Inr (snd b) else Inl IndexError)"

text \<open>
  The strategy of the scales: \<open>shard.segs = [x // weight_block_size[i] for x in shard.segs]\<close>, if there are
  segments. The division by zero is that of the first element.
\<close>

definition scale_shard :: "block_size \<Rightarrow> int \<Rightarrow> shard_single_dim \<Rightarrow> shard_single_dim res" where
  "scale_shard b i s =
     (case sd_segs s of
        None \<Rightarrow> Inr s
      | Some [] \<Rightarrow> Inr s
      | Some segs \<Rightarrow> bindR (block_at b i) (\<lambda>d.
          if d = 0 then Inl zero_division else Inr (s\<lparr>sd_segs := Some (map (\<lambda>x. x div d) segs)\<rparr>)))"

text \<open>Both parameters of a layer, with the shard strategies \<open>apply_sharding\<close> gives them.\<close>

definition block_scale_params ::
    "block_size \<Rightarrow> nat \<Rightarrow> shard_single_dim option \<Rightarrow> param \<Rightarrow> param \<Rightarrow> layer_params res" where
  "block_scale_params b first shard weight scale =
     (case shard of
        None \<Rightarrow> Inr [(''weight'', weight), (''weight_scale_inv'', scale)]
      | Some s \<Rightarrow> bindR (scale_shard b (int (sd_dim s) - int first) s) (\<lambda>t.
          Inr [(''weight'', apply_sharding s (sd_name s) weight),
               (''weight_scale_inv'', apply_sharding t (sd_name t @ ''_scale_inv'') scale)]))"

text \<open>\<open>(n + b - 1) // b\<close> for the two sharded dimensions of a weight.\<close>

definition block_counts :: "block_size \<Rightarrow> nat \<Rightarrow> nat \<Rightarrow> (nat \<times> nat) res" where
  "block_counts b out inp =
     (if fst b = 0 \<or> snd b = 0 then Inl zero_division else Inr (ceildiv out (fst b), ceildiv inp (snd b)))"

definition block_scale_linear ::
    "nn_linear \<Rightarrow> nat \<Rightarrow> block_scale_quantize \<Rightarrow> block_size option \<Rightarrow> layer_params res" where
  "block_scale_linear src out c weight_block_size =
     (case weight_block_size of
        None \<Rightarrow> Inl AssertionError
      | Some b \<Rightarrow> bindR (block_counts b out (nl_in src)) (\<lambda>(m, k).
          bindR (block_scale_params b 0 (nl_shard src)
            (Parameter [DInt out, DInt (nl_in src)] (bs_weight_dtype c)) (Parameter [DInt m, DInt k] float32)) (\<lambda>ps.
          Inr (ps @ bias_param (bs_model_dtype c) src))))"

definition block_scale_experts ::
    "mixtral_experts \<Rightarrow> block_scale_quantize \<Rightarrow> block_size option \<Rightarrow> layer_params res" where
  "block_scale_experts src c weight_block_size =
     (case weight_block_size of
        None \<Rightarrow> Inl AssertionError
      | Some b \<Rightarrow> bindR (block_counts b (mx_out src) (mx_in src)) (\<lambda>(m, k).
          block_scale_params b 1 (mx_shard src)
            (Parameter [DInt (mx_num src), DInt (mx_out src), DInt (mx_in src)] (bs_weight_dtype c))
            (Parameter [DInt (mx_num src), DInt m, DInt k] float32)))"

text \<open>
  The attention of DeepSeek-V2 holds two weights of its own, \<open>w_uk\<close> and \<open>w_uv\<close>.
\<close>

record mla_attention =
  ml_has_w_uv :: bool
  ml_block_size :: "block_size option"
  ml_num_heads :: nat
  ml_kv_lora_rank :: nat
  ml_qk_nope_head_dim :: nat
  ml_v_head_dim :: nat
  ml_w_uk_shard :: "shard_single_dim option"
  ml_w_uv_shard :: "shard_single_dim option"

definition mla_shard :: "shard_single_dim option \<Rightarrow> param \<Rightarrow> param \<Rightarrow> (param \<times> param) res" where
  "mla_shard shard weight scale =
     (case shard of
        None \<Rightarrow> Inr (weight, scale)
      | Some s \<Rightarrow>
          if sd_segs s \<noteq> None then Inl AssertionError
          else Inr (apply_sharding s (sd_name s) weight, apply_sharding s (sd_name s @ ''_scale_inv'') scale))"

definition block_scale_mla ::
    "mla_attention \<Rightarrow> block_scale_quantize \<Rightarrow> block_size option \<Rightarrow> layer_params res" where
  "block_scale_mla a c weight_block_size =
     (if \<not> ml_has_w_uv a \<or> ml_block_size a \<noteq> weight_block_size then Inl AssertionError
      else case ml_block_size a of
        None \<Rightarrow> Inl TypeError
      | Some (b0, b1) \<Rightarrow>
          if b0 = 0 then Inl zero_division
          else if ml_qk_nope_head_dim a mod b0 \<noteq> 0 then Inl (ValueError ''Invalid DeepSeek model config'')
          else if b1 = 0 then Inl zero_division
          else if ml_v_head_dim a mod b1 \<noteq> 0 then Inl (ValueError ''Invalid DeepSeek model config'')
          else
            let h = DInt (ml_num_heads a); r = ml_kv_lora_rank a; q = ml_qk_nope_head_dim a; v = ml_v_head_dim a in
            bindR (mla_shard (ml_w_uk_shard a) (Parameter [h, DInt r, DInt q] (bs_weight_dtype c))
              (Parameter [h, DInt (r div b1), DInt (q div b0)] float32)) (\<lambda>(uk, uk_scale).
            bindR (mla_shard (ml_w_uv_shard a) (Parameter [h, DInt v, DInt r] (bs_weight_dtype c))
              (Parameter [h, DInt (v div b0), DInt (r div b1)] float32)) (\<lambda>(uv, uv_scale).
            Inr [(''w_uk'', uk), (''w_uv'', uv), (''w_uk_scale_inv'', uk_scale), (''w_uv_scale_inv'', uv_scale)])))"

text \<open>
  The visitor. It does not touch the mapping: the checkpoint holds the parameters of the new layers. A
  node is a layer, or an attention, whose own parameters are replaced before its children are visited.
  Only layers with a fixed number of output features are modelled (the final layer, whose number
  may vary, is not replaced).
\<close>

datatype block_scale_node = LayerNode nn_node | MlaNode bool mla_attention

datatype block_scale_visited = KeepNode | NewLayer layer_params | VisitChildren layer_params

definition block_scale_visit_module ::
    "block_scale_quantize \<Rightarrow> block_size option \<Rightarrow> string \<Rightarrow> block_scale_node \<Rightarrow> block_scale_visited res" where
  "block_scale_visit_module c weight_block_size name node =
     (case node of
        MlaNode no_quantization a \<Rightarrow>
          if no_quantization then Inr KeepNode
          else bindR (block_scale_mla a c weight_block_size) (\<lambda>ps. Inr (VisitChildren ps))
      | LayerNode node \<Rightarrow>
          if nn_no_quantization node then Inr KeepNode
          else (case nn_layer node of
            Linear l \<Rightarrow>
              (case nl_out l of
                 DInt n \<Rightarrow>
                   if \<not> is_final_fc name \<and> \<not> is_moe_gate name l
                   then bindR (block_scale_linear l n c weight_block_size) (\<lambda>ps. Inr (NewLayer ps))
                   else Inr (VisitChildren [])
               | DVar _ \<Rightarrow> if is_final_fc name then Inr (VisitChildren []) else Inl TypeError)
          | Experts e \<Rightarrow> bindR (block_scale_experts e c weight_block_size) (\<lambda>ps. Inr (NewLayer ps))
          | _ \<Rightarrow> Inr (VisitChildren [])))"

section \<open>Activations\<close>

text \<open>
  \<open>rowwise_group_quant_fp8\<close>: \<open>fm\<close> is the arithmetic of \<open>float32\<close>, \<open>cast\<close> the conversion to the 8-bit float
  (the number it stands for).
\<close>

definition rowwise_max_abs :: "float_model \<Rightarrow> nat \<Rightarrow> rat \<Rightarrow> rat tensor \<Rightarrow> nat list \<Rightarrow> rat" where
  "rowwise_max_abs fm group_size eps x idx =
     (let ax = length (tn_shape x) - 1 in
      fold max (map (\<lambda>r.
        if idx ! ax * group_size + r < tn_shape x ! ax
        then max \<bar>tn_at x (idx[ax := idx ! ax * group_size + r])\<bar> eps else fm_min_value fm) [0..<group_size])
        (fm_min_value fm))"

definition fp8_max :: "dtype \<Rightarrow> rat" where
  "fp8_max dt = (if dt_code dt = DT_Float8E4M3FN then 448 else 57344)"

definition rowwise_scale :: "float_model \<Rightarrow> nat \<Rightarrow> rat \<Rightarrow> dtype \<Rightarrow> rat tensor \<Rightarrow> rat tensor" where
  "rowwise_scale fm group_size eps dt x =
     (let ax = length (tn_shape x) - 1 in
      te_compute ((tn_shape x)[ax := ceildiv (tn_shape x ! ax) group_size])
        (\<lambda>idx. fm_rnd fm (rowwise_max_abs fm group_size eps x idx / fp8_max dt)))"

text \<open>\<open>tir.max(tir.min(q, fp8_max), fp8_min)\<close>; the quotient is infinite or NaN for a scale of zero.\<close>

definition rowwise_element :: "float_model \<Rightarrow> (pyfloat \<Rightarrow> rat) \<Rightarrow> dtype \<Rightarrow> rat \<Rightarrow> rat \<Rightarrow> rat" where
  "rowwise_element fm cast dt v s = cast (fclamp (- fp8_max dt) (fp8_max dt) (fdiv fm v s))"

definition rowwise_group_quant_fp8 ::
    "float_model \<Rightarrow> (pyfloat \<Rightarrow> rat) \<Rightarrow> rat tensor \<Rightarrow> nat \<Rightarrow> dtype \<Rightarrow> bool \<Rightarrow> rat \<Rightarrow> bool \<Rightarrow>
     (rat tensor \<times> rat tensor) res" where
  "rowwise_group_quant_fp8 fm cast x group_size dt transpose_scale eps keep_first_batch_dim =
     (let shape = tn_shape x; ax = length shape - 1; num_group = ceildiv (shape ! ax) group_size;
          scale = rowwise_scale fm group_size eps dt x;
          q = te_compute shape (\<lambda>idx.
            rowwise_element fm cast dt (tn_at x idx) (tn_at scale (idx[ax := idx ! ax div group_size]))) in
      if length shape < 2 \<or> group_size = 0 then Inl AssertionError
      else if dt_code dt \<notin> {DT_Float8E4M3FN, DT_Float8E5M2} then Inl AssertionError
      else if \<not> transpose_scale then Inr (q, scale)
      else if \<not> keep_first_batch_dim then
        Inr (q, te_compute (num_group # butlast shape) (\<lambda>idx. tn_at scale (tl idx @ [hd idx])))
      else if length shape \<le> 2 then Inl AssertionError
      else Inr (q, te_compute (hd shape # num_group # tl (butlast shape))
             (\<lambda>idx. tn_at scale (hd idx # drop 2 idx @ [idx ! 1]))))"

section \<open>Sharding of the scales\<close>

lemma sum_div_blocks:
  assumes "0 < b"
  shows "sum_list (map (\<lambda>x. x div b) segs) = ceildiv (sum_list segs) b \<longleftrightarrow> (\<forall>x \<in> set segs. b dvd x)"
proof -
  let ?d = "sum_list (map (\<lambda>x. x div b) segs)" and ?r = "sum_list (map (\<lambda>x. x mod b) segs)"
  have split: "sum_list segs = ?d * b + ?r"
  proof (induction segs)
    case (Cons x segs)
    have "x = x div b * b + x mod b"
      by simp
    with Cons show ?case
      unfolding list.map sum_list.Cons add_mult_distrib by linarith
  qed simp
  have "?d = ceildiv (sum_list segs) b \<longleftrightarrow> ?r = 0"
  proof
    assume "?d = ceildiv (sum_list segs) b"
    then have "sum_list segs \<le> ?d * b"
      using ceildiv_pos_bounds(1) [OF assms, of "sum_list segs"] by (simp only:)
    with split show "?r = 0"
      by linarith
  next
    assume "?r = 0"
    with split assms have "sum_list segs + b - 1 = (b - 1) + ?d * b"
      by linarith
    moreover have "((b - 1) + ?d * b) div b = ?d + (b - 1) div b"
      using assms by (intro div_mult_self1) simp
    ultimately show "?d = ceildiv (sum_list segs) b"
      using assms by (simp add: ceildiv_def)
  qed
  also have "\<dots> \<longleftrightarrow> (\<forall>x \<in> set segs. b dvd x)"
    by (auto simp: sum_list_eq_0_iff dvd_eq_mod_eq_0)
  finally show ?thesis .
qed

lemma gen_tir_ok_iff:
  "(\<exists>r. gen_tir s shards shape w = Inr r) \<longleftrightarrow> sum_list (segments s shape) = shape ! sd_dim s"
  by (simp add: gen_tir_def Let_def)

text \<open>
  C33: A block-scale linear layer whose weight is sharded by segments: its weight can always be
  sharded, and its scales exactly when every segment is a multiple of the block size of the
  sharded dimension; otherwise sharding them raises \<open>AssertionError\<close>.
\<close>

theorem block_scale_shardable_iff:
  assumes "block_scale_linear src out c (Some b) = Inr ps"
    and "nl_shard src = Some s" "sd_segs s = Some segs" "segs \<noteq> []" "sd_dim s < 2"
    and "sum_list segs = (if sd_dim s = 0 then out else nl_in src)"
  shows "\<exists>pw ps' t u. dict_get ps ''weight'' = Some pw \<and> pm_shard pw = Some t \<and> pm_shape pw = [DInt out, DInt (nl_in src)] \<and>
      (\<exists>r. gen_tir t shards [out, nl_in src] w = Inr r) \<and>
      dict_get ps ''weight_scale_inv'' = Some ps' \<and> pm_shard ps' = Some u \<and>
      pm_shape ps' = [DInt (ceildiv out (fst b)), DInt (ceildiv (nl_in src) (snd b))] \<and>
      gen_tir u shards [ceildiv out (fst b), ceildiv (nl_in src) (snd b)] (w' :: 'a tensor) =
        (if \<forall>x \<in> set segs. (if sd_dim s = 0 then fst b else snd b) dvd x
         then Inr (te_concatenate (shard_segments [ceildiv out (fst b), ceildiv (nl_in src) (snd b)] (sd_dim s) shards w' 0
           (map (\<lambda>x. x div (if sd_dim s = 0 then fst b else snd b)) segs)) (1 + sd_dim s))
         else Inl AssertionError)"
proof -
  have b: "0 < fst b" "0 < snd b"
    using assms(1) by (auto simp: block_scale_linear_def block_counts_def split: if_splits)
  define d where "d = (if sd_dim s = 0 then fst b else snd b)"
  have d: "block_at b (int (sd_dim s)) = Inr d" "0 < d"
    using assms(5) b by (auto simp: block_at_def d_def)
  let ?t = "\<lparr>sd_name = sd_name s, sd_dim = sd_dim s, sd_segs = Some segs\<rparr>"
  let ?u = "\<lparr>sd_name = sd_name s @ ''_scale_inv'', sd_dim = sd_dim s, sd_segs = Some (map (\<lambda>x. x div d) segs)\<rparr>"
  have segs: "segments ?t shape = segs" "segments ?u shape = map (\<lambda>x. x div d) segs" for shape
    using assms(4) by (cases segs; simp add: segments_def)+
  have shard: "scale_shard b (int (sd_dim s)) s = Inr (s\<lparr>sd_segs := Some (map (\<lambda>x. x div d) segs)\<rparr>)"
    using assms(3,4) d by (cases segs) (simp_all add: scale_shard_def)
  have "dict_get ps ''weight'' = Some ((Parameter [DInt out, DInt (nl_in src)] (bs_weight_dtype c))\<lparr>pm_shard := Some ?t\<rparr>)"
    "dict_get ps ''weight_scale_inv'' = Some ((Parameter [DInt (ceildiv out (fst b)), DInt (ceildiv (nl_in src) (snd b))]
        float32)\<lparr>pm_shard := Some ?u\<rparr>)"
    using assms(1-3) b by (auto simp: block_scale_linear_def block_counts_def block_scale_params_def shard apply_sharding_def)
  moreover have "\<exists>r. gen_tir ?t shards [out, nl_in src] w = Inr r"
    using assms(5,6) unfolding gen_tir_ok_iff segs by (auto simp: less_2_cases_iff)
  moreover have "sum_list (map (\<lambda>x. x div d) segs) = [ceildiv out (fst b), ceildiv (nl_in src) (snd b)] ! sd_dim s \<longleftrightarrow>
      (\<forall>x \<in> set segs. d dvd x)"
    using sum_div_blocks [OF d(2), of segs] assms(5,6) by (auto simp: less_2_cases_iff d_def)
  ultimately show ?thesis
    unfolding d_def [symmetric] by (simp add: Parameter_def gen_tir_def segs)
qed

section \<open>The error of quantized activations\<close>

text \<open>
  What the bound needs of the arithmetic of \<open>float32\<close> below \<open>10 ^ 30\<close> and of the conversion to the 8-bit
  float: errors of at most a fraction of the value plus a constant.
\<close>

definition fp32_ok :: "float_model \<Rightarrow> rat \<Rightarrow> rat \<Rightarrow> bool" where
  "fp32_ok fm u e \<longleftrightarrow> 0 \<le> u \<and> u \<le> 1 / 8 \<and> 0 \<le> e \<and> fm_min_value fm \<le> 0 \<and>
     (\<forall>v. \<bar>v\<bar> \<le> 10 ^ 30 \<longrightarrow> \<bar>fm_rnd fm v - v\<bar> \<le> u * \<bar>v\<bar> + e)"

definition cast_ok :: "(pyfloat \<Rightarrow> rat) \<Rightarrow> rat \<Rightarrow> rat \<Rightarrow> rat \<Rightarrow> bool" where
  "cast_ok cast m k a \<longleftrightarrow> 0 \<le> k \<and> 0 \<le> a \<and> (\<forall>v. \<bar>v\<bar> \<le> m \<longrightarrow> \<bar>cast (Fin v) - v\<bar> \<le> k * \<bar>v\<bar> + a)"

text \<open>The part of the error that comes from the rounding of \<open>float32\<close>, for a group with maximum \<open>A\<close> and scale \<open>s\<close>.\<close>

definition fp32_error :: "rat \<Rightarrow> rat \<Rightarrow> rat \<Rightarrow> rat \<Rightarrow> rat \<Rightarrow> rat" where
  "fp32_error u e m A s = u * A + (m + s) * e"

lemma fp8_scale_bounds:
  assumes "fp32_ok fm u e" "1 \<le> m" "0 < A" "A \<le> 10 ^ 30" "e * (8 * m) \<le> A" and s: "s = fm_rnd fm (A / m)"
  shows "0 < s" "A \<le> 4 / 3 * (m * s)" "A - m * s \<le> u * A + m * e"
proof -
  have "A / m \<le> A"
    using assms(2,3) by (simp add: divide_le_eq mult_le_cancel_left1)
  with assms(1,3,4) have "\<bar>s - A / m\<bar> \<le> u * (A / m) + e"
    using assms(2) unfolding fp32_ok_def s by (auto dest!: spec [of _ "A / m"])
  then have "(A / m - s) * m \<le> (u * (A / m) + e) * m"
    using assms(2) by (intro mult_right_mono) auto
  then show close: "A - m * s \<le> u * A + m * e"
    using assms(2) by (simp add: algebra_simps)
  have "u * A \<le> 1 / 8 * A"
    using assms(1,3) unfolding fp32_ok_def by (intro mult_right_mono) auto
  with close assms(5) show A: "A \<le> 4 / 3 * (m * s)"
    by (simp add: algebra_simps)
  with assms(2,3) have "0 < m * s"
    by linarith
  with assms(2) show "0 < s"
    by (simp add: zero_less_mult_iff)
qed

lemma clamped_distance:
  fixes r y m :: rat
  assumes "0 \<le> m"
  shows "\<bar>min (max r (- m)) m - y\<bar> \<le> max \<bar>r - y\<bar> (\<bar>y\<bar> - m)"
  using assms by (auto simp: max_def min_def abs_if)

lemma fp32_okD:
  assumes "fp32_ok fm u e"
  shows "0 \<le> u" "0 \<le> e" "fm_min_value fm \<le> 0" "\<bar>v\<bar> \<le> 10 ^ 30 \<Longrightarrow> \<bar>fm_rnd fm v - v\<bar> \<le> u * \<bar>v\<bar> + e"
  using assms by (simp_all add: fp32_ok_def)

text \<open>The rounded and clamped quotient, before the conversion.\<close>

lemma clamped_quotient_error:
  assumes fm: "fp32_ok fm u e" and m: "1 \<le> m" "m \<le> 57344"
    and A: "0 < A" "A \<le> 10 ^ 30" "e * (8 * m) \<le> A" and s: "s = fm_rnd fm (A / m)" and x: "\<bar>x\<bar> \<le> A"
  shows "\<bar>min (max (fm_rnd fm (x / s)) (- m)) m * s - x\<bar> \<le> fp32_error u e m A s" (is "\<bar>?z * s - x\<bar> \<le> ?D")
proof -
  define r where "r = fm_rnd fm (x / s)"
  note sb = fp8_scale_bounds [OF fm m(1) A s] and [simp] = fp32_okD(1,2) [OF fm]
  have m0: "0 \<le> m"
    using m(1) by linarith
  have "\<bar>x\<bar> \<le> (4 / 3 * m) * s"
    using x sb(2) by (simp add: algebra_simps)
  then have "\<bar>x / s\<bar> \<le> 4 / 3 * m"
    using sb(1) by (simp add: abs_divide divide_le_eq)
  also have "\<dots> \<le> 10 ^ 30"
    using m(2) by simp
  finally have "\<bar>r - x / s\<bar> \<le> u * \<bar>x / s\<bar> + e"
    unfolding r_def by (rule fp32_okD(4) [OF fm])
  then have "\<bar>r - x / s\<bar> * s \<le> (u * \<bar>x / s\<bar> + e) * s"
    using sb(1) by (intro mult_right_mono) auto
  also have "\<dots> = u * \<bar>x\<bar> + e * s"
    using sb(1) by (simp add: abs_divide field_simps)
  also have "\<dots> \<le> ?D"
    using mult_left_mono [OF x, of u] m0 by (simp add: fp32_error_def algebra_simps add_increasing2)
  finally have 1: "\<bar>r - x / s\<bar> * s \<le> ?D" .
  have "(\<bar>x / s\<bar> - m) * s = \<bar>x\<bar> - m * s"
    using sb(1) by (simp add: abs_divide field_simps)
  also have "\<dots> \<le> ?D"
  proof -
    have "0 \<le> s * e"
      using sb(1) by simp
    then have "\<bar>x\<bar> - m * s \<le> u * A + m * e + s * e"
      using x sb(3) by linarith
    then show ?thesis
      by (simp add: fp32_error_def algebra_simps)
  qed
  finally have "max \<bar>r - x / s\<bar> (\<bar>x / s\<bar> - m) * s \<le> ?D"
    using 1 by (simp add: max_def)
  moreover have "\<bar>?z - x / s\<bar> * s \<le> max \<bar>r - x / s\<bar> (\<bar>x / s\<bar> - m) * s"
    unfolding r_def using sb(1) m(1) by (intro mult_right_mono clamped_distance) auto
  moreover have "\<bar>?z - x / s\<bar> * s = \<bar>?z * s - x\<bar>"
    using sb(1) abs_mult [of "?z - x / s" s] by (simp add: left_diff_distrib)
  ultimately show ?thesis
    by linarith
qed

lemma rowwise_element_error:
  assumes fm: "fp32_ok fm u e" and cast: "cast_ok cast (fp8_max dt) k a"
    and A: "0 < A" "A \<le> 10 ^ 30" "e * (8 * fp8_max dt) \<le> A" and s: "s = fm_rnd fm (A / fp8_max dt)" and x: "\<bar>x\<bar> \<le> A"
  shows "\<bar>rowwise_element fm cast dt x s * s - x\<bar> \<le>
    k * \<bar>x\<bar> + a * s + (1 + k) * fp32_error u e (fp8_max dt) A s"
proof -
  define m where "m = fp8_max dt"
  define z where "z = min (max (fm_rnd fm (x / s)) (- m)) m"
  define D where "D = fp32_error u e m A s"
  have m: "1 \<le> m" "m \<le> 57344"
    by (simp_all add: m_def fp8_max_def)
  have s0: "0 < s"
    using fp8_scale_bounds(1) [OF fm m(1) A [folded m_def] s [folded m_def]] .
  have zx: "\<bar>z * s - x\<bar> \<le> D"
    unfolding z_def D_def by (rule clamped_quotient_error [OF fm m A [folded m_def] s [folded m_def] x])
  have "\<bar>cast (Fin z) - z\<bar> \<le> k * \<bar>z\<bar> + a"
    using cast m(1) unfolding cast_ok_def m_def [symmetric] z_def by (auto simp: abs_le_iff)
  then have "\<bar>cast (Fin z) - z\<bar> * s \<le> (k * \<bar>z\<bar> + a) * s"
    using s0 by (intro mult_right_mono) auto
  moreover have "\<bar>cast (Fin z) - z\<bar> * s = \<bar>cast (Fin z) * s - z * s\<bar>" "\<bar>z\<bar> * s = \<bar>z * s\<bar>"
    using s0 abs_mult [of "cast (Fin z) - z" s] by (simp_all add: left_diff_distrib abs_mult)
  ultimately have "\<bar>cast (Fin z) * s - z * s\<bar> \<le> k * \<bar>z * s\<bar> + a * s"
    by (simp add: algebra_simps)
  moreover have "k * \<bar>z * s\<bar> \<le> k * (\<bar>x\<bar> + D)"
    using zx cast unfolding cast_ok_def by (intro mult_left_mono) linarith+
  moreover have "rowwise_element fm cast dt x s = cast (Fin z)"
    using s0 by (simp add: rowwise_element_def fdiv_def z_def m_def)
  ultimately show ?thesis
    using zx unfolding D_def m_def [symmetric] by (simp add: algebra_simps)
qed

text \<open>The scale of an element's group, and where the returned tensor holds it.\<close>

definition group_index :: "nat \<Rightarrow> nat list \<Rightarrow> nat list" where
  "group_index group_size idx = idx[length idx - 1 := idx ! (length idx - 1) div group_size]"

definition scale_index :: "bool \<Rightarrow> bool \<Rightarrow> nat list \<Rightarrow> nat list" where
  "scale_index transpose_scale keep_first_batch_dim g =
     (if \<not> transpose_scale then g
      else if \<not> keep_first_batch_dim then last g # butlast g else hd g # last g # tl (butlast g))"

lemma rowwise_max_abs_bounds:
  assumes "in_shape (tn_shape x) idx" "tn_shape x \<noteq> []" "0 < group_size" "fm_min_value fm \<le> 0"
    and "0 < eps" "eps \<le> B" "\<forall>i. in_shape (tn_shape x) i \<longrightarrow> \<bar>tn_at x i\<bar> \<le> B"
  shows "max \<bar>tn_at x idx\<bar> eps \<le> rowwise_max_abs fm group_size eps x (group_index group_size idx)"
    and "rowwise_max_abs fm group_size eps x (group_index group_size idx) \<le> B"
proof -
  define ax where "ax = length (tn_shape x) - 1"
  have len: "length idx = length (tn_shape x)" and ax: "ax < length idx"
    using in_shapeD(1) [OF assms(1)] assms(2) by (auto simp: ax_def)
  then have at: "idx ! ax < tn_shape x ! ax"
    using in_shapeD(2) [OF assms(1), of ax] by simp
  define f where "f = (\<lambda>r. if idx ! ax div group_size * group_size + r < tn_shape x ! ax
    then max \<bar>tn_at x (idx[ax := idx ! ax div group_size * group_size + r])\<bar> eps else fm_min_value fm)"
  have gi: "group_index group_size idx = idx[ax := idx ! ax div group_size]"
    by (simp add: group_index_def ax_def len)
  have eq: "rowwise_max_abs fm group_size eps x (group_index group_size idx) = fold max (map f [0..<group_size]) (fm_min_value fm)"
    unfolding rowwise_max_abs_def Let_def ax_def [symmetric] gi f_def using ax by (simp cong: if_cong)
  have "f (idx ! ax mod group_size) = max \<bar>tn_at x idx\<bar> eps"
    using at by (simp add: f_def)
  moreover have "f (idx ! ax mod group_size) \<le> fold max (map f [0..<group_size]) (fm_min_value fm)"
    using assms(3) by (intro fold_max_ge) auto
  ultimately show "max \<bar>tn_at x idx\<bar> eps \<le> rowwise_max_abs fm group_size eps x (group_index group_size idx)"
    unfolding eq by simp
  have "f r \<le> B" for r
  proof (cases "idx ! ax div group_size * group_size + r < tn_shape x ! ax")
    case True
    then have "in_shape (tn_shape x) (idx[ax := idx ! ax div group_size * group_size + r])"
      using in_shape_update [OF assms(1), of ax _ "tn_shape x ! ax"] ax len by simp
    with assms(6,7) True show ?thesis
      by (simp add: f_def)
  qed (use assms(4-6) in \<open>simp add: f_def\<close>)
  then show "rowwise_max_abs fm group_size eps x (group_index group_size idx) \<le> B"
    unfolding eq using assms(4-6) by (intro fold_max_le) auto
qed

lemma scale_index_at:
  assumes "rowwise_group_quant_fp8 fm cast x group_size dt tr eps keep = Inr (q, sc)" "in_shape (tn_shape x) idx"
  shows "tn_at sc (scale_index tr keep (group_index group_size idx)) =
      tn_at (rowwise_scale fm group_size eps dt x) (group_index group_size idx)"
    and "tn_at q idx = rowwise_element fm cast dt (tn_at x idx)
      (tn_at (rowwise_scale fm group_size eps dt x) (group_index group_size idx))"
    and "2 \<le> length (tn_shape x)" "0 < group_size"
proof -
  have len: "length idx = length (tn_shape x)"
    using in_shapeD(1) [OF assms(2)] .
  show ge: "2 \<le> length (tn_shape x)" "0 < group_size"
    using assms(1) by (auto simp: rowwise_group_quant_fp8_def Let_def split: if_splits)
  define g where "g = group_index group_size idx"
  have "length g = length idx"
    by (simp add: g_def group_index_def)
  then obtain i j ys where g: "g = i # ys @ [j]"
    using ge(1) len by (cases g; cases "tl g" rule: rev_cases) auto
  show "tn_at sc (scale_index tr keep g) = tn_at (rowwise_scale fm group_size eps dt x) g"
    using assms(1) unfolding g by (auto simp: rowwise_group_quant_fp8_def Let_def scale_index_def split: if_splits)
  show "tn_at q idx = rowwise_element fm cast dt (tn_at x idx) (tn_at (rowwise_scale fm group_size eps dt x) g)"
    using assms(1) len by (auto simp: rowwise_group_quant_fp8_def Let_def g_def group_index_def split: if_splits)
qed

text \<open>The shape of the scales that the function's docstring gives.\<close>

definition documented_scale_shape :: "bool \<Rightarrow> nat \<Rightarrow> nat list \<Rightarrow> nat list" where
  "documented_scale_shape transpose_scale group_size shape =
     (let num_group = ceildiv (last shape) group_size in
      if transpose_scale then take (length shape - 2) shape @ [num_group, shape ! (length shape - 2)]
      else butlast shape @ [num_group])"

lemma scale_shape:
  assumes "rowwise_group_quant_fp8 fm cast x group_size dt tr eps keep = Inr (q, sc)"
  shows "tn_shape sc = (let sh = tn_shape x; n = ceildiv (last sh) group_size in
     if \<not> tr then butlast sh @ [n] else if \<not> keep then n # butlast sh else hd sh # n # tl (butlast sh))"
proof -
  have "2 \<le> length (tn_shape x)"
    using assms by (auto simp: rowwise_group_quant_fp8_def Let_def split: if_splits)
  then have "last (tn_shape x) = tn_shape x ! (length (tn_shape x) - 1)"
      "butlast (tn_shape x) @ [n] = (tn_shape x)[length (tn_shape x) - 1 := n]" for n
    by (cases "tn_shape x" rule: rev_cases; simp add: last_conv_nth list_update_append)+
  with assms show ?thesis
    by (auto simp: rowwise_group_quant_fp8_def rowwise_scale_def Let_def split: if_splits)
qed

lemma documented_shape_agrees:
  assumes "2 \<le> length sh" "tr \<and> keep \<Longrightarrow> 3 \<le> length sh"
    and "ss = (if \<not> tr then butlast sh @ [ceildiv (last sh) g]
      else if \<not> keep then ceildiv (last sh) g # butlast sh
      else hd sh # ceildiv (last sh) g # tl (butlast sh))"
  shows "length sh = 2 \<or> (length sh = 3 \<and> keep) \<or> \<not> tr \<Longrightarrow> ss = documented_scale_shape tr g sh"
    and "tr \<and> \<not> keep \<and> 3 \<le> length sh \<and> hd sh \<noteq> ceildiv (last sh) g \<Longrightarrow>
      ss \<noteq> documented_scale_shape tr g sh"
proof -
  obtain a b ys where sh: "sh = ys @ [a, b]"
    using assms(1) by (cases sh rule: rev_cases; cases "butlast sh" rule: rev_cases) auto
  show "ss = documented_scale_shape tr g sh" if "length sh = 2 \<or> (length sh = 3 \<and> keep) \<or> \<not> tr"
    using that assms(2,3) unfolding sh
    by (cases ys) (auto simp: documented_scale_shape_def Let_def butlast_append nth_append)
  show "ss \<noteq> documented_scale_shape tr g sh"
    if "tr \<and> \<not> keep \<and> 3 \<le> length sh \<and> hd sh \<noteq> ceildiv (last sh) g"
    using that assms(2,3) unfolding sh
    by (cases ys) (auto simp: documented_scale_shape_def Let_def butlast_append nth_append)
qed

text \<open>
  C32: Quantization of activations in groups of a row: every scale is positive, so that no quotient is
  infinite, and the quantized value times the scale of its group, which the returned tensor holds in
  the place its layout says, differs from the activation by at most the error of the 8-bit float
  (a fraction of the value, plus a constant times the scale), plus rounding errors of \<open>float32\<close>.
  The shape of the scales is \<open>(*shape[:-1], n)\<close> for \<open>n\<close> groups, or transposed \<open>(n, *shape[:-1])\<close>, or
  \<open>(shape[0], n, *shape[1:-1])\<close> when the first dimension is kept. The docstring gives \<open>(*shape[:-2], n,
  shape[-2])\<close> for both transposed layouts: right for two dimensions, and for three when the
  first is kept, but for three or more without keeping it the scales have another shape, unless
  the first dimension happens to equal \<open>n\<close>.
\<close>

theorem rowwise_quant_error:
  assumes "rowwise_group_quant_fp8 fm cast x group_size dt tr eps keep = Inr (q, sc)" "in_shape (tn_shape x) idx"
    and "fp32_ok fm u e" "cast_ok cast (fp8_max dt) k a"
    and "0 < eps" "eps \<le> 10 ^ 30" "e * (8 * fp8_max dt) \<le> eps"
    and "\<forall>i. in_shape (tn_shape x) i \<longrightarrow> \<bar>tn_at x i\<bar> \<le> 10 ^ 30"
  defines "s \<equiv> tn_at sc (scale_index tr keep (group_index group_size idx))"
    and "A \<equiv> rowwise_max_abs fm group_size eps x (group_index group_size idx)"
    and "sh \<equiv> tn_shape x" and "n \<equiv> ceildiv (last (tn_shape x)) group_size"
  shows "0 < s \<and> \<bar>tn_at q idx * s - tn_at x idx\<bar> \<le>
      k * \<bar>tn_at x idx\<bar> + a * s + (1 + k) * fp32_error u e (fp8_max dt) A s \<and>
    tn_shape sc = (if \<not> tr then butlast sh @ [n] else if \<not> keep then n # butlast sh else hd sh # n # tl (butlast sh)) \<and>
    (length sh = 2 \<or> (length sh = 3 \<and> keep) \<or> \<not> tr \<longrightarrow> tn_shape sc = documented_scale_shape tr group_size sh) \<and>
    (tr \<and> \<not> keep \<and> 3 \<le> length sh \<and> hd sh \<noteq> n \<longrightarrow> tn_shape sc \<noteq> documented_scale_shape tr group_size sh)"
proof -
  have shape: "tn_shape sc = (if \<not> tr then butlast sh @ [n] else if \<not> keep then n # butlast sh else hd sh # n # tl (butlast sh))"
    using scale_shape [OF assms(1)] by (simp add: sh_def n_def Let_def)
  have rank: "2 \<le> length sh" "tr \<and> keep \<Longrightarrow> 3 \<le> length sh"
    using assms(1) by (auto simp: sh_def rowwise_group_quant_fp8_def Let_def split: if_splits)
  note doc = documented_shape_agrees [OF rank shape [unfolded n_def sh_def [symmetric]]]
  note at = scale_index_at [OF assms(1,2)]
  have ne: "tn_shape x \<noteq> []"
    using at(3) by auto
  note bounds = rowwise_max_abs_bounds [OF assms(2) ne at(4) fp32_okD(3) [OF assms(3)] assms(5,6,8)]
  have A: "0 < A" "A \<le> 10 ^ 30" "e * (8 * fp8_max dt) \<le> A" "\<bar>tn_at x idx\<bar> \<le> A"
    using bounds assms(5,7) unfolding A_def by linarith+
  have s: "s = fm_rnd fm (A / fp8_max dt)"
    unfolding s_def at(1) A_def by (simp add: rowwise_scale_def Let_def)
  have "0 < s"
    by (rule fp8_scale_bounds(1) [OF assms(3) _ A(1-3) s]) (simp add: fp8_max_def)
  with rowwise_element_error [OF assms(3,4) A(1-3) s A(4)] shape doc show ?thesis
    unfolding at(2) at(1) [symmetric] s_def [symmetric] by (simp add: n_def sh_def)
qed

section \<open>Examples\<close>

definition example_linear :: nn_linear where
  "example_linear = \<lparr>nl_in = 4, nl_out = DInt 6, nl_bias = None, nl_out_dtype = None,
     nl_shard = Some \<lparr>sd_name = ''qkv'', sd_dim = 0, sd_segs = Some [4, 2]\<rparr>\<rparr>"

text \<open>Blocks of two rows, and of four rows, which do not fit the second segment.\<close>

theorem block_scale_shardable_iff_witness:
  "\<exists>ps p u r. block_scale_linear example_linear 6 (block_scale_default []) (Some (2, 2)) = Inr ps \<and>
    dict_get ps ''weight_scale_inv'' = Some p \<and> pm_shard p = Some u \<and>
    gen_tir u 2 [3, 2] (te_compute [6, 2] (\<lambda>_. 0 :: nat)) = Inr r"
proof -
  have "\<exists>ps. block_scale_linear example_linear 6 (block_scale_default []) (Some (2, 2)) = Inr ps"
    by (simp add: block_scale_linear_def block_counts_def block_scale_params_def example_linear_def scale_shard_def
        block_at_def)
  then obtain ps where ps: "block_scale_linear example_linear 6 (block_scale_default []) (Some (2, 2)) = Inr ps"
    by blast
  have c: "ceildiv 6 2 = 3" "ceildiv 4 2 = 2"
    by (simp_all add: ceildiv_def)
  from block_scale_shardable_iff [OF ps, of "\<lparr>sd_name = ''qkv'', sd_dim = 0, sd_segs = Some [4, 2]\<rparr>" "[4, 2]" 2
      "te_compute [12, 4] (\<lambda>_. 0 :: nat)" "te_compute [6, 2] (\<lambda>_. 0 :: nat)"] ps show ?thesis
    by (auto simp: example_linear_def c)
qed

definition exact_fm :: float_model where
  "exact_fm = \<lparr>fm_rnd = (\<lambda>x. x), fm_round = round, fm_min_value = 0, fm_nan_cast = (\<lambda>_. 0)\<rparr>"

fun int_cast :: "pyfloat \<Rightarrow> rat" where
  "int_cast (Fin v) = of_int (round v)"
| "int_cast x = 0"

theorem rowwise_quant_error_witness:
  "\<exists>q sc. rowwise_group_quant_fp8 exact_fm int_cast (te_compute [2, 1, 2] (\<lambda>i. of_nat (sum_list i) + 1)) 2
      (DataType DT_Float8E4M3FN 8) True (1 / 10) False = Inr (q, sc) \<and> 0 < tn_at sc [0, 0, 0] \<and>
    \<bar>tn_at q [0, 0, 1] * tn_at sc [0, 0, 0] - 2\<bar> \<le> 1 / 2 * tn_at sc [0, 0, 0] \<and>
    tn_shape sc = [1, 2, 1] \<and> documented_scale_shape True 2 [2, 1, 2] = [2, 1, 1]"
proof -
  let ?x = "te_compute [2, 1, 2] (\<lambda>i. of_nat (sum_list i) + 1) :: rat tensor" and ?dt = "DataType DT_Float8E4M3FN 8"
  obtain q sc where r: "rowwise_group_quant_fp8 exact_fm int_cast ?x 2 ?dt True (1 / 10) False = Inr (q, sc)"
    by (simp add: rowwise_group_quant_fp8_def Let_def)
  have cast: "cast_ok int_cast (fp8_max ?dt) 0 (1 / 2)"
    using of_int_round_abs_le [where 'a = rat] by (simp add: cast_ok_def)
  have fm: "fp32_ok exact_fm 0 0"
    by (simp add: fp32_ok_def exact_fm_def)
  have "\<bar>tn_at ?x i\<bar> \<le> 10 ^ 30" if i: "in_shape (tn_shape ?x) i" for i
  proof -
    obtain l n b where "i = [l, n, b]" "l < 2" "n < 1" "b < 2"
      using i by (auto simp: in_shape_def list_all2_Cons2)
    then show ?thesis
      by (auto simp: less_2_cases_iff)
  qed
  moreover have "in_shape (tn_shape ?x) [0, 0, 1]"
    by (simp add: in_shape_def)
  moreover have "scale_index True False (group_index 2 [0, 0, 1]) = [0, 0, 0]"
    by (simp add: group_index_def scale_index_def)
  ultimately show ?thesis
    using rowwise_quant_error [OF r _ fm cast, of "[0, 0, 1]"] r
    by (auto simp: fp32_error_def documented_scale_shape_def ceildiv_def)
qed

end
