(* ===== verification/Model_Config.thy ===== *)
theory Model_Config
  imports Prelude
begin

text \<open>
  The configs of the model architectures (\<open>model/*/*_model.py\<close>): every config class is a dataclass
  whose \<open>__post_init__\<close> fills in what \<open>config.json\<close> leaves open and checks the rest, and
  \<open>ConfigOverrideBase.apply\<close> (\<open>support/config.py\<close>) builds a config a second time from the fields of
  the first. The classes share most of their statements, in different orders: \<open>run_step\<close> is one
  statement, and \<open>init_steps\<close> the \<open>__post_init__\<close> of every class. The lemmas show what each step
  leaves settled, that later steps do not unsettle it, and so what a config satisfies once it is
  built.
\<close>

section \<open>Configs\<close>

text \<open>
  The fields of all config classes; a class without a field does not read it. GPT-style classes
  call the hidden size \<open>n_embd\<close>, the heads \<open>n_head\<close>, \<open>n_head_kv\<close>, the layers \<open>n_layer\<close> and the
  intermediate size \<open>n_inner\<close>. A field that may hold \<open>None\<close> is an option.
\<close>

record model_config =
  mc_hidden_size :: int
  mc_intermediate_size :: "int option"
  mc_num_attention_heads :: int
  mc_num_key_value_heads :: "int option"
  mc_num_hidden_layers :: int
  mc_vocab_size :: "int option"
  mc_position_embedding_base :: json
  mc_rope_scaling :: "json dict option"
  mc_context_window_size :: "int option"
  mc_prefill_chunk_size :: "int option"
  mc_head_dim :: int
  mc_sliding_window_size :: "int option"
  mc_attention_sink_size :: int
  mc_sliding_window :: "int option"
  mc_max_position_embeddings :: int
  mc_original_max_position_embeddings :: int
  mc_n_positions :: int
  mc_hidden_activation :: json
  mc_attention_bias :: bool
  mc_clip_qkv :: "rat option"
  mc_weight_block_size :: json
  mc_model_version :: string
  mc_head_size :: int
  mc_num_heads :: int
  mc_tensor_parallel_shards :: int
  mc_pipeline_parallel_stages :: int
  mc_max_batch_size :: int
  mc_disaggregation :: bool
  mc_kwargs :: "json dict"

text \<open>\<open>x == 0\<close> of a JSON value.\<close>

definition json_zero :: "json \<Rightarrow> bool" where
  "json_zero v \<longleftrightarrow> v = JInt 0 \<or> v = JFloat (Fin 0) \<or> v = JBool False"

text \<open>
  A value as the number or \<open>None\<close> that a field holds. A text, a list or a dict raises a
  \<open>TypeError\<close> when it is compared with a number, which the classes do; sizes that are floats are not modelled.
\<close>

definition to_num :: "json \<Rightarrow> int option res" where
  "to_num v = (case v of JInt i \<Rightarrow> Inr (Some i) | JNull \<Rightarrow> Inr None | _ \<Rightarrow> Inl TypeError)"

definition num :: "int option \<Rightarrow> int res" where
  "num x = (case x of None \<Rightarrow> Inl TypeError | Some n \<Rightarrow> Inr n)"

definition floor_div :: "int \<Rightarrow> int \<Rightarrow> int res" where
  "floor_div a b = (if b = 0 then Inl (ForeignError ''ZeroDivisionError'') else Inr (a div b))"

definition floor_mod :: "int \<Rightarrow> int \<Rightarrow> int res" where
  "floor_mod a b = (if b = 0 then Inl (ForeignError ''ZeroDivisionError'') else Inr (a mod b))"

text \<open>\<open>for name in names: if name in kwargs: ... kwargs.pop(name); break\<close>\<close>

fun pop_first :: "string list \<Rightarrow> json dict \<Rightarrow> (json \<times> json dict) option" where
  "pop_first [] kw = None"
| "pop_first (n # ns) kw =
     (case dict_get kw n of Some v \<Rightarrow> Some (v, dict_pop kw n) | None \<Rightarrow> pop_first ns kw)"

section \<open>Statements of the initialisers\<close>

text \<open>
  \<open>ContextWindow names\<close> takes the context window from \<open>kwargs\<close> and raises without one,
  \<open>ContextOptional\<close> does not raise, \<open>ContextOrPositions\<close> falls back to \<open>n_positions\<close>;
  \<open>KvHeadsNone\<close> and \<open>InnerZero\<close> also replace \<open>None\<close>.
\<close>

datatype init_step =
    RopeTheta | RopeThetaKept | RopeScalingLlama | RopeScalingPhi3
  | ContextWindow "string list" | ContextOptional "string list" | ContextOrPositions "string list"
  | ContextPositions | ContextMaxPosition | ContextMistral "string list"
  | ContextSliding | ContextSlidingMax
  | PipelineStages | KvHeads | KvHeadsNone | HeadDim | AssertHeadDim | AssertKvHeads
  | PrefillChunk int | PrefillWhole | PrefillMin | PrefillMistral
  | SlidingWindow | AssertSink | VocabSize | InnerMinusOne | InnerZero | ClipQkv
  | GemmaActivation | GemmaBias | QuantizationConfig
  | ModelVersion string | RwkvInner | RwkvHeads | RwkvCheckHeads | SingleDevice

definition no_context_error :: py_error where
  "no_context_error = ValueError ''Unable to determine the maximum sequence length''"

definition context_from :: "string list \<Rightarrow> (model_config \<Rightarrow> model_config res) \<Rightarrow> model_config \<Rightarrow> model_config res" where
  "context_from names otherwise c =
     (if mc_context_window_size c = Some 0 then
        (case pop_first names (mc_kwargs c) of
           Some (v, kw) \<Rightarrow> bindR (to_num v) (\<lambda>n. Inr (c\<lparr>mc_context_window_size := n, mc_kwargs := kw\<rparr>))
         | None \<Rightarrow> otherwise c)
      else Inr c)"

definition rope_scaling_llama :: "model_config \<Rightarrow> model_config res" where
  "rope_scaling_llama c =
     (case mc_rope_scaling c of
        None \<Rightarrow> Inr c
      | Some d \<Rightarrow>
          (case dict_get d ''rope_type'' of
             None \<Rightarrow> Inr (c\<lparr>mc_rope_scaling := None\<rparr>)
           | Some t \<Rightarrow> if t = JStr ''llama3'' then Inr c else Inl AssertionError))"

text \<open>
  Phi-3: the name \<open>su\<close> is replaced by \<open>longrope\<close>. The message of the assertion reads
  \<open>rope_type\<close>, which need not be there.
\<close>

definition rope_scaling_phi3 :: "model_config \<Rightarrow> model_config res" where
  "rope_scaling_phi3 c =
     (case mc_rope_scaling c of
        None \<Rightarrow> Inr c
      | Some d \<Rightarrow>
          (case dict_get d ''type'' of
             None \<Rightarrow> Inr (c\<lparr>mc_rope_scaling := None\<rparr>)
           | Some t \<Rightarrow>
               let d1 = (if t = JStr ''su'' then dict_set d ''type'' (JStr ''longrope'') else d) in
               if dict_get d1 ''type'' = Some (JStr ''longrope'') then
                 Inr (c\<lparr>mc_rope_scaling := Some
                   (dict_set (dict_set (dict_set d1 ''rope_type'' (JStr ''longrope''))
                      ''max_position_embeddings'' (JInt (mc_max_position_embeddings c)))
                      ''original_max_position_embeddings'' (JInt (mc_original_max_position_embeddings c)))\<rparr>)
               else if dict_get d1 ''rope_type'' = None then Inl (KeyError ''rope_type'')
               else Inl AssertionError))"

definition prefill_chunk :: "int \<Rightarrow> model_config \<Rightarrow> model_config res" where
  "prefill_chunk cap c =
     (if mc_prefill_chunk_size c = Some 0 then
        bindR (num (mc_context_window_size c)) (\<lambda>w. Inr (c\<lparr>mc_prefill_chunk_size := Some (min w cap)\<rparr>))
      else
        bindR (num (mc_prefill_chunk_size c)) (\<lambda>p.
        bindR (num (mc_context_window_size c)) (\<lambda>w.
          Inr (if w < p then c\<lparr>mc_prefill_chunk_size := Some (min w cap)\<rparr> else c))))"

text \<open>BERT and Phi-2 have no upper bound; Phi-2 takes the minimum in every case.\<close>

definition prefill_whole :: "model_config \<Rightarrow> model_config res" where
  "prefill_whole c =
     (if mc_prefill_chunk_size c = Some 0 then
        Inr (c\<lparr>mc_prefill_chunk_size := mc_context_window_size c\<rparr>)
      else
        bindR (num (mc_prefill_chunk_size c)) (\<lambda>p.
        bindR (num (mc_context_window_size c)) (\<lambda>w.
          Inr (if w < p then c\<lparr>mc_prefill_chunk_size := Some w\<rparr> else c))))"

definition prefill_min :: "model_config \<Rightarrow> model_config res" where
  "prefill_min c =
     bindR (num (if mc_prefill_chunk_size c = Some 0 then mc_context_window_size c else mc_prefill_chunk_size c)) (\<lambda>p.
     bindR (num (mc_context_window_size c)) (\<lambda>w. Inr (c\<lparr>mc_prefill_chunk_size := Some (min p w)\<rparr>)))"

text \<open>Mistral: \<open>min(*prefill_chunk_size_candidates, 8192)\<close>, which raises without a candidate.\<close>

definition prefill_candidates :: "model_config \<Rightarrow> int option list" where
  "prefill_candidates c =
     (if mc_sliding_window_size c \<noteq> Some (- 1) then [mc_sliding_window_size c] else []) @
     (if mc_context_window_size c \<noteq> Some (- 1) then [mc_context_window_size c] else [])"

definition mistral_prefill :: "model_config \<Rightarrow> int res" where
  "mistral_prefill c =
     (case prefill_candidates c of
        [] \<Rightarrow> Inl TypeError
      | xs \<Rightarrow> bindR (mapR num xs) (\<lambda>ns. Inr (foldr min ns 8192)))"

definition sliding_window :: "model_config \<Rightarrow> model_config res" where
  "sliding_window c =
     bindR (if mc_sliding_window_size c = Some 0 then
              (case dict_get (mc_kwargs c) ''sliding_window'' of
                 None \<Rightarrow> Inr (c\<lparr>mc_sliding_window_size := Some (- 1)\<rparr>)
               | Some v \<Rightarrow> bindR (to_num v) (\<lambda>n.
                   Inr (c\<lparr>mc_sliding_window_size := n, mc_kwargs := dict_pop (mc_kwargs c) ''sliding_window''\<rparr>)))
            else Inr c) (\<lambda>c.
     Inr (if mc_sliding_window_size c = None then c\<lparr>mc_sliding_window_size := Some (- 1)\<rparr> else c))"

text \<open>DeepSeek-V2 and Qwen3: the block size of a checkpoint in 8-bit floats.\<close>

definition dict_default :: "json dict \<Rightarrow> string \<Rightarrow> json \<Rightarrow> json" where
  "dict_default d k v = (case dict_get d k of None \<Rightarrow> v | Some w \<Rightarrow> w)"

definition quantization_config :: "model_config \<Rightarrow> model_config res" where
  "quantization_config c =
     (case dict_get (mc_kwargs c) ''quantization_config'' of
        None \<Rightarrow> Inr c
      | Some (JObj d) \<Rightarrow>
          if dict_default d ''activation_scheme'' (JStr '''') = JStr ''dynamic'' \<and>
             dict_default d ''fmt'' (JStr '''') = JStr ''e4m3'' \<and>
             dict_default d ''quant_method'' (JStr '''') = JStr ''fp8'' \<and>
             dict_get d ''weight_block_size'' \<noteq> None
          then (case dict_default d ''weight_block_size'' JNull of
                  JList [x, y] \<Rightarrow> Inr (c\<lparr>mc_weight_block_size := JList [x, y]\<rparr>)
                | _ \<Rightarrow> Inl (ValueError ''Invalid DeepSeek model quantization config''))
          else Inl (ValueError ''Invalid DeepSeek model quantization config'')
      | Some _ \<Rightarrow> Inl (ValueError ''Invalid DeepSeek model quantization config''))"

text \<open>\<open>int(hidden_size * 3.5) // 32 * 32\<close>: \<open>int\<close> truncates.\<close>

definition rwkv_inner :: "int \<Rightarrow> int" where
  "rwkv_inner h = (sgn h * (\<bar>h\<bar> * 7 div 2)) div 32 * 32"

fun run_step :: "init_step \<Rightarrow> model_config \<Rightarrow> model_config res" where
  "run_step RopeTheta c =
     (if json_zero (mc_position_embedding_base c) then
        (case dict_get (mc_kwargs c) ''rope_theta'' of
           Some v \<Rightarrow> Inr (c\<lparr>mc_position_embedding_base := v, mc_kwargs := dict_pop (mc_kwargs c) ''rope_theta''\<rparr>)
         | None \<Rightarrow> Inr (c\<lparr>mc_position_embedding_base := JInt 10000\<rparr>))
      else Inr c)"
| "run_step RopeThetaKept c =
     Inr (c\<lparr>mc_position_embedding_base := dict_default (mc_kwargs c) ''rope_theta'' (JInt 10000)\<rparr>)"
| "run_step RopeScalingLlama c = rope_scaling_llama c"
| "run_step RopeScalingPhi3 c = rope_scaling_phi3 c"
| "run_step (ContextWindow names) c = context_from names (\<lambda>c. Inl no_context_error) c"
| "run_step (ContextOptional names) c = context_from names Inr c"
| "run_step (ContextOrPositions names) c =
     context_from names (\<lambda>c. Inr (c\<lparr>mc_context_window_size := Some (mc_n_positions c)\<rparr>)) c"
| "run_step ContextPositions c =
     (if mc_context_window_size c = Some 0 then
        (if 0 < mc_n_positions c then Inr (c\<lparr>mc_context_window_size := Some (mc_n_positions c)\<rparr>)
         else Inl no_context_error)
      else Inr c)"
| "run_step ContextMaxPosition c =
     Inr (if mc_context_window_size c = Some 0
          then c\<lparr>mc_context_window_size := Some (mc_max_position_embeddings c)\<rparr> else c)"
| "run_step (ContextMistral names) c =
     (if mc_context_window_size c = Some 0 \<and> mc_sliding_window_size c \<noteq> Some (- 1)
      then Inr (c\<lparr>mc_context_window_size := Some (- 1)\<rparr>)
      else context_from names (\<lambda>c. Inl no_context_error) c)"
| "run_step ContextSliding c = Inr (c\<lparr>mc_context_window_size := mc_sliding_window c\<rparr>)"
| "run_step ContextSlidingMax c =
     bindR (num (mc_sliding_window c)) (\<lambda>w. Inr (c\<lparr>mc_context_window_size := Some (max w 8192)\<rparr>))"
| "run_step PipelineStages c =
     (if mc_pipeline_parallel_stages c \<le> 0 \<or> mc_num_hidden_layers c < mc_pipeline_parallel_stages c
      then Inl (ValueError ''Invalid pipeline_parallel_stages value'') else Inr c)"
| "run_step KvHeads c =
     Inr (if mc_num_key_value_heads c = Some 0
          then c\<lparr>mc_num_key_value_heads := Some (mc_num_attention_heads c)\<rparr> else c)"
| "run_step KvHeadsNone c =
     Inr (if mc_num_key_value_heads c \<in> {Some 0, None}
          then c\<lparr>mc_num_key_value_heads := Some (mc_num_attention_heads c)\<rparr> else c)"
| "run_step HeadDim c =
     (if mc_head_dim c = 0
      then bindR (floor_div (mc_hidden_size c) (mc_num_attention_heads c)) (\<lambda>d. Inr (c\<lparr>mc_head_dim := d\<rparr>))
      else Inr c)"
| "run_step AssertHeadDim c =
     (if mc_head_dim c * mc_num_attention_heads c = mc_hidden_size c then Inr c else Inl AssertionError)"
| "run_step AssertKvHeads c =
     bindR (num (mc_num_key_value_heads c)) (\<lambda>k.
     bindR (floor_mod (mc_num_attention_heads c) k) (\<lambda>r. if r = 0 then Inr c else Inl AssertionError))"
| "run_step (PrefillChunk cap) c = prefill_chunk cap c"
| "run_step PrefillWhole c = prefill_whole c"
| "run_step PrefillMin c = prefill_min c"
| "run_step PrefillMistral c =
     (if mc_prefill_chunk_size c = Some 0
      then bindR (mistral_prefill c) (\<lambda>p. Inr (c\<lparr>mc_prefill_chunk_size := Some p\<rparr>)) else Inr c)"
| "run_step SlidingWindow c = sliding_window c"
| "run_step AssertSink c = (if 0 \<le> mc_attention_sink_size c then Inr c else Inl AssertionError)"
| "run_step VocabSize c =
     (if mc_vocab_size c = Some 0 then
        (case dict_get (mc_kwargs c) ''padded_vocab_size'' of
           None \<Rightarrow> Inr c
         | Some v \<Rightarrow> bindR (to_num v) (\<lambda>n.
             Inr (c\<lparr>mc_vocab_size := n, mc_kwargs := dict_pop (mc_kwargs c) ''padded_vocab_size''\<rparr>)))
      else Inr c)"
| "run_step InnerMinusOne c =
     Inr (if mc_intermediate_size c \<in> {None, Some (- 1)}
          then c\<lparr>mc_intermediate_size := Some (4 * mc_hidden_size c)\<rparr> else c)"
| "run_step InnerZero c =
     Inr (if mc_intermediate_size c \<in> {Some 0, None}
          then c\<lparr>mc_intermediate_size := Some (4 * mc_hidden_size c)\<rparr> else c)"
| "run_step ClipQkv c =
     (case mc_clip_qkv c of
        Some x \<Rightarrow> if x \<le> 0 then Inl (ValueError ''clip_qkv should be non-negative'') else Inr c
      | None \<Rightarrow> Inr c)"
| "run_step GemmaActivation c =
     (let act = (if mc_hidden_activation c = JNull then dict_default (mc_kwargs c) ''hidden_act'' JNull
                 else mc_hidden_activation c) in
      if act \<in> {JStr ''gelu'', JStr ''gelu_pytorch_tanh''} then Inr (c\<lparr>mc_hidden_activation := act\<rparr>)
      else Inl (ValueError ''Only GeLU is supported as the activation for gemma.''))"
| "run_step GemmaBias c =
     (if mc_attention_bias c then Inl (ValueError ''Only False attention_bias is supported for gemma'') else Inr c)"
| "run_step QuantizationConfig c = quantization_config c"
| "run_step (ModelVersion v) c =
     (if mc_model_version c \<noteq> v then Inl (ValueError (''Only support RWKV v'' @ v)) else Inr c)"
| "run_step RwkvInner c =
     Inr (if mc_intermediate_size c \<in> {Some 0, None}
          then c\<lparr>mc_intermediate_size := Some (rwkv_inner (mc_hidden_size c))\<rparr> else c)"
| "run_step RwkvHeads c =
     (if mc_num_heads c = 0
      then bindR (floor_div (mc_hidden_size c) (mc_head_size c)) (\<lambda>n. Inr (c\<lparr>mc_num_heads := n\<rparr>)) else Inr c)"
| "run_step RwkvCheckHeads c =
     (if mc_num_heads c * mc_head_size c \<noteq> mc_hidden_size c
      then Inl (ValueError ''hidden_size must be divisible by head_size'') else Inr c)"
| "run_step SingleDevice c =
     (if mc_tensor_parallel_shards c \<noteq> 1 then Inl (ValueError ''Only support single device at this moment.'')
      else Inr c)"

definition run_steps :: "init_step list \<Rightarrow> model_config \<Rightarrow> model_config res" where
  "run_steps ss c = foldR (\<lambda>c s. run_step s c) c ss"

section \<open>The initialisers of the classes\<close>

definition baichuan_init :: "init_step list" where
  "baichuan_init =
    [ContextWindow [''max_position_embeddings'', ''max_sequence_length''], HeadDim, AssertHeadDim, PrefillChunk 8192]"

definition bert_init :: "init_step list" where
  "bert_init =
    [InnerMinusOne, ContextWindow [''max_position_embeddings'', ''max_sequence_length''], HeadDim, AssertHeadDim,
     PrefillWhole]"

definition chatglm_init :: "init_step list" where
  "chatglm_init =
    [VocabSize, ContextWindow [''max_position_embeddings'', ''seq_length''], HeadDim, AssertHeadDim,
     PrefillChunk 8192]"

definition deepseek_init :: "init_step list" where
  "deepseek_init =
    [ContextWindow [''max_position_embeddings'', ''max_sequence_length''], HeadDim, AssertHeadDim, PrefillChunk 8192]"

definition deepseek_v2_init :: "init_step list" where
  "deepseek_v2_init =
    [QuantizationConfig, ContextWindow [''max_position_embeddings'', ''max_sequence_length''], AssertKvHeads,
     PrefillChunk 2048]"

definition gemma_init :: "init_step list" where
  "gemma_init =
    [GemmaActivation, GemmaBias, RopeTheta, ContextWindow [''max_position_embeddings'', ''max_sequence_length''],
     AssertKvHeads, PrefillChunk 8192]"

definition gemma2_init :: "init_step list" where
  "gemma2_init =
    gemma_init @ [ContextSliding]"

definition gemma3_text_init :: "init_step list" where
  "gemma3_text_init =
    [GemmaActivation, GemmaBias, RopeTheta, ContextWindow [''max_position_embeddings'', ''max_sequence_length''],
     AssertKvHeads, PrefillChunk 8192, ContextSlidingMax]"

definition gpt2_init :: "init_step list" where
  "gpt2_init =
    [InnerMinusOne, ContextWindow [''n_positions'', ''max_sequence_length''], HeadDim, AssertHeadDim,
     PrefillChunk 8192]"

definition gpt_bigcode_init :: "init_step list" where
  "gpt_bigcode_init =
    [ContextPositions, PrefillChunk 8192]"

definition gpt_j_init :: "init_step list" where
  "gpt_j_init =
    [ContextWindow [''max_position_embeddings'', ''n_positions''], HeadDim, AssertHeadDim, PrefillChunk 8192]"

definition gpt_neox_init :: "init_step list" where
  "gpt_neox_init =
    [ContextWindow [''max_position_embeddings'', ''max_sequence_length''], RopeTheta, HeadDim, AssertHeadDim,
     PrefillChunk 8192]"

definition internlm_init :: "init_step list" where
  "internlm_init =
    [ContextWindow [''max_position_embeddings'', ''max_sequence_length''], HeadDim, AssertHeadDim, PrefillChunk 8192]"

definition internlm2_init :: "init_step list" where
  "internlm2_init =
    [ContextWindow [''max_position_embeddings'', ''max_sequence_length''], HeadDim, AssertHeadDim, PrefillChunk 2048]"

definition llama_init :: "init_step list" where
  "llama_init =
    [RopeTheta, RopeScalingLlama, ContextWindow [''max_position_embeddings'', ''max_sequence_length''], PipelineStages,
     KvHeads, HeadDim, AssertKvHeads, PrefillChunk 8192]"

definition minicpm_init :: "init_step list" where
  "minicpm_init =
    [ContextWindow [''max_position_embeddings'', ''max_sequence_length''], HeadDim, AssertHeadDim, PrefillChunk 8192]"

definition mistral_init :: "init_step list" where
  "mistral_init =
    [RopeTheta, SlidingWindow, ContextMistral [''max_position_embeddings'', ''max_sequence_length''], KvHeads, HeadDim,
     AssertKvHeads, AssertSink, PrefillMistral]"

definition olmo_init :: "init_step list" where
  "olmo_init =
    [KvHeads, HeadDim, AssertKvHeads, RopeTheta, ContextWindow [''max_position_embeddings'', ''max_sequence_length''],
     PrefillChunk 8192, PipelineStages, ClipQkv]"

definition orion_init :: "init_step list" where
  "orion_init =
    [RopeTheta, ContextWindow [''max_position_embeddings'', ''max_sequence_length''], KvHeads, HeadDim, AssertHeadDim,
     AssertKvHeads, PrefillChunk 8192]"

definition phi1_init :: "init_step list" where
  "phi1_init =
    [RopeTheta, ContextWindow [''max_position_embeddings'', ''max_sequence_length''], PrefillChunk 8192, KvHeadsNone,
     InnerZero, HeadDim, AssertHeadDim, AssertKvHeads]"

definition phi_init :: "init_step list" where
  "phi_init =
    [RopeTheta, ContextOrPositions [''max_position_embeddings'', ''max_sequence_length''], PrefillMin, KvHeadsNone,
     InnerZero, HeadDim, AssertHeadDim, AssertKvHeads]"

definition phi3_init :: "init_step list" where
  "phi3_init =
    [RopeTheta, RopeScalingPhi3, ContextMaxPosition, PrefillChunk 8192, KvHeadsNone, HeadDim, AssertHeadDim,
     AssertKvHeads]"

text \<open>
  Nemotron also sets the attribute \<open>rotary_dim\<close>, \<open>int(partial_rotary_factor * head_dim)\<close>, which is not a
  field, is not read again and is not modelled.
\<close>

definition nemotron_init :: "init_step list" where
  "nemotron_init =
    [ContextMaxPosition, HeadDim, AssertHeadDim, PrefillChunk 8192]"

definition qwen_init :: "init_step list" where
  "qwen_init =
    [ContextWindow [''max_position_embeddings'', ''max_sequence_length''], HeadDim, AssertHeadDim, PrefillChunk 8192]"

definition qwen2_init :: "init_step list" where
  "qwen2_init =
    [ContextWindow [''max_position_embeddings'', ''max_sequence_length''], HeadDim, AssertHeadDim, PrefillChunk 8192]"

definition qwen3_init :: "init_step list" where
  "qwen3_init =
    [QuantizationConfig, ContextWindow [''max_position_embeddings'', ''max_sequence_length''], PrefillChunk 2048]"

definition rwkv5_init :: "init_step list" where
  "rwkv5_init =
    [ModelVersion ''5_2'', RwkvInner, RwkvHeads, RwkvCheckHeads, SingleDevice]"

definition rwkv6_init :: "init_step list" where
  "rwkv6_init =
    [ModelVersion ''6_0'', RwkvInner, RwkvHeads, RwkvCheckHeads, SingleDevice]"

definition stablelm_init :: "init_step list" where
  "stablelm_init =
    [ContextWindow [''max_position_embeddings'', ''max_sequence_length''], HeadDim, AssertHeadDim, PrefillChunk 8192]"

definition starcoder2_init :: "init_step list" where
  "starcoder2_init =
    [ContextWindow [''max_position_embeddings'', ''max_sequence_length''], HeadDim, AssertHeadDim, PrefillChunk 8192]"

text \<open>Cohere runs everything only while the base of the position embedding is not set.\<close>

definition cohere_init :: "init_step list" where
  "cohere_init =
    [RopeThetaKept, ContextOptional [''max_position_embeddings'', ''max_sequence_length''], PrefillChunk 8192,
     KvHeadsNone, HeadDim, AssertHeadDim, AssertKvHeads]"

datatype arch =
    Baichuan | Bert | ChatGLM | Deepseek | DeepseekV2 | Gemma | Gemma2 | Gemma3Text | GPT2 | GPTBigCode | GPTJ | GPTNeoX | InternLM | InternLM2 | Llama
  | MiniCPM | Mistral | OLMo | Orion | Phi1 | Phi | Phi3 | QWen | QWen2 | Qwen3 | RWKV5 | RWKV6 | StableLm | Starcoder2 | Cohere
  | Nemotron

fun init_steps :: "arch \<Rightarrow> init_step list" where
  "init_steps Baichuan = baichuan_init"
| "init_steps Bert = bert_init"
| "init_steps ChatGLM = chatglm_init"
| "init_steps Deepseek = deepseek_init"
| "init_steps DeepseekV2 = deepseek_v2_init"
| "init_steps Gemma = gemma_init"
| "init_steps Gemma2 = gemma2_init"
| "init_steps Gemma3Text = gemma3_text_init"
| "init_steps GPT2 = gpt2_init"
| "init_steps GPTBigCode = gpt_bigcode_init"
| "init_steps GPTJ = gpt_j_init"
| "init_steps GPTNeoX = gpt_neox_init"
| "init_steps InternLM = internlm_init"
| "init_steps InternLM2 = internlm2_init"
| "init_steps Llama = llama_init"
| "init_steps MiniCPM = minicpm_init"
| "init_steps Mistral = mistral_init"
| "init_steps OLMo = olmo_init"
| "init_steps Orion = orion_init"
| "init_steps Phi1 = phi1_init"
| "init_steps Phi = phi_init"
| "init_steps Phi3 = phi3_init"
| "init_steps QWen = qwen_init"
| "init_steps QWen2 = qwen2_init"
| "init_steps Qwen3 = qwen3_init"
| "init_steps RWKV5 = rwkv5_init"
| "init_steps RWKV6 = rwkv6_init"
| "init_steps StableLm = stablelm_init"
| "init_steps Starcoder2 = starcoder2_init"
| "init_steps Cohere = cohere_init"
| "init_steps Nemotron = nemotron_init"

definition post_init :: "arch \<Rightarrow> model_config \<Rightarrow> model_config res" where
  "post_init a c =
     (if a = Cohere \<and> \<not> json_zero (mc_position_embedding_base c) then Inr c else run_steps (init_steps a) c)"

section \<open>Overrides\<close>

text \<open>
  \<open>ModelConfigOverride\<close> (\<open>interface/compiler_flags.py\<close>) and \<open>ConfigOverrideBase.apply\<close>: a field that the
  class does not have is skipped, and the config is built again from the fields alone.
\<close>

record model_override =
  mo_context_window_size :: "int option"
  mo_sliding_window_size :: "int option"
  mo_prefill_chunk_size :: "int option"
  mo_attention_sink_size :: "int option"
  mo_max_batch_size :: "int option"
  mo_tensor_parallel_shards :: "int option"
  mo_pipeline_parallel_stages :: "int option"
  mo_disaggregation :: "bool option"

definition no_override :: model_override where
  "no_override =
     \<lparr>mo_context_window_size = None, mo_sliding_window_size = None, mo_prefill_chunk_size = None,
      mo_attention_sink_size = None, mo_max_batch_size = None, mo_tensor_parallel_shards = None,
      mo_pipeline_parallel_stages = None, mo_disaggregation = None\<rparr>"

definition set_if :: "bool \<Rightarrow> 'a option \<Rightarrow> 'a \<Rightarrow> 'a" where
  "set_if has v old = (if has then (case v of None \<Rightarrow> old | Some x \<Rightarrow> x) else old)"

definition updated_fields :: "arch \<Rightarrow> model_override \<Rightarrow> model_config \<Rightarrow> model_config" where
  "updated_fields a ov c = c\<lparr>
     mc_context_window_size := set_if True (map_option Some (mo_context_window_size ov)) (mc_context_window_size c),
     mc_sliding_window_size :=
       set_if (a = Mistral) (map_option Some (mo_sliding_window_size ov)) (mc_sliding_window_size c),
     mc_prefill_chunk_size := set_if True (map_option Some (mo_prefill_chunk_size ov)) (mc_prefill_chunk_size c),
     mc_attention_sink_size := set_if (a = Mistral) (mo_attention_sink_size ov) (mc_attention_sink_size c),
     mc_max_batch_size := set_if (a \<notin> {Phi, Gemma3Text}) (mo_max_batch_size ov) (mc_max_batch_size c),
     mc_tensor_parallel_shards :=
       set_if (a \<noteq> Gemma3Text) (mo_tensor_parallel_shards ov) (mc_tensor_parallel_shards c),
     mc_pipeline_parallel_stages :=
       set_if (a \<in> {Llama, OLMo}) (mo_pipeline_parallel_stages ov) (mc_pipeline_parallel_stages c),
     mc_disaggregation := set_if (a = Llama) (mo_disaggregation ov) (mc_disaggregation c),
     mc_kwargs := []\<rparr>"

definition override_apply :: "arch \<Rightarrow> model_override \<Rightarrow> model_config \<Rightarrow> model_config res" where
  "override_apply a ov c = post_init a (updated_fields a ov c)"

end
