(* ===== verification/Model_Config_Correct.thy ===== *)
theory Model_Config_Correct
  imports Model_Config
begin

text \<open>
  What a config satisfies once its \<open>__post_init__\<close> has run. A step writes at most one field and
  leaves a condition on the fields it read and wrote, which a later step keeps unless it writes
  one of them; the conditions of the steps that no later step disturbs hold in the end, and make
  a second run of the same steps do nothing.
\<close>

section \<open>What a step writes and settles\<close>

datatype cfg_field =
    FBase | FScaling | FContext | FPrefill | FKv | FHeadDim | FSliding | FVocab | FInner | FActivation
  | FBlock | FNumHeads

fun kept :: "cfg_field \<Rightarrow> model_config \<Rightarrow> model_config \<Rightarrow> bool" where
  "kept FBase c c' = (mc_position_embedding_base c' = mc_position_embedding_base c)"
| "kept FScaling c c' = (mc_rope_scaling c' = mc_rope_scaling c)"
| "kept FContext c c' = (mc_context_window_size c' = mc_context_window_size c)"
| "kept FPrefill c c' = (mc_prefill_chunk_size c' = mc_prefill_chunk_size c)"
| "kept FKv c c' = (mc_num_key_value_heads c' = mc_num_key_value_heads c)"
| "kept FHeadDim c c' = (mc_head_dim c' = mc_head_dim c)"
| "kept FSliding c c' = (mc_sliding_window_size c' = mc_sliding_window_size c)"
| "kept FVocab c c' = (mc_vocab_size c' = mc_vocab_size c)"
| "kept FInner c c' = (mc_intermediate_size c' = mc_intermediate_size c)"
| "kept FActivation c c' = (mc_hidden_activation c' = mc_hidden_activation c)"
| "kept FBlock c c' = (mc_weight_block_size c' = mc_weight_block_size c)"
| "kept FNumHeads c c' = (mc_num_heads c' = mc_num_heads c)"

text \<open>The fields that no step writes.\<close>

definition inputs_kept :: "model_config \<Rightarrow> model_config \<Rightarrow> bool" where
  "inputs_kept c c' \<longleftrightarrow>
     mc_hidden_size c' = mc_hidden_size c \<and> mc_num_attention_heads c' = mc_num_attention_heads c \<and>
     mc_num_hidden_layers c' = mc_num_hidden_layers c \<and> mc_attention_sink_size c' = mc_attention_sink_size c \<and>
     mc_sliding_window c' = mc_sliding_window c \<and>
     mc_max_position_embeddings c' = mc_max_position_embeddings c \<and>
     mc_original_max_position_embeddings c' = mc_original_max_position_embeddings c \<and>
     mc_n_positions c' = mc_n_positions c \<and> mc_attention_bias c' = mc_attention_bias c \<and>
     mc_clip_qkv c' = mc_clip_qkv c \<and> mc_model_version c' = mc_model_version c \<and>
     mc_head_size c' = mc_head_size c \<and> mc_tensor_parallel_shards c' = mc_tensor_parallel_shards c \<and>
     mc_pipeline_parallel_stages c' = mc_pipeline_parallel_stages c \<and>
     mc_max_batch_size c' = mc_max_batch_size c \<and> mc_disaggregation c' = mc_disaggregation c"

fun writes :: "init_step \<Rightarrow> cfg_field option" where
  "writes RopeTheta = Some FBase"
| "writes RopeThetaKept = Some FBase"
| "writes RopeScalingLlama = Some FScaling"
| "writes RopeScalingPhi3 = Some FScaling"
| "writes (ContextWindow _) = Some FContext"
| "writes (ContextOptional _) = Some FContext"
| "writes (ContextOrPositions _) = Some FContext"
| "writes ContextPositions = Some FContext"
| "writes ContextMaxPosition = Some FContext"
| "writes (ContextMistral _) = Some FContext"
| "writes ContextSliding = Some FContext"
| "writes ContextSlidingMax = Some FContext"
| "writes KvHeads = Some FKv"
| "writes KvHeadsNone = Some FKv"
| "writes HeadDim = Some FHeadDim"
| "writes (PrefillChunk _) = Some FPrefill"
| "writes PrefillWhole = Some FPrefill"
| "writes PrefillMin = Some FPrefill"
| "writes PrefillMistral = Some FPrefill"
| "writes SlidingWindow = Some FSliding"
| "writes VocabSize = Some FVocab"
| "writes InnerMinusOne = Some FInner"
| "writes InnerZero = Some FInner"
| "writes RwkvInner = Some FInner"
| "writes GemmaActivation = Some FActivation"
| "writes QuantizationConfig = Some FBlock"
| "writes RwkvHeads = Some FNumHeads"
| "writes _ = None"

text \<open>The prefill chunk is within the context window; without a window it is none either.\<close>

definition prefill_fits :: "model_config \<Rightarrow> bool" where
  "prefill_fits c \<longleftrightarrow>
     (case mc_context_window_size c of
        None \<Rightarrow> mc_prefill_chunk_size c = None
      | Some w \<Rightarrow> \<exists>p. mc_prefill_chunk_size c = Some p \<and> p \<le> w \<and> (p = 0 \<longrightarrow> w = 0))"

definition kv_divides :: "model_config \<Rightarrow> bool" where
  "kv_divides c \<longleftrightarrow>
     (case mc_num_key_value_heads c of
        None \<Rightarrow> False | Some k \<Rightarrow> k \<noteq> 0 \<and> mc_num_attention_heads c mod k = 0)"

fun settled :: "init_step \<Rightarrow> model_config \<Rightarrow> bool" where
  "settled RopeScalingLlama c =
     (case mc_rope_scaling c of None \<Rightarrow> True | Some d \<Rightarrow> dict_get d ''rope_type'' = Some (JStr ''llama3''))"
| "settled RopeScalingPhi3 c =
     (case mc_rope_scaling c of
        None \<Rightarrow> True
      | Some d \<Rightarrow> dict_get d ''type'' = Some (JStr ''longrope'') \<and> dict_get d ''rope_type'' = Some (JStr ''longrope'') \<and>
          dict_get d ''max_position_embeddings'' = Some (JInt (mc_max_position_embeddings c)) \<and>
          dict_get d ''original_max_position_embeddings'' = Some (JInt (mc_original_max_position_embeddings c)))"
| "settled ContextSliding c = (mc_context_window_size c = mc_sliding_window c)"
| "settled PipelineStages c =
     (0 < mc_pipeline_parallel_stages c \<and> mc_pipeline_parallel_stages c \<le> mc_num_hidden_layers c)"
| "settled KvHeads c = (mc_num_key_value_heads c = Some 0 \<longrightarrow> mc_num_attention_heads c = 0)"
| "settled KvHeadsNone c =
     (mc_num_key_value_heads c \<noteq> None \<and> (mc_num_key_value_heads c = Some 0 \<longrightarrow> mc_num_attention_heads c = 0))"
| "settled HeadDim c =
     (mc_head_dim c = 0 \<longrightarrow> mc_num_attention_heads c \<noteq> 0 \<and> mc_hidden_size c div mc_num_attention_heads c = 0)"
| "settled AssertHeadDim c = (mc_head_dim c * mc_num_attention_heads c = mc_hidden_size c)"
| "settled AssertKvHeads c = kv_divides c"
| "settled (PrefillChunk cap) c = (0 < cap \<longrightarrow> mc_context_window_size c \<noteq> None \<and> prefill_fits c)"
| "settled PrefillWhole c = prefill_fits c"
| "settled PrefillMin c = (mc_context_window_size c \<noteq> None \<and> prefill_fits c)"
| "settled PrefillMistral c = (mc_prefill_chunk_size c = Some 0 \<longrightarrow> mistral_prefill c = Inr 0)"
| "settled SlidingWindow c = (mc_sliding_window_size c \<noteq> None)"
| "settled AssertSink c = (0 \<le> mc_attention_sink_size c)"
| "settled InnerMinusOne c = (mc_intermediate_size c \<notin> {None, Some (- 1)})"
| "settled InnerZero c =
     (mc_intermediate_size c \<noteq> None \<and> (mc_intermediate_size c = Some 0 \<longrightarrow> mc_hidden_size c = 0))"
| "settled ClipQkv c = (case mc_clip_qkv c of None \<Rightarrow> True | Some x \<Rightarrow> 0 < x)"
| "settled GemmaActivation c = (mc_hidden_activation c \<in> {JStr ''gelu'', JStr ''gelu_pytorch_tanh''})"
| "settled GemmaBias c = (\<not> mc_attention_bias c)"
| "settled (ModelVersion v) c = (mc_model_version c = v)"
| "settled RwkvInner c =
     (mc_intermediate_size c \<noteq> None \<and> (mc_intermediate_size c = Some 0 \<longrightarrow> rwkv_inner (mc_hidden_size c) = 0))"
| "settled RwkvHeads c = (mc_num_heads c = 0 \<longrightarrow> mc_head_size c \<noteq> 0 \<and> mc_hidden_size c div mc_head_size c = 0)"
| "settled RwkvCheckHeads c = (mc_num_heads c * mc_head_size c = mc_hidden_size c)"
| "settled SingleDevice c = (mc_tensor_parallel_shards c = 1)"
| "settled _ c = True"

text \<open>The fields that \<open>settled\<close> reads, beside those no step writes.\<close>

fun reads :: "init_step \<Rightarrow> cfg_field list" where
  "reads RopeScalingLlama = [FScaling]"
| "reads RopeScalingPhi3 = [FScaling]"
| "reads ContextSliding = [FContext]"
| "reads KvHeads = [FKv]"
| "reads KvHeadsNone = [FKv]"
| "reads HeadDim = [FHeadDim]"
| "reads AssertHeadDim = [FHeadDim]"
| "reads AssertKvHeads = [FKv]"
| "reads (PrefillChunk _) = [FPrefill, FContext]"
| "reads PrefillWhole = [FPrefill, FContext]"
| "reads PrefillMin = [FPrefill, FContext]"
| "reads PrefillMistral = [FPrefill, FContext, FSliding]"
| "reads SlidingWindow = [FSliding]"
| "reads InnerMinusOne = [FInner]"
| "reads InnerZero = [FInner]"
| "reads GemmaActivation = [FActivation]"
| "reads RwkvInner = [FInner]"
| "reads RwkvHeads = [FNumHeads]"
| "reads RwkvCheckHeads = [FNumHeads]"
| "reads _ = []"

lemmas step_defs =
  context_from_def rope_scaling_llama_def rope_scaling_phi3_def prefill_chunk_def prefill_whole_def prefill_min_def
  sliding_window_def quantization_config_def

lemma num_eq_Inr [simp]: "num x = Inr n \<longleftrightarrow> x = Some n"
  by (cases x) (auto simp: num_def)

lemma floor_eq_Inr [simp]:
  "floor_div a b = Inr q \<longleftrightarrow> b \<noteq> 0 \<and> q = a div b"
  "floor_mod a b = Inr q \<longleftrightarrow> b \<noteq> 0 \<and> q = a mod b"
  by (auto simp: floor_div_def floor_mod_def)

lemma bindR_eq_InrE:
  assumes "bindR m f = Inr y"
  obtains x where "m = Inr x" "f x = Inr y"
  using assms by (cases m) auto

text \<open>A step changes the field it writes and the extra entries, and nothing else.\<close>

fun written :: "cfg_field option \<Rightarrow> model_config \<Rightarrow> model_config \<Rightarrow> bool" where
  "written None c c' = (c' = c)"
| "written (Some FBase) c c' = (\<exists>v kw. c' = c\<lparr>mc_position_embedding_base := v, mc_kwargs := kw\<rparr>)"
| "written (Some FScaling) c c' = (\<exists>v. c' = c\<lparr>mc_rope_scaling := v\<rparr>)"
| "written (Some FContext) c c' = (\<exists>v kw. c' = c\<lparr>mc_context_window_size := v, mc_kwargs := kw\<rparr>)"
| "written (Some FPrefill) c c' = (\<exists>v. c' = c\<lparr>mc_prefill_chunk_size := v\<rparr>)"
| "written (Some FKv) c c' = (\<exists>v. c' = c\<lparr>mc_num_key_value_heads := v\<rparr>)"
| "written (Some FHeadDim) c c' = (\<exists>v. c' = c\<lparr>mc_head_dim := v\<rparr>)"
| "written (Some FSliding) c c' = (\<exists>v kw. c' = c\<lparr>mc_sliding_window_size := v, mc_kwargs := kw\<rparr>)"
| "written (Some FVocab) c c' = (\<exists>v kw. c' = c\<lparr>mc_vocab_size := v, mc_kwargs := kw\<rparr>)"
| "written (Some FInner) c c' = (\<exists>v. c' = c\<lparr>mc_intermediate_size := v\<rparr>)"
| "written (Some FActivation) c c' = (\<exists>v. c' = c\<lparr>mc_hidden_activation := v\<rparr>)"
| "written (Some FBlock) c c' = (\<exists>v. c' = c\<lparr>mc_weight_block_size := v\<rparr>)"
| "written (Some FNumHeads) c c' = (\<exists>v. c' = c\<lparr>mc_num_heads := v\<rparr>)"

lemma writtenI:
  "c' = c\<lparr>mc_position_embedding_base := mc_position_embedding_base c', mc_kwargs := mc_kwargs c'\<rparr> \<Longrightarrow> written (Some FBase) c c'"
  "c' = c\<lparr>mc_rope_scaling := mc_rope_scaling c'\<rparr> \<Longrightarrow> written (Some FScaling) c c'"
  "c' = c\<lparr>mc_context_window_size := mc_context_window_size c', mc_kwargs := mc_kwargs c'\<rparr> \<Longrightarrow> written (Some FContext) c c'"
  "c' = c\<lparr>mc_prefill_chunk_size := mc_prefill_chunk_size c'\<rparr> \<Longrightarrow> written (Some FPrefill) c c'"
  "c' = c\<lparr>mc_num_key_value_heads := mc_num_key_value_heads c'\<rparr> \<Longrightarrow> written (Some FKv) c c'"
  "c' = c\<lparr>mc_head_dim := mc_head_dim c'\<rparr> \<Longrightarrow> written (Some FHeadDim) c c'"
  "c' = c\<lparr>mc_sliding_window_size := mc_sliding_window_size c', mc_kwargs := mc_kwargs c'\<rparr> \<Longrightarrow> written (Some FSliding) c c'"
  "c' = c\<lparr>mc_vocab_size := mc_vocab_size c', mc_kwargs := mc_kwargs c'\<rparr> \<Longrightarrow> written (Some FVocab) c c'"
  "c' = c\<lparr>mc_intermediate_size := mc_intermediate_size c'\<rparr> \<Longrightarrow> written (Some FInner) c c'"
  "c' = c\<lparr>mc_hidden_activation := mc_hidden_activation c'\<rparr> \<Longrightarrow> written (Some FActivation) c c'"
  "c' = c\<lparr>mc_weight_block_size := mc_weight_block_size c'\<rparr> \<Longrightarrow> written (Some FBlock) c c'"
  "c' = c\<lparr>mc_num_heads := mc_num_heads c'\<rparr> \<Longrightarrow> written (Some FNumHeads) c c'"
  by (simp_all only: written.simps) (blast+)

lemma written_upd [simp, intro]:
  "written (Some FBase) c (c\<lparr>mc_position_embedding_base := v\<rparr>)"
  "written (Some FBase) c (c\<lparr>mc_position_embedding_base := v, mc_kwargs := kw\<rparr>)"
  "written (Some FScaling) c (c\<lparr>mc_rope_scaling := rs\<rparr>)"
  "written (Some FContext) c (c\<lparr>mc_context_window_size := x\<rparr>)"
  "written (Some FContext) c (c\<lparr>mc_context_window_size := x, mc_kwargs := kw\<rparr>)"
  "written (Some FPrefill) c (c\<lparr>mc_prefill_chunk_size := x\<rparr>)"
  "written (Some FKv) c (c\<lparr>mc_num_key_value_heads := x\<rparr>)"
  "written (Some FHeadDim) c (c\<lparr>mc_head_dim := n\<rparr>)"
  "written (Some FSliding) c (c\<lparr>mc_sliding_window_size := x\<rparr>)"
  "written (Some FSliding) c (c\<lparr>mc_sliding_window_size := x, mc_kwargs := kw\<rparr>)"
  "written (Some FVocab) c (c\<lparr>mc_vocab_size := x\<rparr>)"
  "written (Some FVocab) c (c\<lparr>mc_vocab_size := x, mc_kwargs := kw\<rparr>)"
  "written (Some FInner) c (c\<lparr>mc_intermediate_size := x\<rparr>)"
  "written (Some FActivation) c (c\<lparr>mc_hidden_activation := v\<rparr>)"
  "written (Some FBlock) c (c\<lparr>mc_weight_block_size := v\<rparr>)"
  "written (Some FNumHeads) c (c\<lparr>mc_num_heads := n\<rparr>)"
  by (rule writtenI; simp)+

lemma written_refl [simp, intro]: "written f c c"
proof (cases f)
  case (Some g)
  then show ?thesis
    by (cases g) (auto intro!: writtenI simp del: written.simps)
qed simp

lemma written_kept:
  assumes "written f c c'"
  shows "inputs_kept c c'" and "f \<noteq> Some g \<Longrightarrow> kept g c c'"
proof -
  show "inputs_kept c c'"
  proof (cases f)
    case (Some h)
    with assms show ?thesis
      by (cases h) (auto simp: inputs_kept_def)
  qed (use assms in \<open>simp add: inputs_kept_def\<close>)
  show "kept g c c'" if "f \<noteq> Some g"
  proof (cases f)
    case None
    with assms show ?thesis
      by (cases g) auto
  next
    case (Some h)
    with assms that show ?thesis
      by (cases h; cases g) auto
  qed
qed

declare written.simps [simp del]

lemma context_from_written:
  assumes "context_from names f c = Inr c'" "\<And>c'. f c = Inr c' \<Longrightarrow> written (Some FContext) c c'"
  shows "written (Some FContext) c c'"
  using assms by (auto simp: context_from_def elim!: bindR_eq_InrE split: if_splits option.splits)

lemma rope_scaling_written:
  "rope_scaling_llama c = Inr c' \<Longrightarrow> written (Some FScaling) c c'"
  "rope_scaling_phi3 c = Inr c' \<Longrightarrow> written (Some FScaling) c c'"
  by (auto simp: rope_scaling_llama_def rope_scaling_phi3_def Let_def split: if_splits option.splits)

lemma prefill_written:
  "prefill_chunk cap c = Inr c' \<Longrightarrow> written (Some FPrefill) c c'"
  "prefill_whole c = Inr c' \<Longrightarrow> written (Some FPrefill) c c'"
  "prefill_min c = Inr c' \<Longrightarrow> written (Some FPrefill) c c'"
  by (auto simp: prefill_chunk_def prefill_whole_def prefill_min_def elim!: bindR_eq_InrE split: if_splits)

lemma sliding_window_written: "sliding_window c = Inr c' \<Longrightarrow> written (Some FSliding) c c'"
  by (auto simp: sliding_window_def intro!: writtenI elim!: bindR_eq_InrE split: if_splits option.splits)

lemma quantization_config_written: "quantization_config c = Inr c' \<Longrightarrow> written (Some FBlock) c c'"
  by (auto simp: quantization_config_def split: if_splits option.splits json.splits list.splits)

lemmas helper_written =
  rope_scaling_written prefill_written sliding_window_written quantization_config_written context_from_written

lemma run_step_written:
  assumes "run_step s c = Inr c'"
  shows "written (writes s) c c'"
  using assms
  by (cases s) (auto simp: Let_def helper_written elim!: bindR_eq_InrE context_from_written split: if_splits option.splits)

lemma rope_scaling_settled:
  "rope_scaling_llama c = Inr c' \<Longrightarrow> settled RopeScalingLlama c'"
  "rope_scaling_phi3 c = Inr c' \<Longrightarrow> settled RopeScalingPhi3 c'"
  by (auto simp: rope_scaling_llama_def rope_scaling_phi3_def Let_def split: if_splits option.splits)

lemma prefill_settled:
  "prefill_chunk cap c = Inr c' \<Longrightarrow> settled (PrefillChunk cap) c'"
  "prefill_whole c = Inr c' \<Longrightarrow> settled PrefillWhole c'"
  "prefill_min c = Inr c' \<Longrightarrow> settled PrefillMin c'"
  by (auto simp: prefill_chunk_def prefill_whole_def prefill_min_def prefill_fits_def elim!: bindR_eq_InrE
      split: if_splits option.splits)

lemma mistral_prefill_upd [simp]: "mistral_prefill (c\<lparr>mc_prefill_chunk_size := p\<rparr>) = mistral_prefill c"
  by (simp add: mistral_prefill_def prefill_candidates_def)

lemma run_step_settles:
  assumes "run_step s c = Inr c'"
  shows "settled s c'"
proof (cases s)
  case InnerMinusOne
  have "4 * h \<noteq> - 1" for h :: int
    by presburger
  with InnerMinusOne assms show ?thesis
    by (auto split: if_splits)
next
  case SlidingWindow
  with assms show ?thesis
    by (auto simp: sliding_window_def elim!: bindR_eq_InrE split: if_splits option.splits)
next
  case (PrefillChunk cap)
  with assms prefill_settled(1) show ?thesis
    by simp
next
  case PrefillWhole
  with assms prefill_settled(2) show ?thesis
    by simp
next
  case PrefillMin
  with assms prefill_settled(3) show ?thesis
    by simp
next
  case RopeScalingLlama
  with assms rope_scaling_settled(1) show ?thesis
    by simp
next
  case RopeScalingPhi3
  with assms rope_scaling_settled(2) show ?thesis
    by simp
qed (use assms in \<open>auto simp: kv_divides_def Let_def elim!: bindR_eq_InrE split: if_splits option.splits\<close>)

lemma mistral_prefill_kept:
  "mc_context_window_size c' = mc_context_window_size c \<Longrightarrow> mc_sliding_window_size c' = mc_sliding_window_size c \<Longrightarrow>
   mistral_prefill c' = mistral_prefill c"
  by (simp add: mistral_prefill_def prefill_candidates_def)

lemma settled_kept:
  assumes "settled s c" "inputs_kept c c'" "\<forall>f \<in> set (reads s). kept f c c'"
  shows "settled s c'"
  using assms
  by (cases s)
     (simp_all add: inputs_kept_def prefill_fits_def kv_divides_def mistral_prefill_kept [of c' c]
       split: option.splits)

section \<open>Runs\<close>

text \<open>The steps whose condition no later step disturbs.\<close>

fun lasting :: "init_step list \<Rightarrow> init_step list" where
  "lasting [] = []"
| "lasting (s # ss) = (if \<forall>f \<in> set (reads s). \<forall>t \<in> set ss. writes t \<noteq> Some f then s # lasting ss else lasting ss)"

lemma run_steps_simps [simp]:
  "run_steps [] c = Inr c"
  "run_steps (s # ss) c = bindR (run_step s c) (run_steps ss)"
  by (simp_all add: run_steps_def fun_eq_iff bindR_def split: sum.splits)

lemma inputs_kept_trans: "inputs_kept c c1 \<Longrightarrow> inputs_kept c1 c2 \<Longrightarrow> inputs_kept c c2"
  by (simp add: inputs_kept_def)

lemma kept_trans: "kept f c c1 \<Longrightarrow> kept f c1 c2 \<Longrightarrow> kept f c c2"
  by (cases f) simp_all

lemma run_steps_kept:
  assumes "run_steps ss c = Inr c'"
  shows "inputs_kept c c' \<and> (\<forall>f. (\<forall>t \<in> set ss. writes t \<noteq> Some f) \<longrightarrow> kept f c c')"
  using assms
proof (induction ss arbitrary: c)
  case Nil
  then have "c' = c"
    by simp
  moreover have "kept f c c" for f
    by (cases f) simp_all
  ultimately show ?case
    by (simp add: inputs_kept_def)
next
  case (Cons s ss)
  then obtain c1 where c1: "run_step s c = Inr c1" "run_steps ss c1 = Inr c'"
    by (auto elim: bindR_eq_InrE)
  note written_kept [OF run_step_written [OF c1(1)]] Cons.IH [OF c1(2)]
  then show ?case
    by (auto intro: inputs_kept_trans kept_trans)
qed

lemma run_steps_settled:
  assumes "run_steps ss c = Inr c'" "s \<in> set (lasting ss)"
  shows "settled s c'"
  using assms
proof (induction ss arbitrary: c)
  case (Cons t ss)
  then obtain c1 where c1: "run_step t c = Inr c1" "run_steps ss c1 = Inr c'"
    by (auto elim: bindR_eq_InrE)
  show ?case
  proof (cases "s \<in> set (lasting ss)")
    case False
    with Cons.prems have "s = t" "\<forall>f \<in> set (reads s). \<forall>t \<in> set ss. writes t \<noteq> Some f"
      by (auto split: if_splits)
    then show ?thesis
      using run_step_settles [OF c1(1)] run_steps_kept [OF c1(2)] by (auto intro: settled_kept)
  qed (use Cons.IH [OF c1(2)] in blast)
qed simp

section \<open>A second run\<close>

text \<open>
  A second run takes a zero for a missing value: the context window, the base of the position
  embedding and Mistral's sliding window must not be zero, and there must be a context window.
\<close>

definition initialised :: "arch \<Rightarrow> model_config \<Rightarrow> bool" where
  "initialised a c \<longleftrightarrow>
     mc_context_window_size c \<notin> {None, Some 0} \<and>
     (RopeTheta \<in> set (init_steps a) \<or> a = Cohere \<longrightarrow> \<not> json_zero (mc_position_embedding_base c)) \<and>
     (a = Mistral \<longrightarrow> mc_sliding_window_size c \<noteq> Some 0)"

lemma dict_set_same: "dict_get d k = Some v \<Longrightarrow> dict_set d k v = d"
  by (induction d k v rule: dict_set.induct) (auto split: if_splits)

lemma rerun_prefill:
  assumes "prefill_fits c" "mc_context_window_size c \<noteq> Some 0"
  shows "mc_context_window_size c \<noteq> None \<Longrightarrow> prefill_chunk cap c = Inr c"
    and "mc_context_window_size c \<noteq> None \<Longrightarrow> prefill_min c = Inr c"
    and "mc_prefill_chunk_size c \<noteq> None \<Longrightarrow> prefill_whole c = Inr c"
  using assms by (auto simp: prefill_fits_def prefill_chunk_def prefill_min_def prefill_whole_def num_def min_def
      split: option.splits)

fun rerunnable :: "init_step \<Rightarrow> model_config \<Rightarrow> bool" where
  "rerunnable RopeTheta c = (\<not> json_zero (mc_position_embedding_base c))"
| "rerunnable SlidingWindow c = (mc_sliding_window_size c \<noteq> Some 0)"
| "rerunnable (PrefillChunk cap) c = (0 < cap)"
| "rerunnable s c = (s \<notin> {RopeThetaKept, ContextSliding, ContextSlidingMax})"

lemma rerun_phi3:
  assumes "settled RopeScalingPhi3 c"
  shows "rope_scaling_phi3 c = Inr c"
proof (cases "mc_rope_scaling c")
  case None
  then show ?thesis
    by (simp add: rope_scaling_phi3_def)
next
  case (Some d)
  let ?m = "JInt (mc_max_position_embeddings c)" and ?o = "JInt (mc_original_max_position_embeddings c)"
  have d: "dict_get d ''type'' = Some (JStr ''longrope'')" "dict_get d ''rope_type'' = Some (JStr ''longrope'')"
      "dict_get d ''max_position_embeddings'' = Some ?m" "dict_get d ''original_max_position_embeddings'' = Some ?o"
    using assms Some by simp_all
  have "c\<lparr>mc_rope_scaling := Some d\<rparr> = c"
    using Some by simp
  then show ?thesis
    unfolding rope_scaling_phi3_def Some option.case d(1) Let_def
    by (simp add: d(1) dict_set_same [OF d(2)] dict_set_same [OF d(3)] dict_set_same [OF d(4)])
qed

lemma rerun_step:
  assumes "settled s c" "rerunnable s c" "mc_kwargs c = []" "mc_context_window_size c = Some w" "w \<noteq> 0"
  shows "run_step s c = Inr c"
proof -
  have prefill: "prefill_chunk cap c = Inr c" "prefill_min c = Inr c" "prefill_whole c = Inr c" if "prefill_fits c" for cap
    using rerun_prefill [OF that] assms(4,5) that by (auto simp: prefill_fits_def)
  have ctx: "context_from names f c = Inr c" for names f
    using assms(4,5) by (simp add: context_from_def)
  show ?thesis
  proof (cases s)
    case RopeScalingPhi3
    with assms(1) rerun_phi3 show ?thesis
      by simp
  next
    case RopeScalingLlama
    with assms(1) show ?thesis
      by (cases "mc_rope_scaling c") (simp_all add: rope_scaling_llama_def)
  next
    case GemmaActivation
    with assms(1) have "mc_hidden_activation c \<noteq> JNull"
      by auto
    with GemmaActivation assms(1) show ?thesis
      by (simp add: Let_def)
  next
    case AssertKvHeads
    with assms(1) show ?thesis
      by (auto simp: kv_divides_def num_def floor_mod_def split: option.splits)
  qed (use assms prefill ctx in \<open>simp_all add: rope_scaling_llama_def sliding_window_def quantization_config_def
        floor_div_def Let_def split: option.splits if_splits\<close>)
qed

lemma rerun_steps:
  assumes "\<forall>s \<in> set ss. settled s c \<and> rerunnable s c" "mc_kwargs c = []" "mc_context_window_size c = Some w" "w \<noteq> 0"
  shows "run_steps ss c = Inr c"
  using assms by (induction ss) (simp_all add: rerun_step)

lemmas init_defs =
  baichuan_init_def bert_init_def chatglm_init_def deepseek_init_def deepseek_v2_init_def gemma_init_def gemma2_init_def
  gemma3_text_init_def gpt2_init_def gpt_bigcode_init_def gpt_j_init_def gpt_neox_init_def internlm_init_def
  internlm2_init_def llama_init_def minicpm_init_def mistral_init_def olmo_init_def orion_init_def phi1_init_def
  phi_init_def phi3_init_def qwen_init_def qwen2_init_def qwen3_init_def rwkv5_init_def rwkv6_init_def
  stablelm_init_def starcoder2_init_def cohere_init_def nemotron_init_def

lemma all_lasting: "a \<notin> {Gemma2, Gemma3Text} \<Longrightarrow> lasting (init_steps a) = init_steps a"
  by (cases a) (simp_all add: init_defs)

lemma lasting_gemma:
  "lasting gemma2_init = filter (\<lambda>s. s \<noteq> PrefillChunk 8192) gemma2_init"
  "lasting gemma3_text_init = filter (\<lambda>s. s \<noteq> PrefillChunk 8192) gemma3_text_init"
  by (simp_all add: init_defs)

lemma post_init_settled:
  assumes "post_init a c = Inr c'" "a = Cohere \<Longrightarrow> json_zero (mc_position_embedding_base c)"
    and "s \<in> set (init_steps a)" "a \<in> {Gemma2, Gemma3Text} \<Longrightarrow> s \<noteq> PrefillChunk 8192"
  shows "settled s c'"
proof -
  have "s \<in> set (lasting (init_steps a))"
    using all_lasting [of a] lasting_gemma assms(3,4) by (cases "a \<in> {Gemma2, Gemma3Text}") auto
  moreover have "run_steps (init_steps a) c = Inr c'"
    using assms(1,2) by (auto simp: post_init_def split: if_splits)
  ultimately show ?thesis
    by (rule run_steps_settled [rotated])
qed

section \<open>Properties\<close>

text \<open>
  C17: What a built config satisfies, for the classes of \<open>arch\<close> (all config classes with a
  \<open>__post_init__\<close>, but the outer ones of LLaVA, Phi-3-vision and Gemma 3), and for Cohere only when the base of the position embedding
  was not given. (1) \<open>prefill_chunk_size\<close> is at most \<open>context_window_size\<close>, except for Gemma 2, the
  text config of Gemma 3, Mistral and RWKV. (2) \<open>num_key_value_heads\<close> is a divisor of
  \<open>num_attention_heads\<close>, (3) \<open>head_dim * num_attention_heads = hidden_size\<close>, (4) \<open>num_heads * head_size
  = hidden_size\<close> and (5) \<open>pipeline_parallel_stages\<close> is between 1 and \<open>num_hidden_layers\<close>, each for the listed
  classes, which are those that check it.
\<close>

theorem built_config_consistent:
  assumes "post_init a c = Inr c'" "a = Cohere \<longrightarrow> json_zero (mc_position_embedding_base c)"
  shows "(a \<notin> {Gemma2, Gemma3Text, Mistral, RWKV5, RWKV6} \<longrightarrow>
        (\<forall>w. mc_context_window_size c' = Some w \<longrightarrow> (\<exists>p. mc_prefill_chunk_size c' = Some p \<and> p \<le> w))) \<and>
      (a \<in> {Llama, Mistral, OLMo, Orion, Phi1, Phi, Phi3, Cohere, DeepseekV2, Gemma, Gemma2, Gemma3Text} \<longrightarrow>
        (\<exists>k. mc_num_key_value_heads c' = Some k \<and> k \<noteq> 0 \<and> mc_num_attention_heads c' mod k = 0)) \<and>
      (a \<in> {Baichuan, Bert, ChatGLM, Deepseek, GPT2, GPTJ, GPTNeoX, InternLM, InternLM2, MiniCPM, Orion, Phi1, Phi,
          Phi3, QWen, QWen2, StableLm, Starcoder2, Cohere, Nemotron} \<longrightarrow>
        mc_head_dim c' * mc_num_attention_heads c' = mc_hidden_size c') \<and>
      (a \<in> {RWKV5, RWKV6} \<longrightarrow> mc_num_heads c' * mc_head_size c' = mc_hidden_size c') \<and>
      (a \<in> {Llama, OLMo} \<longrightarrow>
        0 < mc_pipeline_parallel_stages c' \<and> mc_pipeline_parallel_stages c' \<le> mc_num_hidden_layers c')"
    (is "?prefill \<and> ?kv \<and> ?head \<and> ?rwkv \<and> ?stages")
proof (intro conjI)
  have settled: "settled s c'" if "s \<in> set (init_steps a)" "a \<in> {Gemma2, Gemma3Text} \<Longrightarrow> s \<noteq> PrefillChunk 8192" for s
    using post_init_settled [OF assms(1) _ that(1)] assms(2) that(2) by blast
  have "prefill_fits c'" if "a \<notin> {Gemma2, Gemma3Text, Mistral, RWKV5, RWKV6}"
    using that settled [of "PrefillChunk 8192"] settled [of "PrefillChunk 2048"] settled [of PrefillWhole]
      settled [of PrefillMin] by (cases a) (simp_all add: init_defs)
  then show ?prefill
    by (auto simp: prefill_fits_def)
  show ?kv
    using settled [of AssertKvHeads] by (auto simp: init_defs kv_divides_def split: option.splits)
  show ?head
    using settled [of AssertHeadDim] by (auto simp: init_defs)
  show ?rwkv
    using settled [of RwkvCheckHeads] by (auto simp: init_defs)
  show ?stages
    using settled [of PipelineStages] by (auto simp: init_defs)
qed

lemma updated_none: "updated_fields a no_override c = c\<lparr>mc_kwargs := []\<rparr>"
  by (simp add: updated_fields_def no_override_def set_if_def)

text \<open>
  C18: Applying a \<open>ModelConfigOverride\<close> without overrides to a config that was built returns the same
  fields, for every class of \<open>arch\<close> but Gemma 2 and 3: the second run of \<open>__post_init__\<close>, which gets no
  extra entries (what was left in \<open>kwargs\<close> is dropped), accepts the config and changes nothing. This
  needs the built config to be \<open>initialised\<close>: its context window is neither null nor 0; where the class
  sets the base of the position embedding, that is not 0; and for Mistral \<open>sliding_window_size\<close> is not 0.
  A value that the checkpoint gives as null or 0 there is taken as missing and filled in again, from
  entries that the second run does not have.
\<close>

theorem rebuilt_config_unchanged:
  assumes "post_init a c = Inr c'" "initialised a c'" "a \<notin> {Gemma2, Gemma3Text}"
  shows "override_apply a no_override c' = Inr (c'\<lparr>mc_kwargs := []\<rparr>)"
proof (cases "a = Cohere")
  case True
  with assms(2) show ?thesis
    by (simp add: override_apply_def updated_none post_init_def initialised_def)
next
  case False
  let ?d = "c'\<lparr>mc_kwargs := []\<rparr>"
  obtain w where w: "mc_context_window_size ?d = Some w" "w \<noteq> 0"
    using assms(2) by (auto simp: initialised_def)
  have "settled s ?d \<and> rerunnable s ?d" if s: "s \<in> set (init_steps a)" for s
  proof
    have "inputs_kept c' ?d" "kept f c' ?d" for f
      by (simp add: inputs_kept_def, cases f) simp_all
    then show "settled s ?d"
      using post_init_settled [OF assms(1) _ s] False assms(3) by (auto intro: settled_kept)
    show "rerunnable s ?d"
      using assms(2,3) s False by (cases a) (auto simp: initialised_def init_defs)
  qed
  then have "run_steps (init_steps a) ?d = Inr ?d"
    by (intro rerun_steps [OF _ _ w]) simp_all
  with False show ?thesis
    by (simp add: override_apply_def updated_none post_init_def)
qed

lemma run_step_context:
  assumes "run_step s c = Inr c'" "mc_context_window_size c = Some w" "w \<noteq> 0" "s \<notin> {ContextSliding, ContextSlidingMax}"
  shows "mc_context_window_size c' = Some w"
proof (cases "writes s = Some FContext")
  case False
  with written_kept(2) [OF run_step_written [OF assms(1)], of FContext] assms(2) show ?thesis
    by simp
next
  case True
  with assms show ?thesis
    by (cases s) (auto simp: context_from_def)
qed

lemma run_steps_context:
  assumes "run_steps ss c = Inr c'" "mc_context_window_size c = Some w" "w \<noteq> 0"
    "set ss \<inter> {ContextSliding, ContextSlidingMax} = {}"
  shows "mc_context_window_size c' = Some w"
  using assms
proof (induction ss arbitrary: c)
  case (Cons s ss)
  then obtain c1 where "run_step s c = Inr c1" "run_steps ss c1 = Inr c'"
    by (auto elim: bindR_eq_InrE)
  with Cons show ?case
    using run_step_context [of s c c1 w] by auto
qed simp

text \<open>
  A context window given as an override is the context window of the new config, and its
  prefill chunk fits, whatever the old config had: for every class but Cohere, Gemma 2 and 3, and
  those without such a check.
\<close>

theorem context_override_respected:
  assumes "override_apply a ov c = Inr c'" "mo_context_window_size ov = Some w" "w \<noteq> 0"
    and "a \<notin> {Cohere, Gemma2, Gemma3Text, Mistral, RWKV5, RWKV6}"
  shows "mc_context_window_size c' = Some w \<and> (\<exists>p. mc_prefill_chunk_size c' = Some p \<and> p \<le> w)"
proof -
  have run: "run_steps (init_steps a) (updated_fields a ov c) = Inr c'"
    using assms(1,4) by (simp add: override_apply_def post_init_def)
  have "mc_context_window_size (updated_fields a ov c) = Some w"
    using assms(2) by (simp add: updated_fields_def set_if_def)
  moreover have "set (init_steps a) \<inter> {ContextSliding, ContextSlidingMax} = {}"
    using assms(4) by (cases a) (simp_all add: init_defs)
  ultimately have w: "mc_context_window_size c' = Some w"
    using run_steps_context [OF run] assms(3) by blast
  have settled: "s \<in> set (init_steps a) \<Longrightarrow> settled s c'" for s
    using post_init_settled [of a _ c' s] assms(1,4) unfolding override_apply_def by blast
  have "prefill_fits c'"
    using assms(4) settled [of "PrefillChunk 8192"] settled [of "PrefillChunk 2048"] settled [of PrefillWhole]
      settled [of PrefillMin] by (cases a) (simp_all add: init_defs)
  with w show ?thesis
    by (auto simp: prefill_fits_def)
qed

text \<open>
  Once its position embedding base is set, Cohere checks nothing, so an override of the context
  window keeps a larger prefill chunk.
\<close>

lemma cohere_override_unchecked:
  assumes "\<not> json_zero (mc_position_embedding_base c)" "mc_prefill_chunk_size c = Some p"
  shows "\<exists>c'. override_apply Cohere (no_override\<lparr>mo_context_window_size := Some w\<rparr>) c = Inr c' \<and>
    mc_context_window_size c' = Some w \<and> mc_prefill_chunk_size c' = Some p"
  using assms by (auto simp: override_apply_def post_init_def updated_fields_def no_override_def set_if_def)

lemma run_steps_append: "run_steps (xs @ ys) c = bindR (run_steps xs c) (run_steps ys)"
  by (induction xs arbitrary: c) (auto simp: bindR_def split: sum.splits)

lemma gemma2_split:
  "gemma2_init = [GemmaActivation, GemmaBias, RopeTheta, ContextWindow [''max_position_embeddings'', ''max_sequence_length''],
     AssertKvHeads] @ [PrefillChunk 8192, ContextSliding]" (is "_ = ?pre @ _")
  by (simp add: gemma2_init_def gemma_init_def)

text \<open>The last two steps of Gemma 2 compute the prefill chunk and then replace the context window.\<close>

lemma gemma2_run:
  assumes "post_init Gemma2 c = Inr c'" "mc_context_window_size c = Some n" "n \<noteq> 0" "mc_prefill_chunk_size c = Some p"
  shows "mc_context_window_size c' = mc_sliding_window c \<and> mc_sliding_window c' = mc_sliding_window c \<and>
    mc_prefill_chunk_size c' = Some (if p = 0 \<or> n < p then min n 8192 else p)"
proof -
  let ?pre = "[GemmaActivation, GemmaBias, RopeTheta, ContextWindow [''max_position_embeddings'', ''max_sequence_length''],
     AssertKvHeads]"
  obtain c1 where c1: "run_steps ?pre c = Inr c1" "run_steps [PrefillChunk 8192, ContextSliding] c1 = Inr c'"
    using assms(1) unfolding post_init_def init_steps.simps gemma2_split run_steps_append
    by (auto simp del: run_steps_simps elim: bindR_eq_InrE)
  have "mc_context_window_size c1 = Some n"
    by (rule run_steps_context [OF c1(1) assms(2,3)]) simp
  moreover have "mc_prefill_chunk_size c1 = Some p" "mc_sliding_window c1 = mc_sliding_window c"
    using run_steps_kept [OF c1(1)] assms(4) by (auto simp: inputs_kept_def dest!: spec [of _ FPrefill])
  moreover from calculation have "prefill_chunk 8192 c1 =
      Inr (c1\<lparr>mc_prefill_chunk_size := Some (if p = 0 \<or> n < p then min n 8192 else p)\<rparr>)"
    unfolding prefill_chunk_def by (simp add: num_def)
  ultimately show ?thesis
    using c1(2) by (auto simp: bindR_simps)
qed

text \<open>
  C40: Gemma 2 replaces the context window by the sliding window after the prefill chunk was computed
  from the former, so that the prefill chunk of a config can exceed its context window; building the
  config again changes it.
\<close>

theorem gemma2_prefill_exceeds_window:
  assumes "post_init Gemma2 c = Inr c'" "mc_context_window_size c = Some n" "n \<noteq> 0" "mc_prefill_chunk_size c = Some 0"
    and "mc_sliding_window c = Some w" "w \<noteq> 0" "w < min n 8192"
  shows "mc_context_window_size c' = Some w \<and> mc_prefill_chunk_size c' = Some (min n 8192) \<and>
    (\<forall>c''. override_apply Gemma2 no_override c' = Inr c'' \<longrightarrow>
       mc_context_window_size c'' = Some w \<and> mc_prefill_chunk_size c'' = Some w)"
proof -
  have c': "mc_context_window_size c' = Some w" "mc_sliding_window c' = Some w" "mc_prefill_chunk_size c' = Some (min n 8192)"
    using gemma2_run [OF assms(1-4)] assms(5) by auto
  have "mc_context_window_size c'' = Some w \<and> mc_prefill_chunk_size c'' = Some w"
    if "override_apply Gemma2 no_override c' = Inr c''" for c''
  proof -
    have "post_init Gemma2 (c'\<lparr>mc_kwargs := []\<rparr>) = Inr c''"
      using that by (simp add: override_apply_def updated_none)
    from gemma2_run [OF this, of w "min n 8192"] c' assms(6,7) show ?thesis
      by simp
  qed
  with c' show ?thesis
    by blast
qed

section \<open>Examples\<close>

definition example_config :: model_config where
  "example_config = \<lparr>
     mc_hidden_size = 2304, mc_intermediate_size = Some 9216, mc_num_attention_heads = 8,
     mc_num_key_value_heads = Some 4, mc_num_hidden_layers = 26, mc_vocab_size = Some 256000,
     mc_position_embedding_base = JInt 0, mc_rope_scaling = None, mc_context_window_size = Some 8192,
     mc_prefill_chunk_size = Some 0, mc_head_dim = 0, mc_sliding_window_size = Some 0, mc_attention_sink_size = 4,
     mc_sliding_window = Some 4096, mc_max_position_embeddings = 8192, mc_original_max_position_embeddings = 0,
     mc_n_positions = 0, mc_hidden_activation = JNull, mc_attention_bias = False, mc_clip_qkv = None,
     mc_weight_block_size = JNull, mc_model_version = [], mc_head_size = 64, mc_num_heads = 0,
     mc_tensor_parallel_shards = 1, mc_pipeline_parallel_stages = 1, mc_max_batch_size = 1,
     mc_disaggregation = False, mc_kwargs = [(''hidden_act'', JStr ''gelu'')]\<rparr>"

definition example_built :: model_config where
  "example_built = example_config\<lparr>mc_position_embedding_base := JInt 10000, mc_prefill_chunk_size := Some 8192,
     mc_head_dim := 288\<rparr>"

lemma example_llama: "post_init Llama example_config = Inr example_built"
  by (simp add: post_init_def init_defs example_config_def example_built_def json_zero_def rope_scaling_llama_def
      context_from_def floor_div_def floor_mod_def num_def prefill_chunk_def)

theorem built_config_consistent_witness:
  "mc_prefill_chunk_size example_built = Some 8192 \<and> mc_num_key_value_heads example_built = Some 4 \<and>
   (\<exists>p. mc_prefill_chunk_size example_built = Some p \<and> p \<le> 8192) \<and> mc_num_attention_heads example_built mod 4 = 0"
  using built_config_consistent [OF example_llama] by (simp add: example_built_def example_config_def)

theorem rebuilt_config_unchanged_witness:
  "override_apply Llama no_override example_built = Inr (example_built\<lparr>mc_kwargs := []\<rparr>)"
  by (rule rebuilt_config_unchanged [OF example_llama])
     (simp_all add: initialised_def example_built_def example_config_def json_zero_def)

theorem context_override_respected_witness:
  "\<exists>c'. override_apply Llama (no_override\<lparr>mo_context_window_size := Some 1024\<rparr>) example_built = Inr c' \<and>
     mc_context_window_size c' = Some 1024 \<and> (\<exists>p. mc_prefill_chunk_size c' = Some p \<and> p \<le> 1024)"
proof -
  have "\<exists>c'. override_apply Llama (no_override\<lparr>mo_context_window_size := Some 1024\<rparr>) example_built = Inr c'"
    by (simp add: override_apply_def updated_fields_def no_override_def set_if_def post_init_def init_defs
        example_config_def example_built_def json_zero_def rope_scaling_llama_def context_from_def floor_div_def
        floor_mod_def num_def prefill_chunk_def)
  then obtain c' where c': "override_apply Llama (no_override\<lparr>mo_context_window_size := Some 1024\<rparr>) example_built = Inr c'"
    by blast
  with context_override_respected [OF c', of 1024] show ?thesis
    by simp
qed

theorem gemma2_prefill_exceeds_window_witness:
  "\<exists>c'. post_init Gemma2 example_config = Inr c' \<and> mc_context_window_size c' = Some 4096 \<and>
     mc_prefill_chunk_size c' = Some 8192"
proof -
  have "\<exists>c'. post_init Gemma2 example_config = Inr c'"
    by (simp add: post_init_def init_defs example_config_def dict_default_def json_zero_def context_from_def floor_mod_def
        num_def prefill_chunk_def Let_def)
  then obtain c' where c': "post_init Gemma2 example_config = Inr c'"
    by blast
  with gemma2_prefill_exceeds_window [OF c', of 8192 4096] show ?thesis
    by (simp add: example_config_def)
qed

end
