(* ===== verification/Tiktoken.thy ===== *)
theory Tiktoken
  imports Protocol "HOL-Library.Word"
begin

text \<open>
  Conversion of a tiktoken tokenizer (\<open>support/convert_tiktoken.py\<close>): the byte pair encoding that
  recovers the merge of each token from the ranks, the vocabulary and the merges, and the files
  that are written. The tokenizer that \<open>transformers\<close> loads is the argument \<open>tokenizer\<close>, and its map
  from bytes to characters (\<open>bytes_to_unicode\<close>) the argument \<open>byte_encoder\<close>.
\<close>

section \<open>Byte pair encoding\<close>

type_synonym bytes = "8 word list"
type_synonym ranks = "(bytes \<times> int) list"

text \<open>The \<open>for\<close> loop of \<open>bpe\<close>: the first pair of the smallest rank, with its index.\<close>

fun min_pair :: "ranks \<Rightarrow> nat \<Rightarrow> bytes list \<Rightarrow> (nat \<times> int) option \<Rightarrow> (nat \<times> int) option" where
  "min_pair ranks i (p # q # ps) best =
     min_pair ranks (Suc i) (q # ps)
       (case dict_get ranks (p @ q) of
          None \<Rightarrow> best
        | Some r \<Rightarrow> (case best of
                      None \<Rightarrow> Some (i, r)
                    | Some (j, m) \<Rightarrow> if r < m then Some (i, r) else best))"
| "min_pair ranks i _ best = best"

definition merge_at :: "nat \<Rightarrow> bytes list \<Rightarrow> bytes list" where
  "merge_at i parts = take i parts @ [parts ! i @ parts ! Suc i] @ drop (i + 2) parts"

lemma min_pair_bounds:
  assumes "min_pair ranks i ps best = Some (j, r)"
  shows "best = Some (j, r) \<or>
    i \<le> j \<and> Suc (j - i) < length ps \<and> dict_get ranks (ps ! (j - i) @ ps ! Suc (j - i)) = Some r"
  using assms
proof (induction ranks i ps best rule: min_pair.induct)
  case (1 ranks i p q ps best)
  let ?best = "case dict_get ranks (p @ q) of None \<Rightarrow> best
    | Some r \<Rightarrow> (case best of None \<Rightarrow> Some (i, r) | Some (j, m) \<Rightarrow> if r < m then Some (i, r) else best)"
  have "min_pair ranks (Suc i) (q # ps) ?best = Some (j, r)"
    using 1(2) by simp
  from 1(1) [OF this] have
    "?best = Some (j, r) \<or> Suc i \<le> j \<and> Suc (j - Suc i) < length (q # ps) \<and>
       dict_get ranks ((q # ps) ! (j - Suc i) @ (q # ps) ! Suc (j - Suc i)) = Some r" .
  then consider "?best = Some (j, r)"
    | "Suc i \<le> j" "Suc (j - Suc i) < length (q # ps)"
        "dict_get ranks ((q # ps) ! (j - Suc i) @ (q # ps) ! Suc (j - Suc i)) = Some r"
    by blast
  then show ?case
  proof cases
    case 1
    then show ?thesis
      by (auto split: option.splits if_splits)
  next
    case 2
    then have "j - i = Suc (j - Suc i)"
      by simp
    with 2 show ?thesis
      by simp
  qed
qed auto

text \<open>The \<open>while\<close> loop: it ends, because each round has one part less.\<close>

function bpe_loop :: "ranks \<Rightarrow> int option \<Rightarrow> bytes list \<Rightarrow> bytes list" where
  "bpe_loop ranks max_rank parts =
     (case min_pair ranks 0 parts None of
        None \<Rightarrow> parts
      | Some (i, r) \<Rightarrow>
          if (case max_rank of None \<Rightarrow> False | Some m \<Rightarrow> m \<le> r) then parts
          else bpe_loop ranks max_rank (merge_at i parts))"
  by pat_completeness auto

termination
  by (relation "measure (\<lambda>(_, _, parts). length parts)")
    (auto simp: merge_at_def dest: min_pair_bounds)

declare bpe_loop.simps [simp del]

definition bpe :: "ranks \<Rightarrow> bytes \<Rightarrow> int option \<Rightarrow> bytes list" where
  "bpe ranks token max_rank = bpe_loop ranks max_rank (map (\<lambda>b. [b]) token)"

section \<open>Vocabulary and merges\<close>

definition token_bytes_to_string :: "(8 word \<Rightarrow> char) \<Rightarrow> bytes \<Rightarrow> string" where
  "token_bytes_to_string byte_encoder b = map byte_encoder b"

definition add_token ::
    "(8 word \<Rightarrow> char) \<Rightarrow> ranks \<Rightarrow> int dict \<times> string list \<Rightarrow> bytes \<times> int \<Rightarrow> (int dict \<times> string list) res" where
  "add_token byte_encoder ranks vm tr =
     (case (vm, tr) of ((vocab, merges), (token, rank)) \<Rightarrow>
        let vocab = dict_set vocab (token_bytes_to_string byte_encoder token) rank in
        if length token = 1 then Inr (vocab, merges)
        else let merged = bpe ranks token (Some rank) in
          if length merged \<noteq> 2 then Inl AssertionError
          else Inr (vocab, merges @ [str_join '' '' (map (token_bytes_to_string byte_encoder) merged)]))"

definition generate_vocab_and_merges ::
    "(8 word \<Rightarrow> char) \<Rightarrow> int dict \<Rightarrow> ranks \<Rightarrow> (int dict \<times> string list) res" where
  "generate_vocab_and_merges byte_encoder special_tokens ranks =
     bindR (foldR (add_token byte_encoder ranks) ([], []) ranks) (\<lambda>(vocab, merges).
       Inr (dict_update vocab special_tokens, merges))"

section \<open>The files\<close>

record tokenizer =
  tk_class :: string
  tk_ranks :: ranks
  tk_special_tokens :: "int dict"

definition byte_level :: "bool \<Rightarrow> bool \<Rightarrow> json" where
  "byte_level add_prefix_space trim_offsets =
     JObj [(''type'', JStr ''ByteLevel''), (''add_prefix_space'', JBool add_prefix_space),
           (''trim_offsets'', JBool trim_offsets), (''use_regex'', JBool True)]"

definition added_tokens :: "int dict \<Rightarrow> json list" where
  "added_tokens special_tokens =
     map (\<lambda>(content, i). JObj
       [(''id'', JInt i), (''content'', JStr content), (''single_word'', JBool False), (''lstrip'', JBool False),
        (''rstrip'', JBool False), (''normalized'', JBool False), (''special'', JBool True)]) special_tokens"

definition tokenizer_template :: "json list \<Rightarrow> int dict \<Rightarrow> string list \<Rightarrow> json" where
  "tokenizer_template added vocab merges = JObj
     [(''version'', JStr ''1.0''), (''truncation'', JNull), (''padding'', JNull), (''added_tokens'', JList added),
      (''normalizer'', JNull), (''pre_tokenizer'', byte_level False True), (''post_processor'', byte_level True False),
      (''decoder'', byte_level True True),
      (''model'', JObj
        [(''type'', JStr ''BPE''), (''dropout'', JNull), (''unk_token'', JNull), (''continuing_subword_prefix'', JStr []),
         (''end_of_word_suffix'', JStr []), (''fuse_unk'', JBool False), (''byte_fallback'', JBool False),
         (''vocab'', JObj (map (\<lambda>(k, v). (k, JInt v)) vocab)), (''merges'', JList (map JStr merges))])]"

definition end_of_text :: json where
  "end_of_text = JStr ''<|endoftext|>''"

text \<open>The keys are sorted, \<open>if context_window_size\<close> leaves out a missing and a zero window.\<close>

definition tokenizer_config_template :: "string \<Rightarrow> int option \<Rightarrow> json" where
  "tokenizer_config_template tokenizer_class context_window_size = JObj
     ([(''add_prefix_space'', JBool False), (''bos_token'', end_of_text),
       (''clean_up_tokenization_spaces'', JBool True), (''eos_token'', end_of_text)] @
      (case context_window_size of
         None \<Rightarrow> []
       | Some n \<Rightarrow> if n = 0 then [] else [(''model_max_length'', JInt n)]) @
      [(''tokenizer_class'', JStr tokenizer_class), (''unk_token'', end_of_text)])"

text \<open>The files in the order they are written; \<open>None\<close> is one that is not JSON.\<close>

definition convert_tiktoken ::
    "(8 word \<Rightarrow> char) \<Rightarrow> tokenizer \<Rightarrow> int option \<Rightarrow> (string \<times> json option) list res" where
  "convert_tiktoken byte_encoder tk context_window_size =
     bindR (generate_vocab_and_merges byte_encoder (tk_special_tokens tk) (tk_ranks tk)) (\<lambda>(vocab, merges).
       Inr [(''vocab.json'', Some (JObj (map (\<lambda>(k, v). (k, JInt v)) vocab))),
            (''tokenizer.json'', Some (tokenizer_template (added_tokens (tk_special_tokens tk)) vocab merges)),
            (''tokenizer_config.json'', Some (tokenizer_config_template (tk_class tk) context_window_size)),
            (''special_tokens_map.json'',
              Some (JObj [(''bos_token'', end_of_text), (''eos_token'', end_of_text), (''unk_token'', end_of_text)])),
            (''merges.txt'', None)])"

section \<open>What the encoding gives\<close>

lemma concat_merge_at:
  assumes "Suc i < length parts"
  shows "concat (merge_at i parts) = concat parts"
proof -
  have "parts = take i parts @ [parts ! i, parts ! Suc i] @ drop (i + 2) parts"
    using assms by (simp add: Cons_nth_drop_Suc)
  from arg_cong [OF this, of concat] show ?thesis
    by (simp add: merge_at_def)
qed

lemma set_merge_at:
  "set (merge_at i parts) \<subseteq> insert (parts ! i @ parts ! Suc i) (set parts)"
  by (auto simp: merge_at_def dest: in_set_takeD in_set_dropD)

text \<open>The scan misses no pair: what it returns is at most the rank of each.\<close>

lemma min_pair_least:
  "(best = Some (j, m) \<longrightarrow> (\<exists>j' r. min_pair ranks i ps best = Some (j', r) \<and> r \<le> m)) \<and>
   (\<forall>k. Suc k < length ps \<longrightarrow>
      (case dict_get ranks (ps ! k @ ps ! Suc k) of
         None \<Rightarrow> True
       | Some r \<Rightarrow> (\<exists>j' r'. min_pair ranks i ps best = Some (j', r') \<and> r' \<le> r)))"
proof (induction ranks i ps best arbitrary: j m rule: min_pair.induct)
  case (1 ranks i p q ps best)
  let ?best = "case dict_get ranks (p @ q) of None \<Rightarrow> best
    | Some r \<Rightarrow> (case best of None \<Rightarrow> Some (i, r) | Some (j, m) \<Rightarrow> if r < m then Some (i, r) else best)"
  note IH = 1
  have eq: "min_pair ranks i (p # q # ps) best = min_pair ranks (Suc i) (q # ps) ?best"
    by simp
  have le: "\<exists>j' r'. min_pair ranks i (p # q # ps) best = Some (j', r') \<and> r' \<le> r" if "?best = Some (b, r)" for b r
    using IH [of b r] that unfolding eq by blast
  show ?case
  proof (intro conjI impI allI)
    assume best: "best = Some (j, m)"
    have "\<exists>b r. ?best = Some (b, r) \<and> r \<le> m"
      by (simp add: best split: option.split)
    then obtain b r where "?best = Some (b, r)" "r \<le> m"
      by blast
    with le [of b r] show "\<exists>j' r. min_pair ranks i (p # q # ps) best = Some (j', r) \<and> r \<le> m"
      by fastforce
  next
    fix k
    assume k: "Suc k < length (p # q # ps)"
    show "case dict_get ranks ((p # q # ps) ! k @ (p # q # ps) ! Suc k) of None \<Rightarrow> True
      | Some r \<Rightarrow> \<exists>j' r'. min_pair ranks i (p # q # ps) best = Some (j', r') \<and> r' \<le> r"
    proof (cases k)
      case 0
      show ?thesis
      proof (cases "dict_get ranks (p @ q)")
        case (Some r)
        then have "\<exists>b r'. ?best = Some (b, r') \<and> r' \<le> r"
          by (simp split: option.split)
        then obtain b r' where "?best = Some (b, r')" "r' \<le> r"
          by blast
        with le [of b r'] 0 Some show ?thesis
          by fastforce
      qed (simp add: 0)
    next
      case (Suc k')
      with IH [THEN conjunct2] k show ?thesis
        unfolding eq by simp
    qed
  qed
qed auto

text \<open>Parts that no rank below the bound joins.\<close>

definition bpe_irreducible :: "ranks \<Rightarrow> int option \<Rightarrow> bytes list \<Rightarrow> bool" where
  "bpe_irreducible ranks max_rank parts \<longleftrightarrow>
     (\<forall>k r. Suc k < length parts \<longrightarrow> dict_get ranks (parts ! k @ parts ! Suc k) = Some r \<longrightarrow>
        (\<exists>m. max_rank = Some m \<and> m \<le> r))"

text \<open>A part is a byte, or a token of the vocabulary with a rank below the bound.\<close>

definition bpe_part :: "ranks \<Rightarrow> int option \<Rightarrow> bytes \<Rightarrow> bool" where
  "bpe_part ranks max_rank p \<longleftrightarrow>
     length p = 1 \<or> (\<exists>r. dict_get ranks p = Some r \<and> (\<forall>m. max_rank = Some m \<longrightarrow> r < m))"

lemma bpe_loop_ok:
  assumes "\<forall>p \<in> set parts. bpe_part ranks max_rank p"
  shows "concat (bpe_loop ranks max_rank parts) = concat parts \<and>
    bpe_irreducible ranks max_rank (bpe_loop ranks max_rank parts) \<and>
    (\<forall>p \<in> set (bpe_loop ranks max_rank parts). bpe_part ranks max_rank p)"
  using assms
proof (induction ranks max_rank parts rule: bpe_loop.induct)
  case (1 ranks max_rank parts)
  note least = min_pair_least [of None _ _ ranks 0 parts, THEN conjunct2, rule_format]
  show ?case
  proof (cases "min_pair ranks 0 parts None")
    case None
    then have "bpe_irreducible ranks max_rank parts"
      using least by (fastforce simp: bpe_irreducible_def)
    with None 1(2) show ?thesis
      by (simp add: bpe_loop.simps [of ranks max_rank parts])
  next
    case (Some ir)
    obtain i r where ir: "ir = (i, r)"
      by (cases ir)
    from min_pair_bounds [OF Some [unfolded ir]]
    have i: "Suc i < length parts" and r: "dict_get ranks (parts ! i @ parts ! Suc i) = Some r"
      by simp_all
    show ?thesis
    proof (cases "\<exists>m. max_rank = Some m \<and> m \<le> r")
      case True
      then have "bpe_irreducible ranks max_rank parts"
        using least Some ir by (fastforce simp: bpe_irreducible_def)
      with True Some ir 1(2) show ?thesis
        by (auto simp: bpe_loop.simps [of ranks max_rank parts])
    next
      case False
      then have rec: "bpe_loop ranks max_rank parts = bpe_loop ranks max_rank (merge_at i parts)"
        using Some ir by (auto simp: bpe_loop.simps [of ranks max_rank parts] split: option.splits)
      from False r have "bpe_part ranks max_rank (parts ! i @ parts ! Suc i)"
        by (auto simp: bpe_part_def not_le)
      with 1(2) set_merge_at [of i parts] have "\<forall>p \<in> set (merge_at i parts). bpe_part ranks max_rank p"
        by auto
      with 1(1) [OF Some ir [symmetric]] False rec concat_merge_at [OF i] show ?thesis
        by (auto split: option.splits)
    qed
  qed
qed

text \<open>The parts of a token are bytes or tokens of smaller rank; nothing is left to join.\<close>

lemma bpe_ok:
  "concat (bpe ranks token max_rank) = token \<and> bpe_irreducible ranks max_rank (bpe ranks token max_rank) \<and>
   (\<forall>p \<in> set (bpe ranks token max_rank). bpe_part ranks max_rank p)"
proof -
  have "concat (map (\<lambda>b. [b]) token) = token"
    by (induction token) auto
  then show ?thesis
    using bpe_loop_ok [of "map (\<lambda>b. [b]) token" ranks max_rank] by (auto simp: bpe_def bpe_part_def)
qed

section \<open>What is converted\<close>

definition merge_line :: "(8 word \<Rightarrow> char) \<Rightarrow> bytes \<times> bytes \<Rightarrow> string" where
  "merge_line byte_encoder pq =
     token_bytes_to_string byte_encoder (fst pq) @ '' '' @ token_bytes_to_string byte_encoder (snd pq)"

text \<open>A merge makes a token of the vocabulary from bytes and tokens of smaller rank.\<close>

definition merge_ok :: "ranks \<Rightarrow> bytes \<times> bytes \<Rightarrow> bool" where
  "merge_ok ranks pq \<longleftrightarrow>
     (\<exists>r. dict_get ranks (fst pq @ snd pq) = Some r \<and> bpe_part ranks (Some r) (fst pq) \<and> bpe_part ranks (Some r) (snd pq))"

lemma add_token_ok:
  assumes "add_token byte_encoder ranks (vocab, merges) (token, rank) = Inr (vocab', merges')"
    "dict_get ranks token = Some rank"
  shows "vocab' = dict_set vocab (token_bytes_to_string byte_encoder token) rank \<and>
    (length token = 1 \<and> merges' = merges \<or>
     length token \<noteq> 1 \<and>
       (\<exists>pq. merges' = merges @ [merge_line byte_encoder pq] \<and> fst pq @ snd pq = token \<and> merge_ok ranks pq))"
proof (cases "length token = 1")
  case False
  with assms(1) have len: "length (bpe ranks token (Some rank)) = 2"
    and eq: "vocab' = dict_set vocab (token_bytes_to_string byte_encoder token) rank"
      "merges' = merges @ [str_join '' '' (map (token_bytes_to_string byte_encoder) (bpe ranks token (Some rank)))]"
    by (auto simp: add_token_def Let_def split: if_splits)
  from len obtain p q where pq: "bpe ranks token (Some rank) = [p, q]"
    by (auto simp: length_Suc_conv numeral_2_eq_2)
  with bpe_ok [of ranks token "Some rank"] assms(2) have "p @ q = token" "merge_ok ranks (p, q)"
    by (auto simp: merge_ok_def)
  with False eq pq show ?thesis
    by (auto simp: merge_line_def intro!: exI [of _ "(p, q)"])
qed (use assms(1) in \<open>auto simp: add_token_def Let_def\<close>)

lemma add_tokens_ok:
  assumes "foldR (add_token byte_encoder ranks) (vocab, merges) ts = Inr (vocab', merges')"
    "\<forall>(t, r) \<in> set ts. dict_get ranks t = Some r"
  shows "vocab' = dict_update vocab (map (\<lambda>tr. (token_bytes_to_string byte_encoder (fst tr), snd tr)) ts) \<and>
    (\<exists>pqs. merges' = merges @ map (merge_line byte_encoder) pqs \<and>
       map (\<lambda>pq. fst pq @ snd pq) pqs = filter (\<lambda>t. length t \<noteq> 1) (map fst ts) \<and> (\<forall>pq \<in> set pqs. merge_ok ranks pq))"
  using assms
proof (induction ts arbitrary: vocab merges)
  case (Cons tr ts)
  obtain t r where tr: "tr = (t, r)"
    by (cases tr)
  from Cons.prems(1) tr obtain v1 m1 where
    one: "add_token byte_encoder ranks (vocab, merges) (t, r) = Inr (v1, m1)" and
    rest: "foldR (add_token byte_encoder ranks) (v1, m1) ts = Inr (vocab', merges')"
    by (auto simp: res_simps)
  from Cons.prems(2) have "\<forall>(t, r) \<in> set ts. dict_get ranks t = Some r"
    by simp
  from Cons.IH [OF rest this] obtain pqs where
    v: "vocab' = dict_update v1 (map (\<lambda>tr. (token_bytes_to_string byte_encoder (fst tr), snd tr)) ts)" and
    m: "merges' = m1 @ map (merge_line byte_encoder) pqs"
      "map (\<lambda>pq. fst pq @ snd pq) pqs = filter (\<lambda>t. length t \<noteq> 1) (map fst ts)" "\<forall>pq \<in> set pqs. merge_ok ranks pq"
    by blast
  from add_token_ok [OF one] Cons.prems(2) tr consider
      "v1 = dict_set vocab (token_bytes_to_string byte_encoder t) r" "length t = 1" "m1 = merges"
    | pq where "v1 = dict_set vocab (token_bytes_to_string byte_encoder t) r" "length t \<noteq> 1"
        "m1 = merges @ [merge_line byte_encoder pq]" "fst pq @ snd pq = t" "merge_ok ranks pq"
    by auto
  then show ?case
  proof cases
    case 1
    with v m tr show ?thesis
      by (auto simp: dict_update_def intro!: exI [of _ pqs])
  next
    case (2 pq)
    with v m tr show ?thesis
      by (auto simp: dict_update_def intro!: exI [of _ "pq # pqs"])
  qed
qed (auto simp: dict_update_def)

lemma dict_update_distinct:
  assumes "dict_ok e" "(k, v) \<in> set e"
  shows "dict_get (dict_update d e) k = Some v"
proof -
  from assms have "dict_get (rev e) k = Some v"
    by (simp add: dict_get_def dict_ok_def rev_map [symmetric])
  then show ?thesis
    by (simp add: dict_get_update)
qed

lemma dict_update_other: "k \<notin> fst ` set e \<Longrightarrow> dict_get (dict_update d e) k = dict_get d k"
  by (simp add: dict_get_update dict_get_None_iff [THEN iffD2])

lemma encoded_ranks_ok:
  assumes "inj byte_encoder" "dict_ok ranks"
  shows "dict_ok (map (\<lambda>tr. (token_bytes_to_string byte_encoder (fst tr), snd tr)) ranks)"
proof -
  have eq: "map fst (map (\<lambda>tr. (token_bytes_to_string byte_encoder (fst tr), snd tr)) ranks) =
      map (map byte_encoder) (map fst ranks)"
    by (simp add: token_bytes_to_string_def)
  have "inj_on (map byte_encoder) (set (map fst ranks))"
    using inj_mapI [OF assms(1)] by (rule inj_on_subset) simp
  with assms(2) show ?thesis
    unfolding dict_ok_def eq by (subst distinct_map) simp
qed

text \<open>
  C36: a conversion that succeeds gives every token of the ranks its rank in the vocabulary, and every special
  token its id. The merges are one line for each token of more than one byte, in the order of
  the ranks: two parts that make up the token, each of them a byte or a token of smaller rank
  (\<open>bytes_to_unicode\<close> is injective, and the special tokens are not among the encoded ones).
\<close>

theorem tiktoken_vocab_and_merges:
  assumes "generate_vocab_and_merges byte_encoder special_tokens ranks = Inr (vocab, merges)"
    "inj byte_encoder" "dict_ok ranks" "dict_ok special_tokens"
    "\<forall>(t, r) \<in> set ranks. token_bytes_to_string byte_encoder t \<notin> fst ` set special_tokens"
  shows "(\<forall>(t, r) \<in> set ranks. dict_get vocab (token_bytes_to_string byte_encoder t) = Some r) \<and>
    (\<forall>(s, i) \<in> set special_tokens. dict_get vocab s = Some i) \<and>
    (\<exists>pqs. merges = map (\<lambda>(p, q). token_bytes_to_string byte_encoder p @ '' '' @ token_bytes_to_string byte_encoder q) pqs \<and>
       map (\<lambda>(p, q). p @ q) pqs = filter (\<lambda>t. length t \<noteq> 1) (map fst ranks) \<and>
       (\<forall>(p, q) \<in> set pqs. \<exists>r. dict_get ranks (p @ q) = Some r \<and>
          bpe_part ranks (Some r) p \<and> bpe_part ranks (Some r) q))"
proof -
  let ?e = "map (\<lambda>tr. (token_bytes_to_string byte_encoder (fst tr), snd tr)) ranks"
  from assms(1) obtain v where
    fold: "foldR (add_token byte_encoder ranks) ([], []) ranks = Inr (v, merges)" and
    vocab: "vocab = dict_update v special_tokens"
    by (auto simp: generate_vocab_and_merges_def res_simps)
  from assms(3) have "\<forall>(t, r) \<in> set ranks. dict_get ranks t = Some r"
    by (auto simp: dict_ok_def dict_get_def)
  from add_tokens_ok [OF fold this] obtain pqs where v: "v = dict_update [] ?e" and
    pqs: "merges = map (merge_line byte_encoder) pqs"
      "map (\<lambda>pq. fst pq @ snd pq) pqs = filter (\<lambda>t. length t \<noteq> 1) (map fst ranks)" "\<forall>pq \<in> set pqs. merge_ok ranks pq"
    by auto
  have "dict_get vocab (token_bytes_to_string byte_encoder t) = Some r" if "(t, r) \<in> set ranks" for t r
  proof -
    from that have "(token_bytes_to_string byte_encoder t, r) \<in> set ?e"
      by force
    from dict_update_distinct [OF encoded_ranks_ok [OF assms(2,3)] this] that assms(5) show ?thesis
      unfolding vocab v by (subst dict_update_other) auto
  qed
  moreover have "\<forall>(s, i) \<in> set special_tokens. dict_get vocab s = Some i"
    using dict_update_distinct [OF assms(4)] by (auto simp: vocab)
  ultimately show ?thesis
    using pqs by (intro conjI exI [of _ pqs])
      (auto simp: merge_line_def [abs_def] merge_ok_def case_prod_unfold)
qed

theorem tiktoken_vocab_and_merges_witness:
  "\<exists>vocab merges. generate_vocab_and_merges (\<lambda>w. char_of (unat w)) [(''<|endoftext|>'', 3)]
       [([97], 0), ([98], 1), ([97, 98], 2)] = Inr (vocab, merges) \<and>
     merges = [''a b''] \<and> dict_get vocab ''ab'' = Some 2 \<and> dict_get vocab ''<|endoftext|>'' = Some 3"
proof -
  let ?enc = "\<lambda>w :: 8 word. (char_of (unat w) :: char)"
  let ?ranks = "[([97], 0), ([98], 1), ([97, 98], 2)] :: ranks"
  let ?special = "[(''<|endoftext|>'', 3)] :: int dict"
  have g: "generate_vocab_and_merges ?enc ?special ?ranks =
      Inr ([(''a'', 0), (''b'', 1), (''ab'', 2), (''<|endoftext|>'', 3)], [''a b''])"
    by code_simp
  have inj: "inj ?enc"
  proof (rule injI)
    fix x y :: "8 word"
    assume "char_of (unat x) = (char_of (unat y) :: char)"
    then have "(of_char (char_of (unat x) :: char) :: nat) = of_char (char_of (unat y) :: char)"
      by simp
    then show "x = y"
      using unsigned_less [of x, where 'a = nat] unsigned_less [of y, where 'a = nat] by (simp add: word_unat_eq_iff)
  qed
  have "dict_ok ?ranks" "dict_ok ?special"
    "\<forall>(t, r) \<in> set ?ranks. token_bytes_to_string ?enc t \<notin> fst ` set ?special"
    by code_simp+
  from tiktoken_vocab_and_merges [OF g inj this] g show ?thesis
    by auto
qed

end
