(* ===== verification/Gen_Config.thy ===== *)
theory Gen_Config
  imports Model_Config_Correct Quantization_Correct Tiktoken
begin

text \<open>
  Files of a model: where a config and its weights are found (\<open>support/auto_config.py\<close>,
  \<open>support/auto_weight.py\<close>), and the generation of \<open>mlc-chat-config.json\<close> (\<open>interface/gen_config.py\<close>,
  \<open>protocol/mlc_chat_config.py\<close>). The files are an association list from paths to contents, which the
  functions read and extend. Presets, downloads, the tokenizers that \<open>transformers\<close> loads and the JSON
  form of a conversation template are arguments. What is generated is detected again, and so are
  the weights.
\<close>

section \<open>Files\<close>

text \<open>A path is its list of components; an absolute one starts with \<open>/\<close>.\<close>

type_synonym path = "string list"

text \<open>A file has a JSON value, or is one that \<open>json.load\<close> refuses.\<close>

datatype entry = DirEntry | FileEntry "json option"

type_synonym files = "(path \<times> entry) list"

definition Path :: "string \<Rightarrow> path" where
  "Path s = (if prefix ''/'' s then [''/''] else []) @
     filter (\<lambda>x. x \<noteq> [] \<and> x \<noteq> ''.'') (str_split CHR ''/'' s)"

definition path_exists :: "files \<Rightarrow> path \<Rightarrow> bool" where
  "path_exists fs p \<longleftrightarrow> dict_get fs p \<noteq> None"

definition is_dir :: "files \<Rightarrow> path \<Rightarrow> bool" where
  "is_dir fs p \<longleftrightarrow> dict_get fs p = Some DirEntry"

definition path_str :: "path \<Rightarrow> string" where
  "path_str p = str_join ''/'' p"

definition load_json :: "files \<Rightarrow> path \<Rightarrow> json res" where
  "load_json fs p =
     (case dict_get fs p of
        None \<Rightarrow> Inl (FileNotFoundError (path_str p))
      | Some DirEntry \<Rightarrow> Inl (ForeignError ''IsADirectoryError'')
      | Some (FileEntry None) \<Rightarrow> Inl (ForeignError ''JSONDecodeError'')
      | Some (FileEntry (Some j)) \<Rightarrow> Inr j)"

definition write_file :: "files \<Rightarrow> path \<Rightarrow> json option \<Rightarrow> files res" where
  "write_file fs p content =
     (if \<not> is_dir fs (butlast p) then Inl (FileNotFoundError (path_str p))
      else if is_dir fs p then Inl (ForeignError ''IsADirectoryError'')
      else Inr (dict_set fs p (FileEntry content)))"

text \<open>A JSON file with an object; the other kinds of JSON values are not indexed by name.\<close>

definition load_object :: "files \<Rightarrow> path \<Rightarrow> json dict res" where
  "load_object fs p =
     bindR (load_json fs p) (\<lambda>j. case j of JObj d \<Rightarrow> Inr d | _ \<Rightarrow> Inl TypeError)"

section \<open>Detection of configs\<close>

definition find_json :: "string \<Rightarrow> path \<Rightarrow> files \<Rightarrow> path res" where
  "find_json name p fs =
     (if \<not> path_exists fs p then Inl (ValueError (path_str p @ '' does not exist.''))
      else if is_dir fs p then
        (if path_exists fs (p @ [name]) then Inr (p @ [name])
         else Inl (ValueError (''Fail to find '' @ name @ '' under '' @ path_str p)))
      else Inr p)"

text \<open>A preset is written to a temporary file, with its name as the entry \<open>model_preset_tag\<close>.\<close>

definition write_preset :: "path \<Rightarrow> string \<Rightarrow> json dict \<Rightarrow> files \<Rightarrow> files" where
  "write_preset temp name content fs =
     dict_set fs temp (FileEntry (Some (JObj (dict_set content ''model_preset_tag'' (JStr name)))))"

definition detect_config :: "json dict dict \<Rightarrow> path \<Rightarrow> string \<Rightarrow> files \<Rightarrow> (path \<times> files) res" where
  "detect_config presets temp config fs =
     (let (p, fs1) = (case dict_get presets config of
                        Some content \<Rightarrow> (temp, write_preset temp config content fs)
                      | None \<Rightarrow> (Path config, fs)) in
      bindR (find_json ''config.json'' p fs1) (\<lambda>q. Inr (q, fs1)))"

definition detect_mlc_chat_config ::
    "json dict dict \<Rightarrow> (string \<Rightarrow> files \<Rightarrow> (path \<times> files) res) \<Rightarrow> path \<Rightarrow> string \<Rightarrow> files \<Rightarrow> (path \<times> files) res" where
  "detect_mlc_chat_config presets download temp config fs =
     bindR (if prefix ''HF://'' config \<or> prefix ''http'' config then download config fs
            else (case dict_get presets config of
                    Some content \<Rightarrow> Inr (temp, write_preset temp config content fs)
                  | None \<Rightarrow> Inr (Path config, fs))) (\<lambda>(p, fs1).
     bindR (find_json ''mlc-chat-config.json'' p fs1) (\<lambda>q. Inr (q, fs1)))"

text \<open>
  The registry of models, each with the config class it uses, if that is modelled. The name
  of a model is its key.
\<close>

definition MODELS :: "(string \<times> arch option) list" where
  "MODELS =
     [(''llama'', Some Llama), (''mistral'', Some Mistral), (''gemma'', Some Gemma), (''gemma2'', Some Gemma2),
      (''gemma3'', None), (''gemma3_text'', None), (''gpt2'', Some GPT2), (''mixtral'', Some Llama),
      (''gpt_neox'', Some GPTNeoX), (''gpt_bigcode'', Some GPTBigCode), (''phi-msft'', Some Phi), (''phi'', Some Phi1),
      (''phi3'', Some Phi3), (''phi3_v'', None), (''qwen'', Some QWen), (''qwen2'', Some QWen2),
      (''qwen2_moe'', Some QWen2), (''qwen3'', Some Qwen3), (''qwen3_moe'', Some Qwen3),
      (''deepseek_v2'', Some DeepseekV2), (''deepseek_v3'', Some DeepseekV2), (''stablelm'', Some StableLm),
      (''baichuan'', Some Baichuan), (''internlm'', Some InternLM), (''internlm2'', Some InternLM2),
      (''rwkv5'', Some RWKV5), (''orion'', Some Orion), (''llava'', None), (''rwkv6'', Some RWKV6),
      (''chatglm'', Some ChatGLM), (''eagle'', Some Llama), (''bert'', Some Bert), (''medusa'', None),
      (''starcoder2'', Some Starcoder2), (''cohere'', Some Cohere), (''minicpm'', Some MiniCPM),
      (''deepseek'', Some Deepseek), (''gptj'', Some GPTJ), (''olmo'', Some OLMo), (''nemotron'', Some Nemotron)]"

definition lookup_model :: "json \<Rightarrow> string res" where
  "lookup_model model_type =
     (let t = (if model_type = JStr ''mixformer-sequential'' then JStr ''phi-msft'' else model_type) in
      case t of
        JStr s \<Rightarrow> if dict_get MODELS s = None then Inl (ValueError ''Unknown model type'') else Inr s
      | JList _ \<Rightarrow> Inl TypeError
      | JObj _ \<Rightarrow> Inl TypeError
      | _ \<Rightarrow> Inl (ValueError ''Unknown model type''))"

definition detect_model_type :: "string \<Rightarrow> path \<Rightarrow> files \<Rightarrow> string res" where
  "detect_model_type model_type config fs =
     (if model_type = ''auto'' then
        bindR (load_object fs config) (\<lambda>cfg.
          case dict_get cfg ''model_type'' of
            Some t \<Rightarrow> lookup_model t
          | None \<Rightarrow>
              (case dict_get cfg ''model_config'' of
                 Some (JObj mc) \<Rightarrow>
                   (case dict_get mc ''model_type'' of
                      Some t \<Rightarrow> lookup_model t
                    | None \<Rightarrow> Inl (ValueError ''model_type not found''))
               | Some (JList vs) \<Rightarrow>
                   if JStr ''model_type'' \<in> set vs then Inl TypeError else Inl (ValueError ''model_type not found'')
               | Some (JStr s) \<Rightarrow>
                   if sublist ''model_type'' s then Inl TypeError else Inl (ValueError ''model_type not found'')
               | Some _ \<Rightarrow> Inl TypeError
               | None \<Rightarrow> Inl (ValueError ''model_type not found'')))
      else lookup_model (JStr model_type))"

definition quantization_named :: "(dtype \<Rightarrow> nat) \<Rightarrow> json \<Rightarrow> quantization res" where
  "quantization_named max_value name =
     (case name of
        JStr s \<Rightarrow> (case dict_get (QUANTIZATION max_value) s of None \<Rightarrow> Inl (KeyError s) | Some q \<Rightarrow> q)
      | JList _ \<Rightarrow> Inl TypeError
      | JObj _ \<Rightarrow> Inl TypeError
      | _ \<Rightarrow> Inl (KeyError ''quantization''))"

definition detect_quantization ::
    "(dtype \<Rightarrow> nat) \<Rightarrow> string option \<Rightarrow> path \<Rightarrow> files \<Rightarrow> quantization res" where
  "detect_quantization max_value quantization_arg config fs =
     bindR (load_object fs config) (\<lambda>cfg.
       case quantization_arg of
         Some s \<Rightarrow> quantization_named max_value (JStr s)
       | None \<Rightarrow>
           (case dict_get cfg ''quantization'' of
              Some q \<Rightarrow> quantization_named max_value q
            | None \<Rightarrow> Inl (ValueError ''quantization not found'')))"

section \<open>Detection of weights\<close>

definition check_pytorch :: "path \<Rightarrow> files \<Rightarrow> path option" where
  "check_pytorch p fs =
     (if path_exists fs (p @ [''pytorch_model.bin.index.json'']) then Some (p @ [''pytorch_model.bin.index.json''])
      else if path_exists fs (p @ [''pytorch_model.bin'']) then Some (p @ [''pytorch_model.bin'']) else None)"

text \<open>
  A single safetensors file gets an index, from the names of its weights (\<open>load_file\<close> of the
  library \<open>safetensors\<close>).
\<close>

definition check_safetensor :: "(path \<Rightarrow> string list res) \<Rightarrow> path \<Rightarrow> files \<Rightarrow> (path option \<times> files) res" where
  "check_safetensor load_names p fs =
     (let index = p @ [''model.safetensors.index.json''] in
      if path_exists fs index then Inr (Some index, fs)
      else if path_exists fs (p @ [''model.safetensors'']) then
        bindR (load_names (p @ [''model.safetensors''])) (\<lambda>names.
          Inr (Some index, dict_set fs index (FileEntry (Some (JObj [(''weight_map'',
            JObj (foldl (\<lambda>d n. dict_set d n (JStr ''model.safetensors'')) [] names))])))))
      else Inr (None, fs))"

definition guess_weight_format :: "(path \<Rightarrow> string list res) \<Rightarrow> path \<Rightarrow> files \<Rightarrow> ((path \<times> string) \<times> files) res" where
  "guess_weight_format load_names p fs =
     bindR (check_safetensor load_names p fs) (\<lambda>(st, fs1).
       case check_pytorch p fs of
         Some q \<Rightarrow> Inr ((q, ''huggingface-torch''), fs1)
       | None \<Rightarrow>
           (case st of
              Some q \<Rightarrow> Inr ((q, ''huggingface-safetensor''), fs1)
            | None \<Rightarrow> Inl (ValueError ''Fail to detect source weight format.'')))"

definition weight_directory :: "path option \<Rightarrow> path \<Rightarrow> files \<Rightarrow> path res" where
  "weight_directory weight_path config fs =
     (case weight_path of
        Some p \<Rightarrow> if path_exists fs p then Inr p else Inl (ValueError ''weight_path does not exist'')
      | None \<Rightarrow>
          if \<not> path_exists fs config then Inl AssertionError
          else bindR (load_object fs config) (\<lambda>cfg.
            case dict_get cfg ''weight_path'' of
              Some (JStr s) \<Rightarrow>
                if path_exists fs (Path s) then Inr (Path s) else Inl (ValueError ''weight_path does not exist'')
            | Some _ \<Rightarrow> Inl TypeError
            | None \<Rightarrow> Inr (butlast config)))"

definition detect_weight ::
    "(path \<Rightarrow> string list res) \<Rightarrow> path option \<Rightarrow> path \<Rightarrow> string \<Rightarrow> files \<Rightarrow> ((path \<times> string) \<times> files) res" where
  "detect_weight load_names weight_path config weight_format fs =
     bindR (weight_directory weight_path config fs) (\<lambda>p.
       if weight_format = ''auto'' then guess_weight_format load_names p fs
       else if weight_format \<notin> set [''huggingface-torch'', ''huggingface-safetensor'', ''awq'']
       then Inl (ValueError ''Available weight format list'')
       else if weight_format = ''huggingface-torch'' then
         (case check_pytorch p fs of
            Some q \<Rightarrow> Inr ((q, weight_format), fs)
          | None \<Rightarrow> Inl (ValueError ''The weight is not in the format.''))
       else if weight_format = ''huggingface-safetensor'' then
         bindR (check_safetensor load_names p fs) (\<lambda>(r, fs1).
           case r of
             Some q \<Rightarrow> Inr ((q, weight_format), fs1)
           | None \<Rightarrow> Inl (ValueError ''The weight is not in the format.''))
       else Inr ((p, weight_format), fs))"

section \<open>The chat config\<close>

text \<open>
  \<open>MLCChatConfig\<close>. The optional fields are a dict, with \<open>JNull\<close> for \<open>None\<close>; the model config is kept
  as a record, and \<open>asdict\<close> below is its dict.
\<close>

record chat_config =
  cc_model_type :: string
  cc_quantization :: string
  cc_model_config :: model_config
  cc_vocab_size :: int
  cc_context_window_size :: int
  cc_sliding_window_size :: int
  cc_prefill_chunk_size :: int
  cc_attention_sink_size :: int
  cc_tensor_parallel_shards :: int
  cc_pipeline_parallel_stages :: int
  cc_optional :: "json dict"
  cc_tokenizer_files :: "string list"
  cc_tokenizer_info :: json
  cc_conv_template :: json

definition optional_fields :: "string list" where
  "optional_fields =
     [''temperature'', ''presence_penalty'', ''frequency_penalty'', ''repetition_penalty'', ''top_p'',
      ''pad_token_id'', ''bos_token_id'', ''eos_token_id'']"

definition MLC_CHAT_SYSTEM_DEFAULT :: "json dict" where
  "MLC_CHAT_SYSTEM_DEFAULT =
     [(''pad_token_id'', JInt 0), (''bos_token_id'', JInt 1), (''eos_token_id'', JInt 2),
      (''temperature'', JFloat (Fin 1)), (''presence_penalty'', JFloat (Fin 0)), (''frequency_penalty'', JFloat (Fin 0)),
      (''repetition_penalty'', JFloat (Fin 1)), (''top_p'', JFloat (Fin 1))]"

text \<open>\<open>if getattr(c, key) is None: setattr(c, key, value)\<close>, for an optional field.\<close>

definition set_missing :: "json dict \<Rightarrow> string \<times> json \<Rightarrow> json dict" where
  "set_missing opt kv = (if dict_get opt (fst kv) = Some JNull then dict_set opt (fst kv) (snd kv) else opt)"

definition system_defaults_for_missing_fields :: "chat_config \<Rightarrow> json dict" where
  "system_defaults_for_missing_fields c =
     filter (\<lambda>(k, _). dict_get (cc_optional c) k = Some JNull) MLC_CHAT_SYSTEM_DEFAULT"

definition apply_system_defaults_for_missing_fields :: "chat_config \<Rightarrow> chat_config" where
  "apply_system_defaults_for_missing_fields c =
     c\<lparr>cc_optional := dict_update (cc_optional c) (system_defaults_for_missing_fields c)\<rparr>"

text \<open>
  The constructor checks the types of its fields: a number that is \<open>None\<close>, or a template that is
  only a name, is refused (the error names the first of them). \<open>getattr\<close> gives a default for the fields a config class does not have.
\<close>

definition int_field :: "string \<Rightarrow> int option \<Rightarrow> int res" where
  "int_field name v = (case v of None \<Rightarrow> Inl (ValidationError [BadFieldType name]) | Some n \<Rightarrow> Inr n)"

definition make_chat_config :: "string \<Rightarrow> arch \<Rightarrow> string \<Rightarrow> model_config \<Rightarrow> json option \<Rightarrow> chat_config res" where
  "make_chat_config name a quantization c template =
     bindR (int_field ''vocab_size'' (mc_vocab_size c)) (\<lambda>vocab.
     bindR (int_field ''context_window_size'' (mc_context_window_size c)) (\<lambda>window.
     bindR (if a = Mistral then int_field ''sliding_window_size'' (mc_sliding_window_size c) else Inr (- 1)) (\<lambda>sliding.
     bindR (int_field ''prefill_chunk_size'' (mc_prefill_chunk_size c)) (\<lambda>prefill.
     bindR (case template of None \<Rightarrow> Inl (ValidationError [BadFieldType ''conv_template'']) | Some t \<Rightarrow> Inr t) (\<lambda>t.
     Inr \<lparr>cc_model_type = name, cc_quantization = quantization, cc_model_config = c, cc_vocab_size = vocab,
          cc_context_window_size = window, cc_sliding_window_size = sliding, cc_prefill_chunk_size = prefill,
          cc_attention_sink_size = (if a = Mistral then mc_attention_sink_size c else - 1),
          cc_tensor_parallel_shards = mc_tensor_parallel_shards c,
          cc_pipeline_parallel_stages = (if a \<in> {Llama, OLMo} then mc_pipeline_parallel_stages c else 1),
          cc_optional = map (\<lambda>k. (k, JNull)) optional_fields, cc_tokenizer_files = [], cc_tokenizer_info = JObj [],
          cc_conv_template = t\<rparr>)))))"

text \<open>\<open>model_dump(by_alias=True)\<close>\<close>

definition chat_config_dump :: "(model_config \<Rightarrow> json dict) \<Rightarrow> chat_config \<Rightarrow> json dict" where
  "chat_config_dump asdict c =
     [(''version'', JStr ''0.1.0''), (''model_type'', JStr (cc_model_type c)),
      (''quantization'', JStr (cc_quantization c)), (''model_config'', JObj (asdict (cc_model_config c))),
      (''vocab_size'', JInt (cc_vocab_size c)), (''context_window_size'', JInt (cc_context_window_size c)),
      (''sliding_window_size'', JInt (cc_sliding_window_size c)),
      (''prefill_chunk_size'', JInt (cc_prefill_chunk_size c)),
      (''attention_sink_size'', JInt (cc_attention_sink_size c)),
      (''tensor_parallel_shards'', JInt (cc_tensor_parallel_shards c)),
      (''pipeline_parallel_stages'', JInt (cc_pipeline_parallel_stages c))] @
     take 5 (cc_optional c) @
     [(''tokenizer_files'', JList (map JStr (cc_tokenizer_files c))), (''tokenizer_info'', cc_tokenizer_info c),
      (''conv_template'', cc_conv_template c)] @
     drop 5 (cc_optional c)"

section \<open>Generation\<close>

text \<open>Step 2: the values of the two files for the optional fields, the first one found.\<close>

definition read_generation_config :: "files \<Rightarrow> path \<Rightarrow> chat_config \<Rightarrow> string \<Rightarrow> chat_config res" where
  "read_generation_config fs src c filename =
     (if path_exists fs (src @ [filename]) then
        bindR (load_object fs (src @ [filename])) (\<lambda>d.
          Inr (c\<lparr>cc_optional := foldl set_missing (cc_optional c) d\<rparr>))
      else Inr c)"

definition TOKENIZER_FILES :: "string list" where
  "TOKENIZER_FILES =
     [''tokenizer.model'', ''tokenizer.json'', ''vocab.json'', ''merges.txt'', ''added_tokens.json'',
      ''tokenizer_config.json'']"

text \<open>
  Step 3.1. \<open>shutil.copy\<close> copies into a destination that is a directory; copying a directory raises,
  and so does copying a file to itself.
\<close>

definition copy_tokenizer :: "path \<Rightarrow> path \<Rightarrow> chat_config \<times> files \<Rightarrow> string \<Rightarrow> (chat_config \<times> files) res" where
  "copy_tokenizer src out cf filename =
     (case cf of (c, fs) \<Rightarrow>
        (case dict_get fs (src @ [filename]) of
           None \<Rightarrow> Inr (c, fs)
         | Some DirEntry \<Rightarrow> Inl (ForeignError ''IsADirectoryError'')
         | Some (FileEntry content) \<Rightarrow>
             let dest = (if is_dir fs (out @ [filename]) then out @ [filename, filename] else out @ [filename]) in
             if dest = src @ [filename] then Inl (ForeignError ''SameFileError'')
             else bindR (write_file fs dest content) (\<lambda>fs.
               Inr (c\<lparr>cc_tokenizer_files := cc_tokenizer_files c @ [filename]\<rparr>, fs))))"

text \<open>
  Step 3.3: a conversion writes its files one by one; when it fails, that is only logged, and the
  config does not list them. The second one is tried when the source has no \<open>tokenizer.json\<close>, also
  after the first has written one. The arguments are the tokenizers that
  \<open>AutoTokenizer.from_pretrained\<close> gives, if it does not raise. The output directory exists, so that
  \<open>makedirs\<close> does nothing.
\<close>

fun write_all :: "path \<Rightarrow> (string \<times> json option) list \<Rightarrow> files \<Rightarrow> bool \<times> files" where
  "write_all out [] fs = (True, fs)"
| "write_all out ((n, content) # ws) fs =
     (case write_file fs (out @ [n]) content of
        Inl _ \<Rightarrow> (False, fs)
      | Inr fs1 \<Rightarrow> write_all out ws fs1)"

definition add_converted ::
    "path \<Rightarrow> (string \<times> json option) list \<Rightarrow> string list \<Rightarrow> chat_config \<times> files \<Rightarrow> chat_config \<times> files" where
  "add_converted out ws names cf =
     (let (finished, fs) = write_all out ws (snd cf) in
      (if finished then (fst cf)\<lparr>cc_tokenizer_files := cc_tokenizer_files (fst cf) @ names\<rparr> else fst cf, fs))"

definition tiktoken_names :: "string list" where
  "tiktoken_names = [''tokenizer.json'', ''vocab.json'', ''merges.txt'', ''special_tokens_map.json'']"

definition convert_tokenizer ::
    "(8 word \<Rightarrow> char) \<Rightarrow> json option \<Rightarrow> tokenizer option \<Rightarrow> path \<Rightarrow> path \<Rightarrow> chat_config \<times> files \<Rightarrow> chat_config \<times> files" where
  "convert_tokenizer byte_encoder hf tiktoken src out cf =
     (let cf1 =
        (if path_exists (snd cf) (src @ [''tokenizer.model'']) \<and> \<not> path_exists (snd cf) (src @ [''tokenizer.json''])
         then (case hf of
                 None \<Rightarrow> cf
               | Some j \<Rightarrow> add_converted out [(''tokenizer.json'', Some j)] [''tokenizer.json''] cf)
         else cf) in
      if \<not> path_exists (snd cf1) (src @ [''tokenizer.json'']) \<and>
         (\<exists>p \<in> fst ` set (snd cf1). p \<noteq> [] \<and> butlast p = src \<and> suffix ''.tiktoken'' (last p))
      then (case tiktoken of
              None \<Rightarrow> cf1
            | Some tk \<Rightarrow>
                (case convert_tiktoken byte_encoder tk (Some (cc_context_window_size (fst cf1))) of
                   Inl _ \<Rightarrow> cf1
                 | Inr ws \<Rightarrow> add_converted out ws tiktoken_names cf1))
      else cf1)"

text \<open>Step 3.5: \<open>added_token["content"]\<close> must not repeat.\<close>

definition check_added_tokens :: "files \<Rightarrow> path \<Rightarrow> unit res" where
  "check_added_tokens fs p =
     (if \<not> path_exists fs p then Inr ()
      else bindR (load_object fs p) (\<lambda>d.
        case dict_get d ''added_tokens'' of
          None \<Rightarrow> Inr ()
        | Some (JList ts) \<Rightarrow>
            bindR (foldR (\<lambda>seen t. bindR (json_item t ''content'') (\<lambda>x.
                if x \<in> set seen then Inl (ValueError ''Duplicated vocab in tokenizer.json'') else Inr (x # seen))) [] ts)
              (\<lambda>_. Inr ())
        | Some _ \<Rightarrow> Inl TypeError))"

record gen_env =
  ge_template_json :: "string \<Rightarrow> json option"
  ge_asdict :: "model_config \<Rightarrow> json dict"
  ge_byte_encoder :: "8 word \<Rightarrow> char"
  ge_hf_tokenizer :: "json option"
  ge_tiktoken :: "tokenizer option"
  ge_tokenizer_info :: "files \<Rightarrow> json"

text \<open>
  \<open>gen_config\<close> for a source directory without an RWKV vocabulary (step 3.2). \<open>read_config\<close> is
  \<open>model.config.from_file\<close>, up to \<open>__post_init__\<close>.
\<close>

definition gen_config ::
    "gen_env \<Rightarrow> path \<Rightarrow> (json dict \<Rightarrow> model_config res) \<Rightarrow> string \<Rightarrow> arch \<Rightarrow> string \<Rightarrow> string \<Rightarrow> model_override \<Rightarrow> path \<Rightarrow>
     files \<Rightarrow> files res" where
  "gen_config env config read_config name a quantization conv_template ov out fs =
     (let src = butlast config in
      bindR (load_object fs config) (\<lambda>d.
      bindR (read_config d) (\<lambda>c0.
      bindR (post_init a c0) (\<lambda>c1.
      bindR (override_apply a ov c1) (\<lambda>mc.
      bindR (make_chat_config name a quantization mc (ge_template_json env conv_template)) (\<lambda>c.
      bindR (foldR (read_generation_config fs src) c [''generation_config.json'', ''config.json'']) (\<lambda>c.
      bindR (foldR (copy_tokenizer src out) (c, fs) TOKENIZER_FILES) (\<lambda>cf.
      let (c, fs) = convert_tokenizer (ge_byte_encoder env) (ge_hf_tokenizer env) (ge_tiktoken env) src out cf;
          c = c\<lparr>cc_tokenizer_info := ge_tokenizer_info env fs\<rparr> in
      bindR (check_added_tokens fs (src @ [''tokenizer.json''])) (\<lambda>_.
      write_file fs (out @ [''mlc-chat-config.json''])
        (Some (JObj (chat_config_dump (ge_asdict env) (apply_system_defaults_for_missing_fields c)))))))))))))"

section \<open>What is generated\<close>

text \<open>Only files below the output directory change; none disappears, and no directory changes.\<close>

definition writes_below :: "path \<Rightarrow> files \<Rightarrow> files \<Rightarrow> bool" where
  "writes_below out fs fs' \<longleftrightarrow>
     (\<forall>p. dict_get fs' p = dict_get fs p \<or>
        path_exists fs' p \<and> \<not> is_dir fs p \<and> \<not> is_dir fs' p \<and> strict_prefix out p)"

lemma writes_below_refl [simp]: "writes_below out fs fs"
  by (simp add: writes_below_def)

lemma writes_below_trans:
  assumes "writes_below out fs fs1" "writes_below out fs1 fs2"
  shows "writes_below out fs fs2"
  unfolding writes_below_def
proof
  fix p
  show "dict_get fs2 p = dict_get fs p \<or>
    path_exists fs2 p \<and> \<not> is_dir fs p \<and> \<not> is_dir fs2 p \<and> strict_prefix out p"
    using assms [unfolded writes_below_def, THEN spec [of _ p]] by (auto simp: is_dir_def path_exists_def)
qed

lemma writes_below_exists:
  assumes "writes_below out fs fs'" "path_exists fs p"
  shows "path_exists fs' p"
  using assms(1) [unfolded writes_below_def, THEN spec [of _ p]] assms(2) by (auto simp: path_exists_def)

lemma writes_below_dir:
  assumes "writes_below out fs fs'"
  shows "is_dir fs' p \<longleftrightarrow> is_dir fs p"
  using assms [unfolded writes_below_def, THEN spec [of _ p]] by (auto simp: is_dir_def)

lemma strict_prefix_snoc [simp]: "strict_prefix xs (xs @ y # ys)"
  by (simp add: strict_prefix_def)

lemma write_file_eq: "write_file fs p content = Inr fs' \<Longrightarrow> fs' = dict_set fs p (FileEntry content)"
  by (simp add: write_file_def split: if_splits)

lemma write_file_below:
  assumes "write_file fs p content = Inr fs'" "strict_prefix out p"
  shows "writes_below out fs fs'" "path_exists fs' p" "is_dir fs (butlast p)"
  using assms by (auto simp: write_file_def writes_below_def is_dir_def path_exists_def split: if_splits)

lemma write_all_below:
  assumes "write_all out ws fs = (finished, fs')"
  shows "writes_below out fs fs' \<and> (finished \<longrightarrow> (\<forall>n \<in> fst ` set ws. path_exists fs' (out @ [n])))"
  using assms
proof (induction out ws fs rule: write_all.induct)
  case (2 out n content ws fs)
  show ?case
  proof (cases "write_file fs (out @ [n]) content")
    case (Inr fs1)
    have below: "writes_below out fs fs1" "path_exists fs1 (out @ [n])"
      using write_file_below [OF Inr, of out] by simp_all
    from 2 Inr have rest: "writes_below out fs1 fs'"
      "finished \<longrightarrow> (\<forall>n \<in> fst ` set ws. path_exists fs' (out @ [n]))"
      by simp_all
    from writes_below_exists [OF rest(1) below(2)] rest(2) writes_below_trans [OF below(1) rest(1)] show ?thesis
      by simp
  qed (use 2 in simp)
qed simp

text \<open>What the steps keep of the config, with the files it lists present in the output directory.\<close>

definition chat_inv :: "path \<Rightarrow> files \<Rightarrow> string \<Rightarrow> string \<Rightarrow> chat_config \<times> files \<Rightarrow> bool" where
  "chat_inv out fs0 name quantization cf \<longleftrightarrow>
     cc_model_type (fst cf) = name \<and> cc_quantization (fst cf) = quantization \<and>
     map fst (cc_optional (fst cf)) = optional_fields \<and> writes_below out fs0 (snd cf) \<and>
     (\<forall>n \<in> set (cc_tokenizer_files (fst cf)). path_exists (snd cf) (out @ [n]))"

text \<open>More files are written, and more of them listed.\<close>

lemma chat_inv_write:
  assumes "chat_inv out fs0 name quantization (c, fs)" "writes_below out fs fs'"
    "\<forall>n \<in> set names. path_exists fs' (out @ [n])"
  shows "chat_inv out fs0 name quantization (c\<lparr>cc_tokenizer_files := cc_tokenizer_files c @ names\<rparr>, fs')"
  using assms(1,3) writes_below_trans [OF _ assms(2)] writes_below_exists [OF assms(2)]
  by (auto simp: chat_inv_def)

lemma set_missing_keys: "map fst (foldl set_missing opt d) = map fst opt"
proof (induction d arbitrary: opt)
  case (Cons kv d)
  have "map fst (set_missing opt kv) = map fst opt"
  proof (cases "dict_get opt (fst kv) = Some JNull")
    case True
    then have "fst kv \<in> fst ` set opt"
      using dict_get_None_iff [of opt "fst kv"] by auto
    then show ?thesis
      by (simp add: set_missing_def dict_set_present)
  qed (simp add: set_missing_def)
  with Cons.IH [of "set_missing opt kv"] show ?case
    by simp
qed simp

lemma make_chat_config_inv:
  assumes "make_chat_config name a quantization c t = Inr cc"
  shows "chat_inv out fs name quantization (cc, fs)"
  using assms by (auto simp: make_chat_config_def chat_inv_def o_def elim!: bindR_eq_InrE)

lemma read_generation_config_inv:
  assumes "chat_inv out fs0 name quantization (c, fs)" "read_generation_config fs' src c filename = Inr c'"
  shows "chat_inv out fs0 name quantization (c', fs)"
  using assms
  by (auto simp: read_generation_config_def chat_inv_def set_missing_keys elim!: bindR_eq_InrE split: if_splits)

lemma copy_tokenizer_inv:
  assumes "chat_inv out fs0 name quantization cf" "copy_tokenizer src out cf filename = Inr cf'"
  shows "chat_inv out fs0 name quantization cf'"
proof -
  obtain c fs where cf: "cf = (c, fs)"
    by (cases cf)
  let ?dest = "if is_dir fs (out @ [filename]) then out @ [filename, filename] else out @ [filename]"
  from assms(2) cf consider "cf' = cf"
    | content fs1 where "write_file fs ?dest content = Inr fs1"
        "cf' = (c\<lparr>cc_tokenizer_files := cc_tokenizer_files c @ [filename]\<rparr>, fs1)"
    by (auto simp: copy_tokenizer_def Let_def elim!: bindR_eq_InrE split: option.splits entry.splits if_splits)
  then show ?thesis
  proof cases
    case (2 content fs1)
    have "strict_prefix out ?dest"
      by simp
    note below = write_file_below(1) [OF 2(1) this] and dest = write_file_below(2) [OF 2(1) this]
    have "path_exists fs1 (out @ [filename])"
      using dest writes_below_dir [OF below, of "out @ [filename]"]
      by (cases "is_dir fs (out @ [filename])") (auto simp: is_dir_def path_exists_def)
    with chat_inv_write [OF assms(1) [unfolded cf] below, of "[filename]"] 2(2) show ?thesis
      by simp
  qed (use assms(1) in simp)
qed

lemma add_converted_inv:
  assumes "chat_inv out fs0 name quantization cf" "set names \<subseteq> fst ` set ws"
  shows "chat_inv out fs0 name quantization (add_converted out ws names cf)"
proof -
  obtain finished fs where w: "write_all out ws (snd cf) = (finished, fs)"
    by (cases "write_all out ws (snd cf)")
  from write_all_below [OF w] have below: "writes_below out (snd cf) fs"
    and all: "finished \<longrightarrow> (\<forall>n \<in> set names. path_exists fs (out @ [n]))"
    using assms(2) by auto
  have inv: "chat_inv out fs0 name quantization (fst cf, snd cf)"
    using assms(1) by simp
  from chat_inv_write [OF inv below, of "[]"] chat_inv_write [OF inv below, of names] all w show ?thesis
    by (cases finished) (simp_all add: add_converted_def)
qed

lemma convert_tiktoken_written:
  "convert_tiktoken enc tk n = Inr ws \<Longrightarrow> set tiktoken_names \<subseteq> fst ` set ws"
  by (auto simp: convert_tiktoken_def tiktoken_names_def elim!: bindR_eq_InrE)

lemma convert_tokenizer_inv:
  assumes "chat_inv out fs0 name quantization cf"
  shows "chat_inv out fs0 name quantization (convert_tokenizer enc hf tk src out cf)"
proof -
  have "chat_inv out fs0 name quantization (case hf of None \<Rightarrow> cf
      | Some j \<Rightarrow> add_converted out [(''tokenizer.json'', Some j)] [''tokenizer.json''] cf)"
    by (simp add: assms add_converted_inv split: option.split)
  moreover have "chat_inv out fs0 name quantization (case tk of None \<Rightarrow> cf1
      | Some tk \<Rightarrow> (case convert_tiktoken enc tk n of Inl _ \<Rightarrow> cf1
                   | Inr ws \<Rightarrow> add_converted out ws tiktoken_names cf1))"
    if "chat_inv out fs0 name quantization cf1" for cf1 n
    using that by (auto simp: add_converted_inv convert_tiktoken_written split: option.split sum.split)
  ultimately show ?thesis
    using assms by (simp add: convert_tokenizer_def Let_def)
qed

lemma foldR_inv:
  assumes "foldR f s xs = Inr s'" "P s" "\<And>s x s1. P s \<Longrightarrow> f s x = Inr s1 \<Longrightarrow> P s1"
  shows "P s'"
  using assms(1,2)
proof (induction xs arbitrary: s)
  case (Cons x xs)
  then show ?case
    by (auto elim!: bindR_eq_InrE intro: assms(3))
qed simp

lemma defaults_keys: "map fst (cc_optional (apply_system_defaults_for_missing_fields c)) = map fst (cc_optional c)"
proof -
  have "map fst (dict_update opt d) = map fst opt" if "\<forall>k \<in> fst ` set d. k \<in> fst ` set opt" for opt d :: "json dict"
    using that
  proof (induction d arbitrary: opt)
    case (Cons kv d)
    from Cons.prems have keys: "map fst (dict_set opt (fst kv) (snd kv)) = map fst opt"
      by (simp add: dict_set_present)
    then have "fst ` set (dict_set opt (fst kv) (snd kv)) = fst ` set opt"
      by (metis set_map)
    with Cons.IH [of "dict_set opt (fst kv) (snd kv)"] Cons.prems keys show ?case
      by (auto simp: dict_update_def case_prod_unfold)
  qed (simp add: dict_update_def)
  moreover have "k \<in> fst ` set (cc_optional c)"
    if "k \<in> fst ` set (system_defaults_for_missing_fields c)" for k
    using that dict_get_None_iff [of "cc_optional c" k] by (auto simp: system_defaults_for_missing_fields_def)
  ultimately show ?thesis
    by (simp add: apply_system_defaults_for_missing_fields_def)
qed

text \<open>Every optional field has a default, so that none is left \<open>None\<close>.\<close>

lemma defaults_not_null:
  assumes "map fst (cc_optional c) = optional_fields" "k \<in> set optional_fields"
  shows "\<exists>v. dict_get (cc_optional (apply_system_defaults_for_missing_fields c)) k = Some v \<and> v \<noteq> JNull"
proof -
  have "dict_get (cc_optional c) k \<noteq> None"
    using assms by (metis dict_get_None_iff set_map)
  then obtain v where v: "dict_get (cc_optional c) k = Some v"
    by blast
  let ?d = "system_defaults_for_missing_fields c"
  have ok: "dict_ok ?d"
    unfolding system_defaults_for_missing_fields_def dict_ok_def
    by (rule distinct_map_filter) (simp add: MLC_CHAT_SYSTEM_DEFAULT_def)
  show ?thesis
  proof (cases "v = JNull")
    case True
    have "list_all (\<lambda>k. \<exists>w. dict_get MLC_CHAT_SYSTEM_DEFAULT k = Some w \<and> w \<noteq> JNull) optional_fields"
      by (simp add: optional_fields_def MLC_CHAT_SYSTEM_DEFAULT_def)
    with assms(2) obtain w where "dict_get MLC_CHAT_SYSTEM_DEFAULT k = Some w" and w: "w \<noteq> JNull"
      by (auto simp: list_all_iff)
    then have "(k, w) \<in> set MLC_CHAT_SYSTEM_DEFAULT"
      by (simp add: dict_get_def map_of_SomeD)
    with v True have "(k, w) \<in> set ?d"
      by (simp add: system_defaults_for_missing_fields_def)
    from dict_update_distinct [OF ok this] w show ?thesis
      by (simp add: apply_system_defaults_for_missing_fields_def)
  next
    case False
    with v have "k \<notin> fst ` set ?d"
      by (auto simp: system_defaults_for_missing_fields_def)
    with v False show ?thesis
      by (simp add: apply_system_defaults_for_missing_fields_def dict_update_other)
  qed
qed

lemma dump_lookup:
  assumes "map fst (cc_optional c) = optional_fields"
  shows "dict_get (chat_config_dump asdict c) ''model_type'' = Some (JStr (cc_model_type c))"
    "dict_get (chat_config_dump asdict c) ''quantization'' = Some (JStr (cc_quantization c))"
    "dict_get (chat_config_dump asdict c) ''tokenizer_files'' = Some (JList (map JStr (cc_tokenizer_files c)))"
    "\<forall>k \<in> set optional_fields. dict_get (chat_config_dump asdict c) k = dict_get (cc_optional c) k"
proof -
  from assms obtain v1 v2 v3 v4 v5 v6 v7 v8 where opt: "cc_optional c =
    [(''temperature'', v1), (''presence_penalty'', v2), (''frequency_penalty'', v3), (''repetition_penalty'', v4),
     (''top_p'', v5), (''pad_token_id'', v6), (''bos_token_id'', v7), (''eos_token_id'', v8)]"
    by (auto simp: optional_fields_def map_eq_Cons_conv)
  show "dict_get (chat_config_dump asdict c) ''model_type'' = Some (JStr (cc_model_type c))"
    "dict_get (chat_config_dump asdict c) ''quantization'' = Some (JStr (cc_quantization c))"
    "dict_get (chat_config_dump asdict c) ''tokenizer_files'' = Some (JList (map JStr (cc_tokenizer_files c)))"
    "\<forall>k \<in> set optional_fields. dict_get (chat_config_dump asdict c) k = dict_get (cc_optional c) k"
    by (simp_all add: chat_config_dump_def optional_fields_def opt)
qed

text \<open>The steps together: the config that is written.\<close>

lemma gen_config_written:
  assumes "gen_config env config read_config name a quantization conv_template ov out fs = Inr fs'"
  obtains c fs1 where "chat_inv out fs name quantization (c, fs1)"
    "fs' = dict_set fs1 (out @ [''mlc-chat-config.json''])
       (FileEntry (Some (JObj (chat_config_dump (ge_asdict env) (apply_system_defaults_for_missing_fields c)))))"
    "is_dir fs out" "writes_below out fs1 fs'"
proof -
  let ?src = "butlast config"
  let ?out = "out @ [''mlc-chat-config.json'']"
  from assms obtain mc c0 c1 cf where
    make: "make_chat_config name a quantization mc (ge_template_json env conv_template) = Inr c0" and
    read: "foldR (read_generation_config fs ?src) c0 [''generation_config.json'', ''config.json''] = Inr c1" and
    copy: "foldR (copy_tokenizer ?src out) (c1, fs) TOKENIZER_FILES = Inr cf" and
    final: "(let (c, fs) = convert_tokenizer (ge_byte_encoder env) (ge_hf_tokenizer env) (ge_tiktoken env) ?src out cf;
          c = c\<lparr>cc_tokenizer_info := ge_tokenizer_info env fs\<rparr> in
      bindR (check_added_tokens fs (?src @ [''tokenizer.json''])) (\<lambda>_.
      write_file fs ?out (Some (JObj (chat_config_dump (ge_asdict env) (apply_system_defaults_for_missing_fields c)))))) = Inr fs'"
    unfolding gen_config_def Let_def by (elim bindR_eq_InrE) blast
  have "chat_inv out fs name quantization (c0, fs)"
    by (rule make_chat_config_inv [OF make])
  from foldR_inv [OF read, of "\<lambda>c. chat_inv out fs name quantization (c, fs)", OF this read_generation_config_inv]
  have "chat_inv out fs name quantization (c1, fs)" .
  from foldR_inv [OF copy, of "chat_inv out fs name quantization", OF this copy_tokenizer_inv]
  have "chat_inv out fs name quantization cf" .
  note conv = convert_tokenizer_inv [OF this, of "ge_byte_encoder env" "ge_hf_tokenizer env" "ge_tiktoken env" ?src]
  obtain c2 fs1 where c2: "convert_tokenizer (ge_byte_encoder env) (ge_hf_tokenizer env) (ge_tiktoken env) ?src out cf = (c2, fs1)"
    by (cases "convert_tokenizer (ge_byte_encoder env) (ge_hf_tokenizer env) (ge_tiktoken env) ?src out cf")
  let ?c = "c2\<lparr>cc_tokenizer_info := ge_tokenizer_info env fs1\<rparr>"
  have inv: "chat_inv out fs name quantization (?c, fs1)"
    using conv c2 by (simp add: chat_inv_def)
  from final c2 have out: "write_file fs1 ?out
      (Some (JObj (chat_config_dump (ge_asdict env) (apply_system_defaults_for_missing_fields ?c)))) = Inr fs'"
    by (simp add: res_simps)
  have w: "writes_below out fs1 fs'" "is_dir fs1 out"
    using write_file_below [OF out, of out] by simp_all
  have "is_dir fs out"
    using w(2) inv writes_below_dir [of out fs fs1 out] by (simp add: chat_inv_def)
  from that [OF inv write_file_eq [OF out] this w(1)] show thesis .
qed

text \<open>
  C35: when the generation of a config for a registered model and a scheme of the table succeeds, the
  later steps of the pipeline find it: \<open>detect_mlc_chat_config\<close> on the output directory gives the file,
  \<open>detect_model_type\<close> with \<open>auto\<close> the model, and \<open>detect_quantization\<close> the scheme it was generated for. In the file,
  no field of the generation settings is left null, and every tokenizer file that is listed is in
  the output directory.
\<close>

theorem generated_config_detected:
  assumes "gen_config env config read_config name a quantization conv_template ov out fs = Inr fs'"
    "dict_get MODELS name = Some (Some a)" "dict_get (QUANTIZATION max_value) quantization = Some (Inr q)"
    "Path s = out" "\<not> prefix ''HF://'' s" "\<not> prefix ''http'' s" "dict_get presets s = None"
  shows "detect_mlc_chat_config presets download temp s fs' = Inr (out @ [''mlc-chat-config.json''], fs') \<and>
    detect_model_type ''auto'' (out @ [''mlc-chat-config.json'']) fs' = Inr name \<and>
    detect_quantization max_value None (out @ [''mlc-chat-config.json'']) fs' = Inr q \<and>
    (\<exists>d names. load_object fs' (out @ [''mlc-chat-config.json'']) = Inr d \<and>
       (\<forall>k \<in> set optional_fields. \<exists>v. dict_get d k = Some v \<and> v \<noteq> JNull) \<and>
       dict_get d ''tokenizer_files'' = Some (JList (map JStr names)) \<and>
       (\<forall>n \<in> set names. path_exists fs' (out @ [n])))"
proof -
  from gen_config_written [OF assms(1)] obtain c fs1 where
    inv: "chat_inv out fs name quantization (c, fs1)" and
    fs': "fs' = dict_set fs1 (out @ [''mlc-chat-config.json''])
       (FileEntry (Some (JObj (chat_config_dump (ge_asdict env) (apply_system_defaults_for_missing_fields c)))))" and
    dir: "is_dir fs out" and below: "writes_below out fs1 fs'"
    by blast
  let ?c = "apply_system_defaults_for_missing_fields c"
  let ?d = "chat_config_dump (ge_asdict env) ?c"
  from inv have below0: "writes_below out fs fs1" and opt: "map fst (cc_optional c) = optional_fields"
    and files: "\<forall>n \<in> set (cc_tokenizer_files c). path_exists fs1 (out @ [n])"
    and c: "cc_model_type c = name" "cc_quantization c = quantization"
    by (auto simp: chat_inv_def)
  have opt': "map fst (cc_optional ?c) = optional_fields"
    by (simp add: defaults_keys opt)
  have keep: "cc_model_type ?c = name" "cc_quantization ?c = quantization" "cc_tokenizer_files ?c = cc_tokenizer_files c"
    by (simp_all add: apply_system_defaults_for_missing_fields_def c)
  have load: "load_object fs' (out @ [''mlc-chat-config.json'']) = Inr ?d"
    by (simp add: fs' load_object_def load_json_def)
  have "is_dir fs' out"
    using writes_below_dir [OF below] writes_below_dir [OF below0] dir by simp
  moreover have "path_exists fs' (out @ [''mlc-chat-config.json''])"
    by (simp add: fs' path_exists_def)
  ultimately have "detect_mlc_chat_config presets download temp s fs' = Inr (out @ [''mlc-chat-config.json''], fs')"
    using assms(4-7) by (simp add: detect_mlc_chat_config_def find_json_def path_exists_def is_dir_def)
  moreover have "name \<noteq> ''mixformer-sequential''"
    using assms(2) by (auto simp: MODELS_def)
  then have "detect_model_type ''auto'' (out @ [''mlc-chat-config.json'']) fs' = Inr name"
    using assms(2) by (simp add: detect_model_type_def load dump_lookup [OF opt'] keep lookup_model_def)
  moreover have "detect_quantization max_value None (out @ [''mlc-chat-config.json'']) fs' = Inr q"
    using assms(3) by (simp add: detect_quantization_def load dump_lookup [OF opt'] keep quantization_named_def)
  moreover have "\<forall>n \<in> set (cc_tokenizer_files c). path_exists fs' (out @ [n])"
    using files writes_below_exists [OF below] by blast
  ultimately show ?thesis
    using load dump_lookup(3,4) [OF opt'] defaults_not_null [OF opt] keep(3) by auto
qed

definition example_env :: gen_env where
  "example_env =
     \<lparr>ge_template_json = (\<lambda>_. Some (JObj [])), ge_asdict = (\<lambda>_. []), ge_byte_encoder = (\<lambda>_. CHR ''a''),
      ge_hf_tokenizer = None, ge_tiktoken = None, ge_tokenizer_info = (\<lambda>_. JObj [])\<rparr>"

definition example_files :: files where
  "example_files =
     [([''/'', ''src''], DirEntry), ([''/'', ''out''], DirEntry),
      ([''/'', ''src'', ''config.json''], FileEntry (Some (JObj [(''bos_token_id'', JInt 7)]))),
      ([''/'', ''src'', ''tokenizer.json''], FileEntry (Some (JObj [(''added_tokens'', JList [])])))]"

lemma example_generated:
  "\<exists>fs'. gen_config example_env [''/'', ''src'', ''config.json''] (\<lambda>_. Inr example_config) ''llama'' Llama ''q0f16'' ''chatml''
     no_override [''/'', ''out''] example_files = Inr fs'"
proof -
  have "\<exists>mc. override_apply Llama no_override example_built = Inr mc \<and> mc_vocab_size mc \<noteq> None \<and>
      mc_context_window_size mc \<noteq> None \<and> mc_prefill_chunk_size mc \<noteq> None"
    by (simp add: override_apply_def updated_fields_def no_override_def set_if_def post_init_def init_defs
        example_config_def example_built_def json_zero_def rope_scaling_llama_def context_from_def floor_div_def
        floor_mod_def num_def prefill_chunk_def)
  then obtain mc where mc: "override_apply Llama no_override example_built = Inr mc" "mc_vocab_size mc \<noteq> None"
      "mc_context_window_size mc \<noteq> None" "mc_prefill_chunk_size mc \<noteq> None"
    by blast
  then have "\<exists>c. make_chat_config ''llama'' Llama ''q0f16'' mc (Some (JObj [])) = Inr c"
    by (auto simp: make_chat_config_def int_field_def)
  then obtain c where c: "make_chat_config ''llama'' Llama ''q0f16'' mc (Some (JObj [])) = Inr c"
    by blast
  have "gen_config example_env [''/'', ''src'', ''config.json''] (\<lambda>_. Inr example_config) ''llama'' Llama ''q0f16'' ''chatml''
     no_override [''/'', ''out''] example_files \<noteq> Inl e" for e
    by (simp add: gen_config_def Let_def example_llama mc(1) c example_env_def example_files_def load_object_def
        load_json_def read_generation_config_def TOKENIZER_FILES_def copy_tokenizer_def convert_tokenizer_def
        write_file_def is_dir_def path_exists_def check_added_tokens_def suffix_def)
  then show ?thesis
    by (metis sum.exhaust)
qed

theorem generated_config_detected_witness:
  "\<exists>fs'. detect_mlc_chat_config [] (\<lambda>_ _. Inl AssertionError) [] ''/out'' fs' =
       Inr ([''/'', ''out'', ''mlc-chat-config.json''], fs') \<and>
     detect_model_type ''auto'' [''/'', ''out'', ''mlc-chat-config.json''] fs' = Inr ''llama'' \<and>
     detect_quantization (\<lambda>_. 0) None [''/'', ''out'', ''mlc-chat-config.json''] fs' =
       Inr (NoQ \<lparr>nq_name = ''q0f16'', nq_kind = ''no-quant'', nq_model_dtype = float16\<rparr>)"
proof -
  obtain fs' where gen: "gen_config example_env [''/'', ''src'', ''config.json''] (\<lambda>_. Inr example_config) ''llama'' Llama
      ''q0f16'' ''chatml'' no_override [''/'', ''out''] example_files = Inr fs'"
    using example_generated by blast
  have m: "dict_get MODELS ''llama'' = Some (Some Llama)"
    by (simp add: MODELS_def)
  have q: "dict_get (QUANTIZATION (\<lambda>_. 0)) ''q0f16'' =
      Some (Inr (NoQ \<lparr>nq_name = ''q0f16'', nq_kind = ''no-quant'', nq_model_dtype = float16\<rparr>))"
    by (simp add: QUANTIZATION_def reg_no_def mapRes_def no_post_init_def)
  have s: "Path ''/out'' = [''/'', ''out'']" "\<not> prefix ''HF://'' ''/out''" "\<not> prefix ''http'' ''/out''"
    by code_simp+
  have "dict_get ([] :: json dict dict) ''/out'' = None"
    by simp
  from generated_config_detected [OF gen m q s this, of "\<lambda>_ _. Inl AssertionError" "[]"] show ?thesis
    by (intro exI [of _ fs']) simp
qed

section \<open>What is detected\<close>

lemma check_safetensor_found:
  assumes "check_safetensor load_names p fs = Inr (Some q, fs1)"
  shows "q = p @ [''model.safetensors.index.json''] \<and> path_exists fs1 q \<and>
    (fs1 = fs \<or> \<not> path_exists fs q \<and> path_exists fs (p @ [''model.safetensors'']) \<and>
       (\<exists>j. fs1 = dict_set fs q (FileEntry j)))"
  using assms
  by (auto simp: check_safetensor_def Let_def path_exists_def elim!: bindR_eq_InrE split: if_splits)

lemma check_safetensor_again:
  assumes "check_safetensor load_names p fs = Inr (Some q, fs1)"
  shows "check_safetensor load_names p fs1 = Inr (Some q, fs1)"
proof -
  have "q = p @ [''model.safetensors.index.json'']" "path_exists fs1 q"
    using check_safetensor_found [OF assms] by blast+
  then show ?thesis
    by (simp add: check_safetensor_def)
qed

lemma check_safetensor_none:
  "check_safetensor load_names p fs = Inr (None, fs1) \<Longrightarrow> fs1 = fs"
  by (auto simp: check_safetensor_def Let_def elim!: bindR_eq_InrE split: if_splits)

lemma check_pytorch_Some:
  "check_pytorch p fs = Some q \<Longrightarrow> path_exists fs q \<and>
     q \<in> {p @ [''pytorch_model.bin.index.json''], p @ [''pytorch_model.bin'']}"
  by (auto simp: check_pytorch_def split: if_splits)

text \<open>The index of a safetensors file is not looked at by the other check, nor by the search for the directory.\<close>

lemma check_pytorch_index:
  "check_pytorch p (dict_set fs (p @ [''model.safetensors.index.json'']) e) = check_pytorch p fs"
  by (simp add: check_pytorch_def path_exists_def)

lemma check_pytorch_after_safetensor:
  assumes "check_safetensor load_names p fs = Inr (st, fs1)"
  shows "check_pytorch p fs1 = check_pytorch p fs"
proof (cases st)
  case None
  with assms check_safetensor_none [of load_names p fs fs1] show ?thesis
    by simp
next
  case (Some q)
  with assms check_safetensor_found [of load_names p fs q fs1] show ?thesis
    by (auto simp: check_pytorch_index)
qed

lemma load_object_new:
  assumes "path_exists fs config" "\<not> path_exists fs q"
  shows "load_object (dict_set fs q e) config = load_object fs config"
  using assms by (auto simp: load_object_def load_json_def path_exists_def)

lemma weight_directory_new:
  assumes "weight_directory weight_path config fs = Inr p" "\<not> path_exists fs q"
  shows "weight_directory weight_path config (dict_set fs q e) = Inr p"
proof (cases weight_path)
  case None
  with assms have "path_exists fs config"
    by (simp add: weight_directory_def split: if_splits)
  then have same: "path_exists (dict_set fs q e) config" "load_object (dict_set fs q e) config = load_object fs config"
    using assms(2) by (auto simp: path_exists_def load_object_new)
  from assms(1) None have "weight_directory None config fs = Inr p"
    by simp
  then show ?thesis
    using None same \<open>path_exists fs config\<close>
    by (auto simp: weight_directory_def path_exists_def elim!: bindR_eq_InrE split: option.splits json.splits if_splits)
next
  case (Some w)
  with assms(1) show ?thesis
    by (auto simp: weight_directory_def path_exists_def split: if_splits)
qed

lemma weight_directory_after_safetensor:
  assumes "weight_directory weight_path config fs = Inr p" "check_safetensor load_names p fs = Inr (st, fs1)"
  shows "weight_directory weight_path config fs1 = Inr p"
proof (cases st)
  case None
  with assms check_safetensor_none [of load_names p fs fs1] show ?thesis
    by simp
next
  case (Some q)
  with check_safetensor_found [of load_names p fs q fs1] assms weight_directory_new [OF assms(1), of q] show ?thesis
    by auto
qed

text \<open>
  A detection with \<open>auto\<close> that succeeds returns an existing file of the weight directory: a PyTorch
  index or file if there is one, whatever else is there, and the safetensors index otherwise. The result
  is stable: another detection gives it again without a change to the files, and so does one that
  names the format.
\<close>

theorem detected_weights_stable:
  assumes "weight_directory weight_path config fs = Inr p"
    "detect_weight load_names weight_path config ''auto'' fs = Inr ((q, fmt), fs')"
  shows "path_exists fs' q \<and> butlast q = p \<and>
    (check_pytorch p fs \<noteq> None \<and> fmt = ''huggingface-torch'' \<and> check_pytorch p fs = Some q \<or>
     check_pytorch p fs = None \<and> fmt = ''huggingface-safetensor'' \<and> last q = ''model.safetensors.index.json'') \<and>
    detect_weight load_names weight_path config ''auto'' fs' = Inr ((q, fmt), fs') \<and>
    detect_weight load_names weight_path config fmt fs' = Inr ((q, fmt), fs')"
proof -
  from assms have "guess_weight_format load_names p fs = Inr ((q, fmt), fs')"
    by (simp add: detect_weight_def)
  then obtain st where st: "check_safetensor load_names p fs = Inr (st, fs')" and
    pick: "(case check_pytorch p fs of Some q' \<Rightarrow> (q', ''huggingface-torch'') = (q, fmt)
      | None \<Rightarrow> (case st of Some q' \<Rightarrow> (q', ''huggingface-safetensor'') = (q, fmt) | None \<Rightarrow> False))"
    by (auto simp: guess_weight_format_def elim!: bindR_eq_InrE split: option.splits)
  have torch: "check_pytorch p fs' = check_pytorch p fs"
    by (rule check_pytorch_after_safetensor [OF st])
  have dir: "weight_directory weight_path config fs' = Inr p"
    by (rule weight_directory_after_safetensor [OF assms(1) st])
  have again: "check_safetensor load_names p fs' = Inr (st, fs')"
    using st check_safetensor_again [of load_names p fs _ fs'] check_safetensor_none [of load_names p fs fs']
    by (cases st) auto
  show ?thesis
  proof (cases "check_pytorch p fs")
    case (Some q')
    with pick have eq: "q' = q" "fmt = ''huggingface-torch''"
      by simp_all
    have "path_exists fs' q" "butlast q = p"
      using check_pytorch_Some [of p fs' q] torch Some eq by auto
    with Some eq torch dir again show ?thesis
      by (simp add: detect_weight_def guess_weight_format_def)
  next
    case None
    with pick obtain "st = Some q" and fmt: "fmt = ''huggingface-safetensor''"
      by (auto split: option.splits)
    with st again check_safetensor_found [of load_names p fs' q fs'] have "path_exists fs' q"
        "q = p @ [''model.safetensors.index.json'']"
      by auto
    with None fmt torch dir again \<open>st = Some q\<close> show ?thesis
      by (simp add: detect_weight_def guess_weight_format_def)
  qed
qed

definition example_weights :: files where
  "example_weights =
     [([''m''], DirEntry), ([''m'', ''config.json''], FileEntry (Some (JObj []))),
      ([''m'', ''model.safetensors''], FileEntry None)]"

theorem detected_weights_stable_witness:
  "\<exists>fs'. detect_weight (\<lambda>_. Inr [''w'', ''b'']) None [''m'', ''config.json''] ''auto'' example_weights =
       Inr (([''m'', ''model.safetensors.index.json''], ''huggingface-safetensor''), fs') \<and>
     detect_weight (\<lambda>_. Inr [''w'', ''b'']) None [''m'', ''config.json''] ''huggingface-safetensor'' fs' =
       Inr (([''m'', ''model.safetensors.index.json''], ''huggingface-safetensor''), fs') \<and> fs' \<noteq> example_weights"
proof -
  let ?names = "\<lambda>_ :: path. Inr [''w'', ''b''] :: string list res"
  have dir: "weight_directory None [''m'', ''config.json''] example_weights = Inr [''m'']"
    by (simp add: weight_directory_def example_weights_def path_exists_def load_object_def load_json_def)
  have "\<exists>fs'. detect_weight ?names None [''m'', ''config.json''] ''auto'' example_weights =
       Inr (([''m'', ''model.safetensors.index.json''], ''huggingface-safetensor''), fs') \<and> fs' \<noteq> example_weights"
    unfolding detect_weight_def dir
    by (simp add: guess_weight_format_def check_safetensor_def check_pytorch_def
        example_weights_def path_exists_def Let_def)
  then obtain fs' where "detect_weight ?names None [''m'', ''config.json''] ''auto'' example_weights =
       Inr (([''m'', ''model.safetensors.index.json''], ''huggingface-safetensor''), fs')" "fs' \<noteq> example_weights"
    by blast
  with detected_weights_stable [OF dir this(1)] show ?thesis
    by blast
qed

end
