(* ===== verification/Extern_Rules.thy ===== *)
theory Extern_Rules
  imports Loader
begin

text \<open>
  The mappings from the parameters of a model to those of a checkpoint, which every
  \<open>model/*/*_loader.py\<close> builds: the array functions of numpy they use, the functions that combine
  arrays of the checkpoint, and the statements that build a mapping, as rules. The parameters of the
  model (\<open>export_tvm\<close>) are an argument, and so are the rounding of \<open>astype\<close> and the exponential.
\<close>

section \<open>Arrays\<close>

record array_env =
  ae_round :: "dtype \<Rightarrow> rat \<Rightarrow> rat"
  ae_exp :: "dtype \<Rightarrow> rat \<Rightarrow> rat"

definition astype :: "array_env \<Rightarrow> dtype \<Rightarrow> ndarray \<Rightarrow> ndarray" where
  "astype env dt a = a\<lparr>nd_dtype := dt, nd_value := (\<lambda>idx. ae_round env dt (nd_value a idx))\<rparr>"

text \<open>
  \<open>np.concatenate\<close>: all but one dimension agree. The arrays of a checkpoint that are combined have one
  data type, the result has that of the first.
\<close>

fun concat_value :: "nat \<Rightarrow> ndarray list \<Rightarrow> nat list \<Rightarrow> rat" where
  "concat_value axis [] idx = 0"
| "concat_value axis (a # as) idx =
     (let n = nd_shape a ! axis in
      if idx ! axis < n then nd_value a idx else concat_value axis as (idx[axis := idx ! axis - n]))"

definition np_concatenate :: "nat \<Rightarrow> ndarray list \<Rightarrow> ndarray res" where
  "np_concatenate axis arrays =
     (case arrays of
        [] \<Rightarrow> Inl (ValueError ''need at least one array to concatenate'')
      | a # _ \<Rightarrow>
          if axis \<ge> length (nd_shape a) then Inl (ForeignError ''AxisError'')
          else if (\<exists>b \<in> set arrays. length (nd_shape b) \<noteq> length (nd_shape a) \<or>
                     (nd_shape b)[axis := 0] \<noteq> (nd_shape a)[axis := 0])
          then Inl (ValueError ''all the input array dimensions must match'')
          else Inr \<lparr>nd_shape = (nd_shape a)[axis := sum_list (map (\<lambda>b. nd_shape b ! axis) arrays)],
                    nd_dtype = nd_dtype a, nd_value = concat_value axis arrays\<rparr>)"

definition np_stack :: "ndarray list \<Rightarrow> ndarray res" where
  "np_stack arrays =
     (case arrays of
        [] \<Rightarrow> Inl (ValueError ''need at least one array to stack'')
      | a # _ \<Rightarrow>
          if (\<exists>b \<in> set arrays. nd_shape b \<noteq> nd_shape a)
          then Inl (ValueError ''all input arrays must have the same shape'')
          else Inr \<lparr>nd_shape = length arrays # nd_shape a, nd_dtype = nd_dtype a,
                    nd_value = (\<lambda>idx. nd_value (arrays ! hd idx) (tl idx))\<rparr>)"

text \<open>The part of an array between two bounds of an axis, one result of \<open>np.split\<close>.\<close>

definition np_slice :: "nat \<Rightarrow> nat \<Rightarrow> nat \<Rightarrow> ndarray \<Rightarrow> ndarray" where
  "np_slice axis lo hi a =
     (let n = nd_shape a ! axis; lo = min lo n; hi = min hi n in
      a\<lparr>nd_shape := (nd_shape a)[axis := hi - lo],
        nd_value := (\<lambda>idx. nd_value a (idx[axis := idx ! axis + lo]))\<rparr>)"

text \<open>\<open>transpose\<close>: axis \<open>i\<close> of the result is axis \<open>perm ! i\<close> of the array.\<close>

definition np_transpose :: "nat list \<Rightarrow> ndarray \<Rightarrow> ndarray res" where
  "np_transpose perm a =
     (if length perm \<noteq> length (nd_shape a) then Inl (ValueError ''axes don't match array'')
      else Inr (a\<lparr>nd_shape := map (\<lambda>p. nd_shape a ! p) perm,
                  nd_value := (\<lambda>idx. nd_value a (map (\<lambda>d. idx ! length (takeWhile (\<lambda>p. p \<noteq> d) perm)) [0..<length perm]))\<rparr>))"

text \<open>The place of an index in memory, and back.\<close>

fun ravel :: "nat list \<Rightarrow> nat list \<Rightarrow> nat" where
  "ravel (n # ns) (i # is) = i * prod_list ns + ravel ns is"
| "ravel _ _ = 0"

fun unravel :: "nat list \<Rightarrow> nat \<Rightarrow> nat list" where
  "unravel [] k = []"
| "unravel (n # ns) k = k div prod_list ns # unravel ns (k mod prod_list ns)"

definition np_reshape :: "nat list \<Rightarrow> ndarray \<Rightarrow> ndarray res" where
  "np_reshape shape a =
     (if prod_list shape \<noteq> prod_list (nd_shape a) then Inl (ValueError ''cannot reshape array'')
      else Inr (a\<lparr>nd_shape := shape, nd_value := (\<lambda>idx. nd_value a (unravel (nd_shape a) (ravel shape idx)))\<rparr>))"

text \<open>The dimension that \<open>reshape\<close> finds for a \<open>-1\<close>, among others with the given product.\<close>

definition rest_dim :: "nat \<Rightarrow> ndarray \<Rightarrow> nat res" where
  "rest_dim known a =
     (if known = 0 \<or> prod_list (nd_shape a) mod known \<noteq> 0 then Inl (ValueError ''cannot reshape array'')
      else Inr (prod_list (nd_shape a) div known))"

section \<open>Functions of a mapping\<close>

datatype transform =
    Cast
  | Concat nat
  | Stack
  | StackPairs
  | PlusOne
  | Transpose
  | NeoxQKV nat nat
  | InternWQKV nat nat
  | SplitKVB nat nat nat nat bool
  | TimeDecay
  | Rescale nat

fun combine_pairs :: "ndarray list \<Rightarrow> ndarray list res" where
  "combine_pairs [] = Inr []"
| "combine_pairs [a] = Inl IndexError"
| "combine_pairs (a # b # as) =
     bindR (np_concatenate 0 [a, b]) (\<lambda>c. bindR (combine_pairs as) (\<lambda>cs. Inr (c # cs)))"

text \<open>\<open>transform_qkv_layout\<close> of GPT-NeoX: the heads of each of the three matrices together.\<close>

definition transform_qkv_layout :: "nat \<Rightarrow> nat \<Rightarrow> ndarray \<Rightarrow> ndarray res" where
  "transform_qkv_layout num_attention_heads head_dim w =
     bindR (rest_dim (num_attention_heads * (3 * head_dim)) w) (\<lambda>rest.
     bindR (np_reshape [num_attention_heads, 3 * head_dim, rest] w) (\<lambda>w3.
     bindR (np_concatenate 0 (map (\<lambda>j. np_slice 1 (j * head_dim) ((j + 1) * head_dim) w3) [0..<3])) (\<lambda>qkv.
     np_reshape (nd_shape w) qkv)))"

text \<open>\<open>_convert_wqkv_layout\<close> of InternLM2: the groups of query heads, then the keys and the values.\<close>

definition last_dim :: "ndarray \<Rightarrow> nat res" where
  "last_dim a = (if nd_shape a = [] then Inl IndexError else Inr (last (nd_shape a)))"

definition convert_wqkv_layout :: "nat \<Rightarrow> nat \<Rightarrow> ndarray \<Rightarrow> ndarray res" where
  "convert_wqkv_layout kv_groups head_dim wqkv =
     bindR (last_dim wqkv) (\<lambda>cols.
     bindR (rest_dim ((2 + kv_groups) * head_dim * cols) wqkv) (\<lambda>rest.
     bindR (np_reshape [rest, 2 + kv_groups, head_dim, cols] wqkv) (\<lambda>w.
     bindR (mapR (\<lambda>(lo, hi).
         let part = np_slice 1 lo hi w in
         bindR (rest_dim cols part) (\<lambda>rows. np_reshape [rows, cols] part))
       [(0, kv_groups), (kv_groups, kv_groups + 1), (kv_groups + 1, kv_groups + 2)]) (np_concatenate 0))))"

text \<open>
  The two halves of \<open>kv_b_proj\<close> in DeepSeek-V2, for each head \<open>qk_nope_head_dim\<close> of its
  rows and the rest; the first one is transposed.
\<close>

definition split_kv_b :: "nat \<Rightarrow> nat \<Rightarrow> nat \<Rightarrow> nat \<Rightarrow> bool \<Rightarrow> ndarray \<Rightarrow> ndarray res" where
  "split_kv_b heads rows nope rank first a =
     bindR (np_reshape [heads, rows, rank] a) (\<lambda>w.
       if first then np_transpose [0, 2, 1] (np_slice 1 0 nope w) else Inr (np_slice 1 nope rows w))"

text \<open>A function of one array is called with one; another number of arguments is a \<open>TypeError\<close>.\<close>

definition one_array :: "(ndarray \<Rightarrow> ndarray res) \<Rightarrow> ndarray list \<Rightarrow> ndarray res" where
  "one_array f arrays = (case arrays of [a] \<Rightarrow> f a | _ \<Rightarrow> Inl TypeError)"

fun run_transform :: "array_env \<Rightarrow> transform \<Rightarrow> dtype \<Rightarrow> ndarray list \<Rightarrow> ndarray res" where
  "run_transform env Cast dt arrays = one_array (\<lambda>a. Inr (astype env dt a)) arrays"
| "run_transform env (Concat axis) dt arrays = mapRes (astype env dt) (np_concatenate axis arrays)"
| "run_transform env Stack dt arrays = mapRes (astype env dt) (np_stack arrays)"
| "run_transform env StackPairs dt arrays =
     bindR (combine_pairs arrays) (\<lambda>cs. mapRes (astype env dt) (np_stack cs))"
| "run_transform env PlusOne dt arrays =
     one_array (\<lambda>a. Inr (astype env dt
       (a\<lparr>nd_value := (\<lambda>idx. ae_round env (nd_dtype a) (nd_value a idx + 1))\<rparr>))) arrays"
| "run_transform env Transpose dt arrays =
     one_array (\<lambda>a. mapRes (astype env dt) (np_transpose (rev [0..<length (nd_shape a)]) a)) arrays"
| "run_transform env (NeoxQKV heads head_dim) dt arrays =
     one_array (\<lambda>a. mapRes (astype env dt) (transform_qkv_layout heads head_dim a)) arrays"
| "run_transform env (InternWQKV kv_groups head_dim) dt arrays =
     one_array (\<lambda>a. mapRes (astype env dt) (convert_wqkv_layout kv_groups head_dim a)) arrays"
| "run_transform env (SplitKVB heads rows nope rank first) dt arrays =
     one_array (\<lambda>a. mapRes (astype env dt) (split_kv_b heads rows nope rank first a)) arrays"
| "run_transform env TimeDecay dt arrays =
     one_array (\<lambda>a. let x = astype env dt a in
       Inr (x\<lparr>nd_value := (\<lambda>idx. ae_exp env dt (- ae_exp env dt (nd_value x idx)))\<rparr>)) arrays"
| "run_transform env (Rescale t) dt arrays =
     one_array (\<lambda>a. let x = astype env dt a in
       Inr (x\<lparr>nd_value := (\<lambda>idx. ae_round env dt (nd_value x idx / 2 ^ t))\<rparr>)) arrays"

section \<open>Statements\<close>

text \<open>
  The statements that build a mapping. \<open>MapRule\<close> has the name of a parameter, the one whose
  data type is used, the sources and the function; \<open>MapPresent\<close> is under \<open>if mlc_name in
  named_parameters\<close>; \<open>NeedRule\<close> and \<open>AssertRule\<close> are a lookup and an assertion of a name.
\<close>

datatype rule =
    MapRule string string "string list" transform
  | MapPresent string "string list" transform
  | UnusedRule string
  | NeedRule string
  | AssertRule string
  | DtypeRule string dtype
  | RaiseRule py_error

fun run_rule :: "array_env \<Rightarrow> param dict \<Rightarrow> extern_mapping \<Rightarrow> rule \<Rightarrow> extern_mapping res" where
  "run_rule env named em (MapRule mlc_name like hf_names f) =
     bindR (dict_item named like) (\<lambda>p. Inr (add_mapping mlc_name hf_names (run_transform env f (pm_dtype p)) em))"
| "run_rule env named em (MapPresent mlc_name hf_names f) =
     (case dict_get named mlc_name of
        None \<Rightarrow> Inr em
      | Some p \<Rightarrow> Inr (add_mapping mlc_name hf_names (run_transform env f (pm_dtype p)) em))"
| "run_rule env named em (UnusedRule name) = Inr (add_unused name em)"
| "run_rule env named em (NeedRule name) = bindR (dict_item named name) (\<lambda>_. Inr em)"
| "run_rule env named em (AssertRule name) = (if dict_get named name = None then Inl AssertionError else Inr em)"
| "run_rule env named em (DtypeRule name dt) =
     bindR (dict_item named name) (\<lambda>p. if pm_dtype p \<noteq> dt then Inl (ValueError ''time_decay should be float32'') else Inr em)"
| "run_rule env named em (RaiseRule e) = Inl e"

text \<open>
  The last loop gives every parameter that has no sources yet one source, of the same or a similar
  name. \<open>fl_skip\<close> holds of the parameters it leaves out, \<open>fl_dtype\<close> replaces a data type.
\<close>

record fill =
  fl_skip :: "string \<Rightarrow> bool"
  fl_source :: "string \<Rightarrow> string res"
  fl_dtype :: "string \<Rightarrow> dtype option"

definition fill_param :: "array_env \<Rightarrow> fill \<Rightarrow> extern_mapping \<Rightarrow> string \<times> param \<Rightarrow> extern_mapping res" where
  "fill_param env fl em np =
     (case np of (mlc_name, p) \<Rightarrow>
        if fl_skip fl mlc_name \<or> dict_get (em_param_map em) mlc_name \<noteq> None then Inr em
        else bindR (fl_source fl mlc_name) (\<lambda>hf_name.
          Inr (add_mapping mlc_name [hf_name] (run_transform env Cast (case fl_dtype fl mlc_name of Some dt \<Rightarrow> dt | None \<Rightarrow> pm_dtype p)) em)))"

record loader =
  ld_rules :: "rule list"
  ld_fill :: "fill option"
  ld_after :: "rule list"

definition build_mapping :: "array_env \<Rightarrow> loader \<Rightarrow> param dict \<Rightarrow> extern_mapping res" where
  "build_mapping env l named =
     bindR (foldR (run_rule env named) empty_extern (ld_rules l)) (\<lambda>em.
     bindR (case ld_fill l of None \<Rightarrow> Inr em | Some fl \<Rightarrow> foldR (fill_param env fl) em named) (\<lambda>em.
     foldR (run_rule env named) em (ld_after l)))"

text \<open>The usual last loop.\<close>

definition same_name :: fill where
  "same_name = \<lparr>fl_skip = (\<lambda>_. False), fl_source = Inr, fl_dtype = (\<lambda>_. None)\<rparr>"

definition standard_loader :: "rule list \<Rightarrow> loader" where
  "standard_loader rules = \<lparr>ld_rules = rules, ld_fill = Some same_name, ld_after = []\<rparr>"

end
