(* ===== verification/Extern_Loaders.thy ===== *)
theory Extern_Loaders
  imports Extern_Rules
begin

text \<open>
  The functions \<open>huggingface\<close> and \<open>awq\<close> of the \<open>model/*/*_loader.py\<close>, as the rules they run. The arguments
  are the values of the model config that they read: \<open>n\<close> is the number of layers. Building the model
  and exporting its parameters come before and are not part of them.
\<close>

section \<open>Shared parts\<close>

text \<open>\<open>f"{prefix}.{i}.{name}"\<close>\<close>

definition nth_layer :: "string \<Rightarrow> nat \<Rightarrow> string \<Rightarrow> string" where
  "nth_layer block i name = block @ ''.'' @ nat_digits i @ ''.'' @ name"

definition layers :: "nat \<Rightarrow> (nat \<Rightarrow> rule list) \<Rightarrow> rule list" where
  "layers n f = concat (map f [0..<n])"

text \<open>A parameter with sources of the same block of the model, \<open>f"{prefix}.{name}"\<close> each.\<close>

definition fused :: "(string \<Rightarrow> string) \<Rightarrow> string \<Rightarrow> string list \<Rightarrow> transform \<Rightarrow> rule" where
  "fused p name sources f = MapRule (p name) (p name) (map p sources) f"

definition copied :: "string \<Rightarrow> string \<Rightarrow> rule" where
  "copied mlc_name hf_name = MapRule mlc_name mlc_name [hf_name] Cast"

definition qkv :: "(string \<Rightarrow> string) \<Rightarrow> string \<Rightarrow> string \<Rightarrow> nat \<Rightarrow> rule" where
  "qkv p name kind axis =
     fused p (name @ ''.'' @ kind) [''q_proj.'' @ kind, ''k_proj.'' @ kind, ''v_proj.'' @ kind] (Concat axis)"

definition gate_up :: "(string \<Rightarrow> string) \<Rightarrow> string \<Rightarrow> string \<Rightarrow> nat \<Rightarrow> rule" where
  "gate_up p name kind axis = fused p (name @ ''.'' @ kind) [''gate_proj.'' @ kind, ''up_proj.'' @ kind] (Concat axis)"

definition plus_one :: "string \<Rightarrow> rule" where
  "plus_one name = MapRule name name [name] PlusOne"

definition attn :: "string \<Rightarrow> nat \<Rightarrow> string \<Rightarrow> string" where
  "attn block i name = nth_layer block i (''self_attn.'' @ name)"

definition mlp :: "string \<Rightarrow> nat \<Rightarrow> string \<Rightarrow> string" where
  "mlp block i name = nth_layer block i (''mlp.'' @ name)"

definition inv_freq :: "(string \<Rightarrow> string) \<Rightarrow> rule" where
  "inv_freq p = UnusedRule (p ''rotary_emb.inv_freq'')"

text \<open>
  The experts: \<open>reduce(lambda a, b: a + b, ...)\<close> over no experts raises \<open>TypeError\<close>. \<open>like\<close> is the parameter
  whose data type is used.
\<close>

definition expert_pairs :: "(string \<Rightarrow> string) \<Rightarrow> nat \<Rightarrow> string \<Rightarrow> string \<Rightarrow> string \<Rightarrow> string list" where
  "expert_pairs p experts first second kind =
     concat (map (\<lambda>e. [p (nth_layer ''experts'' e (first @ ''.'' @ kind)), p (nth_layer ''experts'' e (second @ ''.'' @ kind))]) [0..<experts])"

definition pairs_rule :: "string \<Rightarrow> string \<Rightarrow> (string \<Rightarrow> string) \<Rightarrow> nat \<Rightarrow> string \<Rightarrow> string \<Rightarrow> rule list" where
  "pairs_rule mlc_name like p experts first second =
     NeedRule like #
     (if experts = 0 then [RaiseRule TypeError]
      else [MapRule mlc_name like (expert_pairs p experts first second ''weight'') StackPairs])"

definition stack_rule :: "string \<Rightarrow> (string \<Rightarrow> string) \<Rightarrow> nat \<Rightarrow> string \<Rightarrow> rule" where
  "stack_rule mlc_name p experts name =
     MapRule mlc_name mlc_name (map (\<lambda>e. p (nth_layer ''experts'' e (name @ ''.weight''))) [0..<experts]) Stack"

text \<open>The three parts of a weight in AWQ format.\<close>

definition awq_suffixes :: "string list" where
  "awq_suffixes = [''qweight'', ''qzeros'', ''scales'']"

definition awq_layer :: "string \<Rightarrow> nat \<Rightarrow> nat \<Rightarrow> rule list" where
  "awq_layer block axis i =
     concat (map (\<lambda>s. [AssertRule (attn block i (''qkv_proj.'' @ s)), qkv (attn block i) ''qkv_proj'' s axis]) awq_suffixes) @
     concat (map (\<lambda>s. [AssertRule (mlp block i (''gate_up_proj.'' @ s)), gate_up (mlp block i) ''gate_up_proj'' s axis]) awq_suffixes) @
     [inv_freq (attn block i)]"

section \<open>Llama and its relatives\<close>

definition llama_layer :: "string \<Rightarrow> nat \<Rightarrow> rule list" where
  "llama_layer block i =
     [qkv (attn block i) ''qkv_proj'' ''weight'' 0, gate_up (mlp block i) ''gate_up_proj'' ''weight'' 0,
      inv_freq (attn block i)]"

definition llama_loader :: "nat \<Rightarrow> loader" where
  "llama_loader n = standard_loader (layers n (llama_layer ''model.layers''))"

definition llama_awq_loader :: "nat \<Rightarrow> loader" where
  "llama_awq_loader n = standard_loader (layers n (awq_layer ''model.layers'' 1))"

definition eagle_loader :: "nat \<Rightarrow> loader" where
  "eagle_loader n = standard_loader (layers n (llama_layer ''layers''))"

definition eagle_awq_loader :: "nat \<Rightarrow> loader" where
  "eagle_awq_loader n = standard_loader (layers n (awq_layer ''layers'' 1))"

definition mistral_loader :: "nat \<Rightarrow> loader" where
  "mistral_loader n = standard_loader (layers n (llama_layer ''model.layers''))"

definition olmo_loader :: "nat \<Rightarrow> loader" where
  "olmo_loader n = standard_loader (layers n (llama_layer ''model.layers''))"

definition olmo_awq_loader :: "nat \<Rightarrow> loader" where
  "olmo_awq_loader n = standard_loader (layers n (awq_layer ''model.layers'' 1))"

definition orion_loader :: "nat \<Rightarrow> loader" where
  "orion_loader n = standard_loader (layers n (llama_layer ''model.layers''))"

definition llava_loader :: "nat \<Rightarrow> loader" where
  "llava_loader n = standard_loader (layers n (llama_layer ''language_model.model.layers''))"

text \<open>Here the parts of AWQ weights are put together along the other axis.\<close>

definition llava_awq_loader :: "nat \<Rightarrow> loader" where
  "llava_awq_loader n = standard_loader (layers n (awq_layer ''language_model.model.layers'' 0))"

definition nemotron_loader :: "nat \<Rightarrow> loader" where
  "nemotron_loader n = standard_loader (layers n (\<lambda>i.
     [qkv (attn ''model.layers'' i) ''qkv_proj'' ''weight'' 0, inv_freq (attn ''model.layers'' i)]))"

definition cohere_loader :: "nat \<Rightarrow> loader" where
  "cohere_loader n = standard_loader (layers n (\<lambda>i.
     let a = attn ''model.layers'' i; m = mlp ''model.layers'' i in
     [NeedRule (a ''qkv_proj.weight''), copied (a ''out_proj.weight'') (a ''o_proj.weight''),
      qkv a ''qkv_proj'' ''weight'' 0,
      copied (m ''up_proj.weight'') (m ''up_proj.weight''), copied (m ''gate_proj.weight'') (m ''gate_proj.weight''),
      copied (m ''down_proj.weight'') (m ''down_proj.weight'')]))"

definition cohere_awq_loader :: "nat \<Rightarrow> loader" where
  "cohere_awq_loader n = standard_loader (layers n (\<lambda>i.
     let a = attn ''model.layers'' i; m = mlp ''model.layers'' i in
     concat (map (\<lambda>s. [AssertRule (a (''qkv_proj.'' @ s)), qkv a ''qkv_proj'' s 1,
       copied (a (''out_proj.'' @ s)) (a (''o_proj.'' @ s))]) awq_suffixes) @
     concat (map (\<lambda>s. [copied (m (''up_proj.'' @ s)) (m (''up_proj.'' @ s)),
       copied (m (''gate_proj.'' @ s)) (m (''gate_proj.'' @ s)),
       copied (m (''down_proj.'' @ s)) (m (''down_proj.'' @ s))]) awq_suffixes)))"

definition stablelm_loader :: "nat \<Rightarrow> loader" where
  "stablelm_loader n = standard_loader (layers n (\<lambda>i.
     let a = attn ''model.layers'' i in
     [qkv a ''qkv_proj'' ''weight'' 0,
      MapPresent (a ''qkv_proj.bias'') (map a [''q_proj.bias'', ''k_proj.bias'', ''v_proj.bias'']) (Concat 0),
      gate_up (mlp ''model.layers'' i) ''gate_up_proj'' ''weight'' 0]))"

definition internlm_loader :: "nat \<Rightarrow> loader" where
  "internlm_loader n = standard_loader (layers n (\<lambda>i.
     let a = attn ''model.layers'' i in
     [qkv a ''wqkv_pack'' ''weight'' 0,
      MapPresent (a ''wqkv_pack.bias'') (map a [''q_proj.bias'', ''k_proj.bias'', ''v_proj.bias'']) (Concat 0),
      gate_up (mlp ''model.layers'' i) ''gate_up_proj'' ''weight'' 0]))"

definition internlm2_loader :: "nat \<Rightarrow> nat \<Rightarrow> nat \<Rightarrow> nat \<Rightarrow> loader" where
  "internlm2_loader n num_attention_heads num_key_value_heads hidden_size = standard_loader (layers n (\<lambda>i.
     [fused (nth_layer ''model.layers'' i) ''feed_forward.gate_up_proj.weight''
        [''feed_forward.w1.weight'', ''feed_forward.w3.weight''] (Concat 0),
      fused (nth_layer ''model.layers'' i) ''attention.wqkv.weight'' [''attention.wqkv.weight'']
        (InternWQKV (num_attention_heads div num_key_value_heads) (hidden_size div num_attention_heads))]))"

definition baichuan_loader :: "nat \<Rightarrow> loader" where
  "baichuan_loader n = standard_loader (layers n (\<lambda>i. [gate_up (mlp ''model.layers'' i) ''gate_up_proj'' ''weight'' 0]))"

section \<open>Gemma\<close>

definition gemma_loader :: "nat \<Rightarrow> loader" where
  "gemma_loader n = standard_loader (layers n (\<lambda>i.
     [qkv (attn ''model.layers'' i) ''qkv_proj'' ''weight'' 0, gate_up (mlp ''model.layers'' i) ''gate_up_proj'' ''weight'' 0,
      plus_one (nth_layer ''model.layers'' i ''input_layernorm.weight''),
      plus_one (nth_layer ''model.layers'' i ''post_attention_layernorm.weight'')]) @
     [plus_one ''model.norm.weight''])"

definition gemma2_loader :: "nat \<Rightarrow> loader" where
  "gemma2_loader n = standard_loader (layers n (\<lambda>i.
     [qkv (attn ''model.layers'' i) ''qkv_proj'' ''weight'' 0, gate_up (mlp ''model.layers'' i) ''gate_up_proj'' ''weight'' 0,
      plus_one (nth_layer ''model.layers'' i ''input_layernorm.weight''),
      plus_one (nth_layer ''model.layers'' i ''post_attention_layernorm.weight''),
      plus_one (nth_layer ''model.layers'' i ''pre_feedforward_layernorm.weight''),
      plus_one (nth_layer ''model.layers'' i ''post_feedforward_layernorm.weight'')]) @
     [plus_one ''model.norm.weight''])"

definition gemma3_prefix :: string where
  "gemma3_prefix = ''language_model.''"

definition gemma3_loader :: "nat \<Rightarrow> bool \<Rightarrow> loader" where
  "gemma3_loader n is_text_model =
     (let hf_prefix = (if is_text_model then [] else ''language_model.'');
          one = (\<lambda>name. MapRule (gemma3_prefix @ name) (gemma3_prefix @ name) [hf_prefix @ name] PlusOne) in
      \<lparr>ld_rules = layers n (\<lambda>i.
         [MapRule (gemma3_prefix @ mlp ''model.layers'' i ''gate_up_proj.weight'')
            (gemma3_prefix @ mlp ''model.layers'' i ''gate_up_proj.weight'')
            [hf_prefix @ mlp ''model.layers'' i ''gate_proj.weight'', hf_prefix @ mlp ''model.layers'' i ''up_proj.weight''] (Concat 0),
          one (nth_layer ''model.layers'' i ''input_layernorm.weight''),
          one (nth_layer ''model.layers'' i ''post_attention_layernorm.weight''),
          one (nth_layer ''model.layers'' i ''pre_feedforward_layernorm.weight''),
          one (nth_layer ''model.layers'' i ''post_feedforward_layernorm.weight''),
          one (attn ''model.layers'' i ''k_norm.weight''),
          one (attn ''model.layers'' i ''q_norm.weight'')]) @
         [one ''model.norm.weight''],
       ld_fill = Some (same_name\<lparr>fl_source := (\<lambda>name. Inr (hf_prefix @ drop (length gemma3_prefix) name))\<rparr>),
       ld_after = []\<rparr>)"

section \<open>GPT, Phi, BERT and others\<close>

text \<open>\<open>mlc_name.split(".", 1)[1]\<close>\<close>

definition after_dot :: "string \<Rightarrow> string res" where
  "after_dot name = (if CHR ''.'' \<in> set name then Inr (tl (dropWhile (\<lambda>c. c \<noteq> CHR ''.'') name)) else Inl IndexError)"

definition gpt2_loader :: "nat \<Rightarrow> loader" where
  "gpt2_loader n =
     \<lparr>ld_rules = MapRule ''lm_head.weight'' ''transformer.wte.weight'' [''wte.weight''] Cast #
        layers n (\<lambda>i. UnusedRule (nth_layer ''h'' i ''attn.bias'') #
          map (\<lambda>w. MapRule (''transformer.'' @ nth_layer ''h'' i (w @ ''.weight'')) (''transformer.'' @ nth_layer ''h'' i (w @ ''.weight''))
              [nth_layer ''h'' i (w @ ''.weight'')] Transpose)
            [''attn.c_attn'', ''attn.c_proj'', ''mlp.c_proj'', ''mlp.c_fc'']),
      ld_fill = Some (same_name\<lparr>fl_source := after_dot\<rparr>), ld_after = []\<rparr>"

definition gpt_bigcode_loader :: loader where
  "gpt_bigcode_loader = standard_loader []"

definition medusa_loader :: loader where
  "medusa_loader = standard_loader []"

definition gpt_j_loader :: "nat \<Rightarrow> loader" where
  "gpt_j_loader n = standard_loader (layers n (\<lambda>i.
     [fused (nth_layer ''transformer.h'' i) ''attn.c_attn.weight''
        [''attn.q_proj.weight'', ''attn.k_proj.weight'', ''attn.v_proj.weight''] (Concat 0)]))"

definition gpt_neox_loader :: "nat \<Rightarrow> nat \<Rightarrow> nat \<Rightarrow> dtype \<Rightarrow> loader" where
  "gpt_neox_loader n num_attention_heads head_dim ffn_out_dtype =
     \<lparr>ld_rules = layers n (\<lambda>i.
        let a = (\<lambda>name. nth_layer ''gpt_neox.layers'' i (''attention.'' @ name)) in
        [UnusedRule (a ''rotary_emb.inv_freq''), UnusedRule (a ''masked_bias''), UnusedRule (a ''bias''),
         fused a ''query_key_value.weight'' [''query_key_value.weight''] (NeoxQKV num_attention_heads head_dim),
         fused a ''query_key_value.bias'' [''query_key_value.bias''] (NeoxQKV num_attention_heads head_dim)]),
      ld_fill = Some (same_name\<lparr>fl_dtype := (\<lambda>name.
        if sublist ''.dense_h_to_4h.bias'' name \<or> sublist ''.dense_4h_to_h.bias'' name then Some ffn_out_dtype else None)\<rparr>),
      ld_after = []\<rparr>"

definition phi_msft_names :: "string list" where
  "phi_msft_names =
     [''ln.weight'', ''ln.bias'', ''mixer.Wqkv.weight'', ''mixer.Wqkv.bias'', ''mixer.out_proj.weight'',
      ''mixer.out_proj.bias'', ''mlp.fc1.weight'', ''mlp.fc1.bias'', ''mlp.fc2.weight'', ''mlp.fc2.bias'']"

text \<open>A model type that is neither of the two gives an empty mapping.\<close>

definition phi_loader :: "string \<Rightarrow> nat \<Rightarrow> loader" where
  "phi_loader model_type n =
     (if model_type = ''mixformer-sequential'' then
        \<lparr>ld_rules = copied ''transformer.embd.weight'' ''layers.0.wte.weight'' #
           layers n (\<lambda>i. map (\<lambda>w. copied (nth_layer ''transformer.h'' i w) (nth_layer ''layers'' (i + 1) w)) phi_msft_names @
             [UnusedRule (nth_layer ''layers'' (i + 1) ''mixer.rotary_emb.inv_freq'')]) @
           map (\<lambda>w. copied (''lm_head.'' @ w) (nth_layer ''layers'' (n + 1) w))
             [''ln.weight'', ''ln.bias'', ''linear.weight'', ''linear.bias''],
         ld_fill = None, ld_after = []\<rparr>
      else if model_type = ''phi-msft'' then
        standard_loader [copied ''transformer.embd.weight'' ''transformer.embd.wte.weight'']
      else \<lparr>ld_rules = [], ld_fill = None, ld_after = []\<rparr>)"

definition phi1_loader :: "nat \<Rightarrow> loader" where
  "phi1_loader n =
     \<lparr>ld_rules =
        [copied ''lm_head.linear.weight'' ''lm_head.weight'', copied ''lm_head.linear.bias'' ''lm_head.bias'',
         copied ''lm_head.ln.weight'' ''model.final_layernorm.weight'',
         copied ''lm_head.ln.bias'' ''model.final_layernorm.bias'',
         copied ''transformer.embd.weight'' ''model.embed_tokens.weight''] @
        layers n (\<lambda>i.
          let h = nth_layer ''transformer.h'' i; l = nth_layer ''model.layers'' i;
              cat = (\<lambda>kind. MapRule (h (''mixer.Wqkv.'' @ kind)) (h (''mixer.Wqkv.'' @ kind))
                (map l [''self_attn.q_proj.'' @ kind, ''self_attn.k_proj.'' @ kind, ''self_attn.v_proj.'' @ kind]) (Concat 0)) in
          [copied (h ''ln.weight'') (l ''input_layernorm.weight''), copied (h ''ln.bias'') (l ''input_layernorm.bias''),
           cat ''weight'', cat ''bias'',
           copied (h ''mixer.out_proj.weight'') (l ''self_attn.dense.weight''),
           copied (h ''mixer.out_proj.bias'') (l ''self_attn.dense.bias''),
           copied (h ''mlp.fc1.weight'') (l ''mlp.fc1.weight''), copied (h ''mlp.fc1.bias'') (l ''mlp.fc1.bias''),
           copied (h ''mlp.fc2.weight'') (l ''mlp.fc2.weight''), copied (h ''mlp.fc2.bias'') (l ''mlp.fc2.bias''),
           UnusedRule (l ''mixer.rotary_emb.inv_freq'')]),
      ld_fill = None, ld_after = []\<rparr>"

definition phi3_layer :: "string \<Rightarrow> nat \<Rightarrow> rule list" where
  "phi3_layer block i =
     (let h = nth_layer block i; l = nth_layer ''model.layers'' i in
      [copied (h ''ln.weight'') (l ''input_layernorm.weight''),
       copied (h ''mlp.down_proj.weight'') (l ''mlp.down_proj.weight''),
       copied (h ''mlp.gate_up_proj.weight'') (l ''mlp.gate_up_proj.weight''),
       copied (h ''post_attention_layernorm.weight'') (l ''post_attention_layernorm.weight''),
       copied (h ''mixer.out_proj.weight'') (l ''self_attn.o_proj.weight''),
       copied (h ''mixer.qkv_proj.weight'') (l ''self_attn.qkv_proj.weight'')])"

definition phi3_loader :: "nat \<Rightarrow> loader" where
  "phi3_loader n =
     \<lparr>ld_rules =
        [copied ''lm_head.weight'' ''lm_head.weight'', copied ''transformer.norm.weight'' ''model.norm.weight'',
         copied ''transformer.embd.weight'' ''model.embed_tokens.weight''] @
        layers n (phi3_layer ''transformer.h''),
      ld_fill = None, ld_after = []\<rparr>"

definition add_vision :: "string \<Rightarrow> rule" where
  "add_vision name = copied name (''model.'' @ name)"

definition vision_names :: "string list" where
  "vision_names =
     [''layer_norm1.bias'', ''layer_norm1.weight'', ''layer_norm2.bias'', ''layer_norm2.weight'', ''mlp.fc1.bias'',
      ''mlp.fc1.weight'', ''mlp.fc2.bias'', ''mlp.fc2.weight'', ''self_attn.k_proj.bias'', ''self_attn.k_proj.weight'',
      ''self_attn.out_proj.bias'', ''self_attn.out_proj.weight'', ''self_attn.q_proj.bias'', ''self_attn.q_proj.weight'',
      ''self_attn.v_proj.bias'', ''self_attn.v_proj.weight'']"

definition phi3v_loader :: "nat \<Rightarrow> nat \<Rightarrow> loader" where
  "phi3v_loader n vision_layers =
     \<lparr>ld_rules = copied ''model.embd.weight'' ''model.embed_tokens.weight'' #
        layers n (phi3_layer ''model.h'') @
        layers vision_layers (\<lambda>i.
          map (\<lambda>w. add_vision (nth_layer ''vision_embed_tokens.img_processor.vision_model.encoder.layers'' i w)) vision_names) @
        map add_vision
          [''vision_embed_tokens.sub_GN'', ''vision_embed_tokens.glb_GN'',
           ''vision_embed_tokens.img_processor.vision_model.embeddings.class_embedding'',
           ''vision_embed_tokens.img_processor.vision_model.embeddings.patch_embedding.weight'',
           ''vision_embed_tokens.img_processor.vision_model.embeddings.position_embedding.weight'',
           ''vision_embed_tokens.img_processor.vision_model.post_layernorm.bias'',
           ''vision_embed_tokens.img_processor.vision_model.post_layernorm.weight'',
           ''vision_embed_tokens.img_processor.vision_model.pre_layrnorm.bias'',
           ''vision_embed_tokens.img_processor.vision_model.pre_layrnorm.weight''] @
        [copied ''vision_embed_tokens.img_projection.linear_1.bias'' ''model.vision_embed_tokens.img_projection.0.bias'',
         copied ''vision_embed_tokens.img_projection.linear_1.weight'' ''model.vision_embed_tokens.img_projection.0.weight'',
         copied ''vision_embed_tokens.img_projection.linear_2.bias'' ''model.vision_embed_tokens.img_projection.2.bias'',
         copied ''vision_embed_tokens.img_projection.linear_2.weight'' ''model.vision_embed_tokens.img_projection.2.weight''],
      ld_fill = Some same_name, ld_after = [UnusedRule ''model.embed_tokens.weight'']\<rparr>"

definition bert_loader :: "nat \<Rightarrow> loader" where
  "bert_loader n = standard_loader (layers n (\<lambda>i.
     let a = (\<lambda>name. nth_layer ''encoder.layer'' i (''attention.self.'' @ name)) in
     [fused a ''qkv.weight'' [''query.weight'', ''key.weight'', ''value.weight''] (Concat 0),
      fused a ''qkv.bias'' [''query.bias'', ''key.bias'', ''value.bias''] (Concat 0)]))"

definition chatglm3_loader :: loader where
  "chatglm3_loader = standard_loader
     [copied ''transformer.embedding.weight'' ''transformer.embedding.word_embeddings.weight'']"

definition starcoder2_loader :: "nat \<Rightarrow> loader" where
  "starcoder2_loader n = standard_loader (copied ''lm_head.weight'' ''model.embed_tokens.weight'' #
     layers n (\<lambda>i. let a = attn ''model.layers'' i in
       [qkv a ''wqkv_pack'' ''weight'' 0,
        MapPresent (a ''wqkv_pack.bias'') (map a [''q_proj.bias'', ''k_proj.bias'', ''v_proj.bias'']) (Concat 0)]))"

text \<open>Every \<open>model\<close> in a name becomes \<open>rwkv\<close>.\<close>

definition rwkv_fill :: fill where
  "rwkv_fill = same_name\<lparr>fl_source := (\<lambda>name. Inr (str_replace ''model'' ''rwkv'' name))\<rparr>"

definition rwkv_rescale :: "nat \<Rightarrow> nat \<Rightarrow> rule list" where
  "rwkv_rescale rescale_every i =
     (if 0 < rescale_every then
        map (\<lambda>w. MapRule (nth_layer ''model.blocks'' i w) (nth_layer ''model.blocks'' i w) [nth_layer ''rwkv.blocks'' i w]
            (Rescale (i div rescale_every)))
          [''feed_forward.value.weight'', ''attention.output.weight'']
      else [])"

definition rwkv5_loader :: "nat \<Rightarrow> nat \<Rightarrow> loader" where
  "rwkv5_loader n rescale_every =
     \<lparr>ld_rules = layers n (\<lambda>i.
        [DtypeRule (nth_layer ''model.blocks'' i ''attention.time_decay'') float32,
         MapRule (nth_layer ''model.blocks'' i ''attention.time_decay'') (nth_layer ''model.blocks'' i ''attention.time_decay'')
           [nth_layer ''rwkv.blocks'' i ''attention.time_decay''] TimeDecay] @ rwkv_rescale rescale_every i),
      ld_fill = Some rwkv_fill, ld_after = []\<rparr>"

definition rwkv6_loader :: "nat \<Rightarrow> nat \<Rightarrow> loader" where
  "rwkv6_loader n rescale_every =
     \<lparr>ld_rules = layers n (rwkv_rescale rescale_every), ld_fill = Some rwkv_fill, ld_after = []\<rparr>"

section \<open>Qwen, and models with experts\<close>

definition qwen_loader :: "nat \<Rightarrow> loader" where
  "qwen_loader n = standard_loader (layers n (\<lambda>i.
     [fused (nth_layer ''transformer.h'' i) ''mlp.gate_up_proj.weight'' [''mlp.w1.weight'', ''mlp.w2.weight''] (Concat 0)]))"

definition qwen2_loader :: "nat \<Rightarrow> loader" where
  "qwen2_loader n = standard_loader (layers n (\<lambda>i.
     [qkv (attn ''model.layers'' i) ''c_attn'' ''weight'' 0, qkv (attn ''model.layers'' i) ''c_attn'' ''bias'' 0,
      gate_up (mlp ''model.layers'' i) ''gate_up_proj'' ''weight'' 0]))"

text \<open>The data type of the first expert matrix is that of the shared expert, whose entry was read before.\<close>

definition qwen2_moe_loader :: "nat \<Rightarrow> nat \<Rightarrow> loader" where
  "qwen2_moe_loader n num_experts = standard_loader (layers n (\<lambda>i.
     let m = mlp ''model.layers'' i in
     [qkv (attn ''model.layers'' i) ''c_attn'' ''weight'' 0, qkv (attn ''model.layers'' i) ''c_attn'' ''bias'' 0,
      gate_up (\<lambda>w. m (''shared_expert.'' @ w)) ''gate_up_proj'' ''weight'' 0] @
     pairs_rule (m ''moe_gate_up_proj.weight'') (m ''shared_expert.gate_up_proj.weight'') m num_experts ''gate_proj'' ''up_proj'' @
     [stack_rule (m ''moe_down_proj.weight'') m num_experts ''down_proj'']))"

definition mixtral_loader :: "nat \<Rightarrow> nat \<Rightarrow> loader" where
  "mixtral_loader n num_local_experts = standard_loader (layers n (\<lambda>i.
     let m = (\<lambda>w. nth_layer ''model.layers'' i (''block_sparse_moe.'' @ w));
         e = (\<lambda>w. nth_layer ''model.layers'' i (''moe.'' @ w)) in
     [qkv (attn ''model.layers'' i) ''qkv_proj'' ''weight'' 0] @
     pairs_rule (e ''e1_e3.weight'') (e ''e1_e3.weight'') m num_local_experts ''w1'' ''w3'' @
     [stack_rule (e ''e2.weight'') m num_local_experts ''w2'', copied (e ''gate.weight'') (m ''gate.weight''),
      inv_freq (attn ''model.layers'' i)]))"

definition minicpm_loader :: "nat \<Rightarrow> nat \<Rightarrow> bool \<Rightarrow> loader" where
  "minicpm_loader n num_experts tie_word_embeddings =
     \<lparr>ld_rules = layers n (\<lambda>i. [qkv (attn ''model.layers'' i) ''wqkv_pack'' ''weight'' 0]) @
        (if num_experts = 0 then layers n (\<lambda>i. [gate_up (mlp ''model.layers'' i) ''gate_up_proj'' ''weight'' 0])
         else layers n (\<lambda>i. let m = mlp ''model.layers'' i in
           pairs_rule (m ''e1_e3.weight'') (m ''e1_e3.weight'') m num_experts ''w1'' ''w3'' @
           [stack_rule (m ''e2.weight'') m num_experts ''w2'', copied (m ''gate.weight'') (m ''gate.weight'')])),
      ld_fill = Some (same_name\<lparr>fl_skip := (\<lambda>name. name = ''lm_head.weight'' \<and> tie_word_embeddings)\<rparr>),
      ld_after = []\<rparr>"

text \<open>\<open>i >= first_k_dense_replace and i % moe_layer_freq == 0\<close>\<close>

definition moe_layer :: "nat \<Rightarrow> nat \<Rightarrow> nat \<Rightarrow> bool" where
  "moe_layer first_k moe_layer_freq i \<longleftrightarrow> first_k \<le> i \<and> i mod moe_layer_freq = 0"

definition freq_check :: "nat \<Rightarrow> nat \<Rightarrow> nat \<Rightarrow> rule list" where
  "freq_check first_k moe_layer_freq i =
     (if first_k \<le> i \<and> moe_layer_freq = 0 then [RaiseRule (ForeignError ''ZeroDivisionError'')] else [])"

definition deepseek_loader :: "nat \<Rightarrow> nat \<Rightarrow> nat \<Rightarrow> nat \<Rightarrow> loader" where
  "deepseek_loader n first_k moe_layer_freq n_routed_experts = standard_loader (
     layers n (\<lambda>i. [qkv (attn ''model.layers'' i) ''wqkv_pack'' ''weight'' 0]) @
     layers n (\<lambda>i. let m = mlp ''model.layers'' i in
       freq_check first_k moe_layer_freq i @
       (if moe_layer first_k moe_layer_freq i then
          [gate_up (\<lambda>w. m (''shared_experts.'' @ w)) ''gate_up_proj'' ''weight'' 0] @
          pairs_rule (m ''moe_gate_up_proj.weight'') (m ''shared_experts.gate_up_proj.weight'') m n_routed_experts
            ''gate_proj'' ''up_proj'' @
          [stack_rule (m ''moe_down_proj.weight'') m n_routed_experts ''down_proj'']
        else [gate_up m ''gate_up_proj'' ''weight'' 0])))"

text \<open>
  \<open>add_weight_and_scale_mapping\<close>: for block-scale quantization also the scales, if the model has them,
  with the same function.
\<close>

definition scale_inv :: "string \<Rightarrow> string" where
  "scale_inv name = name @ ''_scale_inv''"

definition weight_and_scale :: "bool \<Rightarrow> string \<Rightarrow> string list \<Rightarrow> transform \<Rightarrow> rule list" where
  "weight_and_scale block_scale mlc_name hf_names f =
     MapRule mlc_name mlc_name hf_names f #
     (if block_scale then [MapPresent (scale_inv mlc_name) (map scale_inv hf_names) f] else [])"

text \<open>The sources of fused experts are put together before the parameter is looked up.\<close>

definition pairs_and_scale :: "bool \<Rightarrow> string \<Rightarrow> (string \<Rightarrow> string) \<Rightarrow> nat \<Rightarrow> rule list" where
  "pairs_and_scale block_scale mlc_name p experts =
     (if experts = 0 then [RaiseRule TypeError]
      else weight_and_scale block_scale mlc_name (expert_pairs p experts ''gate_proj'' ''up_proj'' ''weight'') StackPairs)"

definition stack_and_scale :: "bool \<Rightarrow> string \<Rightarrow> (string \<Rightarrow> string) \<Rightarrow> nat \<Rightarrow> rule list" where
  "stack_and_scale block_scale mlc_name p experts =
     weight_and_scale block_scale mlc_name (map (\<lambda>e. p (nth_layer ''experts'' e ''down_proj.weight'')) [0..<experts]) Stack"

text \<open>Block-scale quantization is used exactly for a model that has a \<open>weight_block_size\<close>.\<close>

definition block_scale_check :: "bool \<Rightarrow> bool \<Rightarrow> rule list" where
  "block_scale_check block_scale has_block_size =
     (if block_scale \<and> \<not> has_block_size then [RaiseRule (ValueError ''The input model is not fp8 block quantized.'')]
      else if \<not> block_scale \<and> has_block_size then [RaiseRule (ValueError ''The input model is fp8 block quantized.'')]
      else [])"

definition qwen3_attention :: "bool \<Rightarrow> bool \<Rightarrow> nat \<Rightarrow> rule list" where
  "qwen3_attention block_scale attention_bias i =
     (let a = attn ''model.layers'' i in
      weight_and_scale block_scale (a ''c_attn.weight'') (map a [''q_proj.weight'', ''k_proj.weight'', ''v_proj.weight'']) (Concat 0) @
      (if attention_bias then [qkv a ''c_attn'' ''bias'' 0] else []))"

definition gate_up_and_scale :: "bool \<Rightarrow> (string \<Rightarrow> string) \<Rightarrow> rule list" where
  "gate_up_and_scale block_scale p =
     weight_and_scale block_scale (p ''gate_up_proj.weight'') (map p [''gate_proj.weight'', ''up_proj.weight'']) (Concat 0)"

definition qwen3_loader :: "nat \<Rightarrow> bool \<Rightarrow> bool \<Rightarrow> bool \<Rightarrow> loader" where
  "qwen3_loader n attention_bias block_scale has_block_size = standard_loader (
     block_scale_check block_scale has_block_size @
     layers n (\<lambda>i. qwen3_attention block_scale attention_bias i @ gate_up_and_scale block_scale (mlp ''model.layers'' i)))"

definition qwen3_moe_loader :: "nat \<Rightarrow> nat \<Rightarrow> bool \<Rightarrow> bool \<Rightarrow> bool \<Rightarrow> loader" where
  "qwen3_moe_loader n num_experts attention_bias block_scale has_block_size = standard_loader (
     block_scale_check block_scale has_block_size @
     layers n (\<lambda>i. let m = mlp ''model.layers'' i in
       qwen3_attention block_scale attention_bias i @
       pairs_and_scale block_scale (m ''moe_gate_up_proj.weight'') m num_experts @
       stack_and_scale block_scale (m ''moe_down_proj.weight'') m num_experts))"

record mla_config =
  ml_num_key_value_heads :: nat
  ml_qk_nope_head_dim :: nat
  ml_v_head_dim :: nat
  ml_kv_lora_rank :: nat

text \<open>The two halves of \<open>kv_b_proj\<close>, and their scales; \<open>block_size\<close> is that of block-scale quantization.\<close>

definition mla_rules :: "mla_config \<Rightarrow> (nat \<times> nat) option \<Rightarrow> (string \<Rightarrow> string) \<Rightarrow> string \<Rightarrow> bool \<Rightarrow> rule list" where
  "mla_rules c block_size a name first =
     (let nope = ml_qk_nope_head_dim c; rows = ml_qk_nope_head_dim c + ml_v_head_dim c; heads = ml_num_key_value_heads c in
      fused a name [''kv_b_proj.weight''] (SplitKVB heads rows nope (ml_kv_lora_rank c) first) #
      (case block_size of
         None \<Rightarrow> []
       | Some (b0, b1) \<Rightarrow>
           [fused a (scale_inv name) [scale_inv ''kv_b_proj.weight'']
              (SplitKVB heads (rows div b0) (nope div b0) (ml_kv_lora_rank c div b1) first)]))"

definition deepseek_v2_loader ::
    "mla_config \<Rightarrow> nat \<Rightarrow> nat \<Rightarrow> nat \<Rightarrow> nat \<Rightarrow> string \<Rightarrow> (nat \<times> nat) option \<Rightarrow> bool \<Rightarrow> loader" where
  "deepseek_v2_loader c n first_k moe_layer_freq n_routed_experts topk_method block_size has_block_size =
     (let bs = block_size \<noteq> None in
      standard_loader (
        block_scale_check bs has_block_size @
        layers n (\<lambda>i. let m = mlp ''model.layers'' i; a = attn ''model.layers'' i in
          freq_check first_k moe_layer_freq i @
          (if moe_layer first_k moe_layer_freq i then
             gate_up_and_scale bs (\<lambda>w. m (''shared_experts.'' @ w)) @
             pairs_and_scale bs (m ''moe_gate_up_proj.weight'') m n_routed_experts @
             stack_and_scale bs (m ''moe_down_proj.weight'') m n_routed_experts @
             (if topk_method = ''noaux_tc''
              then [copied (m ''e_score_correction_bias'') (m ''gate.e_score_correction_bias'')] else [])
           else gate_up_and_scale bs m) @
          mla_rules c block_size a ''w_uk'' True @ mla_rules c block_size a ''w_uv'' False)))"

end
