(* ===== verification/Extern_Correct.thy ===== *)
theory Extern_Correct
  imports Extern_Loaders Loader_Correct Flags_Correct
begin

text \<open>
  What the mappings of the loaders contain: every parameter of the model has sources and a function,
  nothing else has, and fused weights are the rows of their sources. Together with the loader and the
  conversion: a checkpoint with the sources of a model becomes its parameters.
\<close>

section \<open>Contents of a mapping\<close>

text \<open>The parameters that the statements before the last loop give sources.\<close>

fun rule_target :: "param dict \<Rightarrow> rule \<Rightarrow> string option" where
  "rule_target named (MapRule n like ts f) = Some n"
| "rule_target named (MapPresent n ts f) = (if dict_get named n = None then None else Some n)"
| "rule_target named _ = None"

definition rule_targets :: "param dict \<Rightarrow> rule list \<Rightarrow> string list" where
  "rule_targets named rules = List.map_filter (rule_target named) rules"

definition em_keys :: "extern_mapping \<Rightarrow> string set" where
  "em_keys em = fst ` set (em_param_map em)"

text \<open>Every entry has a function, and there is one entry for a name.\<close>

definition extern_ok :: "extern_mapping \<Rightarrow> bool" where
  "extern_ok em \<longleftrightarrow> dict_ok (em_param_map em) \<and> fst ` set (em_map_func em) = em_keys em"

lemma extern_ok_add [simp]: "extern_ok em \<Longrightarrow> extern_ok (add_mapping n ts f em)"
  by (simp add: extern_ok_def em_keys_def add_mapping_def dict_ok_set dict_keys_set)

lemma extern_ok_unused [simp]: "extern_ok (add_unused n em) = extern_ok em"
  by (simp add: extern_ok_def em_keys_def add_unused_def)

lemma extern_ok_empty [simp]: "extern_ok empty_extern"
  by (simp add: extern_ok_def em_keys_def empty_extern_def dict_ok_def)

lemma add_keys [simp]: "em_keys (add_mapping n ts f em) = insert n (em_keys em)"
  by (simp add: em_keys_def add_mapping_def dict_keys_set)

lemma add_unused_keys [simp]: "em_keys (add_unused n em) = em_keys em"
  by (simp add: em_keys_def add_unused_def)

lemma fill_param_cases:
  assumes "fill_param env fl em (n, p) = Inr em'"
  obtains "em' = em" "fl_skip fl n \<or> n \<in> em_keys em"
  | ts f where "em' = add_mapping n ts f em" "\<not> fl_skip fl n" "n \<notin> em_keys em"
  using assms dict_get_None_iff [of "em_param_map em" n]
  by (auto simp: fill_param_def res_simps em_keys_def split: if_splits)

lemma rule_targets_simps [simp]:
  "rule_targets named [] = []"
  "rule_targets named (r # rs) =
     (case rule_target named r of None \<Rightarrow> rule_targets named rs | Some n \<Rightarrow> n # rule_targets named rs)"
  "rule_targets named (rs @ rs') = rule_targets named rs @ rule_targets named rs'"
  by (simp_all add: rule_targets_def map_filter_def split: option.split)

lemma run_rule_ok:
  assumes "run_rule env named em r = Inr em'" "extern_ok em"
  shows "extern_ok em' \<and>
    em_keys em' = em_keys em \<union> set_option (rule_target named r)"
  using assms by (cases r) (auto simp: res_simps split: option.splits if_splits)

lemma run_rules_ok:
  assumes "foldR (run_rule env named) em rules = Inr em'" "extern_ok em"
  shows "extern_ok em' \<and>
    em_keys em' = em_keys em \<union> set (rule_targets named rules)"
  using assms
proof (induction rules arbitrary: em)
  case (Cons r rules)
  from Cons.prems(1) obtain em1 where
    one: "run_rule env named em r = Inr em1" and rest: "foldR (run_rule env named) em1 rules = Inr em'"
    by (auto simp: res_simps)
  from run_rule_ok [OF one Cons.prems(2)] have "extern_ok em1"
    "em_keys em1 = em_keys em \<union> set_option (rule_target named r)"
    by auto
  with Cons.IH [OF rest] show ?case
    by (auto split: option.split)
qed simp

lemma fill_params_ok:
  assumes "foldR (fill_param env fl) em ps = Inr em'" "extern_ok em"
  shows "extern_ok em' \<and>
    em_keys em' = em_keys em \<union> {n \<in> fst ` set ps. \<not> fl_skip fl n}"
  using assms
proof (induction ps arbitrary: em)
  case (Cons np ps)
  obtain n p where np: "np = (n, p)"
    by (cases np)
  from Cons.prems(1) obtain em1 where
    one: "fill_param env fl em np = Inr em1" and rest: "foldR (fill_param env fl) em1 ps = Inr em'"
    by (auto simp: res_simps)
  from one [unfolded np] have "extern_ok em1 \<and>
    em_keys em1 = em_keys em \<union> (if fl_skip fl n then {} else {n})"
    by (cases rule: fill_param_cases) (use Cons.prems(2) in auto)
  with Cons.IH [OF rest] np show ?case
    by auto
qed simp

lemma mapping_keys:
  assumes "build_mapping env l named = Inr em" "ld_fill l = Some fl" "rule_targets named (ld_after l) = []"
  shows "extern_ok em \<and>
    em_keys em = set (rule_targets named (ld_rules l)) \<union> {n \<in> fst ` set named. \<not> fl_skip fl n}"
proof -
  from assms(1,2) obtain em1 em2 where
    rules: "foldR (run_rule env named) empty_extern (ld_rules l) = Inr em1" and
    filled: "foldR (fill_param env fl) em1 named = Inr em2" and
    after: "foldR (run_rule env named) em2 (ld_after l) = Inr em"
    by (auto simp: build_mapping_def res_simps)
  note one = run_rules_ok [OF rules extern_ok_empty]
  note two = fill_params_ok [OF filled conjunct1 [OF one]]
  note three = run_rules_ok [OF after conjunct1 [OF two]]
  from one two three assms(3) show ?thesis
    by (simp add: empty_extern_def em_keys_def)
qed

text \<open>A statement whose parameter is looked up itself, so that it is a parameter of the model.\<close>

fun own_type :: "rule \<Rightarrow> bool" where
  "own_type (MapRule n like ts f) \<longleftrightarrow> like = n"
| "own_type _ \<longleftrightarrow> True"

lemma dict_get_in: "dict_get d k = Some v \<Longrightarrow> k \<in> fst ` set d"
  by (metis dict_get_None_iff option.distinct(1))

lemma own_targets:
  assumes "foldR (run_rule env named) em rules = Inr em'" "list_all own_type rules"
  shows "set (rule_targets named rules) \<subseteq> fst ` set named"
  using assms
proof (induction rules arbitrary: em)
  case (Cons r rules)
  from Cons.prems(1) obtain em1 where
    one: "run_rule env named em r = Inr em1" and rest: "foldR (run_rule env named) em1 rules = Inr em'"
    by (auto simp: res_simps)
  have "set_option (rule_target named r) \<subseteq> fst ` set named"
    using one Cons.prems(2) by (cases r) (auto simp: res_simps dest!: dict_get_in split: if_splits)
  with Cons.IH [OF rest] Cons.prems(2) show ?case
    by (auto split: option.split)
qed simp

lemma own_mapping_keys:
  assumes "build_mapping env l named = Inr em" "ld_fill l = Some fl" "rule_targets named (ld_after l) = []"
    "list_all own_type (ld_rules l)" "\<forall>n \<in> set (rule_targets named (ld_rules l)). \<not> fl_skip fl n"
  shows "extern_ok em \<and> em_keys em = {n \<in> fst ` set named. \<not> fl_skip fl n}"
proof -
  from assms(1) obtain em1 where "foldR (run_rule env named) empty_extern (ld_rules l) = Inr em1"
    by (auto simp: build_mapping_def res_simps)
  from own_targets [OF this assms(4)] mapping_keys [OF assms(1-3)] assms(5) show ?thesis
    by auto
qed

section \<open>Entries of a mapping\<close>

text \<open>The sources and the function of a name.\<close>

definition entry :: "extern_mapping \<Rightarrow> string \<Rightarrow> (string list \<times> (ndarray list \<Rightarrow> ndarray res)) option" where
  "entry em n =
     (case (dict_get (em_param_map em) n, dict_get (em_map_func em) n) of
        (Some ts, Some f) \<Rightarrow> Some (ts, f)
      | _ \<Rightarrow> None)"

lemma entry_add [simp]: "entry (add_mapping n ts f em) m = (if m = n then Some (ts, f) else entry em m)"
  by (simp add: entry_def add_mapping_def)

lemma entry_unused [simp]: "entry (add_unused n em) m = entry em m"
  by (simp add: entry_def add_unused_def)

lemma entry_None: "extern_ok em \<Longrightarrow> entry em n = None \<longleftrightarrow> dict_get (em_param_map em) n = None"
  using dict_get_None_iff [of "em_map_func em" n] dict_get_None_iff [of "em_param_map em" n]
  by (auto simp: entry_def extern_ok_def em_keys_def split: option.splits)

lemma run_rules_other:
  assumes "foldR (run_rule env named) em rules = Inr em'" "n \<notin> set (rule_targets named rules)"
  shows "entry em' n = entry em n"
  using assms
proof (induction rules arbitrary: em)
  case (Cons r rules)
  from Cons.prems(1) obtain em1 where
    one: "run_rule env named em r = Inr em1" and rest: "foldR (run_rule env named) em1 rules = Inr em'"
    by (auto simp: res_simps)
  from one Cons.prems(2) have "entry em1 n = entry em n"
    by (cases r) (auto simp: res_simps split: option.splits if_splits)
  with Cons.IH [OF rest] Cons.prems(2) show ?case
    by (auto split: option.splits)
qed simp

lemma run_rules_entry:
  assumes "foldR (run_rule env named) em rules = Inr em'" "MapRule n like ts f \<in> set rules"
    "distinct (rule_targets named rules)"
  shows "\<exists>p. dict_get named like = Some p \<and> entry em' n = Some (ts, run_transform env f (pm_dtype p))"
  using assms
proof (induction rules arbitrary: em)
  case (Cons r rules)
  from Cons.prems(1) obtain em1 where
    one: "run_rule env named em r = Inr em1" and rest: "foldR (run_rule env named) em1 rules = Inr em'"
    by (auto simp: res_simps)
  show ?case
  proof (cases "r = MapRule n like ts f")
    case True
    with one obtain p where p: "dict_get named like = Some p" "entry em1 n = Some (ts, run_transform env f (pm_dtype p))"
      by (auto simp: res_simps)
    from True Cons.prems(3) have "n \<notin> set (rule_targets named rules)"
      by simp
    from run_rules_other [OF rest this] p show ?thesis
      by simp
  next
    case False
    with Cons.prems(2,3) Cons.IH [OF rest] show ?thesis
      by (auto split: option.splits)
  qed
qed simp

lemma fill_params_other:
  assumes "foldR (fill_param env fl) em ps = Inr em'" "entry em n \<noteq> None \<or> n \<notin> fst ` set ps"
  shows "entry em' n = entry em n"
  using assms
proof (induction ps arbitrary: em)
  case (Cons np ps)
  obtain m p where np: "np = (m, p)"
    by (cases np)
  from Cons.prems(1) obtain em1 where
    one: "fill_param env fl em np = Inr em1" and rest: "foldR (fill_param env fl) em1 ps = Inr em'"
    by (auto simp: res_simps)
  from one [unfolded np] have "entry em1 n = entry em n"
  proof (cases rule: fill_param_cases)
    case 2
    then have "entry em m = None"
      by (simp add: entry_def em_keys_def dict_get_None_iff [THEN iffD2])
    with Cons.prems(2) np have "n \<noteq> m"
      by auto
    with 2 show ?thesis
      by simp
  qed simp
  with Cons.IH [OF rest] Cons.prems(2) show ?case
    by auto
qed simp

text \<open>The entries of a loader whose statements have distinct names.\<close>

lemma mapping_entry:
  assumes "build_mapping env l named = Inr em" "rule_targets named (ld_after l) = []"
    "MapRule n like ts f \<in> set (ld_rules l)" "distinct (rule_targets named (ld_rules l))"
  shows "\<exists>p. dict_get named like = Some p \<and> entry em n = Some (ts, run_transform env f (pm_dtype p))"
proof -
  from assms(1) obtain em1 em2 where
    rules: "foldR (run_rule env named) empty_extern (ld_rules l) = Inr em1" and
    filled: "(case ld_fill l of None \<Rightarrow> Inr em1 | Some fl \<Rightarrow> foldR (fill_param env fl) em1 named) = Inr em2" and
    after: "foldR (run_rule env named) em2 (ld_after l) = Inr em"
    by (auto simp: build_mapping_def res_simps)
  from run_rules_entry [OF rules assms(3,4)] obtain p where
    p: "dict_get named like = Some p" "entry em1 n = Some (ts, run_transform env f (pm_dtype p))"
    by blast
  have "entry em2 n = entry em1 n"
    using filled fill_params_other [of env _ em1 named em2 n] p(2) by (auto split: option.splits)
  with run_rules_other [OF after] assms(2) p show ?thesis
    by simp
qed

section \<open>Names of layers\<close>

lemma digits_dot_eq: "nat_digits i @ CHR ''.'' # a = nat_digits j @ CHR ''.'' # b \<longleftrightarrow> i = j \<and> a = b"
proof
  assume eq: "nat_digits i @ CHR ''.'' # a = nat_digits j @ CHR ''.'' # b"
  have "\<not> is_digit (CHR ''.'')"
    by code_simp
  then have take: "takeWhile is_digit (nat_digits k @ CHR ''.'' # c) = nat_digits k" for k c
    using nat_digits_digits [of k] by (simp add: takeWhile_append2 list_all_iff)
  from arg_cong [OF eq, of "takeWhile is_digit"] have same: "nat_digits i = nat_digits j"
    by (simp add: take)
  then have "i = j"
    using digits_value_nat_digits by (metis option.inject)
  with eq same show "i = j \<and> a = b"
    by simp
qed simp

lemma nth_layer_eq [simp]: "nth_layer block i a = nth_layer block j b \<longleftrightarrow> i = j \<and> a = b"
  by (simp add: nth_layer_def digits_dot_eq)

text \<open>Distinct names in each layer are distinct names in all of them.\<close>

lemma layers_targets: "set (rule_targets named (layers n f)) = (\<Union>i < n. set (rule_targets named (f i)))"
proof -
  have "set (rule_targets named rs) = {m. \<exists>r \<in> set rs. rule_target named r = Some m}" for rs
    by (induction rs) (auto split: option.splits)
  then show ?thesis
    by (auto simp: layers_def)
qed

lemma distinct_layers:
  assumes "\<And>i. i < n \<Longrightarrow> distinct (rule_targets named (f i))"
    "\<And>i m. i < n \<Longrightarrow> m \<in> set (rule_targets named (f i)) \<Longrightarrow> \<exists>s. m = nth_layer block i s"
  shows "distinct (rule_targets named (layers n f))"
  using assms
proof (induction n)
  case 0
  then show ?case
    by (simp add: layers_def)
next
  case (Suc n)
  have split: "layers (Suc n) f = layers n f @ f n"
    by (simp add: layers_def)
  have "distinct (rule_targets named (layers n f))"
    using Suc by simp
  moreover have "set (rule_targets named (layers n f)) \<inter> set (rule_targets named (f n)) = {}"
  proof -
    have False if "m \<in> set (rule_targets named (f i))" "i < n" "m \<in> set (rule_targets named (f n))" for i m
      using Suc.prems(2) [of i m] Suc.prems(2) [of n m] that by auto
    then show ?thesis
      by (auto simp: layers_targets)
  qed
  ultimately show ?case
    using Suc.prems(1) by (simp add: split)
qed

section \<open>The loaders\<close>

text \<open>A loader that looks up every parameter it maps, and whose last loop leaves none out.\<close>

definition complete_loader :: "loader \<Rightarrow> bool" where
  "complete_loader l \<longleftrightarrow>
     list_all own_type (ld_rules l) \<and> (\<exists>fl. ld_fill l = Some fl \<and> (\<forall>n. \<not> fl_skip fl n)) \<and>
     list_all (\<lambda>r. \<exists>n. r = UnusedRule n) (ld_after l)"

lemma complete_loader_keys:
  assumes "complete_loader l" "build_mapping env l named = Inr em"
  shows "extern_ok em \<and> em_keys em = fst ` set named"
proof -
  obtain fl where fl: "ld_fill l = Some fl" "\<forall>n. \<not> fl_skip fl n"
    using assms(1) by (auto simp: complete_loader_def)
  have "rule_targets named rs = []" if "list_all (\<lambda>r. \<exists>n. r = UnusedRule n) rs" for rs
    using that by (induction rs) auto
  with assms(1) have "rule_targets named (ld_after l) = []"
    by (simp add: complete_loader_def)
  from own_mapping_keys [OF assms(2) fl(1) this] assms(1) fl(2) show ?thesis
    by (simp add: complete_loader_def)
qed

lemma list_all_layers [simp]: "list_all P (layers n f) \<longleftrightarrow> (\<forall>i < n. list_all P (f i))"
  by (auto simp: layers_def list_all_iff)

lemma complete_standard [simp]: "complete_loader (standard_loader rules) \<longleftrightarrow> list_all own_type rules"
  by (simp add: complete_loader_def standard_loader_def same_name_def)

lemma own_shared [simp]:
  "own_type (fused p name sources f)" "own_type (copied m h)" "own_type (qkv p name kind axis)"
  "own_type (gate_up p name kind axis)" "own_type (plus_one m)" "own_type (inv_freq p)" "own_type (stack_rule m p e name)"
  "list_all own_type (awq_layer block axis i)" "list_all own_type (llama_layer block i)"
  "list_all own_type (pairs_rule m m p e first second)" "list_all own_type (weight_and_scale bs m hs f)"
  "list_all own_type (pairs_and_scale bs m p e)" "list_all own_type (stack_and_scale bs m p e)"
  "list_all own_type (block_scale_check bs has)" "list_all own_type (qwen3_attention bs bias i)"
  "list_all own_type (gate_up_and_scale bs p)" "list_all own_type (mla_rules c block_size a name left)"
  "list_all own_type (freq_check k freq i)" "list_all own_type (phi3_layer block i)"
  "list_all own_type (rwkv_rescale every i)" "own_type (add_vision m)"
  by (auto simp: fused_def copied_def qkv_def gate_up_def plus_one_def inv_freq_def stack_rule_def awq_layer_def
      awq_suffixes_def llama_layer_def pairs_rule_def weight_and_scale_def pairs_and_scale_def stack_and_scale_def
      block_scale_check_def qwen3_attention_def gate_up_and_scale_def mla_rules_def freq_check_def phi3_layer_def
      rwkv_rescale_def add_vision_def Let_def split: option.split)

named_theorems loader_defs

lemmas standard_loaders [loader_defs] =
  llama_loader_def llama_awq_loader_def eagle_loader_def eagle_awq_loader_def mistral_loader_def olmo_loader_def
  olmo_awq_loader_def orion_loader_def llava_loader_def llava_awq_loader_def nemotron_loader_def cohere_loader_def
  cohere_awq_loader_def stablelm_loader_def internlm_loader_def internlm2_loader_def baichuan_loader_def
  gemma_loader_def gemma2_loader_def gpt_bigcode_loader_def medusa_loader_def gpt_j_loader_def bert_loader_def
  chatglm3_loader_def starcoder2_loader_def qwen_loader_def qwen2_loader_def mixtral_loader_def qwen3_loader_def
  qwen3_moe_loader_def deepseek_v2_loader_def

lemma complete_loaders:
  "complete_loader (llama_loader n)" "complete_loader (llama_awq_loader n)" "complete_loader (eagle_loader n)"
  "complete_loader (eagle_awq_loader n)" "complete_loader (mistral_loader n)" "complete_loader (olmo_loader n)"
  "complete_loader (olmo_awq_loader n)" "complete_loader (orion_loader n)" "complete_loader (llava_loader n)"
  "complete_loader (llava_awq_loader n)" "complete_loader (nemotron_loader n)" "complete_loader (cohere_loader n)"
  "complete_loader (cohere_awq_loader n)" "complete_loader (stablelm_loader n)" "complete_loader (internlm_loader n)"
  "complete_loader (internlm2_loader n h kv hidden)" "complete_loader (baichuan_loader n)" "complete_loader (gemma_loader n)"
  "complete_loader (gemma2_loader n)" "complete_loader gpt_bigcode_loader" "complete_loader medusa_loader"
  "complete_loader (gpt_j_loader n)" "complete_loader (bert_loader n)" "complete_loader chatglm3_loader"
  "complete_loader (starcoder2_loader n)" "complete_loader (qwen_loader n)" "complete_loader (qwen2_loader n)"
  "complete_loader (mixtral_loader n e)" "complete_loader (qwen3_loader n bias bs has)"
  "complete_loader (qwen3_moe_loader n e bias bs has)" "complete_loader (deepseek_v2_loader c n k freq e topk bsize has)"
  by (simp_all add: loader_defs Let_def awq_suffixes_def)

lemma complete_other_loaders:
  "complete_loader (gemma3_loader n text)" "complete_loader (gpt_neox_loader n h d dt)"
  "complete_loader (phi3v_loader n m)" "complete_loader (rwkv5_loader n every)" "complete_loader (rwkv6_loader n every)"
  "complete_loader (phi_loader ''phi-msft'' n)"
  by (simp_all add: complete_loader_def gemma3_loader_def gpt_neox_loader_def phi3v_loader_def rwkv5_loader_def
      rwkv6_loader_def phi_loader_def rwkv_fill_def same_name_def standard_loader_def Let_def list.pred_map list.pred_True o_def)

text \<open>
  C15: for the model families below, a mapping that is built has exactly the parameters of the model, each
  once, with sources and a function: fused weights from the statements, all others from the last
  loop. So a weight of the model is never left without a source, and none that the model does not
  have is asked for.
\<close>

theorem mapping_covers_model:
  assumes "build_mapping env l named = Inr em"
    "l \<in> {llama_loader n, mistral_loader n, eagle_loader n, olmo_loader n, orion_loader n, llava_loader n, nemotron_loader n,
        cohere_loader n, stablelm_loader n, internlm_loader n, internlm2_loader n h kv hidden, baichuan_loader n,
        gemma_loader n, gemma2_loader n, gemma3_loader n text, gpt_bigcode_loader, medusa_loader, gpt_j_loader n,
        gpt_neox_loader n h d dt, phi_loader ''phi-msft'' n, phi3v_loader n m, bert_loader n, chatglm3_loader,
        starcoder2_loader n, qwen_loader n, qwen2_loader n, qwen3_loader n bias bs has, qwen3_moe_loader n e bias bs has,
        mixtral_loader n e, deepseek_v2_loader c n k freq e topk bsize has, rwkv5_loader n every, rwkv6_loader n every,
        llama_awq_loader n, eagle_awq_loader n, olmo_awq_loader n, llava_awq_loader n, cohere_awq_loader n}"
  shows "fst ` set (em_param_map em) = fst ` set named \<and> fst ` set (em_map_func em) = fst ` set named \<and>
    distinct (map fst (em_param_map em))"
proof -
  from assms(2) have "complete_loader l"
    unfolding insert_iff empty_iff by (elim disjE) (simp_all only: complete_loaders complete_other_loaders)
  from complete_loader_keys [OF this assms(1)] show ?thesis
    by (simp add: extern_ok_def em_keys_def dict_ok_def)
qed

section \<open>From a checkpoint to the parameters of a model\<close>

text \<open>Without quantization and presharding the loader yields what the mapping makes of the files.\<close>

lemma load_spec_values:
  assumes "\<forall>n \<in> set ns. value_of n = Inr (v n)"
  shows "load_spec value_of env None None ns = (map (\<lambda>n. (n, v n)) ns, Returned)"
  using assms by (induction ns) (simp_all add: load_or_quantize_def shard_outputs_def)

lemma hf_load_outputs:
  assumes "hf_init files path em qm = Inr ld" "readable files path"
    "\<forall>p \<in> snd ` set (hl_torch_to_path ld). readable files p"
  shows "fst (hf_load files env pf ld) =
    load_spec (mlc_value files em (hl_torch_to_path ld)) env qm pf (loading_order em (hl_torch_to_path ld))"
proof -
  have inv: "cache_inv files ld" and em: "hl_extern ld = em" "hl_quantize ld = qm"
    using hf_init_inv [OF assms(1) _ assms(2)] assms(3) by auto
  obtain ys e ld' where l: "load_loop files env pf (loading_order em (hl_torch_to_path ld)) ld = ((ys, e), ld')"
    by (metis surj_pair)
  have spec: "(ys, e) = load_spec (mlc_value files em (hl_torch_to_path ld)) env qm pf (loading_order em (hl_torch_to_path ld))"
    and inv': "cache_inv files ld'"
    using load_loop_spec [OF inv, of env pf "loading_order em (hl_torch_to_path ld)"] assms(3) em l by auto
  obtain ld2 where "foldR (\<lambda>ld p. unload_file p ld) ld' (map fst (hl_cached_files ld')) = Inr ld2"
    using unload_many [OF inv', of "map fst (hl_cached_files ld')"] inv' by (auto simp: cache_inv_def dict_ok_def)
  with l show ?thesis
    unfolding spec [symmetric] by (cases e) (simp_all add: hf_load_def em)
qed

text \<open>A conversion of all parameters with their shapes and types succeeds.\<close>

lemma convert_params_ok:
  assumes "dict_ok named" "0 < elements" "distinct (map fst ys)" "fst ` set ys = fst ` set named"
    "\<forall>(n, a) \<in> set ys. \<exists>p. dict_get named n = Some p \<and> fits a p"
  shows "\<exists>cv. convert_params named elements (ys, Returned) = Inr cv \<and> cv_dumped cv = ys"
proof -
  let ?cv = "\<lparr>cv_named_params = named, cv_param_names = [], cv_total_bytes = 0, cv_dumped = [], cv_metadata = None\<rparr>"
  have inv: "conversion_inv ?cv"
    using assms(1) by (simp add: conversion_inv_def)
  obtain cv where cv: "foldR check_param ?cv ys = Inr cv"
    using check_params_iff [OF inv, of ys] assms(3,5) by auto
  from check_params_result [OF inv cv] assms(4) have "cv_named_params cv = []" "cv_dumped cv = ys"
    by simp_all
  with cv assms(2) show ?thesis
    by (simp add: convert_params_def metadata_callback_def)
qed

text \<open>
  C14: from a checkpoint to a model. Let the mapping of a complete loader be built for a model. If
  the checkpoint has the sources of the mapping, in files that can be read, and what the mapping makes of them has
  the shapes and types of the parameters, then the conversion without quantization succeeds
  and writes every parameter of the model exactly once, with that value, in the loading order.
\<close>

theorem checkpoint_becomes_model:
  assumes "complete_loader l" "build_mapping env l named = Inr em" "dict_ok named" "0 < elements"
    "hf_init files path em None = Inr ld" "readable files path"
    "\<forall>p \<in> snd ` set (hl_torch_to_path ld). readable files p"
    "\<forall>n ts. dict_get (em_param_map em) n = Some ts \<longrightarrow> ts \<noteq> []"
    "\<forall>(n, p) \<in> set named. mlc_value files em (hl_torch_to_path ld) n = Inr (v n) \<and> fits (v n) p"
  shows "\<exists>cv order. convert_params named elements (fst (hf_load files qenv None ld)) = Inr cv \<and>
    cv_dumped cv = map (\<lambda>n. (n, v n)) order \<and> distinct order \<and> set order = fst ` set named"
proof -
  let ?order = "loading_order em (hl_torch_to_path ld)"
  have ok: "dict_ok (em_param_map em)" and keys: "fst ` set (em_param_map em) = fst ` set named"
    using complete_loader_keys [OF assms(1,2)] by (simp_all add: extern_ok_def em_keys_def)
  have order: "distinct ?order" "n \<in> set ?order \<longleftrightarrow> n \<in> fst ` set named" for n
  proof -
    note all = loading_order_complete [OF assms(5) ok]
    show "distinct ?order"
      using all by blast
    show "n \<in> set ?order \<longleftrightarrow> n \<in> fst ` set named"
      using all assms(8) dict_get_None_iff [of "em_param_map em" n] keys
      by (cases "dict_get (em_param_map em) n") auto
  qed
  have named: "dict_get named n = Some p \<longleftrightarrow> (n, p) \<in> set named" for n p
    using assms(3) by (simp add: dict_get_def dict_ok_def)
  have vals: "\<forall>n \<in> set ?order. mlc_value files em (hl_torch_to_path ld) n = Inr (v n)"
    using assms(9) order(2) by fastforce
  have fit: "\<exists>p. dict_get named n = Some p \<and> fits (v n) p" if "n \<in> set ?order" for n
    using assms(9) order(2) that by (force simp: named)
  let ?ys = "map (\<lambda>n. (n, v n)) ?order"
  have "fst (hf_load files qenv None ld) = (?ys, Returned)"
    unfolding hf_load_outputs [OF assms(5-7)] by (rule load_spec_values [OF vals])
  moreover have same: "set ?order = fst ` set named"
    by (rule set_eqI) (rule order(2))
  have "map fst ?ys = ?order"
    by (simp add: o_def)
  then have "distinct (map fst ?ys)" "fst ` set ?ys = fst ` set named"
    using order(1) same by (simp, metis set_map)
  from convert_params_ok [OF assms(3,4) this] fit
  obtain cv where "convert_params named elements (?ys, Returned) = Inr cv" "cv_dumped cv = ?ys"
    by auto
  ultimately show ?thesis
    using order(1) same by auto
qed

section \<open>Fused weights\<close>

lemma concat3_rows:
  assumes "nd_shape q = [hq, cols]" "nd_shape k = [hk, cols]" "nd_shape v = [hv, cols]"
  shows "\<exists>w. run_transform env (Concat 0) dt [q, k, v] = Inr w \<and> nd_shape w = [hq + hk + hv, cols] \<and> nd_dtype w = dt \<and>
    (\<forall>r c. (r < hq \<longrightarrow> nd_value w [r, c] = ae_round env dt (nd_value q [r, c])) \<and>
      (r < hk \<longrightarrow> nd_value w [hq + r, c] = ae_round env dt (nd_value k [r, c])) \<and>
      (r < hv \<longrightarrow> nd_value w [hq + hk + r, c] = ae_round env dt (nd_value v [r, c])))"
  using assms by (auto simp: np_concatenate_def astype_def mapRes_def)

lemma llama_targets:
  "rule_targets named (llama_layer block i) = [attn block i ''qkv_proj.weight'', mlp block i ''gate_up_proj.weight'']"
  by (simp add: llama_layer_def qkv_def gate_up_def fused_def inv_freq_def)

lemma llama_distinct: "distinct (rule_targets named (layers n (llama_layer block)))"
proof (rule distinct_layers [where block = block])
  show "distinct (rule_targets named (llama_layer block i))" for i
    by (simp add: llama_targets attn_def mlp_def)
  show "\<exists>s. m = nth_layer block i s" if "m \<in> set (rule_targets named (llama_layer block i))" for i m
    using that by (auto simp: llama_targets attn_def mlp_def)
qed

text \<open>
  C16: in a mapping of the Llama loader, the fused attention weight of a layer has the
  three projections of that layer of the checkpoint as its sources, in this order, and its rows are the
  rows of the queries, the keys and the values, rounded to the type of the parameter.
\<close>

theorem llama_weights:
  assumes "build_mapping env (llama_loader n) named = Inr em" "i < n"
  shows "\<exists>p f. dict_get named (attn ''model.layers'' i ''qkv_proj.weight'') = Some p \<and>
    dict_get (em_param_map em) (attn ''model.layers'' i ''qkv_proj.weight'') =
      Some [attn ''model.layers'' i ''q_proj.weight'', attn ''model.layers'' i ''k_proj.weight'', attn ''model.layers'' i ''v_proj.weight''] \<and>
    dict_get (em_map_func em) (attn ''model.layers'' i ''qkv_proj.weight'') = Some f \<and>
    (\<forall>q k v hq hk hv cols. nd_shape q = [hq, cols] \<longrightarrow> nd_shape k = [hk, cols] \<longrightarrow> nd_shape v = [hv, cols] \<longrightarrow>
      (\<exists>w. f [q, k, v] = Inr w \<and> nd_shape w = [hq + hk + hv, cols] \<and> nd_dtype w = pm_dtype p \<and>
        (\<forall>r c. (r < hq \<longrightarrow> nd_value w [r, c] = ae_round env (pm_dtype p) (nd_value q [r, c])) \<and>
          (r < hk \<longrightarrow> nd_value w [hq + r, c] = ae_round env (pm_dtype p) (nd_value k [r, c])) \<and>
          (r < hv \<longrightarrow> nd_value w [hq + hk + r, c] = ae_round env (pm_dtype p) (nd_value v [r, c])))))"
proof -
  let ?a = "attn ''model.layers'' i"
  have l: "ld_rules (llama_loader n) = layers n (llama_layer ''model.layers'')" "ld_after (llama_loader n) = []"
    by (simp_all add: llama_loader_def standard_loader_def)
  have "MapRule (?a ''qkv_proj.weight'') (?a ''qkv_proj.weight'')
      [?a ''q_proj.weight'', ?a ''k_proj.weight'', ?a ''v_proj.weight''] (Concat 0) \<in> set (ld_rules (llama_loader n))"
    using assms(2) by (auto simp: l layers_def llama_layer_def qkv_def fused_def intro!: bexI [of _ i])
  from mapping_entry [OF assms(1) _ this] llama_distinct l obtain p where
    p: "dict_get named (?a ''qkv_proj.weight'') = Some p" and
    e: "entry em (?a ''qkv_proj.weight'') = Some ([?a ''q_proj.weight'', ?a ''k_proj.weight'', ?a ''v_proj.weight''],
      run_transform env (Concat 0) (pm_dtype p))"
    by auto
  then show ?thesis
    using concat3_rows [where env = env and dt = "pm_dtype p"]
    by (auto simp: entry_def split: option.splits)
qed

section \<open>An example\<close>

text \<open>A model with one layer, and a checkpoint for it in one file.\<close>

definition exact_env :: array_env where
  "exact_env = \<lparr>ae_round = (\<lambda>_ x. x), ae_exp = (\<lambda>_ x. x)\<rparr>"

definition tiny_model :: "param dict" where
  "tiny_model =
     [(''model.layers.0.self_attn.qkv_proj.weight'', Parameter [DInt 3, DInt 2] float16),
      (''model.layers.0.mlp.gate_up_proj.weight'', Parameter [DInt 2, DInt 2] float16),
      (''model.norm.weight'', Parameter [DInt 1, DInt 2] float16)]"

definition tiny_array :: "rat \<Rightarrow> ndarray" where
  "tiny_array x = \<lparr>nd_shape = [1, 2], nd_dtype = float32, nd_value = (\<lambda>_. x)\<rparr>"

definition tiny_checkpoint :: weight_files where
  "tiny_checkpoint = \<lparr>wf_is_file = (\<lambda>p. p = ''w.bin''), wf_suffix = (\<lambda>_. ''.bin''),
     wf_arrays = (\<lambda>_. Inr
       [(''model.layers.0.self_attn.q_proj.weight'', tiny_array 1), (''model.layers.0.self_attn.k_proj.weight'', tiny_array 2),
        (''model.layers.0.self_attn.v_proj.weight'', tiny_array 3), (''model.layers.0.mlp.gate_proj.weight'', tiny_array 4),
        (''model.layers.0.mlp.up_proj.weight'', tiny_array 5), (''model.norm.weight'', tiny_array 6)]),
     wf_index = (\<lambda>_. Inr []), wf_sibling = (\<lambda>_ p. p)\<rparr>"

lemma nat_digits_0: "nat_digits 0 = ''0''"
  by code_simp

lemma tiny_names:
  "nth_layer ''model.layers'' 0 s = ''model.layers.0.'' @ s"
  by (simp add: nth_layer_def nat_digits_0)

definition tiny_mapping :: extern_mapping where
  "tiny_mapping = \<lparr>em_param_map =
      [(''model.layers.0.self_attn.qkv_proj.weight'',
         [''model.layers.0.self_attn.q_proj.weight'', ''model.layers.0.self_attn.k_proj.weight'',
          ''model.layers.0.self_attn.v_proj.weight'']),
       (''model.layers.0.mlp.gate_up_proj.weight'',
         [''model.layers.0.mlp.gate_proj.weight'', ''model.layers.0.mlp.up_proj.weight'']),
       (''model.norm.weight'', [''model.norm.weight''])],
     em_map_func =
      [(''model.layers.0.self_attn.qkv_proj.weight'', run_transform exact_env (Concat 0) float16),
       (''model.layers.0.mlp.gate_up_proj.weight'', run_transform exact_env (Concat 0) float16),
       (''model.norm.weight'', run_transform exact_env Cast float16)],
     em_unused_params = [''model.layers.0.self_attn.rotary_emb.inv_freq'']\<rparr>"

lemma tiny_built: "build_mapping exact_env (llama_loader 1) tiny_model = Inr tiny_mapping"
  by (simp add: build_mapping_def llama_loader_def standard_loader_def layers_def llama_layer_def qkv_def gate_up_def
      fused_def inv_freq_def attn_def mlp_def tiny_names tiny_model_def tiny_mapping_def dict_item_def Parameter_def
      add_mapping_def add_unused_def empty_extern_def fill_param_def same_name_def)

theorem mapping_covers_model_witness:
  "fst ` set (em_param_map tiny_mapping) = fst ` set tiny_model \<and> distinct (map fst (em_param_map tiny_mapping))"
  using mapping_covers_model [OF tiny_built insertI1] by blast

theorem llama_weights_witness:
  "\<exists>f w. dict_get (em_map_func tiny_mapping) ''model.layers.0.self_attn.qkv_proj.weight'' = Some f \<and>
     f [tiny_array 1, tiny_array 2, tiny_array 3] = Inr w \<and> nd_shape w = [3, 2] \<and> nd_value w [1, 0] = 2"
proof -
  have name: "attn ''model.layers'' 0 ''qkv_proj.weight'' = ''model.layers.0.self_attn.qkv_proj.weight''"
    by (simp add: attn_def tiny_names)
  obtain f and p :: param where f: "dict_get (em_map_func tiny_mapping) ''model.layers.0.self_attn.qkv_proj.weight'' = Some f"
    and rows: "\<forall>q k v hq hk hv cols. nd_shape q = [hq, cols] \<longrightarrow> nd_shape k = [hk, cols] \<longrightarrow> nd_shape v = [hv, cols] \<longrightarrow>
      (\<exists>w. f [q, k, v] = Inr w \<and> nd_shape w = [hq + hk + hv, cols] \<and> nd_dtype w = pm_dtype p \<and>
        (\<forall>r c. (r < hq \<longrightarrow> nd_value w [r, c] = ae_round exact_env (pm_dtype p) (nd_value q [r, c])) \<and>
          (r < hk \<longrightarrow> nd_value w [hq + r, c] = ae_round exact_env (pm_dtype p) (nd_value k [r, c])) \<and>
          (r < hv \<longrightarrow> nd_value w [hq + hk + r, c] = ae_round exact_env (pm_dtype p) (nd_value v [r, c]))))"
    using llama_weights [OF tiny_built zero_less_one, unfolded name] by blast
  have s: "nd_shape (tiny_array x) = [1, 2]" for x
    by (simp add: tiny_array_def)
  note rows [THEN spec [of _ "tiny_array 1"], THEN spec [of _ "tiny_array 2"], THEN spec [of _ "tiny_array 3"],
      THEN spec [of _ 1], THEN spec [of _ 1], THEN spec [of _ 1], THEN spec [of _ 2]]
  then obtain w where w: "f [tiny_array 1, tiny_array 2, tiny_array 3] = Inr w" "nd_shape w = [1 + 1 + 1, 2]"
    and r: "\<forall>r c. (r < 1 \<longrightarrow> nd_value w [r, c] = ae_round exact_env (pm_dtype p) (nd_value (tiny_array 1) [r, c])) \<and>
      (r < 1 \<longrightarrow> nd_value w [1 + r, c] = ae_round exact_env (pm_dtype p) (nd_value (tiny_array 2) [r, c])) \<and>
      (r < 1 \<longrightarrow> nd_value w [1 + 1 + r, c] = ae_round exact_env (pm_dtype p) (nd_value (tiny_array 3) [r, c]))"
    unfolding s by (elim impE [OF _ refl] exE conjE)
  from r [THEN spec [of _ 0], THEN spec [of _ 0]] have "nd_value w [1, 0] = 2"
    by (simp add: exact_env_def tiny_array_def)
  with f w show ?thesis
    by simp
qed

lemma tiny_init:
  "\<exists>ld. hf_init tiny_checkpoint ''w.bin'' tiny_mapping None = Inr ld \<and> hl_torch_to_path ld =
     [(''model.layers.0.self_attn.q_proj.weight'', ''w.bin''), (''model.layers.0.self_attn.k_proj.weight'', ''w.bin''),
      (''model.layers.0.self_attn.v_proj.weight'', ''w.bin''), (''model.layers.0.mlp.gate_proj.weight'', ''w.bin''),
      (''model.layers.0.mlp.up_proj.weight'', ''w.bin''), (''model.norm.weight'', ''w.bin'')]"
  by (simp add: hf_init_def tiny_checkpoint_def tiny_mapping_def load_file_def load_array_def Let_def dict_item_def
      check_parameter_usage_def)

theorem checkpoint_becomes_model_witness:
  "\<forall>qenv. \<exists>ld cv. hf_init tiny_checkpoint ''w.bin'' tiny_mapping None = Inr ld \<and>
     convert_params tiny_model 12 (fst (hf_load tiny_checkpoint qenv None ld)) = Inr cv \<and>
     fst ` set (cv_dumped cv) = fst ` set tiny_model"
proof
  fix qenv
  obtain ld where ld: "hf_init tiny_checkpoint ''w.bin'' tiny_mapping None = Inr ld" and path: "hl_torch_to_path ld =
     [(''model.layers.0.self_attn.q_proj.weight'', ''w.bin''), (''model.layers.0.self_attn.k_proj.weight'', ''w.bin''),
      (''model.layers.0.self_attn.v_proj.weight'', ''w.bin''), (''model.layers.0.mlp.gate_proj.weight'', ''w.bin''),
      (''model.layers.0.mlp.up_proj.weight'', ''w.bin''), (''model.norm.weight'', ''w.bin'')]"
    using tiny_init by blast
  define v where "v n = projr (mlc_value tiny_checkpoint tiny_mapping (hl_torch_to_path ld) n)" for n
  have readable: "readable tiny_checkpoint p" for p
    by (simp add: readable_def tiny_checkpoint_def)
  have vals: "\<forall>(n, p) \<in> set tiny_model. mlc_value tiny_checkpoint tiny_mapping (hl_torch_to_path ld) n = Inr (v n) \<and> fits (v n) p"
    by (simp add: v_def path tiny_model_def mlc_value_def tiny_mapping_def tiny_checkpoint_def torch_value_def
        dict_item_def tiny_array_def np_concatenate_def one_array_def mapRes_def astype_def fits_def Parameter_def)
  have "\<forall>n ts. dict_get (em_param_map tiny_mapping) n = Some ts \<longrightarrow> ts \<noteq> []"
    by (simp add: tiny_mapping_def)
  moreover have "dict_ok tiny_model" "(0::nat) < 12"
    by (simp_all add: tiny_model_def dict_ok_def)
  ultimately obtain cv order where "convert_params tiny_model 12 (fst (hf_load tiny_checkpoint qenv None ld)) = Inr cv"
    "cv_dumped cv = map (\<lambda>n. (n, v n)) order" "set order = fst ` set tiny_model"
    using checkpoint_becomes_model [OF complete_loaders(1) tiny_built _ _ ld readable _ _ vals] readable by blast
  with ld show "\<exists>ld cv. hf_init tiny_checkpoint ''w.bin'' tiny_mapping None = Inr ld \<and>
     convert_params tiny_model 12 (fst (hf_load tiny_checkpoint qenv None ld)) = Inr cv \<and>
     fst ` set (cv_dumped cv) = fst ` set tiny_model"
    by (auto simp: image_image)
qed

end
