(* ===== verification/Spec2Isabelle.thy ===== *)
theory Spec2Isabelle
  imports Engine_Correct Router_Correct Bench_Correct Launch_Correct Sync_Engine_Correct Json_Engine
    Quantize_Fit Preshard_Correct Block_Scale Gen_Config Extern_Correct
begin

text \<open>
  \<^bold>\<open>Verification of the Python code of MLC-LLM\<close>

  MLC-LLM compiles language models and serves them. The code modelled here is the Python package
  \<open>mlc-llm/python/mlc_llm\<close> with one native class it depends on for correctness, the text streamer
  (\<open>mlc-llm/cpp/tokenizers/streamer.cc\<close>). File names below are relative to \<open>mlc_llm\<close>.

  \<^bold>\<open>The program.\<close> It has two halves.

  \<^item> \<^emph>\<open>Serving.\<close> A client sends an OpenAI style request over HTTP. An entry point
    (\<open>serve/entrypoints\<close>) validates it (\<open>protocol\<close>) and hands it to an engine (\<open>serve/engine.py\<close>),
    which renders the conversation into a prompt (\<open>protocol/conversation_protocol.py\<close>), tokenizes
    it (\<open>serve/engine_utils.py\<close>) and submits it to the native engine. The native engine calls back
    with batches of token deltas of all requests; the callbacks of \<open>serve/engine_base.py\<close>
    detokenize them and push them into one stream per request, from which a generator
    (\<open>_generate\<close>) delivers chunks to its client; the handlers turn chunks into responses. A router
    (\<open>router/router.py\<close>) distributes requests over several servers, which it launches as
    subprocesses (\<open>serve/server/popen_server.py\<close>). There are two further engines, one stepped by
    its caller (\<open>serve/sync_engine.py\<close>) and one that talks JSON to the native library
    (\<open>json_ffi/engine.py\<close>), and a benchmark driver (\<open>bench\<close>).
  \<^item> \<^emph>\<open>Preparing a model.\<close> The config of a model is read from its \<open>config.json\<close>
    (\<open>model/*/*_model.py\<close>, \<open>support/config.py\<close>). A quantization algorithm (\<open>quantization\<close>) replaces
    the layers of the model and records how their weights become the parameters of the new layers;
    the loader (\<open>loader\<close>) reads the weight files and applies this, tensor parallel sharding
    (\<open>support/tensor_parallel.py\<close>, \<open>support/preshard.py\<close>) cuts the results into the shares of the
    workers, and the conversion (\<open>interface/convert_weight.py\<close>) checks them against the model. A last step
    (\<open>interface/gen_config.py\<close>) writes the config with which the result is served.

  \<^bold>\<open>The theories of the serving half.\<close>

  \<^item> \<open>Prelude\<close>: exceptions (\<open>py_error\<close>, results \<open>'a res\<close> with \<open>bindR\<close>, \<open>mapR\<close>, \<open>foldR\<close>), generators
    run to their end (\<open>gen\<close>), floats and JSON values, dictionaries with insertion order, the string
    functions of Python that the code uses, and the locale \<open>shutdown\<close>.
  \<^item> \<open>Serve_Data\<close>, \<open>Conversation\<close>, \<open>Protocol\<close>, \<open>Engine_Utils\<close>: data classes, templates with
    \<open>as_prompt\<close>, request and response models with their validators, and the processing of prompts.
    The lemmas characterise accepted requests, prompts and tool selection.
  \<^item> \<open>Text_Streamer\<close>: the native incremental detokenizer; the streamed text does not depend on how
    the tokens are cut into deltas.
  \<^item> \<open>Request_Stream\<close>, \<open>Stream_System\<close>, \<open>Stream_Delivery\<close>: \<open>AsyncRequestStream\<close>, \<open>EngineState\<close>, the
    callbacks and generators; the async engine as the step relation \<open>engine_step\<close> (starts that
    succeed or raise, batches, callbacks, generators, termination) with an invariant of every reachable state; both
    engines deliver what the deltas of a request stand for.
  \<^item> \<open>Stream_Output\<close>, \<open>Engine\<close>, \<open>Engine_Correct\<close>: chunks to responses, function calls, the handlers of
    both engines and the non-streaming collectors, with their end-to-end behaviour.
  \<^item> \<open>Engine_Config\<close>: engine config, construction of an engine with every call that may raise on the
    way (the start of its threads among them) and its termination, metrics.
  \<^item> \<open>Server\<close>, \<open>Server_Correct\<close>: the server context and every entry point.
  \<^item> \<open>Router\<close>, \<open>Router_Correct\<close>: endpoint choice, both scheduling modes, the microserving calls, and the
    load counters under interleaving (\<open>router_step\<close>, whose steps enter the handlers and apply what
    they do on their exit to the shared router).
  \<^item> \<open>Flags\<close>, \<open>Flags_Correct\<close>, \<open>Launch\<close>, \<open>Launch_Correct\<close>: flag strings and overrides, the launch of a
    server by command line and the wait for it.
  \<^item> \<open>Sync_Engine\<close>, \<open>Sync_Engine_Correct\<close>, \<open>Json_Engine\<close>: the two other engines.
  \<^item> \<open>Bench\<close>, \<open>Bench_Correct\<close>: request processors, sampling, and the concurrent tasks of a benchmark
    process (\<open>task_step\<close>).

  \<^bold>\<open>The theories of the preparing half.\<close>

  \<^item> \<open>Model_Config\<close>, \<open>Model_Config_Correct\<close>: the \<open>__post_init__\<close> of thirty-one config classes as
    sequences of shared statements, and the overrides. What a statement settles is not disturbed by
    a later one unless it writes the same fields; so built configs are consistent, and building them
    again changes nothing.
  \<^item> \<open>Extern_Rules\<close>, \<open>Extern_Loaders\<close>, \<open>Extern_Correct\<close>: how the weights of a checkpoint become the
    parameters of a model (\<open>model/*/*_loader.py\<close>). A loader is the list of its statements, run on the
    parameters of the model, with the last loop that gives the others their own names. A mapping covers
    the model exactly, and its sources are converted to the model's parameters. Loaders without
    that guarantee: GPT-2, Qwen2-MoE, DeepSeek and tied MiniCPM (they map a name or skip one
    without looking it up) and the Phi loaders that have no last loop.
  \<^item> \<open>Gen_Config\<close>: the files of a model as an association list. The detection of its config, type,
    quantization and weights (\<open>support/auto_config.py\<close>, \<open>support/auto_weight.py\<close>), and the generation of
    \<open>mlc-chat-config.json\<close> (\<open>interface/gen_config.py\<close>): what is generated is detected again.
  \<^item> \<open>Tiktoken\<close>: the conversion of a tiktoken tokenizer (\<open>support/convert_tiktoken.py\<close>); byte pair encoding
    yields bytes and tokens of smaller rank that nothing joins any more.
  \<^item> \<open>Tensor\<close>, \<open>Sharding\<close>: tensor expressions as functions on index lists, packing of integers into
    words with its inverse, and the sharding program; the shards partition the weight.
  \<^item> \<open>Quantization\<close>, \<open>Quantization_Correct\<close>: group, FasterTransformer, AWQ, per-tensor and block-scale
    quantization, with the error bound of group quantization and the layout of the stored bits.
  \<^item> \<open>Block_Scale\<close>: the layers of block-scale quantization and the quantization of activations.
  \<^item> \<open>Quantize_Model\<close>, \<open>Quantize_Fit\<close>: the visitors, the mapping and its functions; a weight is loaded
    as exactly the parameters of the layer that replaced its own.
  \<^item> \<open>Loader\<close>, \<open>Loader_Correct\<close>, \<open>Preshard_Correct\<close>: the loader refines a loader without a cache, when a
    conversion succeeds, and that presharding commutes with quantization.

  \<^bold>\<open>Interfaces.\<close> Contracts between components are locales, each interpreted on the model's
  definitions. \<open>shutdown\<close> (an operation that stops a resource, and is then without effect): the
  engines' \<open>terminate\<close>, the background loops of the JSON engine, and the server process.
  \<open>text_streamer\<close> (what a callback needs of a detokenizer): the native streamer.
  \<open>completion_engine\<close> (what an entry point needs of an engine): the async engine's handler.
  \<open>override_format\<close> (a table of typed keys whose printed entries are parsed back): optimization
  flags, model overrides, engine overrides. \<open>layer_quantizer\<close> and its extension \<open>clean_quantizer\<close> (what
  a loader needs of a quantization visitor): group and per-tensor quantization; FasterTransformer
  quantization provides only the first, which is one of the defects found.

  \<^bold>\<open>Conventions.\<close> A class is a record, a method a function that returns the changed record; objects
  shared by reference live in a store. Every raise is a value \<open>Inl\<close>. A generator is its list of yields
  with how it ended, or, where generators are interleaved, its suspended state with a function that
  resumes it. Python integers are \<open>int\<close> or, where they count or index, \<open>nat\<close>; packed storage is
  \<open>32 word\<close> and \<open>8 word\<close>. Floats of requests are rationals with the special values of IEEE 754; the
  rounding of the model dtype is a parameter (\<open>float_model\<close>), with named hypotheses (\<open>rounding_ok\<close>,
  \<open>group_ok\<close>, \<open>group_ready\<close>) that the witnesses instantiate. The float arithmetic of the launch
  time-out is computed exactly on binary fractions.

  \<^bold>\<open>Loops.\<close> No definition uses fuel. Loops that may not end are partial functions with the value
  \<open>None\<close> for not returning: \<open>sample_loop\<close> (ends for every dataset that is not empty), \<open>step_loop\<close> (ends
  when every generation finishes) and \<open>poll_loop\<close> (ends after 1201 queries); each has a theorem that it
  returns. The merging of byte pairs (\<open>bpe_loop\<close>) is a total function, each round having one part
  less. Waiting for a queue is the value \<open>None\<close> or \<open>Blocked\<close>.

  \<^bold>\<open>Parameters.\<close> Code outside the repository is an argument of the definitions that use it: the
  native engine (the batches of deltas it streams), tokenizers, HTTP and JSON codecs, image decoding,
  random numbers, files, the compilation and the kernels of TVM, the preprocessing of cutlass.

  \<^bold>\<open>Not modelled.\<close> The layers and the forward passes of the models (\<open>model\<close>, \<open>nn\<close>), the kernels (\<open>op\<close>) and
  the compiler passes (\<open>compiler_pass\<close>): they build TVM programs whose meaning is that of TVM's
  intermediate representation, which is not part of the repository. Tables of presets and of registered
  templates are data. The command line parsers, the compile and package drivers, dataset readers,
  device probing and downloads only move data between files, processes and foreign libraries; the
  conversion of RWKV vocabularies evaluates Python literals. The native
  engine and the bindings are in other languages. Of the configs, those that embed another config
  (LLaVA, Phi-3-vision, the outer Gemma 3) are left out.
\<close>

end
